(* ===== verification/Prelude.thy ===== *)
theory Prelude
  imports Main "HOL-Library.Sublist" "HOL-Library.Multiset" "HOL-Library.List_Lexorder"
begin

text \<open>
  The prelude of the development: what the components share of Go and of its standard
  library, as HOL types and executable functions, and the generic lemmas about them.

  \<^item> A Go \<open>string\<close> is a sequence of bytes: it is a HOL \<^typ>\<open>string\<close>, and \<open>length\<close> counts
    bytes as Go's \<open>len\<close> does. A character outside ASCII is written as its UTF-8 bytes
    (\<open>em_dash\<close>).
  \<^item> Go's string-typed enumerations (\<open>type TemporalMode string\<close>) are open: any string is a
    value, and the zero value \<open>""\<close> is used as \<open>unset\<close>. They are synonyms of \<^typ>\<open>string\<close> with
    one abbreviation per constant of the source, so that the defaulting and the
    fall-through branches of the code are branches of the model.
  \<^item> A pointer that may be nil is an \<open>option\<close>; \<open>(T, error)\<close> is a sum with the error left.
  \<^item> \<open>time.Time\<close> and \<open>time.Duration\<close> are \<^typ>\<open>int\<close>s counting nanoseconds.
  \<^item> A value drawn from the clock, from \<open>crypto/rand\<close>, from the database or from a
    third-party service is an argument of the definition that uses it.
\<close>

section \<open>Errors, times\<close>

type_synonym time = int
type_synonym duration = int
type_synonym error = string

abbreviation (input) second :: duration where "second \<equiv> 1000000000"
abbreviation (input) minute :: duration where "minute \<equiv> 60 * second"
abbreviation (input) hour :: duration where "hour \<equiv> 60 * minute"

abbreviation isr :: "'e + 'a \<Rightarrow> bool" where "isr x \<equiv> \<not> isl x"

section \<open>Strings\<close>

named_theorems go_string
  \<open>characterisations of the string functions by list equations\<close>

definition em_dash :: string where
  "em_dash = [CHR 0xE2, CHR 0x80, CHR 0x94]"

definition ellipsis :: string where
  "ellipsis = [CHR 0xE2, CHR 0x80, CHR 0xA6]"

abbreviation newline :: string where
  "newline \<equiv> [CHR 0x0A]"

text \<open>\<open>strings.HasPrefix\<close>.\<close>

fun hasPrefix :: "string \<Rightarrow> string \<Rightarrow> bool" where
  "hasPrefix s [] = True"
| "hasPrefix [] (p # ps) = False"
| "hasPrefix (c # s) (p # ps) = (c = p \<and> hasPrefix s ps)"

text \<open>\<open>strings.Contains\<close>.\<close>

fun strContains :: "string \<Rightarrow> string \<Rightarrow> bool" where
  "strContains [] sub = (sub = [])"
| "strContains (c # s) sub = (hasPrefix (c # s) sub \<or> strContains s sub)"

text \<open>\<open>strings.Index\<close>: the first offset at which the substring occurs, \<open>None\<close> for -1.\<close>

fun strIndex :: "string \<Rightarrow> string \<Rightarrow> nat option" where
  "strIndex [] sub = (if sub = [] then Some 0 else None)"
| "strIndex (c # s) sub =
     (if hasPrefix (c # s) sub then Some 0 else map_option Suc (strIndex s sub))"

text \<open>\<open>strings.Join\<close>.\<close>

fun strJoin :: "string list \<Rightarrow> string \<Rightarrow> string" where
  "strJoin [] sep = []"
| "strJoin [x] sep = x"
| "strJoin (x # y # xs) sep = x @ sep @ strJoin (y # xs) sep"

text \<open>\<open>%d\<close>: decimal notation of an integer.\<close>

definition digit :: "nat \<Rightarrow> char" where
  "digit d = char_of (48 + d)"

fun decimal :: "nat \<Rightarrow> string" where
  "decimal n = (if n < 10 then [digit n] else decimal (n div 10) @ [digit (n mod 10)])"

declare decimal.simps [simp del]

definition itoa :: "int \<Rightarrow> string" where
  "itoa i = (if i < 0 then CHR ''-'' # decimal (nat (- i)) else decimal (nat i))"

text \<open>
  \<open>%q\<close>, that is \<open>strconv.Quote\<close>, on ASCII text: a double-quoted literal in which quotes,
  backslashes and control characters are escaped. Bytes of multi-byte characters are
  copied, as the printable ones are.
\<close>

definition hexdigit :: "nat \<Rightarrow> char" where
  "hexdigit d = (if d < 10 then char_of (48 + d) else char_of (87 + d))"

definition quote_char :: "char \<Rightarrow> string" where
  "quote_char c =
     (let n = (of_char c :: nat) in
      if c = CHR 0x22 \<or> c = CHR 0x5C then [CHR 0x5C, c]
      else if n = 7 then [CHR 0x5C, CHR ''a'']
      else if n = 8 then [CHR 0x5C, CHR ''b'']
      else if n = 9 then [CHR 0x5C, CHR ''t'']
      else if n = 10 then [CHR 0x5C, CHR ''n'']
      else if n = 11 then [CHR 0x5C, CHR ''v'']
      else if n = 12 then [CHR 0x5C, CHR ''f'']
      else if n = 13 then [CHR 0x5C, CHR ''r'']
      else if n < 32 \<or> n = 127 then [CHR 0x5C, CHR ''x'', hexdigit (n div 16), hexdigit (n mod 16)]
      else [c])"

definition quoted :: "string \<Rightarrow> string" where
  "quoted s = CHR 0x22 # concat (map quote_char s) @ [CHR 0x22]"

lemma digit_inj: "m < 10 \<Longrightarrow> n < 10 \<Longrightarrow> digit m = digit n \<Longrightarrow> m = n"
proof -
  assume "m < 10" "n < 10" "digit m = digit n"
  then have "(of_char (digit m) :: nat) = of_char (digit n)" by simp
  with \<open>m < 10\<close> \<open>n < 10\<close> show "m = n" by (simp add: digit_def of_char_of)
qed

lemma decimal_inj: "decimal m = decimal n \<Longrightarrow> m = n"
proof (induction m arbitrary: n rule: less_induct)
  case (less m)
  have nonempty: "decimal k \<noteq> []" for k by (subst decimal.simps) simp
  have eqs: "decimal k = (if k < 10 then [] else decimal (k div 10)) @ [digit (k mod 10)]" for k
    by (subst decimal.simps) simp
  from less.prems eqs [of m] eqs [of n] have d: "digit (m mod 10) = digit (n mod 10)"
    and t: "(if m < 10 then [] else decimal (m div 10)) = (if n < 10 then [] else decimal (n div 10))" by simp_all
  from d have mod: "m mod 10 = n mod 10" by (rule digit_inj [rotated 2]) simp_all
  have "m div 10 = n div 10"
  proof (cases "m < 10")
    case True
    with t nonempty [of "n div 10"] show ?thesis by (simp split: if_splits)
  next
    case False
    with t nonempty [of "m div 10"] have "decimal (m div 10) = decimal (n div 10)" by (simp split: if_splits)
    with less.IH [of "m div 10"] False show ?thesis by simp
  qed
  with mod show "m = n" by (metis div_mult_mod_eq)
qed

lemma decimal_no_minus: "CHR ''-'' \<notin> set (decimal n)"
proof (induction n rule: decimal.induct)
  case (1 n)
  have "digit d \<noteq> CHR ''-''" if "d < 10" for d
  proof
    assume "digit d = CHR ''-''"
    then have "(of_char (digit d) :: nat) = of_char CHR ''-''" by simp
    with that show False by (simp add: digit_def of_char_of)
  qed
  with 1 show ?case by (subst decimal.simps) (auto simp: eq_commute)
qed

lemma inj_itoa: "inj itoa"
proof (rule injI)
  fix i j assume "itoa i = itoa j"
  moreover have "CHR ''-'' # xs \<noteq> decimal n" "decimal n \<noteq> CHR ''-'' # xs" for xs n
    using decimal_no_minus [of n] by (metis list.set_intros(1))+
  ultimately show "i = j"
    by (auto simp: itoa_def split: if_splits dest: decimal_inj)
qed

lemma hasPrefix_iff [go_string]: "hasPrefix s p \<longleftrightarrow> (\<exists>r. s = p @ r)"
  by (induction s p rule: hasPrefix.induct) auto

lemma hasPrefix_append [simp]: "hasPrefix (p @ r) p"
  by (auto simp: hasPrefix_iff)

lemma strContains_iff [go_string]: "strContains s sub \<longleftrightarrow> (\<exists>u v. s = u @ sub @ v)"
proof (induction s)
  case Nil
  then show ?case by auto
next
  case (Cons c s)
  have "(\<exists>u v. c # s = u @ sub @ v) \<longleftrightarrow>
        (\<exists>v. c # s = sub @ v) \<or> (\<exists>u v. s = u @ sub @ v)"
    by (metis append_Cons append_Nil list.inject neq_Nil_conv)
  with Cons show ?case by (simp add: hasPrefix_iff)
qed

lemma strContains_iff_sublist: "strContains s sub \<longleftrightarrow> sublist sub s"
  by (simp add: strContains_iff sublist_def)

lemma strContains_append [simp]: "strContains (u @ sub @ v) sub"
  by (auto simp: strContains_iff)

lemma strContains_refl [simp]: "strContains s s"
  using strContains_append [of "[]" s "[]"] by simp

lemma strContains_Nil [simp]: "strContains s []"
  by (cases s) auto

lemma strIndex_None_iff: "strIndex s sub = None \<longleftrightarrow> \<not> strContains s sub"
  by (induction s) auto

lemma strIndex_Some:
  assumes "strIndex s sub = Some i"
  shows "i + length sub \<le> length s" "take (length sub) (drop i s) = sub"
    "\<forall>j < i. \<not> hasPrefix (drop j s) sub"
proof -
  have "i + length sub \<le> length s \<and> take (length sub) (drop i s) = sub \<and>
        (\<forall>j < i. \<not> hasPrefix (drop j s) sub)"
    using assms
  proof (induction s arbitrary: i)
    case Nil
    then show ?case by (auto split: if_splits)
  next
    case (Cons c s)
    show ?case
    proof (cases "hasPrefix (c # s) sub")
      case True
      with Cons.prems have "i = 0" by simp
      from True obtain r where "c # s = sub @ r" by (auto simp: hasPrefix_iff)
      then have "length (c # s) = length sub + length r" "take (length sub) (c # s) = sub"
        by simp_all
      with \<open>i = 0\<close> show ?thesis by simp
    next
      case False
      with Cons.prems obtain k where k: "strIndex s sub = Some k" "i = Suc k" by auto
      from Cons.IH [OF k(1)] False k(2) show ?thesis
        by (auto simp: less_Suc_eq_0_disj)
    qed
  qed
  then show "i + length sub \<le> length s" "take (length sub) (drop i s) = sub"
    "\<forall>j < i. \<not> hasPrefix (drop j s) sub" by blast+
qed

lemma strJoin_Cons: "strJoin (x # xs) sep = (if xs = [] then x else x @ sep @ strJoin xs sep)"
  by (cases xs) auto

lemma strContains_strJoin: "x \<in> set xs \<Longrightarrow> strContains (strJoin xs sep) x"
proof (induction xs)
  case (Cons y ys)
  then consider "x = y" | "x \<in> set ys" by auto
  then show ?case
  proof cases
    case 1
    then have "strJoin (y # ys) sep = [] @ x @ (if ys = [] then [] else sep @ strJoin ys sep)"
      by (simp add: strJoin_Cons)
    then show ?thesis by (metis strContains_append)
  next
    case 2
    with Cons.IH obtain u v where "strJoin ys sep = u @ x @ v" by (auto simp: strContains_iff)
    with 2 have "strJoin (y # ys) sep = (y @ sep @ u) @ x @ v" by (auto simp: strJoin_Cons)
    then show ?thesis by (metis strContains_append)
  qed
qed simp

lemma strContains_mono: "strContains s sub \<Longrightarrow> strContains (a @ s @ b) sub"
  unfolding strContains_iff by (metis append.assoc)

section \<open>Lists\<close>

text \<open>
  The first occurrence of every element, in order: what Go code computes with a
  \<open>seen\<close> map and a loop. HOL's \<^const>\<open>remdups\<close> keeps the last occurrence instead.
\<close>

fun nub :: "'a list \<Rightarrow> 'a list" where
  "nub [] = []"
| "nub (x # xs) = x # nub (filter (\<lambda>y. y \<noteq> x) xs)"

lemma set_nub [simp]: "set (nub xs) = set xs"
  by (induction xs rule: nub.induct) auto

lemma distinct_nub [simp]: "distinct (nub xs)"
  by (induction xs rule: nub.induct) auto

lemma length_nub: "length (nub xs) \<le> length xs"
proof (induction xs rule: nub.induct)
  case (2 x xs)
  then show ?case using length_filter_le [of "\<lambda>y. y \<noteq> x" xs]
    by (simp del: length_filter_le)
qed simp

lemma map_filter_Some_iff: "y \<in> set (List.map_filter f xs) \<longleftrightarrow> (\<exists>x \<in> set xs. f x = Some y)"
  by (induction xs) (auto simp: map_filter_simps split: option.splits)

text \<open>Reading a slice at an index: \<open>None\<close> where Go panics.\<close>

definition nthOpt :: "'a list \<Rightarrow> nat \<Rightarrow> 'a option" where
  "nthOpt xs i = (if i < length xs then Some (xs ! i) else None)"

lemma nthOpt_Some [simp]: "nthOpt xs i = Some x \<longleftrightarrow> i < length xs \<and> xs ! i = x"
  by (auto simp: nthOpt_def)

text \<open>
  Strings are compared byte by byte. \<open>sort.Strings\<close> is a sort by that order; so is a \<open>sort.Slice\<close>
  whose elements have distinct keys, where stability does not matter.
\<close>

definition byteKey :: "string \<Rightarrow> nat list" where
  "byteKey = map of_char"

definition sortStrings :: "string list \<Rightarrow> string list" where
  "sortStrings xs = sort_key byteKey xs"

lemma inj_byteKey: "inj byteKey"
  unfolding byteKey_def by (intro inj_mapI injI) simp

lemma sort_key_determined:
  assumes "mset xs = mset ys" "inj_on f (set xs)"
  shows "sort_key f xs = sort_key f ys"
proof (rule properties_for_sort_key)
  show "mset (sort_key f ys) = mset xs" using assms(1) by simp
  have eq: "filter (\<lambda>x. f k = f x) zs = filter (\<lambda>x. k = x) zs" if "k \<in> set xs" "set zs = set xs" for k zs
    using assms(2) that by (intro filter_cong) (auto dest: inj_onD)
  have rep: "filter (\<lambda>x. k = x) zs = replicate (count (mset zs) k) k" for k and zs :: "'a list"
    by (induction zs) auto
  have set: "set (sort_key f ys) = set xs" using assms(1) by (metis mset_sort set_mset_mset)
  show "filter (\<lambda>x. f k = f x) (sort_key f ys) = filter (\<lambda>x. f k = f x) xs" if "k \<in> set (sort_key f ys)" for k
    using that set eq [of k "sort_key f ys"] eq [of k xs] rep [of k "sort_key f ys"] rep [of k xs] assms(1) by simp
  show "sorted (map f (sort_key f ys))" by simp
qed

lemma set_sortStrings [simp]: "set (sortStrings xs) = set xs"
  by (simp add: sortStrings_def)

lemma distinct_sortStrings [simp]: "distinct (sortStrings xs) = distinct xs"
  by (simp add: sortStrings_def)

lemma sortStrings_determined: "mset xs = mset ys \<Longrightarrow> sortStrings xs = sortStrings ys"
  unfolding sortStrings_def by (rule sort_key_determined) (auto intro: inj_on_subset [OF inj_byteKey])


lemma find_SomeD: "find P xs = Some x \<Longrightarrow> x \<in> set xs \<and> P x"
  by (auto simp: find_Some_iff)


end
