(* ===== verification/Lifecycle.thy ===== *)
theory Lifecycle
  imports Prelude
begin

text \<open>
  The lifecycle resolver: the vocabulary of \<^verbatim>\<open>pkg/lifecycle.go\<close>, the pure function
  \<^verbatim>\<open>Resolve\<close> of \<^verbatim>\<open>internal/lifecycle/resolver.go\<close> with its two helpers, and the
  functions of \<^verbatim>\<open>internal/app/helpers.go\<close> that turn what is observed at a wake (the wake
  reason, the elapsed time, the last job status and the last checkpoint state) into the
  resolver's inputs. The lemmas show that a resolved plan is well formed, that an abnormal
  end of the prior session forces a full assembly and is disclosed, and that disclosures are
  complete and free of duplicates.
\<close>

section \<open>Vocabulary\<close>

type_synonym TemporalMode = string
abbreviation TemporalEpisodic :: TemporalMode where "TemporalEpisodic \<equiv> ''episodic''"
abbreviation TemporalDiurnal :: TemporalMode where "TemporalDiurnal \<equiv> ''diurnal''"
abbreviation TemporalContinuous :: TemporalMode where "TemporalContinuous \<equiv> ''continuous''"

definition ValidTemporalModes :: "TemporalMode list" where
  "ValidTemporalModes = [TemporalEpisodic, TemporalDiurnal, TemporalContinuous]"

type_synonym WakeCause = string
abbreviation WakeCauseInitial :: WakeCause where "WakeCauseInitial \<equiv> ''initial''"
abbreviation WakeCauseExternal :: WakeCause where "WakeCauseExternal \<equiv> ''external''"
abbreviation WakeCauseScheduled :: WakeCause where "WakeCauseScheduled \<equiv> ''scheduled''"
abbreviation WakeCauseHeartbeat :: WakeCause where "WakeCauseHeartbeat \<equiv> ''heartbeat''"
abbreviation WakeCauseAgentRequested :: WakeCause where
  "WakeCauseAgentRequested \<equiv> ''agent_requested''"
abbreviation WakeCauseContextPressure :: WakeCause where
  "WakeCauseContextPressure \<equiv> ''context_pressure''"
abbreviation WakeCauseManual :: WakeCause where "WakeCauseManual \<equiv> ''manual''"
abbreviation WakeCauseRecovery :: WakeCause where "WakeCauseRecovery \<equiv> ''recovery''"

definition ValidWakeCauses :: "WakeCause list" where
  "ValidWakeCauses =
     [WakeCauseInitial, WakeCauseExternal, WakeCauseScheduled, WakeCauseHeartbeat,
      WakeCauseAgentRequested, WakeCauseContextPressure, WakeCauseManual, WakeCauseRecovery]"

type_synonym TransitionContext = string
abbreviation TransitionNone :: TransitionContext where "TransitionNone \<equiv> ''none''"
abbreviation TransitionModeChange :: TransitionContext where
  "TransitionModeChange \<equiv> ''mode_change''"
abbreviation TransitionSubstrateChange :: TransitionContext where
  "TransitionSubstrateChange \<equiv> ''substrate_change''"
abbreviation TransitionConfigurationChange :: TransitionContext where
  "TransitionConfigurationChange \<equiv> ''configuration_change''"
abbreviation TransitionRecoveryAfterFailure :: TransitionContext where
  "TransitionRecoveryAfterFailure \<equiv> ''recovery_after_failure''"
abbreviation TransitionIdentityDocumentChange :: TransitionContext where
  "TransitionIdentityDocumentChange \<equiv> ''identity_document_change''"

definition ValidTransitionContexts :: "TransitionContext list" where
  "ValidTransitionContexts =
     [TransitionNone, TransitionModeChange, TransitionSubstrateChange,
      TransitionConfigurationChange, TransitionRecoveryAfterFailure,
      TransitionIdentityDocumentChange]"

type_synonym SeamKind = string
abbreviation SeamColdWake :: SeamKind where "SeamColdWake \<equiv> ''cold_wake''"
abbreviation SeamWarmReturn :: SeamKind where "SeamWarmReturn \<equiv> ''warm_return''"
abbreviation SeamContextCompaction :: SeamKind where
  "SeamContextCompaction \<equiv> ''context_compaction''"
abbreviation SeamRestReturn :: SeamKind where "SeamRestReturn \<equiv> ''rest_return''"
abbreviation SeamNone :: SeamKind where "SeamNone \<equiv> ''none''"

definition ValidSeamKinds :: "SeamKind list" where
  "ValidSeamKinds =
     [SeamColdWake, SeamWarmReturn, SeamContextCompaction, SeamRestReturn, SeamNone]"

type_synonym ActivityProfile = string
abbreviation ActivityNormal :: ActivityProfile where "ActivityNormal \<equiv> ''normal''"
abbreviation ActivityFree :: ActivityProfile where "ActivityFree \<equiv> ''free''"
abbreviation ActivitySentinel :: ActivityProfile where "ActivitySentinel \<equiv> ''sentinel''"

definition ValidActivityProfiles :: "ActivityProfile list" where
  "ValidActivityProfiles = [ActivityNormal, ActivityFree, ActivitySentinel]"

type_synonym AssemblyProfile = string
abbreviation AssemblyFull :: AssemblyProfile where "AssemblyFull \<equiv> ''full''"
abbreviation AssemblyLight :: AssemblyProfile where "AssemblyLight \<equiv> ''light''"
abbreviation AssemblyMinimal :: AssemblyProfile where "AssemblyMinimal \<equiv> ''minimal''"
abbreviation AssemblySeam :: AssemblyProfile where "AssemblySeam \<equiv> ''seam''"

definition ValidAssemblyProfiles :: "AssemblyProfile list" where
  "ValidAssemblyProfiles = [AssemblyFull, AssemblyLight, AssemblyMinimal, AssemblySeam]"

type_synonym GapClass = string
abbreviation GapNone :: GapClass where "GapNone \<equiv> ''none''"
abbreviation GapShort :: GapClass where "GapShort \<equiv> ''short''"
abbreviation GapOvernight :: GapClass where "GapOvernight \<equiv> ''overnight''"
abbreviation GapLong :: GapClass where "GapLong \<equiv> ''long''"

type_synonym RuntimeStatus = string
abbreviation RuntimeStarting :: RuntimeStatus where "RuntimeStarting \<equiv> ''starting''"
abbreviation RuntimeActive :: RuntimeStatus where "RuntimeActive \<equiv> ''active''"
abbreviation RuntimeWaiting :: RuntimeStatus where "RuntimeWaiting \<equiv> ''waiting''"
abbreviation RuntimeEnding :: RuntimeStatus where "RuntimeEnding \<equiv> ''ending''"
abbreviation RuntimeEnded :: RuntimeStatus where "RuntimeEnded \<equiv> ''ended''"
abbreviation RuntimeInterrupted :: RuntimeStatus where "RuntimeInterrupted \<equiv> ''interrupted''"
abbreviation RuntimeFailed :: RuntimeStatus where "RuntimeFailed \<equiv> ''failed''"

type_synonym BridgePolicy = string
abbreviation BridgeAutoWithAbstention :: BridgePolicy where
  "BridgeAutoWithAbstention \<equiv> ''automatic_with_abstention''"
abbreviation BridgeAgentRequested :: BridgePolicy where
  "BridgeAgentRequested \<equiv> ''agent_requested''"
abbreviation BridgeDisabled :: BridgePolicy where "BridgeDisabled \<equiv> ''disabled''"

definition ValidBridgePolicies :: "BridgePolicy list" where
  "ValidBridgePolicies = [BridgeAutoWithAbstention, BridgeAgentRequested, BridgeDisabled]"

definition ValidMetabolismPolicies :: "string list" where
  "ValidMetabolismPolicies = [''standard'', ''deferred'', ''skip'']"

type_synonym MetabolismStatus = string
abbreviation MetabolismNotRequired :: MetabolismStatus where
  "MetabolismNotRequired \<equiv> ''not_required''"
abbreviation MetabolismQueued :: MetabolismStatus where "MetabolismQueued \<equiv> ''queued''"
abbreviation MetabolismRunning :: MetabolismStatus where "MetabolismRunning \<equiv> ''running''"
abbreviation MetabolismComplete :: MetabolismStatus where "MetabolismComplete \<equiv> ''complete''"
abbreviation MetabolismPartial :: MetabolismStatus where "MetabolismPartial \<equiv> ''partial''"
abbreviation MetabolismFailedRetry :: MetabolismStatus where
  "MetabolismFailedRetry \<equiv> ''failed_retryable''"
abbreviation MetabolismFailedTerminal :: MetabolismStatus where
  "MetabolismFailedTerminal \<equiv> ''failed_terminal''"

lemmas valid_lists =
  ValidTemporalModes_def ValidWakeCauses_def ValidTransitionContexts_def ValidSeamKinds_def
  ValidActivityProfiles_def ValidAssemblyProfiles_def ValidBridgePolicies_def
  ValidMetabolismPolicies_def

section \<open>Records\<close>

record GapFacts =
  gf_PreviousActivityAt :: "time option"
  gf_WakeAt :: time
  gf_ElapsedDuration :: duration
  gf_ClockBasis :: string
  gf_GapClass :: GapClass
  gf_MessagesPending :: int
  gf_VaultChanges :: int

record LifecyclePolicy =
  pol_TemporalMode :: TemporalMode
  pol_DefaultAssembly :: AssemblyProfile
  pol_BridgePolicy :: BridgePolicy
  pol_ActivityProfile :: ActivityProfile
  pol_MetabolismPolicy :: string
  pol_CommitHash :: string

record OperationalState =
  os_PriorRuntimeStatus :: RuntimeStatus
  os_PriorMetabolismStatus :: MetabolismStatus
  os_LastAppliedConfigHash :: string

record WakeFacts =
  wf_PrimaryCause :: WakeCause
  wf_ContributingCauses :: "WakeCause list"
  wf_GapFacts :: GapFacts
  wf_ElapsedDuration :: duration
  wf_SeamKind :: SeamKind
  wf_TransitionContexts :: "TransitionContext list"

record LifecyclePlan =
  plan_ID :: string
  plan_SessionID :: string
  plan_TemporalMode :: TemporalMode
  plan_WakeCause :: WakeCause
  plan_WakeCauseSecondary :: "WakeCause option"
  plan_ActivityProfile :: ActivityProfile
  plan_AssemblyProfile :: AssemblyProfile
  plan_BridgePolicy :: BridgePolicy
  plan_MetabolismPolicy :: string
  plan_PriorMetabolismStatus :: MetabolismStatus
  plan_SeamKind :: SeamKind
  plan_ResolverVersion :: string
  plan_PolicyHash :: string
  plan_GapFacts :: "GapFacts option"
  plan_TransitionContexts :: "TransitionContext list"
  plan_Disclosures :: "string list"
  plan_Reasons :: "string \<rightharpoonup> string"
  plan_CreatedAt :: time

section \<open>The resolver\<close>

abbreviation resolverVersion :: string where "resolverVersion \<equiv> ''v1''"

definition resolveAssemblyProfile :: "LifecyclePolicy \<Rightarrow> WakeFacts \<Rightarrow> AssemblyProfile \<times> string" where
  "resolveAssemblyProfile policy facts =
     (if wf_SeamKind facts = SeamContextCompaction then
        (AssemblySeam, ''seam: context compaction occurred '' @ em_dash @
           '' overlapping reconstruction needed around the compaction boundary'')
      else if wf_PrimaryCause facts = WakeCauseInitial then
        (AssemblyFull, ''full: initial activation '' @ em_dash @
           '' no prior context exists; complete orientation required'')
      else if wf_PrimaryCause facts = WakeCauseRecovery then
        (AssemblyFull, ''full: recovery wake '' @ em_dash @
           '' prior session interrupted or failed; full orientation restores stable ground'')
      else if pol_TemporalMode policy = TemporalContinuous \<and> wf_SeamKind facts = SeamWarmReturn then
        (AssemblyLight, ''light: continuous temporal mode with warm-return seam '' @ em_dash @
           '' inference context is close; identity, practices, continuity slice, incoming, and grounding are sufficient'')
      else if wf_ElapsedDuration facts > 0 \<and> wf_ElapsedDuration facts < 30 * minute then
        (AssemblyLight, ''light: elapsed duration < 30 minutes '' @ em_dash @
           '' wall-clock gap too short to justify full orientation overhead'')
      else
        (let reason = ''default: no specific seam or cause signal matched; using policy.DefaultAssembly''
         in if pol_DefaultAssembly policy = ''''
            then (AssemblyFull, reason @ '' (defaultAssembly unset, falling back to full)'')
            else (pol_DefaultAssembly policy, reason)))"

text \<open>The switch of \<open>buildDisclosures\<close>: the text a context is disclosed with, if any.\<close>

definition disclosureText :: "TransitionContext \<Rightarrow> string option" where
  "disclosureText tc =
     (if tc = TransitionConfigurationChange then Some ''lifecycle policy changed since last session''
      else if tc = TransitionSubstrateChange then Some ''model substrate changed since last session''
      else if tc = TransitionIdentityDocumentChange then Some ''identity documents modified since last session''
      else if tc = TransitionRecoveryAfterFailure then Some ''recovering from prior session failure''
      else if tc = TransitionModeChange then Some ''temporal mode changed since last session''
      else None)"

text \<open>The loop over the contexts, with the \<open>seen\<close> map and the slice built so far.\<close>

fun disclosureLoop ::
  "(TransitionContext \<Rightarrow> bool) \<Rightarrow> string list \<Rightarrow> TransitionContext list \<Rightarrow> string list" where
  "disclosureLoop seen ds [] = ds"
| "disclosureLoop seen ds (tc # tcs) =
     (if seen tc then disclosureLoop seen ds tcs
      else disclosureLoop (seen(tc := True))
             (case disclosureText tc of None \<Rightarrow> ds | Some d \<Rightarrow> ds @ [d]) tcs)"

definition buildDisclosures :: "TransitionContext list \<Rightarrow> string list" where
  "buildDisclosures contexts =
     (if contexts = [] then [] else disclosureLoop (\<lambda>_. False) [] contexts)"

text \<open>
  The prior session's status: an abnormal end adds a disclosure and upgrades the assembly
  to full, a clean end is only recorded.
\<close>

definition applyPriorStatus ::
  "RuntimeStatus \<Rightarrow> AssemblyProfile \<Rightarrow> string list \<Rightarrow> (string \<rightharpoonup> string) \<Rightarrow>
   AssemblyProfile \<times> string list \<times> (string \<rightharpoonup> string)" where
  "applyPriorStatus priorStatus assemblyProfile disclosures reasons =
     (if priorStatus = RuntimeFailed \<or> priorStatus = RuntimeInterrupted then
        (let disclosures = disclosures @ [''prior session ended abnormally (status: '' @ priorStatus @ '')''];
             reasons = reasons(''prior_runtime_status'' \<mapsto>
               ''prior session '' @ priorStatus @ '' '' @ em_dash @ '' assembly upgraded to full for safe recovery'')
         in if assemblyProfile \<noteq> AssemblyFull
            then (AssemblyFull, disclosures,
                  reasons(''assembly_profile'' \<mapsto>
                    (case reasons ''assembly_profile'' of None \<Rightarrow> '''' | Some r \<Rightarrow> r) @
                    ''; overridden to full: prior session '' @ priorStatus))
            else (assemblyProfile, disclosures, reasons))
      else if priorStatus \<noteq> '''' then
        (assemblyProfile, disclosures,
         reasons(''prior_runtime_status'' \<mapsto>
           ''prior session ended cleanly (status: '' @ priorStatus @ ''); no assembly adjustment''))
      else (assemblyProfile, disclosures, reasons))"

text \<open>The prior session's metabolism: pending, failed and partial outcomes are disclosed.\<close>

definition applyPriorMetabolism ::
  "MetabolismStatus \<Rightarrow> string list \<Rightarrow> (string \<rightharpoonup> string) \<Rightarrow> string list \<times> (string \<rightharpoonup> string)" where
  "applyPriorMetabolism priorMeta disclosures reasons =
     (if priorMeta = MetabolismQueued \<or> priorMeta = MetabolismRunning then
        (disclosures @ [''prior session metabolism is pending ('' @ priorMeta @ '') '' @ em_dash @
           '' experience from the last session may not be fully integrated into memory''],
         reasons(''metabolism_status'' \<mapsto> ''prior metabolism pending ('' @ priorMeta @ '') '' @ em_dash @
           '' T3 coverage may be incomplete; continuity phase will add in-band disclosure''))
      else if priorMeta = MetabolismFailedRetry \<or> priorMeta = MetabolismFailedTerminal
              \<or> priorMeta = MetabolismPartial then
        (disclosures @ [''prior session metabolism failed or is incomplete ('' @ priorMeta @ '') '' @ em_dash @
           '' experience from the last session may not be fully integrated into memory''],
         reasons(''metabolism_status'' \<mapsto> ''prior metabolism '' @ priorMeta @ '' '' @ em_dash @
           '' T3 coverage incomplete; continuity phase will add in-band disclosure''))
      else if priorMeta \<noteq> '''' then
        (disclosures, reasons(''metabolism_status'' \<mapsto> ''prior metabolism completed normally ('' @ priorMeta @ '')''))
      else (disclosures, reasons))"

definition Resolve ::
  "LifecyclePolicy \<Rightarrow> WakeFacts \<Rightarrow> OperationalState \<Rightarrow> string \<Rightarrow> time \<Rightarrow> LifecyclePlan" where
  "Resolve policy facts opState planID resolvedAt =
    (let reasons = Map.empty;
         temporalMode = (if pol_TemporalMode policy = '''' then TemporalEpisodic else pol_TemporalMode policy);
         reasons = reasons(''temporal_mode'' \<mapsto> ''copied from normative policy (workspace config)'');
         activityProfile = (if pol_ActivityProfile policy = '''' then ActivityNormal else pol_ActivityProfile policy);
         reasons = reasons(''activity_profile'' \<mapsto> ''copied from normative policy (workspace config)'');
         (assemblyProfile, assemblyReason) = resolveAssemblyProfile policy facts;
         reasons = reasons(''assembly_profile'' \<mapsto> assemblyReason);
         bridgePolicy = (if pol_BridgePolicy policy = '''' then BridgeAgentRequested else pol_BridgePolicy policy);
         reasons = reasons(''bridge_policy'' \<mapsto> ''copied from normative policy; Ersa's initial posture is agent_requested or disabled per corrective delta 2026-08-08'');
         disclosures = buildDisclosures (wf_TransitionContexts facts);
         (assemblyProfile, disclosures, reasons) =
           applyPriorStatus (os_PriorRuntimeStatus opState) assemblyProfile disclosures reasons;
         wakeCauseSecondary =
           (case wf_ContributingCauses facts of [] \<Rightarrow> None | c # _ \<Rightarrow> Some c);
         metabolismPolicy = (if pol_MetabolismPolicy policy = '''' then ''standard'' else pol_MetabolismPolicy policy);
         reasons = reasons(''metabolism_policy'' \<mapsto> ''copied from normative policy (workspace config); default: standard'');
         (disclosures, reasons) =
           applyPriorMetabolism (os_PriorMetabolismStatus opState) disclosures reasons
     in \<lparr> plan_ID = planID,
          plan_SessionID = '''',
          plan_TemporalMode = temporalMode,
          plan_WakeCause = wf_PrimaryCause facts,
          plan_WakeCauseSecondary = wakeCauseSecondary,
          plan_ActivityProfile = activityProfile,
          plan_AssemblyProfile = assemblyProfile,
          plan_BridgePolicy = bridgePolicy,
          plan_MetabolismPolicy = metabolismPolicy,
          plan_PriorMetabolismStatus = os_PriorMetabolismStatus opState,
          plan_SeamKind = wf_SeamKind facts,
          plan_ResolverVersion = resolverVersion,
          plan_PolicyHash = pol_CommitHash policy,
          plan_GapFacts = Some (wf_GapFacts facts),
          plan_TransitionContexts = wf_TransitionContexts facts,
          plan_Disclosures = disclosures,
          plan_Reasons = reasons,
          plan_CreatedAt = resolvedAt \<rparr>)"

section \<open>Observing a wake\<close>

definition wakeReasonToCause :: "string \<Rightarrow> WakeCause" where
  "wakeReasonToCause reason =
     (if reason = ''initial'' \<or> reason = ''first-boot'' then WakeCauseInitial
      else if reason = ''recovery'' then WakeCauseRecovery
      else if reason = ''heartbeat'' \<or> reason = ''daemon-startup'' then WakeCauseScheduled
      else if reason = ''agent_requested'' \<or> reason = ''agent-requested'' then WakeCauseAgentRequested
      else if reason = ''context_pressure'' \<or> reason = ''context-pressure'' then WakeCauseContextPressure
      else if reason = ''manual'' then WakeCauseManual
      else if length reason > 8 \<and> take 8 reason = ''channel:'' then WakeCauseExternal
      else WakeCauseScheduled)"

definition classifyGap :: "duration \<Rightarrow> time option \<Rightarrow> GapClass" where
  "classifyGap elapsed prevActivityAt =
     (if prevActivityAt = None then GapNone
      else if elapsed < 2 * hour then GapShort
      else if elapsed < 16 * hour then GapOvernight
      else GapLong)"

definition classifySeam :: "duration \<Rightarrow> time option \<Rightarrow> SeamKind" where
  "classifySeam elapsed prevActivityAt =
     (if prevActivityAt = None then SeamColdWake
      else if elapsed < 30 * minute then SeamWarmReturn
      else if elapsed < 16 * hour then SeamRestReturn
      else SeamColdWake)"

definition jobStatusToMetabolism :: "string \<Rightarrow> MetabolismStatus" where
  "jobStatusToMetabolism raw =
     (if raw = ''pending'' then MetabolismQueued
      else if raw = ''running'' then MetabolismRunning
      else if raw = ''completed'' then MetabolismComplete
      else if raw = ''partial'' then MetabolismPartial
      else if raw = ''failed'' then MetabolismFailedRetry
      else if raw = ''review_required'' then MetabolismFailedTerminal
      else MetabolismNotRequired)"

definition checkpointStateToRuntime :: "string \<Rightarrow> RuntimeStatus" where
  "checkpointStateToRuntime s =
     (if s = ''interrupted'' \<or> s = ''active'' then RuntimeInterrupted else RuntimeEnded)"

text \<open>
  \<open>queryOperationalState\<close>. A store that is nil is \<open>None\<close>; otherwise its argument is the result
  of the one call the function makes on it: \<open>LastStatus\<close>, \<open>LastCheckpointState\<close>. The database
  fallback is \<open>None\<close> when the handle is nil; otherwise the results of the two queries.
\<close>

definition queryOperationalState ::
  "(error + string) option \<Rightarrow> (error + string) option \<Rightarrow>
   ((error + string) \<times> (error + string)) option \<Rightarrow> OperationalState" where
  "queryOperationalState jobStore lifecycleStore db =
     \<lparr> os_PriorRuntimeStatus =
         (case lifecycleStore of
            Some (Inr s) \<Rightarrow> (if s \<noteq> '''' then checkpointStateToRuntime s else '''')
          | Some (Inl _) \<Rightarrow> ''''
          | None \<Rightarrow> (case db of Some (_, Inr rawState) \<Rightarrow> checkpointStateToRuntime rawState
                              | _ \<Rightarrow> '''')),
       os_PriorMetabolismStatus =
         (case jobStore of
            Some (Inr s) \<Rightarrow> (if s \<noteq> '''' then jobStatusToMetabolism s else '''')
          | Some (Inl _) \<Rightarrow> ''''
          | None \<Rightarrow> (case db of Some (Inr rawStatus, _) \<Rightarrow> jobStatusToMetabolism rawStatus
                              | _ \<Rightarrow> '''')),
       os_LastAppliedConfigHash = '''' \<rparr>"

text \<open>\<open>RedactDSN\<close>: the index of the first at-sign is where the kept tail starts.\<close>

definition RedactDSN :: "string \<Rightarrow> string" where
  "RedactDSN dsn =
     (if dsn = '''' then ''[empty]''
      else if hasPrefix dsn ''postgres://'' \<or> hasPrefix dsn ''postgresql://'' then
        (let start = (case strIndex dsn ''@'' of Some i \<Rightarrow> i | None \<Rightarrow> 0)
         in if start > 0 then take 11 dsn @ ''***'' @ drop start dsn else dsn)
      else dsn)"

section \<open>Projections of a resolved plan\<close>

lemmas resolve_unfold = Resolve_def Let_def split_def

lemma Resolve_copied [simp]:
  "plan_ID (Resolve p f s i t) = i"
  "plan_SessionID (Resolve p f s i t) = ''''"
  "plan_WakeCause (Resolve p f s i t) = wf_PrimaryCause f"
  "plan_SeamKind (Resolve p f s i t) = wf_SeamKind f"
  "plan_TransitionContexts (Resolve p f s i t) = wf_TransitionContexts f"
  "plan_GapFacts (Resolve p f s i t) = Some (wf_GapFacts f)"
  "plan_PolicyHash (Resolve p f s i t) = pol_CommitHash p"
  "plan_PriorMetabolismStatus (Resolve p f s i t) = os_PriorMetabolismStatus s"
  "plan_CreatedAt (Resolve p f s i t) = t"
  "plan_ResolverVersion (Resolve p f s i t) = ''v1''"
  by (simp_all add: resolve_unfold)

lemma Resolve_TemporalMode:
  "plan_TemporalMode (Resolve p f s i t) =
     (if pol_TemporalMode p = '''' then TemporalEpisodic else pol_TemporalMode p)"
  by (simp add: resolve_unfold)

lemma Resolve_ActivityProfile:
  "plan_ActivityProfile (Resolve p f s i t) =
     (if pol_ActivityProfile p = '''' then ActivityNormal else pol_ActivityProfile p)"
  by (simp add: resolve_unfold)

lemma Resolve_BridgePolicy:
  "plan_BridgePolicy (Resolve p f s i t) =
     (if pol_BridgePolicy p = '''' then BridgeAgentRequested else pol_BridgePolicy p)"
  by (simp add: resolve_unfold)

lemma Resolve_MetabolismPolicy:
  "plan_MetabolismPolicy (Resolve p f s i t) =
     (if pol_MetabolismPolicy p = '''' then ''standard'' else pol_MetabolismPolicy p)"
  by (simp add: resolve_unfold)

text \<open>The two disclosures the operational state can add, as functions of that state.\<close>

definition abnormalEnd :: "RuntimeStatus \<Rightarrow> bool" where
  "abnormalEnd st \<longleftrightarrow> st = RuntimeFailed \<or> st = RuntimeInterrupted"

definition metabolismIncomplete :: "MetabolismStatus \<Rightarrow> bool" where
  "metabolismIncomplete ms \<longleftrightarrow>
     ms \<in> {MetabolismQueued, MetabolismRunning, MetabolismFailedRetry, MetabolismFailedTerminal,
           MetabolismPartial}"

definition runtimeDisclosure :: "RuntimeStatus \<Rightarrow> string list" where
  "runtimeDisclosure st =
     (if abnormalEnd st then [''prior session ended abnormally (status: '' @ st @ '')''] else [])"

definition metabolismDisclosure :: "MetabolismStatus \<Rightarrow> string list" where
  "metabolismDisclosure ms =
     (if ms = MetabolismQueued \<or> ms = MetabolismRunning then
        [''prior session metabolism is pending ('' @ ms @ '') '' @ em_dash @
         '' experience from the last session may not be fully integrated into memory'']
      else if metabolismIncomplete ms then
        [''prior session metabolism failed or is incomplete ('' @ ms @ '') '' @ em_dash @
         '' experience from the last session may not be fully integrated into memory'']
      else [])"

lemmas disclosure_parts =
  runtimeDisclosure_def metabolismDisclosure_def metabolismIncomplete_def abnormalEnd_def

lemma applyPriorStatus_fst:
  "fst (applyPriorStatus st ap ds rs) = (if abnormalEnd st then AssemblyFull else ap)"
  by (simp add: applyPriorStatus_def abnormalEnd_def Let_def)

lemma applyPriorStatus_disclosures:
  "fst (snd (applyPriorStatus st ap ds rs)) = ds @ runtimeDisclosure st"
  by (simp add: applyPriorStatus_def runtimeDisclosure_def abnormalEnd_def Let_def)

lemma applyPriorMetabolism_disclosures:
  "fst (applyPriorMetabolism ms ds rs) = ds @ metabolismDisclosure ms"
  by (simp add: applyPriorMetabolism_def metabolismDisclosure_def metabolismIncomplete_def)

lemma Resolve_AssemblyProfile:
  "plan_AssemblyProfile (Resolve p f s i t) =
     (if abnormalEnd (os_PriorRuntimeStatus s) then AssemblyFull
      else fst (resolveAssemblyProfile p f))"
  by (simp add: resolve_unfold applyPriorStatus_fst)

lemma Resolve_Disclosures:
  "plan_Disclosures (Resolve p f s i t) =
     buildDisclosures (wf_TransitionContexts f) @
     runtimeDisclosure (os_PriorRuntimeStatus s) @
     metabolismDisclosure (os_PriorMetabolismStatus s)"
  by (simp add: resolve_unfold applyPriorMetabolism_disclosures applyPriorStatus_disclosures)

lemma disclosureLoop_eq:
  "disclosureLoop seen ds tcs =
     ds @ List.map_filter disclosureText (nub (filter (\<lambda>tc. \<not> seen tc) tcs))"
proof (induction tcs arbitrary: seen ds)
  case Nil
  then show ?case by (simp add: map_filter_simps)
next
  case (Cons tc tcs)
  have flt: "filter (\<lambda>x. x \<noteq> tc \<and> (x \<noteq> tc \<longrightarrow> \<not> seen x)) tcs =
             filter (\<lambda>y. y \<noteq> tc) (filter (\<lambda>tc. \<not> seen tc) tcs)"
    by (auto intro!: filter_cong)
  show ?case
    by (cases "seen tc"; cases "disclosureText tc")
       (simp_all add: map_filter_simps Cons.IH flt del: filter_filter)
qed

lemma buildDisclosures_eq:
  "buildDisclosures tcs = List.map_filter disclosureText (nub tcs)"
  by (simp add: buildDisclosures_def disclosureLoop_eq map_filter_simps)

lemma disclosureText_inj:
  "disclosureText a = Some d \<Longrightarrow> disclosureText b = Some d \<Longrightarrow> a = b"
  by (auto simp: disclosureText_def split: if_splits)

lemma distinct_map_filter:
  assumes "distinct xs" "\<And>a b d. f a = Some d \<Longrightarrow> f b = Some d \<Longrightarrow> a = b"
  shows "distinct (List.map_filter f xs)"
  using assms(1)
proof (induction xs)
  case (Cons x xs)
  then show ?case
    by (auto simp: map_filter_def split: option.splits dest: assms(2))
qed (simp add: map_filter_simps)

lemma disclosureText_fresh:
  "disclosureText tc = Some d \<Longrightarrow> d \<notin> set (runtimeDisclosure st) \<union> set (metabolismDisclosure ms)"
  by (auto simp: disclosureText_def disclosure_parts split: if_splits)

lemma runtime_metabolism_disjoint:
  "set (runtimeDisclosure st) \<inter> set (metabolismDisclosure ms) = {}"
  by (auto simp: disclosure_parts)

section \<open>Well-formed policies, facts and plans\<close>

definition validPolicy :: "LifecyclePolicy \<Rightarrow> bool" where
  "validPolicy p \<longleftrightarrow>
     pol_TemporalMode p \<in> set ('''' # ValidTemporalModes) \<and>
     pol_DefaultAssembly p \<in> set ('''' # ValidAssemblyProfiles) \<and>
     pol_BridgePolicy p \<in> set ('''' # ValidBridgePolicies) \<and>
     pol_ActivityProfile p \<in> set ('''' # ValidActivityProfiles) \<and>
     pol_MetabolismPolicy p \<in> set ('''' # ValidMetabolismPolicies)"

definition validPlan :: "LifecyclePlan \<Rightarrow> bool" where
  "validPlan pl \<longleftrightarrow>
     plan_TemporalMode pl \<in> set ValidTemporalModes \<and>
     plan_WakeCause pl \<in> set ValidWakeCauses \<and>
     plan_ActivityProfile pl \<in> set ValidActivityProfiles \<and>
     plan_AssemblyProfile pl \<in> set ValidAssemblyProfiles \<and>
     plan_BridgePolicy pl \<in> set ValidBridgePolicies \<and>
     plan_MetabolismPolicy pl \<in> set ValidMetabolismPolicies \<and>
     plan_SeamKind pl \<in> set ValidSeamKinds"

lemma resolveAssemblyProfile_valid:
  "pol_DefaultAssembly p \<in> set ('''' # ValidAssemblyProfiles) \<Longrightarrow>
   fst (resolveAssemblyProfile p f) \<in> set ValidAssemblyProfiles"
  by (auto simp: resolveAssemblyProfile_def valid_lists Let_def)

lemma wakeReasonToCause_valid: "wakeReasonToCause r \<in> set ValidWakeCauses"
  by (simp add: wakeReasonToCause_def valid_lists)

lemma classifySeam_valid: "classifySeam e p \<in> set ValidSeamKinds"
  by (simp add: classifySeam_def valid_lists)

lemma Resolve_valid:
  assumes "validPolicy p"
    and "wf_PrimaryCause f \<in> set ValidWakeCauses" "wf_SeamKind f \<in> set ValidSeamKinds"
  shows "validPlan (Resolve p f s i t)"
proof -
  have "fst (resolveAssemblyProfile p f) \<in> set ValidAssemblyProfiles"
    using assms(1) by (intro resolveAssemblyProfile_valid) (simp add: validPolicy_def)
  moreover have "AssemblyFull \<in> set ValidAssemblyProfiles" by (simp add: valid_lists)
  ultimately have "plan_AssemblyProfile (Resolve p f s i t) \<in> set ValidAssemblyProfiles"
    by (simp add: Resolve_AssemblyProfile)
  moreover have "plan_TemporalMode (Resolve p f s i t) \<in> set ValidTemporalModes"
    "plan_ActivityProfile (Resolve p f s i t) \<in> set ValidActivityProfiles"
    "plan_BridgePolicy (Resolve p f s i t) \<in> set ValidBridgePolicies"
    "plan_MetabolismPolicy (Resolve p f s i t) \<in> set ValidMetabolismPolicies"
    using assms(1)
    by (auto simp: validPolicy_def valid_lists Resolve_TemporalMode Resolve_ActivityProfile
        Resolve_BridgePolicy Resolve_MetabolismPolicy)
  ultimately show ?thesis
    using assms(2,3) by (simp add: validPlan_def)
qed

section \<open>Properties\<close>

definition samplePolicy :: LifecyclePolicy where
  "samplePolicy = \<lparr> pol_TemporalMode = TemporalEpisodic, pol_DefaultAssembly = AssemblyMinimal,
     pol_BridgePolicy = '''', pol_ActivityProfile = ActivityNormal, pol_MetabolismPolicy = ''skip'',
     pol_CommitHash = ''abc'' \<rparr>"

definition sampleFacts :: "duration \<Rightarrow> WakeFacts" where
  "sampleFacts d = \<lparr> wf_PrimaryCause = wakeReasonToCause ''channel:discord'', wf_ContributingCauses = [],
     wf_GapFacts = \<lparr> gf_PreviousActivityAt = Some 0, gf_WakeAt = d, gf_ElapsedDuration = d,
       gf_ClockBasis = ''wall'', gf_GapClass = classifyGap d (Some 0), gf_MessagesPending = 0,
       gf_VaultChanges = 0 \<rparr>,
     wf_ElapsedDuration = d, wf_SeamKind = classifySeam d (Some 0), wf_TransitionContexts = [] \<rparr>"

definition sampleState :: "RuntimeStatus \<Rightarrow> MetabolismStatus \<Rightarrow> OperationalState" where
  "sampleState r m = \<lparr> os_PriorRuntimeStatus = r, os_PriorMetabolismStatus = m,
     os_LastAppliedConfigHash = '''' \<rparr>"

text \<open>
  C3. A prior session that failed or was interrupted always yields a full assembly, whatever
  the policy and the wake facts say, and its status is disclosed; after any other prior status
  the profile is the one the wake facts select, and no such disclosure appears.
\<close>

theorem resolve_abnormal_end:
  "if os_PriorRuntimeStatus s = RuntimeFailed \<or> os_PriorRuntimeStatus s = RuntimeInterrupted
   then plan_AssemblyProfile (Resolve p f s i t) = AssemblyFull \<and>
        ''prior session ended abnormally (status: '' @ os_PriorRuntimeStatus s @ '')''
          \<in> set (plan_Disclosures (Resolve p f s i t))
   else plan_AssemblyProfile (Resolve p f s i t) = fst (resolveAssemblyProfile p f) \<and>
        (\<forall>st. ''prior session ended abnormally (status: '' @ st @ '')''
          \<notin> set (plan_Disclosures (Resolve p f s i t)))"
proof (cases "abnormalEnd (os_PriorRuntimeStatus s)")
  case True
  then show ?thesis
    by (simp add: Resolve_AssemblyProfile Resolve_Disclosures runtimeDisclosure_def abnormalEnd_def)
next
  case False
  have "''prior session ended abnormally (status: '' @ st @ '')'' \<notin>
      set (buildDisclosures (wf_TransitionContexts f))" for st
    by (auto simp: buildDisclosures_eq map_filter_Some_iff disclosureText_def split: if_splits)
  moreover have "''prior session ended abnormally (status: '' @ st @ '')'' \<notin>
      set (metabolismDisclosure (os_PriorMetabolismStatus s))" for st
    by (simp add: metabolismDisclosure_def)
  ultimately show ?thesis
    using False
    by (simp add: Resolve_AssemblyProfile Resolve_Disclosures runtimeDisclosure_def abnormalEnd_def)
qed

text \<open>
  The disclosures of a plan are exactly: one text per distinct disclosable transition
  context in order of first occurrence, then the abnormal-end text, then the metabolism text;
  no text is repeated.
\<close>

theorem resolve_disclosures_exact:
  "plan_Disclosures (Resolve p f s i t) =
     List.map_filter disclosureText (nub (wf_TransitionContexts f)) @
     runtimeDisclosure (os_PriorRuntimeStatus s) @
     metabolismDisclosure (os_PriorMetabolismStatus s) \<and>
   distinct (plan_Disclosures (Resolve p f s i t))"
proof -
  have "distinct (List.map_filter disclosureText (nub (wf_TransitionContexts f)))"
    by (intro distinct_map_filter) (auto dest: disclosureText_inj)
  moreover have "distinct (runtimeDisclosure st)" "distinct (metabolismDisclosure ms)" for st ms
    by (simp_all add: runtimeDisclosure_def metabolismDisclosure_def)
  ultimately show ?thesis
    using disclosureText_fresh runtime_metabolism_disjoint
    by (fastforce simp: Resolve_Disclosures buildDisclosures_eq map_filter_Some_iff)
qed

text \<open>
  The status of the last metabolism job reaches the agent: when the job store reports a
  job that is pending, running, failed or awaiting review, the resolved plan discloses that
  the last session may not be integrated; when it reports a completed job it does not.
\<close>

theorem job_status_disclosed:
  assumes "raw \<in> {''pending'', ''running'', ''failed'', ''review_required'', ''completed''}"
  shows "(metabolismDisclosure
            (plan_PriorMetabolismStatus (Resolve p f (queryOperationalState (Some (Inr raw)) ls db) i t))
            \<noteq> [] \<longleftrightarrow> raw \<noteq> ''completed'') \<and>
         set (metabolismDisclosure (jobStatusToMetabolism raw)) \<subseteq>
         set (plan_Disclosures (Resolve p f (queryOperationalState (Some (Inr raw)) ls db) i t))"
  using assms
  by (auto simp: queryOperationalState_def jobStatusToMetabolism_def disclosure_parts
      Resolve_Disclosures)

theorem job_status_disclosed_witness:
  "metabolismDisclosure (plan_PriorMetabolismStatus (Resolve samplePolicy (sampleFacts 5)
     (queryOperationalState (Some (Inr ''review_required'')) None None) ''id'' 7)) \<noteq> []"
  using job_status_disclosed [of "''review_required''" samplePolicy "sampleFacts 5" None None] by simp

text \<open>
  \<open>RedactDSN\<close> on a \<open>postgres://\<close> URL replaces what lies before the first at-sign after the
  scheme and keeps everything from that at-sign on: a password that itself contains an
  at-sign is kept from that character on.
\<close>

theorem redact_dsn_first_at:
  assumes "CHR ''@'' \<notin> set cred"
  shows "RedactDSN (''postgres://'' @ cred @ ''@'' @ rest) = ''postgres://***@'' @ rest"
proof -
  have idx: "strIndex (u @ ''@'' @ v) ''@'' = Some (length u)" if "CHR ''@'' \<notin> set u" for u v
    using that by (induction u) auto
  have "strIndex ((''postgres://'' @ cred) @ ''@'' @ rest) ''@'' = Some (length (''postgres://'' @ cred))"
    by (rule idx) (use assms in simp)
  then show ?thesis
    by (simp add: RedactDSN_def Let_def)
qed

theorem redact_dsn_first_at_witness:
  "RedactDSN ''postgres://bob:pa@ss@host/db'' = ''postgres://***@ss@host/db''"
  using redact_dsn_first_at [of "''bob:pa''" "''ss@host/db''"] by simp

end
