(* ===== verification/Policy.thy ===== *)
theory Policy
  imports Lifecycle
begin

text \<open>
  The lifecycle policy: \<^verbatim>\<open>internal/session/policy.go\<close> (reading, validating and
  canonicalising the workspace document, detecting a change against the last applied hash),
  \<^verbatim>\<open>internal/session/disclosure.go\<close> (what changed, as text and as a row of
  \<^verbatim>\<open>configuration_applied\<close>), the part of the SQLite lifecycle store that records plans, and
  \<^verbatim>\<open>queryLastPolicy\<close> of \<^verbatim>\<open>internal/app/helpers.go\<close>, which reads the last recorded plan
  back as a policy. \<open>encoding/json\<close>, \<open>crypto/sha256\<close> and the file system are arguments.
\<close>

section \<open>The policy document\<close>

record policyDocument =
  doc_TemporalMode :: string
  doc_BridgePolicy :: string
  doc_MetabolismPolicy :: string
  doc_AssemblyProfile :: string

definition validate :: "policyDocument \<Rightarrow> error option" where
  "validate d =
     (if doc_TemporalMode d \<noteq> '''' \<and> doc_TemporalMode d \<notin> set ValidTemporalModes
      then Some (''policy: invalid temporal_mode '' @ quoted (doc_TemporalMode d))
      else if doc_BridgePolicy d \<noteq> '''' \<and> doc_BridgePolicy d \<notin> set ValidBridgePolicies
      then Some (''policy: invalid bridge_policy '' @ quoted (doc_BridgePolicy d))
      else if doc_MetabolismPolicy d \<noteq> '''' \<and> doc_MetabolismPolicy d \<notin> set ValidMetabolismPolicies
      then Some (''policy: invalid metabolism_policy '' @ quoted (doc_MetabolismPolicy d))
      else if doc_AssemblyProfile d \<noteq> '''' \<and> doc_AssemblyProfile d \<notin> set ValidAssemblyProfiles
      then Some (''policy: invalid assembly_profile '' @ quoted (doc_AssemblyProfile d))
      else None)"

definition toCanonical :: "policyDocument \<Rightarrow> string \<Rightarrow> LifecyclePolicy" where
  "toCanonical d hash =
     (let p = \<lparr> pol_TemporalMode = TemporalEpisodic, pol_DefaultAssembly = AssemblyFull,
                pol_BridgePolicy = BridgeAgentRequested, pol_ActivityProfile = ActivityNormal,
                pol_MetabolismPolicy = '''', pol_CommitHash = hash \<rparr>;
          p = (if doc_TemporalMode d \<noteq> '''' then p\<lparr>pol_TemporalMode := doc_TemporalMode d\<rparr> else p);
          p = (if doc_AssemblyProfile d \<noteq> '''' then p\<lparr>pol_DefaultAssembly := doc_AssemblyProfile d\<rparr> else p);
          p = (if doc_BridgePolicy d \<noteq> '''' then p\<lparr>pol_BridgePolicy := doc_BridgePolicy d\<rparr> else p);
          p = (if doc_MetabolismPolicy d \<noteq> '''' then p\<lparr>pol_MetabolismPolicy := doc_MetabolismPolicy d\<rparr> else p)
      in p)"

abbreviation zeroPolicy :: LifecyclePolicy where
  "zeroPolicy \<equiv> \<lparr> pol_TemporalMode = '''', pol_DefaultAssembly = '''', pol_BridgePolicy = '''',
     pol_ActivityProfile = '''', pol_MetabolismPolicy = '''', pol_CommitHash = '''' \<rparr>"

text \<open>What \<open>os.ReadFile\<close> returns: the bytes, a file that does not exist, another error.\<close>

datatype readFile = FileData string | FileNotExist | FileError error

text \<open>
  \<open>PolicyReader.Read\<close>: \<open>decode\<close> is the strict JSON decoder, \<open>sha256hex\<close> the hex digest.
\<close>

definition Read ::
  "(string \<Rightarrow> error + policyDocument) \<Rightarrow> (string \<Rightarrow> string) \<Rightarrow> string \<Rightarrow> readFile \<Rightarrow>
   error + LifecyclePolicy \<times> string" where
  "Read decode sha256hex path file =
     (case file of
        FileNotExist \<Rightarrow> Inr (zeroPolicy, '''')
      | FileError e \<Rightarrow> Inl (''policy: reading '' @ path @ '': '' @ e)
      | FileData data \<Rightarrow>
          (case decode data of
             Inl e \<Rightarrow> Inl (''policy: parsing '' @ path @ '': '' @ e)
           | Inr doc \<Rightarrow>
               (case validate doc of
                  Some e \<Rightarrow> Inl e
                | None \<Rightarrow> (let hexHash = sha256hex data in Inr (toCanonical doc hexHash, hexHash)))))"

text \<open>A query for one row: the row, no row, or a database error.\<close>

datatype 'a queryRow = Row 'a | NoRows | QueryError error

definition HasChanged :: "string queryRow option \<Rightarrow> string \<Rightarrow> error + bool \<times> string" where
  "HasChanged db currentHash =
     (case db of
        None \<Rightarrow> Inr (False, '''')
      | Some NoRows \<Rightarrow> Inr (True, '''')
      | Some (QueryError e) \<Rightarrow> Inl (''policy: querying last applied hash: '' @ e)
      | Some (Row previousHash) \<Rightarrow> Inr (currentHash \<noteq> previousHash, previousHash))"

section \<open>Disclosing a change\<close>

record ConfigDisclosure =
  cd_PolicyPath :: string
  cd_OldHash :: string
  cd_NewHash :: string
  cd_Changes :: "string list"
  cd_AppliedAt :: time

definition setChange :: "string \<Rightarrow> string \<Rightarrow> string list" where
  "setChange field v = (if v \<noteq> '''' then [field @ '' set to '' @ quoted v] else [])"

definition fieldChange :: "string \<Rightarrow> string \<Rightarrow> string \<Rightarrow> string list" where
  "fieldChange field old new =
     (if old \<noteq> new then [field @ '' changed from '' @ quoted old @ '' to '' @ quoted new] else [])"

definition GenerateDisclosure ::
  "LifecyclePolicy option \<Rightarrow> LifecyclePolicy \<Rightarrow> time \<Rightarrow> ConfigDisclosure" where
  "GenerateDisclosure old new now =
     (let d = \<lparr> cd_PolicyPath = '''', cd_OldHash = '''', cd_NewHash = '''', cd_Changes = [],
                cd_AppliedAt = now \<rparr>
      in case old of
        None \<Rightarrow>
          (let cs = setChange ''temporal_mode'' (pol_TemporalMode new) @
                    setChange ''bridge_policy'' (pol_BridgePolicy new) @
                    setChange ''metabolism_policy'' (pol_MetabolismPolicy new) @
                    setChange ''assembly_profile'' (pol_DefaultAssembly new)
           in d\<lparr>cd_Changes := (if cs = [] then [''initial policy applied (all defaults)''] else cs)\<rparr>)
      | Some old \<Rightarrow>
          (let cs = fieldChange ''temporal_mode'' (pol_TemporalMode old) (pol_TemporalMode new) @
                    fieldChange ''bridge_policy'' (pol_BridgePolicy old) (pol_BridgePolicy new) @
                    fieldChange ''metabolism_policy'' (pol_MetabolismPolicy old) (pol_MetabolismPolicy new) @
                    fieldChange ''assembly_profile'' (pol_DefaultAssembly old) (pol_DefaultAssembly new)
           in d\<lparr>cd_Changes :=
                (if cs = [] then [''no field-level changes detected (file content changed)''] else cs)\<rparr>))"

text \<open>\<open>ForContext\<close>; \<open>rfc3339\<close> is the time formatter.\<close>

definition ForContext :: "(time \<Rightarrow> string) \<Rightarrow> ConfigDisclosure \<Rightarrow> string" where
  "ForContext rfc3339 d =
     ''[configuration change]'' @ newline @
     (if cd_PolicyPath d \<noteq> '''' then ''Policy: '' @ cd_PolicyPath d @ newline else '''') @
     concat (map (\<lambda>change. ''  - '' @ change @ newline) (cd_Changes d)) @
     (if cd_OldHash d \<noteq> '''' then
        ''Previous hash: '' @
        (if length (cd_OldHash d) > 12 then take 12 (cd_OldHash d) @ ''...'' else cd_OldHash d) @ newline
      else '''') @
     ''Applied at: '' @ rfc3339 (cd_AppliedAt d)"

section \<open>Stored plans\<close>

text \<open>The columns of a \<^verbatim>\<open>lifecycle_plans\<close> row, and the store as the rows in insertion order.\<close>

record planRow =
  row_id :: string
  row_session_id :: string
  row_temporal_mode :: string
  row_wake_cause :: string
  row_wake_cause_secondary :: "string option"
  row_activity_profile :: string
  row_assembly_profile :: string
  row_bridge_policy :: string
  row_metabolism_policy :: string
  row_seam_kind :: string
  row_resolver_version :: string
  row_policy_hash :: string
  row_resolved_at :: time

text \<open>
  \<open>RecordPlan\<close> of the SQLite lifecycle store: \<open>newid\<close> is a fresh identifier, \<open>now\<close> the
  database's \<open>CURRENT_TIMESTAMP\<close>, \<open>fault\<close> the error of the INSERT if it fails.
\<close>

definition RecordPlan ::
  "planRow list \<Rightarrow> string \<Rightarrow> time \<Rightarrow> error option \<Rightarrow> LifecyclePlan option \<Rightarrow> error + planRow list" where
  "RecordPlan rows newid now fault plan =
     (case plan of
        None \<Rightarrow> Inl ''storage: lifecycle plan is nil''
      | Some pl \<Rightarrow>
          (let pid = (if plan_ID pl = '''' then newid else plan_ID pl)
           in case fault of
                Some e \<Rightarrow> Inl (''storage: recording lifecycle plan '' @ pid @ '': '' @ e)
              | None \<Rightarrow> Inr (rows @
                  [\<lparr> row_id = pid, row_session_id = plan_SessionID pl,
                     row_temporal_mode = plan_TemporalMode pl, row_wake_cause = plan_WakeCause pl,
                     row_wake_cause_secondary = plan_WakeCauseSecondary pl,
                     row_activity_profile = plan_ActivityProfile pl,
                     row_assembly_profile = plan_AssemblyProfile pl,
                     row_bridge_policy = plan_BridgePolicy pl,
                     row_metabolism_policy = plan_MetabolismPolicy pl,
                     row_seam_kind = plan_SeamKind pl,
                     row_resolver_version = plan_ResolverVersion pl,
                     row_policy_hash = plan_PolicyHash pl, row_resolved_at = now \<rparr>])))"

text \<open>
  \<open>ORDER BY key DESC LIMIT 1\<close> over a table: a row whose key is greatest. Among rows with equal
  keys SQL leaves the choice open; the model takes the latest inserted one.
\<close>

fun latestBy :: "('r \<Rightarrow> int) \<Rightarrow> 'r list \<Rightarrow> 'r option" where
  "latestBy key [] = None"
| "latestBy key (r # rs) =
     (case latestBy key rs of None \<Rightarrow> Some r
      | Some r' \<Rightarrow> if key r > key r' then Some r else Some r')"

definition queryLastPolicy :: "planRow list option \<Rightarrow> LifecyclePolicy option" where
  "queryLastPolicy db =
     (case db of
        None \<Rightarrow> None
      | Some rows \<Rightarrow>
          map_option (\<lambda>r. \<lparr> pol_TemporalMode = row_temporal_mode r,
                            pol_DefaultAssembly = row_assembly_profile r,
                            pol_BridgePolicy = row_bridge_policy r,
                            pol_ActivityProfile = '''',
                            pol_MetabolismPolicy = row_metabolism_policy r,
                            pol_CommitHash = '''' \<rparr>)
            (latestBy row_resolved_at rows))"

section \<open>Lemmas\<close>

lemma validate_None_iff:
  "validate d = None \<longleftrightarrow>
     doc_TemporalMode d \<in> set ('''' # ValidTemporalModes) \<and>
     doc_BridgePolicy d \<in> set ('''' # ValidBridgePolicies) \<and>
     doc_MetabolismPolicy d \<in> set ('''' # ValidMetabolismPolicies) \<and>
     doc_AssemblyProfile d \<in> set ('''' # ValidAssemblyProfiles)"
  by (auto simp: validate_def)

lemma toCanonical_fields [simp]:
  "pol_TemporalMode (toCanonical d h) = (if doc_TemporalMode d = '''' then TemporalEpisodic else doc_TemporalMode d)"
  "pol_DefaultAssembly (toCanonical d h) = (if doc_AssemblyProfile d = '''' then AssemblyFull else doc_AssemblyProfile d)"
  "pol_BridgePolicy (toCanonical d h) = (if doc_BridgePolicy d = '''' then BridgeAgentRequested else doc_BridgePolicy d)"
  "pol_ActivityProfile (toCanonical d h) = ActivityNormal"
  "pol_MetabolismPolicy (toCanonical d h) = doc_MetabolismPolicy d"
  "pol_CommitHash (toCanonical d h) = h"
  by (simp_all add: toCanonical_def Let_def)

lemma Read_Inr_iff:
  "Read decode sha path file = Inr (p, h) \<longleftrightarrow>
     (file = FileNotExist \<and> p = zeroPolicy \<and> h = '''') \<or>
     (\<exists>data doc. file = FileData data \<and> decode data = Inr doc \<and> validate doc = None \<and>
        h = sha data \<and> p = toCanonical doc h)"
  by (auto simp: Read_def Let_def split: readFile.splits sum.splits option.splits)

lemma toCanonical_valid: "validate d = None \<Longrightarrow> validPolicy (toCanonical d h)"
  by (auto simp: validate_None_iff validPolicy_def valid_lists)

lemma zeroPolicy_valid: "validPolicy zeroPolicy"
  by (simp add: validPolicy_def)

lemma latestBy_append [simp]:
  "(\<And>r'. r' \<in> set rs \<Longrightarrow> key r' \<le> key r) \<Longrightarrow> latestBy key (rs @ [r]) = Some r"
  by (induction rs) (fastforce dest: leD)+

lemma latestBy_in: "latestBy key rs = Some r \<Longrightarrow> r \<in> set rs"
  by (induction rs arbitrary: r) (auto split: option.splits if_splits)

lemma latestBy_max: "latestBy key rs = Some r \<Longrightarrow> r' \<in> set rs \<Longrightarrow> key r' \<le> key r"
proof (induction rs arbitrary: r)
  case (Cons x xs)
  show ?case
  proof (cases "latestBy key xs")
    case None
    then have "xs = []" by (cases xs) (auto split: option.splits if_splits)
    with Cons.prems None show ?thesis by simp
  next
    case (Some y)
    with Cons.IH [OF Some] Cons.prems show ?thesis by (fastforce split: if_splits)
  qed
qed simp

section \<open>Properties\<close>

text \<open>
  The resolver never sees an invalid policy from the workspace: any policy \<open>Read\<close> returns
  resolves, with any reason, gap and prior state, to a plan all of whose enumerated fields
  are valid.
\<close>

theorem read_then_resolve_valid:
  assumes "Read decode sha path file = Inr (p, h)"
  shows "validPlan (Resolve p
           (f\<lparr>wf_PrimaryCause := wakeReasonToCause reason, wf_SeamKind := classifySeam d prev\<rparr>) s i t)"
proof -
  have "validPolicy p"
    using assms
    by (auto simp: Read_Inr_iff zeroPolicy_valid toCanonical_valid)
  then show ?thesis
    by (rule Resolve_valid) (simp_all add: wakeReasonToCause_valid classifySeam_valid)
qed

theorem read_then_resolve_valid_witness:
  "validPlan (Resolve zeroPolicy ((sampleFacts 5)\<lparr>wf_PrimaryCause := wakeReasonToCause ''manual'',
     wf_SeamKind := classifySeam 5 None\<rparr>) (sampleState '''' '''') ''id'' 7)"
  by (rule read_then_resolve_valid [of "\<lambda>_. Inl ''x''" "\<lambda>x. x" "''p''" FileNotExist _ "''''"])
     (simp add: Read_def)

text \<open>
  A change of policy is never silent: the disclosure always names at least one change, and
  every one of the four comparable fields that differs is named with its old and its new value.
\<close>

theorem disclosure_names_changes:
  "cd_Changes (GenerateDisclosure old new now) \<noteq> [] \<and>
   (\<forall>o'. old = Some o' \<and> pol_TemporalMode o' \<noteq> pol_TemporalMode new \<longrightarrow>
      ''temporal_mode changed from '' @ quoted (pol_TemporalMode o') @ '' to '' @ quoted (pol_TemporalMode new)
        \<in> set (cd_Changes (GenerateDisclosure old new now))) \<and>
   (\<forall>o'. old = Some o' \<and> pol_BridgePolicy o' \<noteq> pol_BridgePolicy new \<longrightarrow>
      ''bridge_policy changed from '' @ quoted (pol_BridgePolicy o') @ '' to '' @ quoted (pol_BridgePolicy new)
        \<in> set (cd_Changes (GenerateDisclosure old new now))) \<and>
   (\<forall>o'. old = Some o' \<and> pol_MetabolismPolicy o' \<noteq> pol_MetabolismPolicy new \<longrightarrow>
      ''metabolism_policy changed from '' @ quoted (pol_MetabolismPolicy o') @ '' to '' @ quoted (pol_MetabolismPolicy new)
        \<in> set (cd_Changes (GenerateDisclosure old new now))) \<and>
   (\<forall>o'. old = Some o' \<and> pol_DefaultAssembly o' \<noteq> pol_DefaultAssembly new \<longrightarrow>
      ''assembly_profile changed from '' @ quoted (pol_DefaultAssembly o') @ '' to '' @ quoted (pol_DefaultAssembly new)
        \<in> set (cd_Changes (GenerateDisclosure old new now)))"
  by (cases old) (auto simp: GenerateDisclosure_def fieldChange_def setChange_def Let_def)

theorem disclosure_names_changes_witness:
  "''bridge_policy changed from '' @ quoted ''disabled'' @ '' to '' @ quoted ''agent_requested''
     \<in> set (cd_Changes (GenerateDisclosure
         (Some (zeroPolicy\<lparr>pol_BridgePolicy := ''disabled''\<rparr>))
         (zeroPolicy\<lparr>pol_BridgePolicy := ''agent_requested''\<rparr>) 0))"
  using disclosure_names_changes [of "Some (zeroPolicy\<lparr>pol_BridgePolicy := ''disabled''\<rparr>)"
      "zeroPolicy\<lparr>pol_BridgePolicy := ''agent_requested''\<rparr>" 0] by simp

text \<open>
  What \<open>queryLastPolicy\<close> reads back after a plan is recorded is the plan's resolved assembly
  profile, not the policy's default: after a wake less than thirty minutes after the previous
  one, the fallback policy's default assembly is \<open>light\<close> whatever the workspace policy says, and
  a later cold wake that falls back on it is assembled light.
\<close>

theorem last_policy_is_resolved_profile:
  assumes "\<And>r. r \<in> set rows \<Longrightarrow> row_resolved_at r \<le> now"
    and "wf_SeamKind f \<noteq> SeamContextCompaction"
    and "wf_PrimaryCause f \<noteq> WakeCauseInitial" "wf_PrimaryCause f \<noteq> WakeCauseRecovery"
    and "0 < wf_ElapsedDuration f" "wf_ElapsedDuration f < 30 * minute"
    and "\<not> abnormalEnd (os_PriorRuntimeStatus s)"
    and "RecordPlan rows newid now None (Some (Resolve p f s i t)) = Inr rows'"
    and "wf_SeamKind f' = SeamColdWake" "wf_PrimaryCause f' = WakeCauseExternal"
    and "wf_ElapsedDuration f' \<ge> 16 * hour" "\<not> abnormalEnd (os_PriorRuntimeStatus s')"
  shows "\<exists>q. queryLastPolicy (Some rows') = Some q \<and> pol_DefaultAssembly q = AssemblyLight \<and>
           plan_AssemblyProfile (Resolve q f' s' i' t') = AssemblyLight"
proof -
  have light: "plan_AssemblyProfile (Resolve p f s i t) = AssemblyLight"
    using assms(2-7) by (simp add: Resolve_AssemblyProfile resolveAssemblyProfile_def)
  from assms(8) have rows': "rows' = rows @ [last rows']" "row_resolved_at (last rows') = now"
    "row_assembly_profile (last rows') = AssemblyLight"
    using light by (auto simp: RecordPlan_def Let_def)
  have "latestBy row_resolved_at (rows @ [last rows']) = Some (last rows')"
    by (rule latestBy_append) (use assms(1) rows'(2) in simp)
  with rows' have "latestBy row_resolved_at rows' = Some (last rows')" by simp
  with rows'(3) obtain q where q: "queryLastPolicy (Some rows') = Some q" "pol_DefaultAssembly q = AssemblyLight"
    by (simp add: queryLastPolicy_def)
  have "plan_AssemblyProfile (Resolve q f' s' i' t') = AssemblyLight"
    using assms(9-12) q(2) by (simp add: Resolve_AssemblyProfile resolveAssemblyProfile_def Let_def)
  with q show ?thesis by blast
qed

theorem last_policy_is_resolved_profile_witness:
  "\<exists>q. queryLastPolicy (Some (case RecordPlan [] ''n'' 5 None
        (Some (Resolve (samplePolicy\<lparr>pol_DefaultAssembly := AssemblyFull\<rparr>) (sampleFacts minute) (sampleState '''' '''') ''id'' 7))
      of Inr rs \<Rightarrow> rs)) = Some q \<and> pol_DefaultAssembly q = AssemblyLight \<and>
     plan_AssemblyProfile (Resolve q (sampleFacts (20 * hour)) (sampleState '''' '''') ''id2'' 8) = AssemblyLight"
  by (rule last_policy_is_resolved_profile [of "[]" 5 "sampleFacts minute" "sampleState '''' ''''" "''n''"
        "samplePolicy\<lparr>pol_DefaultAssembly := AssemblyFull\<rparr>" "''id''" 7])
     (simp_all add: sampleFacts_def sampleState_def classifySeam_def wakeReasonToCause_def
        abnormalEnd_def RecordPlan_def Let_def)

end
