(* ===== verification/JobStore.thy ===== *)
theory JobStore
  imports Prelude "HOL-Library.Multiset"
begin

text \<open>
  The metabolism job store: \<^verbatim>\<open>internal/platform/storage/jobs_sqlite.go\<close> and
  \<^verbatim>\<open>jobs_postgres.go\<close>, over the table \<^verbatim>\<open>metabolism_jobs\<close>. The table is the list of its rows
  in insertion order; an \<open>UPDATE ... WHERE\<close> is a map over the rows together with the number of
  rows it matched. Every operation takes the values it draws from its environment (the fresh
  identifier, the database clock, the error of a statement that fails) as arguments and returns
  its Go result with the new table; a statement that fails leaves the table as it was.

  The interface \<^verbatim>\<open>pkg.MetabolismJobStore\<close> is the locale \<open>job_store\<close>: its laws are what a worker
  relies on (a claim hands out one lease, a finished or re-leased job does not obey an old
  token, a job is leased at most \<open>MaxClaimCount\<close> times), its lemmas are about arbitrary
  interleavings of calls, and both implementations interpret it.
\<close>

section \<open>The table\<close>

type_synonym JobStatus = string
abbreviation JobStatusPending :: JobStatus where "JobStatusPending \<equiv> ''pending''"
abbreviation JobStatusRunning :: JobStatus where "JobStatusRunning \<equiv> ''running''"
abbreviation JobStatusCompleted :: JobStatus where "JobStatusCompleted \<equiv> ''completed''"
abbreviation JobStatusFailed :: JobStatus where "JobStatusFailed \<equiv> ''failed''"
abbreviation JobStatusInterrupted :: JobStatus where "JobStatusInterrupted \<equiv> ''interrupted''"
abbreviation JobStatusReviewRequired :: JobStatus where "JobStatusReviewRequired \<equiv> ''review_required''"

record jobRow =
  job_id :: string
  job_session_id :: string
  job_status :: JobStatus
  job_type :: string
  job_started_at :: "time option"
  job_completed_at :: "time option"
  job_error_message :: "string option"
  job_retry_count :: int
  job_claim_token :: "string option"
  job_claim_count :: int
  job_created_at :: time

type_synonym jobTable = "jobRow list"

datatype storeError = ErrJobNotPending | ErrClaimFenced | ErrNotFound string | ErrDB error

abbreviation (input) MaxClaimCount :: int where "MaxClaimCount \<equiv> 5"

text \<open>\<open>UPDATE t SET f WHERE p\<close> with \<open>RowsAffected\<close>.\<close>

definition sqlUpdate :: "('r \<Rightarrow> bool) \<Rightarrow> ('r \<Rightarrow> 'r) \<Rightarrow> 'r list \<Rightarrow> 'r list \<times> nat" where
  "sqlUpdate p f rows = (map (\<lambda>r. if p r then f r else r) rows, length (filter p rows))"

text \<open>The condition of the claim: \<open>threshold\<close> is \<open>None\<close> where the SQL expression is NULL.\<close>

definition claimable :: "string \<Rightarrow> time option \<Rightarrow> jobRow \<Rightarrow> bool" where
  "claimable jobID threshold r \<longleftrightarrow>
     job_id r = jobID \<and> job_claim_count r < MaxClaimCount \<and>
     (job_status r = JobStatusPending \<or> job_status r = JobStatusFailed \<or>
      (job_status r = JobStatusRunning \<and>
       (case (job_started_at r, threshold) of (Some st, Some th) \<Rightarrow> st < th | _ \<Rightarrow> False)))"

definition claimRow :: "string \<Rightarrow> time \<Rightarrow> jobRow \<Rightarrow> jobRow" where
  "claimRow token at r = r\<lparr>job_status := JobStatusRunning, job_started_at := Some at,
     job_claim_token := Some token, job_claim_count := job_claim_count r + 1\<rparr>"

definition holds :: "string \<Rightarrow> string \<Rightarrow> jobRow \<Rightarrow> bool" where
  "holds jobID token r \<longleftrightarrow> job_id r = jobID \<and> job_claim_token r = Some token"

text \<open>The \<open>SELECT ... WHERE status IN (...) ... ORDER BY created_at ASC\<close> of \<open>Recoverable\<close>.\<close>

definition recoverableRow :: "int \<Rightarrow> jobRow \<Rightarrow> bool" where
  "recoverableRow maxRetries r \<longleftrightarrow>
     job_status r \<in> {JobStatusPending, JobStatusRunning, JobStatusFailed} \<and>
     job_retry_count r < maxRetries \<and> job_claim_count r < MaxClaimCount"

section \<open>SQLite\<close>

text \<open>SQLite's \<open>CURRENT_TIMESTAMP\<close> and \<open>datetime('now')\<close> have a resolution of one second.\<close>

definition sqliteNow :: "time \<Rightarrow> time" where
  "sqliteNow now = now div second * second"

text \<open>\<open>int(staleDuration.Seconds())\<close>: truncation towards zero.\<close>

definition wholeSeconds :: "duration \<Rightarrow> int" where
  "wholeSeconds d = (if d \<ge> 0 then d div second else - ((- d) div second))"

text \<open>
  \<open>datetime('now', '-%d seconds')\<close>: a negative count makes the modifier \<open>--n seconds\<close>, which
  SQLite does not parse, and the expression is NULL.
\<close>

definition sqliteThreshold :: "time \<Rightarrow> duration \<Rightarrow> time option" where
  "sqliteThreshold now staleDuration =
     (let n = wholeSeconds staleDuration
      in if n < 0 then None else Some (sqliteNow now - n * second))"

definition SQLite_Commit ::
  "string \<Rightarrow> time \<Rightarrow> error option \<Rightarrow> string \<Rightarrow> string \<Rightarrow> jobTable \<Rightarrow> (storeError + string) \<times> jobTable" where
  "SQLite_Commit newid now fault sessionID jobType rows =
     (case fault of
        Some e \<Rightarrow> (Inl (ErrDB e), rows)
      | None \<Rightarrow>
          if newid \<in> job_id ` set rows then (Inl (ErrDB ''UNIQUE constraint failed: metabolism_jobs.id''), rows)
          else (Inr newid,
                rows @ [\<lparr> job_id = newid, job_session_id = sessionID, job_status = JobStatusPending,
                          job_type = jobType, job_started_at = None, job_completed_at = None,
                          job_error_message = None, job_retry_count = 0, job_claim_token = None,
                          job_claim_count = 0, job_created_at = sqliteNow now \<rparr>]))"

definition SQLite_Claim ::
  "string \<Rightarrow> time \<Rightarrow> error option \<Rightarrow> string \<Rightarrow> duration \<Rightarrow> jobTable \<Rightarrow> (storeError + string) \<times> jobTable" where
  "SQLite_Claim newid now fault jobID staleDuration rows =
     (case fault of
        Some e \<Rightarrow> (Inl (ErrDB e), rows)
      | None \<Rightarrow>
          (let (rows', n) = sqlUpdate (claimable jobID (sqliteThreshold now staleDuration))
                              (claimRow newid (sqliteNow now)) rows
           in if n = 0 then (Inl ErrJobNotPending, rows') else (Inr newid, rows')))"

text \<open>\<open>fencedOrNotFound\<close>: \<open>fault\<close> is the error of its query.\<close>

definition SQLite_fencedOrNotFound :: "error option \<Rightarrow> string \<Rightarrow> jobTable \<Rightarrow> storeError" where
  "SQLite_fencedOrNotFound fault jobID rows =
     (case fault of
        Some e \<Rightarrow> ErrDB e
      | None \<Rightarrow> if jobID \<in> job_id ` set rows then ErrClaimFenced else ErrNotFound jobID)"

definition SQLite_Complete ::
  "time \<Rightarrow> error option \<Rightarrow> error option \<Rightarrow> string \<Rightarrow> string \<Rightarrow> jobTable \<Rightarrow> (storeError + unit) \<times> jobTable" where
  "SQLite_Complete now fault qfault jobID claimToken rows =
     (case fault of
        Some e \<Rightarrow> (Inl (ErrDB e), rows)
      | None \<Rightarrow>
          (let (rows', n) = sqlUpdate (holds jobID claimToken)
                (\<lambda>r. r\<lparr>job_status := JobStatusCompleted, job_completed_at := Some (sqliteNow now)\<rparr>) rows
           in if n = 0 then (Inl (SQLite_fencedOrNotFound qfault jobID rows'), rows') else (Inr (), rows')))"

definition SQLite_Fail ::
  "error option \<Rightarrow> error option \<Rightarrow> string \<Rightarrow> string \<Rightarrow> string \<Rightarrow> jobTable \<Rightarrow> (storeError + unit) \<times> jobTable" where
  "SQLite_Fail fault qfault jobID claimToken cause rows =
     (case fault of
        Some e \<Rightarrow> (Inl (ErrDB e), rows)
      | None \<Rightarrow>
          (let (rows', n) = sqlUpdate (holds jobID claimToken)
                (\<lambda>r. r\<lparr>job_status := JobStatusFailed, job_error_message := Some cause,
                       job_retry_count := job_retry_count r + 1\<rparr>) rows
           in if n = 0 then (Inl (SQLite_fencedOrNotFound qfault jobID rows'), rows') else (Inr (), rows')))"

definition SQLite_MarkReviewRequired ::
  "time \<Rightarrow> error option \<Rightarrow> error option \<Rightarrow> string \<Rightarrow> string \<Rightarrow> string \<Rightarrow> jobTable \<Rightarrow>
   (storeError + unit) \<times> jobTable" where
  "SQLite_MarkReviewRequired now fault qfault jobID claimToken reason rows =
     (case fault of
        Some e \<Rightarrow> (Inl (ErrDB e), rows)
      | None \<Rightarrow>
          (let (rows', n) = sqlUpdate (holds jobID claimToken)
                (\<lambda>r. r\<lparr>job_status := JobStatusReviewRequired, job_error_message := Some reason,
                       job_completed_at := Some (sqliteNow now)\<rparr>) rows
           in if n = 0 then (Inl (SQLite_fencedOrNotFound qfault jobID rows'), rows') else (Inr (), rows')))"

text \<open>
  \<open>Recoverable\<close>: identifier, session and retry count of the selected rows, oldest first. The
  sort is stable; SQL leaves the order of rows with equal \<open>created_at\<close> open.
\<close>

definition SQLite_Recoverable ::
  "error option \<Rightarrow> int \<Rightarrow> jobTable \<Rightarrow> storeError + (string \<times> string \<times> int) list" where
  "SQLite_Recoverable fault maxRetries rows =
     (case fault of
        Some e \<Rightarrow> Inl (ErrDB e)
      | None \<Rightarrow> Inr (map (\<lambda>r. (job_id r, job_session_id r, job_retry_count r))
                      (sort_key job_created_at (filter (recoverableRow maxRetries) rows))))"

text \<open>\<open>LastStatus\<close>: the empty string when there is no job.\<close>

definition SQLite_LastStatus :: "error option \<Rightarrow> jobTable \<Rightarrow> storeError + string" where
  "SQLite_LastStatus fault rows =
     (case fault of
        Some e \<Rightarrow> Inl (ErrDB e)
      | None \<Rightarrow> Inr (case sort_key job_created_at rows of
                       [] \<Rightarrow> '''' | r # rs \<Rightarrow> job_status (last (r # rs))))"

section \<open>PostgreSQL\<close>

text \<open>
  The same statements in the other dialect: the clock has full resolution, and the lease
  threshold is \<open>now() - interval '1 second' * n\<close>, defined for every \<open>n\<close>.
\<close>

definition postgresThreshold :: "time \<Rightarrow> duration \<Rightarrow> time option" where
  "postgresThreshold now staleDuration = Some (now - wholeSeconds staleDuration * second)"

definition Postgres_Commit ::
  "string \<Rightarrow> time \<Rightarrow> error option \<Rightarrow> string \<Rightarrow> string \<Rightarrow> jobTable \<Rightarrow> (storeError + string) \<times> jobTable" where
  "Postgres_Commit newid now fault sessionID jobType rows =
     (case fault of
        Some e \<Rightarrow> (Inl (ErrDB e), rows)
      | None \<Rightarrow>
          if newid \<in> job_id ` set rows then (Inl (ErrDB ''duplicate key value violates unique constraint''), rows)
          else (Inr newid,
                rows @ [\<lparr> job_id = newid, job_session_id = sessionID, job_status = JobStatusPending,
                          job_type = jobType, job_started_at = None, job_completed_at = None,
                          job_error_message = None, job_retry_count = 0, job_claim_token = None,
                          job_claim_count = 0, job_created_at = now \<rparr>]))"

definition Postgres_Claim ::
  "string \<Rightarrow> time \<Rightarrow> error option \<Rightarrow> string \<Rightarrow> duration \<Rightarrow> jobTable \<Rightarrow> (storeError + string) \<times> jobTable" where
  "Postgres_Claim newid now fault jobID staleDuration rows =
     (case fault of
        Some e \<Rightarrow> (Inl (ErrDB e), rows)
      | None \<Rightarrow>
          (let (rows', n) = sqlUpdate (claimable jobID (postgresThreshold now staleDuration))
                              (claimRow newid now) rows
           in if n = 0 then (Inl ErrJobNotPending, rows') else (Inr newid, rows')))"

definition Postgres_fencedOrNotFound :: "error option \<Rightarrow> string \<Rightarrow> jobTable \<Rightarrow> storeError" where
  "Postgres_fencedOrNotFound fault jobID rows =
     (case fault of
        Some e \<Rightarrow> ErrDB e
      | None \<Rightarrow> if jobID \<in> job_id ` set rows then ErrClaimFenced else ErrNotFound jobID)"

definition Postgres_Complete ::
  "time \<Rightarrow> error option \<Rightarrow> error option \<Rightarrow> string \<Rightarrow> string \<Rightarrow> jobTable \<Rightarrow> (storeError + unit) \<times> jobTable" where
  "Postgres_Complete now fault qfault jobID claimToken rows =
     (case fault of
        Some e \<Rightarrow> (Inl (ErrDB e), rows)
      | None \<Rightarrow>
          (let (rows', n) = sqlUpdate (holds jobID claimToken)
                (\<lambda>r. r\<lparr>job_status := JobStatusCompleted, job_completed_at := Some now\<rparr>) rows
           in if n = 0 then (Inl (Postgres_fencedOrNotFound qfault jobID rows'), rows') else (Inr (), rows')))"

definition Postgres_Fail ::
  "error option \<Rightarrow> error option \<Rightarrow> string \<Rightarrow> string \<Rightarrow> string \<Rightarrow> jobTable \<Rightarrow> (storeError + unit) \<times> jobTable" where
  "Postgres_Fail fault qfault jobID claimToken cause rows =
     (case fault of
        Some e \<Rightarrow> (Inl (ErrDB e), rows)
      | None \<Rightarrow>
          (let (rows', n) = sqlUpdate (holds jobID claimToken)
                (\<lambda>r. r\<lparr>job_status := JobStatusFailed, job_error_message := Some cause,
                       job_retry_count := job_retry_count r + 1\<rparr>) rows
           in if n = 0 then (Inl (Postgres_fencedOrNotFound qfault jobID rows'), rows') else (Inr (), rows')))"

definition Postgres_MarkReviewRequired ::
  "time \<Rightarrow> error option \<Rightarrow> error option \<Rightarrow> string \<Rightarrow> string \<Rightarrow> string \<Rightarrow> jobTable \<Rightarrow>
   (storeError + unit) \<times> jobTable" where
  "Postgres_MarkReviewRequired now fault qfault jobID claimToken reason rows =
     (case fault of
        Some e \<Rightarrow> (Inl (ErrDB e), rows)
      | None \<Rightarrow>
          (let (rows', n) = sqlUpdate (holds jobID claimToken)
                (\<lambda>r. r\<lparr>job_status := JobStatusReviewRequired, job_error_message := Some reason,
                       job_completed_at := Some now\<rparr>) rows
           in if n = 0 then (Inl (Postgres_fencedOrNotFound qfault jobID rows'), rows') else (Inr (), rows')))"

definition Postgres_Recoverable ::
  "error option \<Rightarrow> int \<Rightarrow> jobTable \<Rightarrow> storeError + (string \<times> string \<times> int) list" where
  "Postgres_Recoverable fault maxRetries rows =
     (case fault of
        Some e \<Rightarrow> Inl (ErrDB e)
      | None \<Rightarrow> Inr (map (\<lambda>r. (job_id r, job_session_id r, job_retry_count r))
                      (sort_key job_created_at (filter (recoverableRow maxRetries) rows))))"

definition Postgres_LastStatus :: "error option \<Rightarrow> jobTable \<Rightarrow> storeError + string" where
  "Postgres_LastStatus fault rows =
     (case fault of
        Some e \<Rightarrow> Inl (ErrDB e)
      | None \<Rightarrow> Inr (case sort_key job_created_at rows of
                       [] \<Rightarrow> '''' | r # rs \<Rightarrow> job_status (last (r # rs))))"

section \<open>The interface\<close>

text \<open>
  A call on the store with everything it depends on, and the store as a function from calls
  to results and new tables: what several workers do to a store is a list of calls.
\<close>

datatype jobCall =
    CallCommit string time "error option" string string
  | CallClaim string time "error option" string duration
  | CallComplete time "error option" "error option" string string
  | CallFail "error option" "error option" string string string
  | CallReview time "error option" "error option" string string string

definition SQLite_call :: "jobCall \<Rightarrow> jobTable \<Rightarrow> (storeError + string) \<times> jobTable" where
  "SQLite_call c db =
     (case c of
        CallCommit newid now fault sid jt \<Rightarrow> SQLite_Commit newid now fault sid jt db
      | CallClaim newid now fault jid d \<Rightarrow> SQLite_Claim newid now fault jid d db
      | CallComplete now f q jid tok \<Rightarrow> map_prod (map_sum id (\<lambda>_. '''')) id (SQLite_Complete now f q jid tok db)
      | CallFail f q jid tok cause \<Rightarrow> map_prod (map_sum id (\<lambda>_. '''')) id (SQLite_Fail f q jid tok cause db)
      | CallReview now f q jid tok reason \<Rightarrow>
          map_prod (map_sum id (\<lambda>_. '''')) id (SQLite_MarkReviewRequired now f q jid tok reason db))"

definition Postgres_call :: "jobCall \<Rightarrow> jobTable \<Rightarrow> (storeError + string) \<times> jobTable" where
  "Postgres_call c db =
     (case c of
        CallCommit newid now fault sid jt \<Rightarrow> Postgres_Commit newid now fault sid jt db
      | CallClaim newid now fault jid d \<Rightarrow> Postgres_Claim newid now fault jid d db
      | CallComplete now f q jid tok \<Rightarrow> map_prod (map_sum id (\<lambda>_. '''')) id (Postgres_Complete now f q jid tok db)
      | CallFail f q jid tok cause \<Rightarrow> map_prod (map_sum id (\<lambda>_. '''')) id (Postgres_Fail f q jid tok cause db)
      | CallReview now f q jid tok reason \<Rightarrow>
          map_prod (map_sum id (\<lambda>_. '''')) id (Postgres_MarkReviewRequired now f q jid tok reason db))"

text \<open>The calls that settle a lease: job, token, the status they set; and their statement errors.\<close>

fun settles :: "jobCall \<Rightarrow> (string \<times> string \<times> JobStatus) option" where
  "settles (CallComplete now f q j tok) = Some (j, tok, JobStatusCompleted)"
| "settles (CallFail f q j tok cause) = Some (j, tok, JobStatusFailed)"
| "settles (CallReview now f q j tok reason) = Some (j, tok, JobStatusReviewRequired)"
| "settles _ = None"

fun faultless :: "jobCall \<Rightarrow> bool" where
  "faultless (CallCommit newid now fault sid jt) = (fault = None)"
| "faultless (CallClaim newid now fault j d) = (fault = None)"
| "faultless (CallComplete now f q j tok) = (f = None \<and> q = None)"
| "faultless (CallFail f q j tok cause) = (f = None \<and> q = None)"
| "faultless (CallReview now f q j tok reason) = (f = None \<and> q = None)"

fun claimsJob :: "string \<Rightarrow> jobCall \<Rightarrow> bool" where
  "claimsJob j (CallClaim newid now fault k d) = (k = j)"
| "claimsJob j _ = False"

fun claimToken :: "jobCall \<Rightarrow> string option" where
  "claimToken (CallClaim newid now fault k d) = Some newid"
| "claimToken _ = None"

fun runCalls :: "(jobCall \<Rightarrow> 'db \<Rightarrow> 'res \<times> 'db) \<Rightarrow> jobCall list \<Rightarrow> 'db \<Rightarrow> 'db" where
  "runCalls call [] db = db"
| "runCalls call (c # cs) db = runCalls call cs (snd (call c db))"

fun successfulClaims ::
  "(jobCall \<Rightarrow> 'db \<Rightarrow> (storeError + string) \<times> 'db) \<Rightarrow> string \<Rightarrow> jobCall list \<Rightarrow> 'db \<Rightarrow> nat" where
  "successfulClaims call j [] db = 0"
| "successfulClaims call j (c # cs) db =
     (if claimsJob j c \<and> isr (fst (call c db)) then 1 else 0) +
     successfulClaims call j cs (snd (call c db))"

definition jobCount :: "('db \<Rightarrow> string \<Rightarrow> jobRow option) \<Rightarrow> 'db \<Rightarrow> string \<Rightarrow> int" where
  "jobCount lookup db j = (case lookup db j of None \<Rightarrow> 0 | Some r \<Rightarrow> job_claim_count r)"

definition jobToken :: "('db \<Rightarrow> string \<Rightarrow> jobRow option) \<Rightarrow> 'db \<Rightarrow> string \<Rightarrow> string option" where
  "jobToken lookup db j = Option.bind (lookup db j) job_claim_token"

definition jobStatus :: "('db \<Rightarrow> string \<Rightarrow> jobRow option) \<Rightarrow> 'db \<Rightarrow> string \<Rightarrow> JobStatus option" where
  "jobStatus lookup db j = map_option job_status (lookup db j)"

locale job_store =
  fixes call :: "jobCall \<Rightarrow> 'db \<Rightarrow> (storeError + string) \<times> 'db"
    and lookup :: "'db \<Rightarrow> string \<Rightarrow> jobRow option"
    and wf :: "'db \<Rightarrow> bool"
  assumes wf_call: "wf db \<Longrightarrow> wf (snd (call c db))"
    and error_unchanged: "call c db = (Inl e, db') \<Longrightarrow> db' = db"
    and commit_ok: "wf db \<Longrightarrow> call (CallCommit newid now fault sid jt) db = (Inr x, db') \<Longrightarrow>
        x = newid \<and> lookup db newid = None \<and> jobStatus lookup db' newid = Some JobStatusPending \<and>
        jobToken lookup db' newid = None \<and> jobCount lookup db' newid = 0 \<and>
        (\<forall>k. k \<noteq> newid \<longrightarrow> lookup db' k = lookup db k)"
    and claim_ok: "wf db \<Longrightarrow> call (CallClaim newid now fault j d) db = (Inr x, db') \<Longrightarrow>
        x = newid \<and>
        jobStatus lookup db j \<in> Some ` {JobStatusPending, JobStatusFailed, JobStatusRunning} \<and>
        jobStatus lookup db' j = Some JobStatusRunning \<and> jobToken lookup db' j = Some newid \<and>
        jobCount lookup db j < MaxClaimCount \<and> jobCount lookup db' j = jobCount lookup db j + 1 \<and>
        (\<forall>k. k \<noteq> j \<longrightarrow> lookup db' k = lookup db k)"
    and settle_ok: "wf db \<Longrightarrow> settles c = Some (j, tok, st) \<Longrightarrow> call c db = (Inr x, db') \<Longrightarrow>
        jobToken lookup db j = Some tok \<and> jobToken lookup db' j = Some tok \<and>
        jobStatus lookup db' j = Some st \<and> jobCount lookup db' j = jobCount lookup db j \<and>
        (\<forall>k. k \<noteq> j \<longrightarrow> lookup db' k = lookup db k)"
    and settle_fenced: "wf db \<Longrightarrow> settles c = Some (j, tok, st) \<Longrightarrow> faultless c \<Longrightarrow>
        lookup db j \<noteq> None \<Longrightarrow> jobToken lookup db j \<noteq> Some tok \<Longrightarrow>
        call c db = (Inl ErrClaimFenced, db)"
    and settle_holds: "wf db \<Longrightarrow> settles c = Some (j, tok, st) \<Longrightarrow> faultless c \<Longrightarrow>
        jobToken lookup db j = Some tok \<Longrightarrow> isr (fst (call c db))"
begin

lemma call_cases:
  assumes "wf db"
  obtains (err) e where "call c db = (Inl e, db)"
    | (commit) newid now fault sid jt db' where "c = CallCommit newid now fault sid jt"
        "call c db = (Inr newid, db')"
    | (claim) newid now fault j d db' where "c = CallClaim newid now fault j d"
        "call c db = (Inr newid, db')"
    | (settle) j tok st x db' where "settles c = Some (j, tok, st)" "call c db = (Inr x, db')"
proof -
  obtain r db' where r: "call c db = (r, db')" by fastforce
  show thesis
  proof (cases r)
    case (Inl e)
    with r have "call c db = (Inl e, db)" using error_unchanged by blast
    then show ?thesis by (rule err)
  next
    case (Inr x)
    with r have ok: "call c db = (Inr x, db')" by simp
    show ?thesis
    proof (cases c)
      case (CallCommit newid now fault sid jt)
      with ok assms have "x = newid" using commit_ok by blast
      with ok have "call c db = (Inr newid, db')" by simp
      with CallCommit show ?thesis by (rule commit)
    next
      case (CallClaim newid now fault j d)
      with ok assms have "x = newid" using claim_ok by blast
      with ok have "call c db = (Inr newid, db')" by simp
      with CallClaim show ?thesis by (rule claim)
    qed (use ok settle in \<open>force\<close>)+
  qed
qed

text \<open>A token that is not the job's can only become the job's through a claim that draws it.\<close>

lemma token_only_by_claim:
  assumes "wf db" "jobToken lookup db j \<noteq> Some tok" "claimToken c \<noteq> Some tok"
  shows "jobToken lookup (snd (call c db)) j \<noteq> Some tok"
  using assms(1)
proof (cases rule: call_cases [of db c])
  case (commit newid now fault sid jt db')
  with assms show ?thesis
    using commit_ok [OF assms(1), of newid now fault sid jt newid db']
    by (cases "j = newid") (auto simp: jobToken_def)
next
  case (claim newid now fault k d db')
  with assms show ?thesis
    using claim_ok [OF assms(1), of newid now fault k d newid db']
    by (cases "j = k") (auto simp: jobToken_def)
next
  case (settle k tok' st x db')
  with assms show ?thesis
    using settle_ok [OF assms(1) settle] by (cases "j = k") (auto simp: jobToken_def)
qed (use assms in auto)

lemma lookup_persists:
  assumes "wf db" "lookup db j \<noteq> None"
  shows "lookup (snd (call c db)) j \<noteq> None"
  using assms(1)
proof (cases rule: call_cases [of db c])
  case (commit newid now fault sid jt db')
  with assms show ?thesis
    using commit_ok [OF assms(1), of newid now fault sid jt newid db']
    by (cases "j = newid") (auto simp: jobStatus_def)
next
  case (claim newid now fault k d db')
  with assms show ?thesis
    using claim_ok [OF assms(1), of newid now fault k d newid db']
    by (cases "j = k") (auto simp: jobStatus_def)
next
  case (settle k tok' st x db')
  with assms show ?thesis
    using settle_ok [OF assms(1) settle] by (cases "j = k") (auto simp: jobStatus_def)
qed (use assms in auto)

lemma fenced_forever:
  assumes "wf db" "lookup db j \<noteq> None" "jobToken lookup db j \<noteq> Some tok"
    and "\<forall>c \<in> set cs. claimToken c \<noteq> Some tok"
    and "settles c = Some (j, tok, st)" "faultless c"
  shows "call c (runCalls call cs db) = (Inl ErrClaimFenced, runCalls call cs db)"
  using assms(1-4)
proof (induction cs arbitrary: db)
  case Nil
  then show ?case using settle_fenced assms(5,6) by simp
next
  case (Cons a cs)
  then have "wf (snd (call a db))" "lookup (snd (call a db)) j \<noteq> None"
    "jobToken lookup (snd (call a db)) j \<noteq> Some tok"
    using wf_call lookup_persists token_only_by_claim by auto
  with Cons show ?case by simp
qed

text \<open>
  A job that is completed or under review is not leased again, and without a call of the
  worker that settled it its row never changes.
\<close>

lemma settled_step:
  assumes "wf db" "jobStatus lookup db j \<in> Some ` {JobStatusCompleted, JobStatusReviewRequired}"
    and "\<And>tok st. settles c = Some (j, tok, st) \<Longrightarrow> jobToken lookup db j \<noteq> Some tok"
  shows "lookup (snd (call c db)) j = lookup db j" "\<not> (claimsJob j c \<and> isr (fst (call c db)))"
proof -
  have "lookup (snd (call c db)) j = lookup db j \<and> \<not> (claimsJob j c \<and> isr (fst (call c db)))"
    using assms(1)
  proof (cases rule: call_cases [of db c])
    case (commit newid now fault sid jt db')
    with assms show ?thesis
      using commit_ok [OF assms(1), of newid now fault sid jt newid db']
      by (cases "j = newid") (auto simp: jobStatus_def)
  next
    case (claim newid now fault k d db')
    with assms show ?thesis
      using claim_ok [OF assms(1), of newid now fault k d newid db'] by (cases "j = k") auto
  next
    case (settle k tok' st x db')
    then have "\<not> claimsJob j c" by (cases c) auto
    with assms settle show ?thesis
      using settle_ok [OF assms(1) settle] by (cases "j = k") auto
  qed simp
  then show "lookup (snd (call c db)) j = lookup db j" "\<not> (claimsJob j c \<and> isr (fst (call c db)))"
    by blast+
qed

lemma settled_forever:
  assumes "wf db" "jobStatus lookup db j \<in> Some ` {JobStatusCompleted, JobStatusReviewRequired}"
    and "\<forall>c \<in> set cs. \<forall>tok st. settles c = Some (j, tok, st) \<longrightarrow> jobToken lookup db j \<noteq> Some tok"
  shows "lookup (runCalls call cs db) j = lookup db j \<and> successfulClaims call j cs db = 0"
  using assms
proof (induction cs arbitrary: db)
  case (Cons c cs)
  have s: "lookup (snd (call c db)) j = lookup db j" "\<not> (claimsJob j c \<and> isr (fst (call c db)))"
    using settled_step [OF Cons.prems(1,2), of c] Cons.prems(3) by auto
  moreover from s have "jobStatus lookup (snd (call c db)) j = jobStatus lookup db j"
    "jobToken lookup (snd (call c db)) j = jobToken lookup db j"
    by (simp_all add: jobStatus_def jobToken_def)
  ultimately show ?case
    using Cons.IH [OF wf_call [OF Cons.prems(1), of c]] Cons.prems(2,3) by auto
qed simp

lemma count_step:
  assumes "wf db" "jobCount lookup db j \<le> MaxClaimCount"
  shows "jobCount lookup (snd (call c db)) j =
           jobCount lookup db j + (if claimsJob j c \<and> isr (fst (call c db)) then 1 else 0)"
    and "jobCount lookup (snd (call c db)) j \<le> MaxClaimCount"
proof -
  have "jobCount lookup (snd (call c db)) j =
           jobCount lookup db j + (if claimsJob j c \<and> isr (fst (call c db)) then 1 else 0) \<and>
        jobCount lookup (snd (call c db)) j \<le> MaxClaimCount"
    using assms(1)
  proof (cases rule: call_cases [of db c])
    case (commit newid now fault sid jt db')
    with assms show ?thesis
      using commit_ok [OF assms(1), of newid now fault sid jt newid db']
      by (cases "j = newid") (auto simp: jobCount_def)
  next
    case (claim newid now fault k d db')
    with assms show ?thesis
      using claim_ok [OF assms(1), of newid now fault k d newid db']
      by (cases "j = k") (auto simp: jobCount_def)
  next
    case (settle k tok' st x db')
    with assms have "\<not> claimsJob j c" by (cases c) auto
    with assms settle show ?thesis
      using settle_ok [OF assms(1) settle] by (cases "j = k") (auto simp: jobCount_def)
  qed (use assms in auto)
  then show "jobCount lookup (snd (call c db)) j =
           jobCount lookup db j + (if claimsJob j c \<and> isr (fst (call c db)) then 1 else 0)"
    "jobCount lookup (snd (call c db)) j \<le> MaxClaimCount" by blast+
qed

lemma claims_bounded:
  assumes "wf db" "jobCount lookup db j \<le> MaxClaimCount"
  shows "jobCount lookup db j + int (successfulClaims call j cs db) \<le> MaxClaimCount"
  using assms
proof (induction cs arbitrary: db)
  case (Cons c cs)
  from Cons.IH [OF wf_call [OF Cons.prems(1), of c] count_step(2) [OF Cons.prems, of c]]
  show ?case using count_step(1) [OF Cons.prems, of c] by (auto split: if_splits)
qed simp

end

section \<open>Both implementations provide the interface\<close>

definition jobOf :: "jobTable \<Rightarrow> string \<Rightarrow> jobRow option" where
  "jobOf rows j = find (\<lambda>r. job_id r = j) rows"

definition wfJobs :: "jobTable \<Rightarrow> bool" where
  "wfJobs rows \<longleftrightarrow> distinct (map job_id rows)"

lemma jobOf_Nil [simp]: "jobOf [] j = None"
  by (simp add: jobOf_def)

lemma jobOf_Cons [simp]: "jobOf (r # rs) j = (if job_id r = j then Some r else jobOf rs j)"
  by (simp add: jobOf_def)

lemma jobOf_id: "jobOf rows j = Some r \<Longrightarrow> job_id r = j"
  by (induction rows) (auto split: if_splits)

lemma jobOf_None_iff: "jobOf rows j = None \<longleftrightarrow> j \<notin> job_id ` set rows"
  by (induction rows) auto

lemma jobOf_in: "jobOf rows j = Some r \<Longrightarrow> r \<in> set rows"
  by (induction rows) (auto split: if_splits)

lemma jobOf_unique: "wfJobs rows \<Longrightarrow> r \<in> set rows \<Longrightarrow> jobOf rows (job_id r) = Some r"
  by (induction rows) (auto simp: wfJobs_def)

lemma jobOf_append: "jobOf (rows @ [r]) j = (case jobOf rows j of None \<Rightarrow> if job_id r = j then Some r else None | Some x \<Rightarrow> Some x)"
  by (induction rows) auto

lemma jobOf_map:
  "(\<And>r. job_id (f r) = job_id r) \<Longrightarrow> jobOf (map f rows) j = map_option f (jobOf rows j)"
  by (induction rows) auto

lemma filter_job_empty:
  assumes "wfJobs rows" "\<And>r. p r \<Longrightarrow> job_id r = j"
  shows "filter p rows = [] \<longleftrightarrow> (case jobOf rows j of None \<Rightarrow> True | Some r \<Rightarrow> \<not> p r)"
proof (cases "jobOf rows j")
  case None
  then have "\<not> p r" if "r \<in> set rows" for r
    using assms(2) [of r] that by (auto simp: jobOf_None_iff)
  with None show ?thesis by (simp add: filter_empty_conv)
next
  case (Some r)
  have "x = r" if "x \<in> set rows" "p x" for x
    using jobOf_unique [OF assms(1) that(1)] assms(2) [OF that(2)] Some by simp
  with Some show ?thesis by (auto simp: filter_empty_conv dest: jobOf_in)
qed

text \<open>
  An update of one job of a well-formed table: what it returns and what it leaves, in terms of
  the job's row.
\<close>

lemma sqlUpdate_job:
  assumes "wfJobs rows" "\<And>r. p r \<Longrightarrow> job_id r = j" "\<And>r. job_id (f r) = job_id r"
    and "sqlUpdate p f rows = (rows', n)"
  shows "wfJobs rows'"
    and "n = 0 \<longleftrightarrow> (case jobOf rows j of None \<Rightarrow> True | Some r \<Rightarrow> \<not> p r)"
    and "n = 0 \<Longrightarrow> rows' = rows"
    and "jobOf rows' k = map_option (\<lambda>r. if p r then f r else r) (jobOf rows k)"
    and "k \<noteq> j \<Longrightarrow> jobOf rows' k = jobOf rows k"
proof -
  from assms(4) have rows': "rows' = map (\<lambda>r. if p r then f r else r) rows"
    and n: "n = length (filter p rows)"
    by (auto simp: sqlUpdate_def)
  have "map job_id rows' = map job_id rows" by (simp add: rows' assms(3))
  with assms(1) show "wfJobs rows'" by (simp only: wfJobs_def)
  show "n = 0 \<longleftrightarrow> (case jobOf rows j of None \<Rightarrow> True | Some r \<Rightarrow> \<not> p r)"
    using filter_job_empty [OF assms(1), of p j] assms(2) by (simp add: n)
  show "rows' = rows" if "n = 0"
    using that by (simp add: rows' n filter_empty_conv map_idI)
  show lk: "jobOf rows' k = map_option (\<lambda>r. if p r then f r else r) (jobOf rows k)" for k
    by (simp add: rows' jobOf_map assms(3))
  show "jobOf rows' k = jobOf rows k" if "k \<noteq> j"
    using that assms(2) jobOf_id [of rows k] by (cases "jobOf rows k") (auto simp: lk)
qed

lemma claimable_id: "claimable j th r \<Longrightarrow> job_id r = j"
  by (simp add: claimable_def)

lemma claimRow_simps [simp]:
  "job_id (claimRow tok t r) = job_id r"
  "job_status (claimRow tok t r) = JobStatusRunning"
  "job_started_at (claimRow tok t r) = Some t"
  "job_claim_token (claimRow tok t r) = Some tok"
  "job_claim_count (claimRow tok t r) = job_claim_count r + 1"
  "job_created_at (claimRow tok t r) = job_created_at r"
  by (simp_all add: claimRow_def)

lemma holds_id: "holds j tok r \<Longrightarrow> job_id r = j"
  by (simp add: holds_def)

lemmas job_views = jobToken_def jobStatus_def jobCount_def

text \<open>The lease and the settlement, for any threshold and any row update with the fence.\<close>

lemma claim_update:
  assumes "wfJobs db" "sqlUpdate (claimable j th) (claimRow tok t) db = (db', n)" "n \<noteq> 0"
  shows "jobStatus jobOf db j \<in> Some ` {JobStatusPending, JobStatusFailed, JobStatusRunning} \<and>
    jobStatus jobOf db' j = Some JobStatusRunning \<and> jobToken jobOf db' j = Some tok \<and>
    jobCount jobOf db j < MaxClaimCount \<and> jobCount jobOf db' j = jobCount jobOf db j + 1 \<and>
    (\<forall>k. k \<noteq> j \<longrightarrow> jobOf db' k = jobOf db k)"
proof -
  note u = sqlUpdate_job [where j = j, OF assms(1) claimable_id [of j th] claimRow_simps(1) assms(2), simplified]
  from u(2) assms(3) obtain r where r: "jobOf db j = Some r" "claimable j th r"
    by (auto split: option.splits)
  then have "jobOf db' j = Some (claimRow tok t r)" using u(4) [of j] by simp
  with r u(5) show ?thesis by (auto simp: job_views claimable_def)
qed

lemma settle_update:
  assumes "wfJobs db" "sqlUpdate (holds j tok) f db = (db', n)"
    and "\<And>r. job_id (f r) = job_id r" "\<And>r. job_claim_token (f r) = job_claim_token r"
    and "\<And>r. job_claim_count (f r) = job_claim_count r" "\<And>r. job_status (f r) = st"
  shows "wfJobs db'"
    and "n \<noteq> 0 \<Longrightarrow> jobToken jobOf db j = Some tok \<and> jobToken jobOf db' j = Some tok \<and>
      jobStatus jobOf db' j = Some st \<and> jobCount jobOf db' j = jobCount jobOf db j \<and>
      (\<forall>k. k \<noteq> j \<longrightarrow> jobOf db' k = jobOf db k)"
    and "n = 0 \<longleftrightarrow> jobToken jobOf db j \<noteq> Some tok"
    and "n = 0 \<Longrightarrow> db' = db"
proof -
  note u = sqlUpdate_job [where j = j, OF assms(1) holds_id [of j tok] assms(3) assms(2), simplified]
  show "wfJobs db'" by (rule u(1))
  show "n = 0 \<Longrightarrow> db' = db" by (rule u(3))
  show z: "n = 0 \<longleftrightarrow> jobToken jobOf db j \<noteq> Some tok"
    using u(2) jobOf_id [of db j]
    by (cases "jobOf db j") (auto simp: jobToken_def holds_def)
  show "jobToken jobOf db j = Some tok \<and> jobToken jobOf db' j = Some tok \<and>
      jobStatus jobOf db' j = Some st \<and> jobCount jobOf db' j = jobCount jobOf db j \<and>
      (\<forall>k. k \<noteq> j \<longrightarrow> jobOf db' k = jobOf db k)" if "n \<noteq> 0"
  proof -
    from that z obtain r where r: "jobOf db j = Some r" "job_claim_token r = Some tok"
      by (auto simp: jobToken_def bind_eq_Some_conv)
    then have "holds j tok r" using jobOf_id [of db j] by (simp add: holds_def)
    with r u(4) [of j] have "jobOf db' j = Some (f r)" by simp
    with r u(5) show ?thesis by (simp add: job_views assms(4-6))
  qed
qed

lemma sqlUpdate_claim_wf:
  "wfJobs db \<Longrightarrow> sqlUpdate (claimable j th) (claimRow tok t) db = (db', n) \<Longrightarrow>
   wfJobs db' \<and> (n = 0 \<longrightarrow> db' = db)"
proof -
  assume "wfJobs db" and eq: "sqlUpdate (claimable j th) (claimRow tok t) db = (db', n)"
  from sqlUpdate_job(1,3) [where j = j, OF this(1) claimable_id [of j th] claimRow_simps(1) eq]
  show ?thesis by blast
qed

lemmas sqlite_ops = SQLite_call_def SQLite_Commit_def SQLite_Claim_def SQLite_Complete_def
  SQLite_Fail_def SQLite_MarkReviewRequired_def

lemmas postgres_ops = Postgres_call_def Postgres_Commit_def Postgres_Claim_def Postgres_Complete_def
  Postgres_Fail_def Postgres_MarkReviewRequired_def

text \<open>
  What both dialects do, with the clock reading \<open>t\<close> they store, the threshold \<open>th\<close> they compare
  with and their texts for a missing row left open. The call of either dialect is an instance.
\<close>

fun genericCall ::
  "(time \<Rightarrow> time) \<Rightarrow> (time \<Rightarrow> duration \<Rightarrow> time option) \<Rightarrow> error \<Rightarrow>
   jobCall \<Rightarrow> jobTable \<Rightarrow> (storeError + string) \<times> jobTable" where
  "genericCall clk th dup (CallCommit newid now fault sid jt) db =
     (case fault of
        Some e \<Rightarrow> (Inl (ErrDB e), db)
      | None \<Rightarrow>
          if newid \<in> job_id ` set db then (Inl (ErrDB dup), db)
          else (Inr newid,
                db @ [\<lparr> job_id = newid, job_session_id = sid, job_status = JobStatusPending,
                        job_type = jt, job_started_at = None, job_completed_at = None,
                        job_error_message = None, job_retry_count = 0, job_claim_token = None,
                        job_claim_count = 0, job_created_at = clk now \<rparr>]))"
| "genericCall clk th dup (CallClaim newid now fault j d) db =
     (case fault of
        Some e \<Rightarrow> (Inl (ErrDB e), db)
      | None \<Rightarrow>
          (let (db', n) = sqlUpdate (claimable j (th now d)) (claimRow newid (clk now)) db
           in if n = 0 then (Inl ErrJobNotPending, db') else (Inr newid, db')))"
| "genericCall clk th dup (CallComplete now f q j tok) db =
     (case f of
        Some e \<Rightarrow> (Inl (ErrDB e), db)
      | None \<Rightarrow>
          (let (db', n) = sqlUpdate (holds j tok)
                (\<lambda>r. r\<lparr>job_status := JobStatusCompleted, job_completed_at := Some (clk now)\<rparr>) db
           in if n = 0 then (Inl (SQLite_fencedOrNotFound q j db'), db') else (Inr '''', db')))"
| "genericCall clk th dup (CallFail f q j tok cause) db =
     (case f of
        Some e \<Rightarrow> (Inl (ErrDB e), db)
      | None \<Rightarrow>
          (let (db', n) = sqlUpdate (holds j tok)
                (\<lambda>r. r\<lparr>job_status := JobStatusFailed, job_error_message := Some cause,
                       job_retry_count := job_retry_count r + 1\<rparr>) db
           in if n = 0 then (Inl (SQLite_fencedOrNotFound q j db'), db') else (Inr '''', db')))"
| "genericCall clk th dup (CallReview now f q j tok reason) db =
     (case f of
        Some e \<Rightarrow> (Inl (ErrDB e), db)
      | None \<Rightarrow>
          (let (db', n) = sqlUpdate (holds j tok)
                (\<lambda>r. r\<lparr>job_status := JobStatusReviewRequired, job_error_message := Some reason,
                       job_completed_at := Some (clk now)\<rparr>) db
           in if n = 0 then (Inl (SQLite_fencedOrNotFound q j db'), db') else (Inr '''', db')))"

lemma SQLite_call_generic:
  "SQLite_call = genericCall sqliteNow sqliteThreshold ''UNIQUE constraint failed: metabolism_jobs.id''"
proof (intro ext)
  fix c db
  show "SQLite_call c db =
      genericCall sqliteNow sqliteThreshold ''UNIQUE constraint failed: metabolism_jobs.id'' c db"
    by (cases c) (simp_all add: sqlite_ops Let_def split_def split: option.split)
qed

lemma Postgres_call_generic:
  "Postgres_call = genericCall (\<lambda>t. t) postgresThreshold ''duplicate key value violates unique constraint''"
proof (intro ext)
  fix c db
  show "Postgres_call c db =
      genericCall (\<lambda>t. t) postgresThreshold ''duplicate key value violates unique constraint'' c db"
    by (cases c) (simp_all add: postgres_ops Postgres_fencedOrNotFound_def SQLite_fencedOrNotFound_def
        Let_def split_def split: option.split)
qed

text \<open>A settling call of either dialect, as the fenced update it performs.\<close>

lemma genericCall_settle:
  assumes "settles c = Some (j, tok, st)"
  obtains f e q where
    "\<And>r. job_id (f r) = job_id r" "\<And>r. job_claim_token (f r) = job_claim_token r"
    "\<And>r. job_claim_count (f r) = job_claim_count r" "\<And>r. job_status (f r) = st"
    "\<And>db. genericCall clk th dup c db =
       (case e of Some x \<Rightarrow> (Inl (ErrDB x), db)
        | None \<Rightarrow> (let (db', n) = sqlUpdate (holds j tok) f db
                   in if n = 0 then (Inl (SQLite_fencedOrNotFound q j db'), db') else (Inr '''', db')))"
    "faultless c \<longleftrightarrow> e = None \<and> q = None"
proof (cases c)
  case (CallComplete now f q j' tok')
  with assms show ?thesis
    by (intro that [where f = "\<lambda>r. r\<lparr>job_status := JobStatusCompleted, job_completed_at := Some (clk now)\<rparr>"
          and e = f and q = q]) auto
next
  case (CallFail f q j' tok' cause)
  with assms show ?thesis
    by (intro that [where f = "\<lambda>r. r\<lparr>job_status := JobStatusFailed, job_error_message := Some cause,
                       job_retry_count := job_retry_count r + 1\<rparr>" and e = f and q = q]) auto
next
  case (CallReview now f q j' tok' reason)
  with assms show ?thesis
    by (intro that [where f = "\<lambda>r. r\<lparr>job_status := JobStatusReviewRequired, job_error_message := Some reason,
                       job_completed_at := Some (clk now)\<rparr>" and e = f and q = q]) auto
qed (use assms in auto)

lemma genericCall_job_store: "job_store (genericCall clk th dup) jobOf wfJobs"
proof
  fix c db assume wf: "wfJobs db"
  show "wfJobs (snd (genericCall clk th dup c db))"
  proof (cases "settles c")
    case None
    with wf show ?thesis
      by (cases c) (auto simp: Let_def wfJobs_def dest: sqlUpdate_claim_wf [unfolded wfJobs_def]
          split: option.split prod.split)
  next
    case (Some s)
    obtain j tok st where s: "s = (j, tok, st)" by (cases s) auto
    from Some show ?thesis unfolding s
    proof (rule genericCall_settle [where clk = clk and th = th and dup = dup])
      fix f e q
      assume "\<And>r. job_id (f r) = job_id r" "\<And>r. job_claim_token (f r) = job_claim_token r"
        "\<And>r. job_claim_count (f r) = job_claim_count r" "\<And>r. job_status (f r) = st"
        and eq: "\<And>db. genericCall clk th dup c db =
          (case e of Some x \<Rightarrow> (Inl (ErrDB x), db)
           | None \<Rightarrow> (let (db', n) = sqlUpdate (holds j tok) f db
                      in if n = 0 then (Inl (SQLite_fencedOrNotFound q j db'), db') else (Inr '''', db')))"
      then show ?thesis
        using wf settle_update(1) [OF wf, of j tok f]
        by (auto simp: Let_def split: option.split prod.split)
    qed
  qed
next
  fix c db e db' assume r: "genericCall clk th dup c db = (Inl e, db')"
  have unchanged: "rows' = rows" if "sqlUpdate p f rows = (rows', 0)" for p f and rows rows' :: jobTable
    using that by (auto simp: sqlUpdate_def filter_empty_conv map_idI)
  from r show "db' = db"
    by (cases c) (auto simp: Let_def dest: unchanged split: option.splits prod.splits if_splits)
next
  fix db newid now fault sid jt x db'
  assume "wfJobs db" "genericCall clk th dup (CallCommit newid now fault sid jt) db = (Inr x, db')"
  then show "x = newid \<and> jobOf db newid = None \<and> jobStatus jobOf db' newid = Some JobStatusPending \<and>
      jobToken jobOf db' newid = None \<and> jobCount jobOf db' newid = 0 \<and>
      (\<forall>k. k \<noteq> newid \<longrightarrow> jobOf db' k = jobOf db k)"
    using jobOf_None_iff [of db newid]
    by (auto simp: job_views jobOf_append split: option.splits if_splits)
next
  fix db newid now fault j d x db'
  assume wf: "wfJobs db" and r: "genericCall clk th dup (CallClaim newid now fault j d) db = (Inr x, db')"
  from r obtain n where "sqlUpdate (claimable j (th now d)) (claimRow newid (clk now)) db = (db', n)"
    "n \<noteq> 0" "x = newid"
    by (auto simp: Let_def split: option.splits prod.splits if_splits)
  with claim_update [OF wf this(1,2)]
  show "x = newid \<and> jobStatus jobOf db j \<in> Some ` {JobStatusPending, JobStatusFailed, JobStatusRunning} \<and>
      jobStatus jobOf db' j = Some JobStatusRunning \<and> jobToken jobOf db' j = Some newid \<and>
      jobCount jobOf db j < MaxClaimCount \<and> jobCount jobOf db' j = jobCount jobOf db j + 1 \<and>
      (\<forall>k. k \<noteq> j \<longrightarrow> jobOf db' k = jobOf db k)" by blast
next
  fix db c j tok st x db'
  assume wf: "wfJobs db" and s: "settles c = Some (j, tok, st)"
    and r: "genericCall clk th dup c db = (Inr x, db')"
  from s show "jobToken jobOf db j = Some tok \<and> jobToken jobOf db' j = Some tok \<and>
      jobStatus jobOf db' j = Some st \<and> jobCount jobOf db' j = jobCount jobOf db j \<and>
      (\<forall>k. k \<noteq> j \<longrightarrow> jobOf db' k = jobOf db k)"
  proof (rule genericCall_settle [where clk = clk and th = th and dup = dup])
    fix f e q
    assume f: "\<And>r. job_id (f r) = job_id r" "\<And>r. job_claim_token (f r) = job_claim_token r"
        "\<And>r. job_claim_count (f r) = job_claim_count r" "\<And>r. job_status (f r) = st"
      and eq: "\<And>db. genericCall clk th dup c db =
          (case e of Some x \<Rightarrow> (Inl (ErrDB x), db)
           | None \<Rightarrow> (let (db', n) = sqlUpdate (holds j tok) f db
                      in if n = 0 then (Inl (SQLite_fencedOrNotFound q j db'), db') else (Inr '''', db')))"
    from r obtain n where u: "sqlUpdate (holds j tok) f db = (db', n)" "n \<noteq> 0"
      by (auto simp: eq Let_def split: option.splits prod.splits if_splits)
    show ?thesis by (rule settle_update(2) [OF wf u(1) f u(2)])
  qed
next
  fix db c j tok st
  assume wf: "wfJobs db" and s: "settles c = Some (j, tok, st)" and "faultless c"
    and present: "jobOf db j \<noteq> None" and other: "jobToken jobOf db j \<noteq> Some tok"
  from s show "genericCall clk th dup c db = (Inl ErrClaimFenced, db)"
  proof (rule genericCall_settle [where clk = clk and th = th and dup = dup])
    fix f e q
    assume f: "\<And>r. job_id (f r) = job_id r" "\<And>r. job_claim_token (f r) = job_claim_token r"
        "\<And>r. job_claim_count (f r) = job_claim_count r" "\<And>r. job_status (f r) = st"
      and eq: "\<And>db. genericCall clk th dup c db =
          (case e of Some x \<Rightarrow> (Inl (ErrDB x), db)
           | None \<Rightarrow> (let (db', n) = sqlUpdate (holds j tok) f db
                      in if n = 0 then (Inl (SQLite_fencedOrNotFound q j db'), db') else (Inr '''', db')))"
      and nofault: "faultless c \<longleftrightarrow> e = None \<and> q = None"
    obtain db' n where u: "sqlUpdate (holds j tok) f db = (db', n)" by fastforce
    from settle_update(3,4) [OF wf u f] other have "n = 0" "db' = db" by simp_all
    with u \<open>faultless c\<close> present nofault show ?thesis
      by (simp add: eq SQLite_fencedOrNotFound_def jobOf_None_iff)
  qed
next
  fix db c j tok st
  assume wf: "wfJobs db" and s: "settles c = Some (j, tok, st)" and "faultless c"
    and token: "jobToken jobOf db j = Some tok"
  from s show "isr (fst (genericCall clk th dup c db))"
  proof (rule genericCall_settle [where clk = clk and th = th and dup = dup])
    fix f e q
    assume f: "\<And>r. job_id (f r) = job_id r" "\<And>r. job_claim_token (f r) = job_claim_token r"
        "\<And>r. job_claim_count (f r) = job_claim_count r" "\<And>r. job_status (f r) = st"
      and eq: "\<And>db. genericCall clk th dup c db =
          (case e of Some x \<Rightarrow> (Inl (ErrDB x), db)
           | None \<Rightarrow> (let (db', n) = sqlUpdate (holds j tok) f db
                      in if n = 0 then (Inl (SQLite_fencedOrNotFound q j db'), db') else (Inr '''', db')))"
      and nofault: "faultless c \<longleftrightarrow> e = None \<and> q = None"
    obtain db' n where u: "sqlUpdate (holds j tok) f db = (db', n)" by fastforce
    from settle_update(3) [OF wf u f] token have "n \<noteq> 0" by simp
    with u \<open>faultless c\<close> nofault show ?thesis by (simp add: eq)
  qed
qed

interpretation sqlite: job_store SQLite_call jobOf wfJobs
  unfolding SQLite_call_generic by (rule genericCall_job_store)

interpretation postgres: job_store Postgres_call jobOf wfJobs
  unfolding Postgres_call_generic by (rule genericCall_job_store)

section \<open>Properties\<close>

text \<open>What the two dialects share, so that a property of the interface is stated once for both.\<close>

lemma stores_job_store:
  "call \<in> {SQLite_call, Postgres_call} \<Longrightarrow> job_store call jobOf wfJobs"
  using sqlite.job_store_axioms postgres.job_store_axioms by blast

lemma wfJobs_Nil [simp]: "wfJobs []"
  by (simp add: wfJobs_def)

lemma jobCount_Nil [simp]: "jobCount jobOf [] j = 0"
  by (simp add: jobCount_def)

text \<open>
  C1. Fencing. Once a job's lease is not \<open>tok\<close> (it was never handed out, or the job was leased
  again), then after any interleaving \<open>cs\<close> of store calls of any workers that does not draw
  \<open>tok\<close> as a new token, a \<open>Complete\<close>, \<open>Fail\<close> or \<open>MarkReviewRequired\<close> presenting \<open>tok\<close> is
  answered with \<open>ErrClaimFenced\<close> and changes nothing, in both databases.
\<close>

theorem stale_lease_is_fenced:
  assumes "call \<in> {SQLite_call, Postgres_call}" "wfJobs db" "jobOf db j \<noteq> None"
    and "jobToken jobOf db j \<noteq> Some tok" "\<forall>c \<in> set cs. claimToken c \<noteq> Some tok"
    and "settles c = Some (j, tok, st)" "faultless c"
  shows "call c (runCalls call cs db) = (Inl ErrClaimFenced, runCalls call cs db)"
  using job_store.fenced_forever [OF stores_job_store [OF assms(1)] assms(2-7)] .

definition sampleCalls :: "jobCall list" where
  "sampleCalls = [CallCommit ''job'' 0 None ''s1'' ''metabolism'',
     CallClaim ''worker-a'' (10 * second) None ''job'' (5 * minute),
     CallClaim ''worker-b'' (400 * second) None ''job'' (5 * minute)]"

theorem stale_lease_is_fenced_witness:
  "SQLite_call (CallComplete (500 * second) None None ''job'' ''worker-a'')
     (runCalls SQLite_call [] (runCalls SQLite_call sampleCalls [])) =
   (Inl ErrClaimFenced, runCalls SQLite_call [] (runCalls SQLite_call sampleCalls []))"
  by (rule stale_lease_is_fenced [where st = JobStatusCompleted], simp)
    (simp_all add: sampleCalls_def sqlite_ops sqlUpdate_def claimable_def claimRow_def
      sqliteThreshold_def sqliteNow_def wholeSeconds_def wfJobs_def jobToken_def)

text \<open>
  C2. Bounded retries of crashing jobs. However the workers interleave, no job of a table that
  started empty is ever leased more than \<open>MaxClaimCount\<close> (five) times, in both databases.
\<close>

theorem job_leased_at_most_five_times:
  "successfulClaims SQLite_call j cs [] \<le> 5 \<and> successfulClaims Postgres_call j cs [] \<le> 5"
  using sqlite.claims_bounded [of "[]" j cs] postgres.claims_bounded [of "[]" j cs] by simp

text \<open>
  C13. Settled jobs stay settled. When a job is completed or under review, then whatever calls
  follow, as long as none of them presents the token of the worker that settled it, the job's
  row never changes and no claim of it succeeds.
\<close>

theorem settled_job_never_leased_again:
  assumes "call \<in> {SQLite_call, Postgres_call}" "wfJobs db"
    and "jobStatus jobOf db j \<in> Some ` {JobStatusCompleted, JobStatusReviewRequired}"
    and "\<forall>c \<in> set cs. \<forall>tok st. settles c = Some (j, tok, st) \<longrightarrow> jobToken jobOf db j \<noteq> Some tok"
  shows "jobOf (runCalls call cs db) j = jobOf db j \<and> successfulClaims call j cs db = 0"
  using job_store.settled_forever [OF stores_job_store [OF assms(1)] assms(2-4)] .

theorem settled_job_never_leased_again_witness:
  "jobOf (runCalls Postgres_call sampleCalls
      (runCalls Postgres_call [CallCommit ''job'' 0 None ''s1'' ''metabolism'',
         CallClaim ''w'' 1 None ''job'' 5, CallComplete 2 None None ''job'' ''w''] [])) ''job'' =
   jobOf (runCalls Postgres_call [CallCommit ''job'' 0 None ''s1'' ''metabolism'',
         CallClaim ''w'' 1 None ''job'' 5, CallComplete 2 None None ''job'' ''w''] []) ''job'' \<and>
   successfulClaims Postgres_call ''job'' sampleCalls
     (runCalls Postgres_call [CallCommit ''job'' 0 None ''s1'' ''metabolism'',
         CallClaim ''w'' 1 None ''job'' 5, CallComplete 2 None None ''job'' ''w''] []) = 0"
  by (rule settled_job_never_leased_again, simp)
    (simp_all add: sampleCalls_def postgres_ops sqlUpdate_def claimable_def claimRow_def
      holds_def postgresThreshold_def wholeSeconds_def wfJobs_def jobStatus_def)

text \<open>
  The lease window. A worker that leased the job at \<open>t\<close> keeps it to itself while the stale
  duration runs, and a crashed worker's job is free again once it is over.
\<close>

lemma claim_shape:
  assumes "wfJobs db" "genericCall clk th dup (CallClaim a t None j d) db = (Inr a, db')"
  obtains r where "jobOf db j = Some r" "claimable j (th t d) r" "jobOf db' j = Some (claimRow a (clk t) r)"
    "wfJobs db'"
proof -
  obtain rows n where u: "sqlUpdate (claimable j (th t d)) (claimRow a (clk t)) db = (rows, n)"
    by fastforce
  with assms(2) have "rows = db'" "n \<noteq> 0" by (auto split: if_splits)
  note x = sqlUpdate_job [where j = j, OF assms(1) claimable_id [of j "th t d"] claimRow_simps(1) u, simplified]
  from x(2) \<open>n \<noteq> 0\<close> obtain r where r: "jobOf db j = Some r" "claimable j (th t d) r"
    by (auto split: option.splits)
  with x(1) x(4) [of j] \<open>rows = db'\<close> show thesis by (intro that [of r]) simp_all
qed

lemma claim_result:
  assumes "wfJobs db" "jobOf db j = Some r"
  shows "fst (genericCall clk th dup (CallClaim b t None j d) db) =
    (if claimable j (th t d) r then Inr b else Inl ErrJobNotPending)"
proof -
  obtain rows n where u: "sqlUpdate (claimable j (th t d)) (claimRow b (clk t)) db = (rows, n)"
    by fastforce
  note x = sqlUpdate_job [where j = j, OF assms(1) claimable_id [of j "th t d"] claimRow_simps(1) u, simplified]
  from u x(2) assms(2) show ?thesis by (simp split: if_splits)
qed

lemma sqliteNow_shift: "t' \<le> t + n * second \<Longrightarrow> sqliteNow t' \<le> sqliteNow t + n * second"
proof -
  assume "t' \<le> t + n * second"
  then have "t' div second \<le> (t + n * second) div second" by (rule zdiv_mono1) simp
  then show ?thesis by (simp add: sqliteNow_def algebra_simps)
qed

lemma sqliteNow_shift_gt: "t + (n + 1) * second \<le> t' \<Longrightarrow> sqliteNow t + n * second < sqliteNow t'"
proof -
  assume "t + (n + 1) * second \<le> t'"
  then have "(t + (n + 1) * second) div second \<le> t' div second" by (rule zdiv_mono1) simp
  then show ?thesis by (simp add: sqliteNow_def algebra_simps)
qed

lemma generic_exclusive:
  assumes "wfJobs db" "genericCall clk th dup (CallClaim a t None j d) db = (Inr a, db')"
    and "\<And>x. th t' d' = Some x \<Longrightarrow> x \<le> clk t"
  shows "genericCall clk th dup (CallClaim b t' None j d') db' = (Inl ErrJobNotPending, db')"
proof -
  from assms(2) obtain r where r: "jobOf db' j = Some (claimRow a (clk t) r)" "wfJobs db'"
    by (rule claim_shape [OF assms(1)])
  have "\<not> claimable j (th t' d') (claimRow a (clk t) r)"
    using assms(3) by (auto simp: claimable_def split: option.splits)
  with claim_result [OF r(2,1), of clk th dup b t' d'] show ?thesis
    using job_store.error_unchanged [OF genericCall_job_store [of clk th dup]]
    by (simp add: prod_eq_iff del: genericCall.simps)
qed

lemma generic_reclaimed:
  assumes "wfJobs db" "genericCall clk th dup (CallClaim a t None j d) db = (Inr a, db')"
    and "jobCount jobOf db' j < MaxClaimCount" "th t' d' = Some x" "clk t < x"
  shows "fst (genericCall clk th dup (CallClaim b t' None j d') db') = Inr b"
proof -
  from assms(2) obtain r where r: "jobOf db j = Some r" "jobOf db' j = Some (claimRow a (clk t) r)" "wfJobs db'"
    by (rule claim_shape [OF assms(1)])
  have "claimable j (th t' d') (claimRow a (clk t) r)"
    using assms(3-5) r(2) jobOf_id [OF r(1)] by (auto simp: claimable_def jobCount_def)
  with claim_result [OF r(3,2), of clk th dup b t' d'] show ?thesis by (simp del: genericCall.simps)
qed

text \<open>
  Lease exclusion. After a successful claim at \<open>t\<close>, every claim of the same job up to
  \<open>staleDuration\<close> (in whole seconds) later is refused with \<open>ErrJobNotPending\<close> and leaves the
  table as it was, in both databases.
\<close>

theorem lease_is_exclusive:
  assumes "call \<in> {SQLite_call, Postgres_call}" "wfJobs db"
    and "call (CallClaim a t None j d) db = (Inr a, db')"
    and "0 \<le> d'" "t' \<le> t + wholeSeconds d' * second"
  shows "call (CallClaim b t' None j d') db' = (Inl ErrJobNotPending, db')"
proof (cases "call = SQLite_call")
  case True
  with assms(3) sqliteNow_shift [OF assms(5)] show ?thesis
    unfolding SQLite_call_generic
    by (auto intro!: generic_exclusive [OF assms(2)] simp: sqliteThreshold_def Let_def
        simp del: genericCall.simps split: if_splits)
next
  case False
  with assms(1) have "call = Postgres_call" by simp
  with assms(3,5) show ?thesis
    unfolding Postgres_call_generic
    by (auto intro!: generic_exclusive [OF assms(2)] simp: postgresThreshold_def simp del: genericCall.simps)
qed

theorem lease_is_exclusive_witness:
  "SQLite_call (CallClaim ''b'' (290 * second) None ''job'' (5 * minute))
     (snd (SQLite_call (CallClaim ''a'' (10 * second) None ''job'' (5 * minute))
       (runCalls SQLite_call [CallCommit ''job'' 0 None ''s1'' ''metabolism''] []))) =
   (Inl ErrJobNotPending,
    snd (SQLite_call (CallClaim ''a'' (10 * second) None ''job'' (5 * minute))
       (runCalls SQLite_call [CallCommit ''job'' 0 None ''s1'' ''metabolism''] [])))"
  by (rule lease_is_exclusive
      [where a = "''a''" and t = "10 * second" and d = "5 * minute" and
         db = "runCalls SQLite_call [CallCommit ''job'' 0 None ''s1'' ''metabolism''] []"], simp)
    (simp_all add: sqlite_ops sqlUpdate_def claimable_def claimRow_def
      sqliteThreshold_def sqliteNow_def wholeSeconds_def wfJobs_def)



text \<open>
  The recovery queue. Without a database error \<open>Recoverable\<close> returns exactly the jobs that
  can still be worked on (pending, running or failed, with retries and leases left), each once,
  in the order of their creation, in both databases.
\<close>

theorem recoverable_exact:
  "\<exists>q. SQLite_Recoverable None m rows = Inr (map (\<lambda>r. (job_id r, job_session_id r, job_retry_count r)) q) \<and>
       Postgres_Recoverable None m rows = Inr (map (\<lambda>r. (job_id r, job_session_id r, job_retry_count r)) q) \<and>
       mset q = {# r \<in># mset rows. job_status r \<in> {JobStatusPending, JobStatusRunning, JobStatusFailed} \<and>
                    job_retry_count r < m \<and> job_claim_count r < MaxClaimCount #} \<and>
       sorted (map job_created_at q)"
  by (intro exI [of _ "sort_key job_created_at (filter (recoverableRow m) rows)"])
    (simp add: SQLite_Recoverable_def Postgres_Recoverable_def recoverableRow_def [abs_def] mset_filter)

text \<open>The calls whose clock reading is a whole second and whose stale duration is not negative.\<close>

fun wholeClock :: "jobCall \<Rightarrow> bool" where
  "wholeClock (CallCommit newid now fault sid jt) = (now mod second = 0)"
| "wholeClock (CallClaim newid now fault j d) = (now mod second = 0 \<and> 0 \<le> d)"
| "wholeClock (CallComplete now f q j tok) = (now mod second = 0)"
| "wholeClock (CallFail f q j tok cause) = True"
| "wholeClock (CallReview now f q j tok reason) = (now mod second = 0)"

lemma sqliteNow_whole: "now mod second = 0 \<Longrightarrow> sqliteNow now = now"
  using div_mult_mod_eq [of now second] by (simp add: sqliteNow_def)

lemma thresholds_agree:
  "now mod second = 0 \<Longrightarrow> 0 \<le> d \<Longrightarrow> sqliteThreshold now d = postgresThreshold now d"
  by (simp add: sqliteThreshold_def postgresThreshold_def wholeSeconds_def Let_def sqliteNow_whole)

lemma dialects_step: "wholeClock c \<Longrightarrow> snd (SQLite_call c db) = snd (Postgres_call c db)"
  unfolding SQLite_call_generic Postgres_call_generic
  by (cases c) (simp_all add: sqliteNow_whole thresholds_agree Let_def split: option.split prod.split)

text \<open>
  C15. The two databases implement the same store: on every sequence of calls whose clock
  readings are whole seconds and whose stale durations are not negative, they reach the same
  table. (Below one second SQLite's clock is coarser.)
\<close>

theorem sqlite_postgres_agree:
  assumes "\<forall>c \<in> set cs. wholeClock c"
  shows "runCalls SQLite_call cs db = runCalls Postgres_call cs db"
  using assms by (induction cs arbitrary: db) (simp_all add: dialects_step)

theorem sqlite_postgres_agree_witness:
  "runCalls SQLite_call sampleCalls [] = runCalls Postgres_call sampleCalls []"
  by (rule sqlite_postgres_agree) (simp add: sampleCalls_def)


end
