(* ===== verification/Utf8.thy ===== *)
theory Utf8
  imports Prelude
begin

text \<open>
  Text as Go sees it: \<open>for _, r := range s\<close> decodes the bytes of a string into code points
  (runes), an invalid byte giving U+FFFD and advancing by one byte; \<open>Builder.WriteRune\<close> encodes
  a code point. \<open>strings.ToLower\<close> works bytewise on ASCII text and through the case table of
  the \<open>unicode\<close> package otherwise; the table is the argument \<open>lowerRune\<close>.
\<close>

type_synonym rune = nat

abbreviation (input) RuneError :: rune where "RuneError \<equiv> 0xFFFD"

definition between :: "nat \<Rightarrow> nat \<Rightarrow> char \<Rightarrow> bool" where
  "between lo hi c \<longleftrightarrow> lo \<le> of_char c \<and> of_char c \<le> hi"

abbreviation cont :: "char \<Rightarrow> bool" where "cont \<equiv> between 0x80 0xBF"

definition low6 :: "char \<Rightarrow> nat" where "low6 c = of_char c - 0x80"

text \<open>\<open>utf8.DecodeRuneInString\<close>: the rune and the rest of the string.\<close>

fun decodeRune :: "string \<Rightarrow> rune \<times> string" where
  "decodeRune [] = (RuneError, [])"
| "decodeRune (c # s) =
     (let b = of_char c in
      if b < 0x80 then (b, s)
      else if 0xC2 \<le> b \<and> b \<le> 0xDF then
        (case s of c1 # s1 \<Rightarrow> if cont c1 then ((b - 0xC0) * 64 + low6 c1, s1) else (RuneError, s)
         | [] \<Rightarrow> (RuneError, s))
      else if 0xE0 \<le> b \<and> b \<le> 0xEF then
        (case s of
           c1 # c2 # s2 \<Rightarrow>
             if between (if b = 0xE0 then 0xA0 else 0x80) (if b = 0xED then 0x9F else 0xBF) c1 \<and> cont c2
             then ((b - 0xE0) * 4096 + low6 c1 * 64 + low6 c2, s2) else (RuneError, s)
         | _ \<Rightarrow> (RuneError, s))
      else if 0xF0 \<le> b \<and> b \<le> 0xF4 then
        (case s of
           c1 # c2 # c3 # s3 \<Rightarrow>
             if between (if b = 0xF0 then 0x90 else 0x80) (if b = 0xF4 then 0x8F else 0xBF) c1 \<and>
                cont c2 \<and> cont c3
             then ((b - 0xF0) * 262144 + low6 c1 * 4096 + low6 c2 * 64 + low6 c3, s3)
             else (RuneError, s)
         | _ \<Rightarrow> (RuneError, s))
      else (RuneError, s))"

declare decodeRune.simps(2) [simp del]

lemma decodeRune_shorter: "length (snd (decodeRune (c # s))) \<le> length s"
  by (auto simp: decodeRune.simps Let_def split: list.splits)

text \<open>The runes a \<open>range\<close> loop visits.\<close>

function runes :: "string \<Rightarrow> rune list" where
  "runes [] = []"
| "runes (c # s) = fst (decodeRune (c # s)) # runes (snd (decodeRune (c # s)))"
  by pat_completeness auto
termination
  by (relation "measure length") (use decodeRune_shorter in \<open>auto simp: less_Suc_eq_le\<close>)

text \<open>\<open>utf8.AppendRune\<close>, as \<open>WriteRune\<close> uses it: what is not a scalar value becomes U+FFFD.\<close>

definition validRune :: "rune \<Rightarrow> bool" where
  "validRune r \<longleftrightarrow> r < 0xD800 \<or> (0xE000 \<le> r \<and> r < 0x110000)"

definition encodeRune :: "rune \<Rightarrow> string" where
  "encodeRune r =
     (if r < 0x80 then [char_of r]
      else if r < 0x800 then [char_of (0xC0 + r div 64), char_of (0x80 + r mod 64)]
      else if \<not> validRune r then [CHR 0xEF, CHR 0xBF, CHR 0xBD]
      else if r < 0x10000 then
        [char_of (0xE0 + r div 4096), char_of (0x80 + r div 64 mod 64), char_of (0x80 + r mod 64)]
      else [char_of (0xF0 + r div 262144), char_of (0x80 + r div 4096 mod 64),
            char_of (0x80 + r div 64 mod 64), char_of (0x80 + r mod 64)])"

definition encodeRunes :: "rune list \<Rightarrow> string" where
  "encodeRunes rs = concat (map encodeRune rs)"

section \<open>Round trip\<close>

lemma split4096: "r div 4096 * 4096 + r div 64 mod 64 * 64 + r mod 64 = (r :: nat)"
proof -
  have "r div 64 div 64 = r div 4096" by (simp add: div_mult2_eq [symmetric])
  with div_mult_mod_eq [of r 64] div_mult_mod_eq [of "r div 64" 64] show ?thesis by linarith
qed

lemma split262144:
  "r div 262144 * 262144 + r div 4096 mod 64 * 4096 + r div 64 mod 64 * 64 + r mod 64 = (r :: nat)"
proof -
  have "r div 4096 div 64 = r div 262144" by (simp add: div_mult2_eq [symmetric])
  with split4096 [of r] div_mult_mod_eq [of "r div 4096" 64] show ?thesis by linarith
qed

lemma decode1: "a < 0x80 \<Longrightarrow> decodeRune (char_of a # s) = (a, s)"
  by (simp add: decodeRune.simps)

lemma decode2:
  "2 \<le> a \<Longrightarrow> a < 32 \<Longrightarrow> b < 64 \<Longrightarrow>
   decodeRune (char_of (0xC0 + a) # char_of (0x80 + b) # s) = (a * 64 + b, s)"
  by (simp add: decodeRune.simps Let_def between_def low6_def)

lemma decode3:
  "a < 16 \<Longrightarrow> b < 64 \<Longrightarrow> c < 64 \<Longrightarrow> (a = 0 \<longrightarrow> 32 \<le> b) \<Longrightarrow> (a = 13 \<longrightarrow> b < 32) \<Longrightarrow>
   decodeRune (char_of (0xE0 + a) # char_of (0x80 + b) # char_of (0x80 + c) # s) =
     (a * 4096 + b * 64 + c, s)"
  by (auto simp: decodeRune.simps Let_def between_def low6_def)

lemma decode4:
  "a < 5 \<Longrightarrow> b < 64 \<Longrightarrow> c < 64 \<Longrightarrow> d < 64 \<Longrightarrow> (a = 0 \<longrightarrow> 16 \<le> b) \<Longrightarrow> (a = 4 \<longrightarrow> b < 16) \<Longrightarrow>
   decodeRune (char_of (0xF0 + a) # char_of (0x80 + b) # char_of (0x80 + c) # char_of (0x80 + d) # s) =
     (a * 262144 + b * 4096 + c * 64 + d, s)"
  by (auto simp: decodeRune.simps Let_def between_def low6_def)

lemma decode_encode:
  assumes "validRune r"
  shows "decodeRune (encodeRune r @ s) = (r, s)"
proof -
  consider "r < 0x80" | "0x80 \<le> r" "r < 0x800" | "0x800 \<le> r" "r < 0x10000" | "0x10000 \<le> r" "r < 0x110000"
    using assms unfolding validRune_def by linarith
  then show ?thesis
  proof cases
    case 1
    then show ?thesis by (simp add: encodeRune_def decode1)
  next
    case 2
    then show ?thesis
      using decode2 [of "r div 64" "r mod 64" s] by (simp add: encodeRune_def)
  next
    case 3
    have "(r div 4096 = 0 \<longrightarrow> 32 \<le> r div 64 mod 64) \<and> (r div 4096 = 13 \<longrightarrow> r div 64 mod 64 < 32)"
      using assms 3 split4096 [of r] unfolding validRune_def by linarith
    with 3 show ?thesis
      using decode3 [of "r div 4096" "r div 64 mod 64" "r mod 64" s] split4096 [of r]
      by (simp add: encodeRune_def assms)
  next
    case 4
    have "(r div 262144 = 0 \<longrightarrow> 16 \<le> r div 4096 mod 64) \<and> (r div 262144 = 4 \<longrightarrow> r div 4096 mod 64 < 16)"
      using 4 split262144 [of r] by linarith
    with 4 show ?thesis
      using decode4 [of "r div 262144" "r div 4096 mod 64" "r div 64 mod 64" "r mod 64" s] split262144 [of r]
      by (simp add: encodeRune_def assms)
  qed
qed

lemma encodeRune_nonempty [simp]: "encodeRune r \<noteq> []"
  by (simp add: encodeRune_def)

lemma runes_append:
  assumes "validRune r"
  shows "runes (encodeRune r @ s) = r # runes s"
proof -
  obtain c t where "encodeRune r = c # t" by (cases "encodeRune r") auto
  then show ?thesis using decode_encode [OF assms, of s] by simp
qed

lemma runes_encodeRunes: "\<forall>r \<in> set rs. validRune r \<Longrightarrow> runes (encodeRunes rs) = rs"
  by (induction rs) (simp_all add: encodeRunes_def runes_append)

lemma valid_low: "r < 0xD800 \<Longrightarrow> validRune r"
  by (simp add: validRune_def)


lemma valid2: "b \<le> 0xDF \<Longrightarrow> n \<le> 63 \<Longrightarrow> validRune ((b - 0xC0) * 64 + n)"
  by (rule valid_low) linarith

lemma valid3:
  "b \<le> 0xEF \<Longrightarrow> m < 64 \<Longrightarrow> n < 64 \<Longrightarrow> (b = 0xED \<Longrightarrow> m < 32) \<Longrightarrow>
   validRune ((b - 0xE0) * 4096 + m * 64 + n)"
  unfolding validRune_def by (cases "b \<le> 0xEC"; cases "b = 0xED"; simp; linarith)

lemma valid3_edge:
  "m < 32 \<Longrightarrow> n < 64 \<Longrightarrow> validRune (53248 + m * 64 + n)"
  "m < 64 \<Longrightarrow> n < 64 \<Longrightarrow> validRune (m * 64 + n)"
  by (rule valid_low, linarith)+

lemma valid4:
  "b \<le> 0xF4 \<Longrightarrow> 0xF0 \<le> b \<Longrightarrow> l < 64 \<Longrightarrow> m < 64 \<Longrightarrow> n < 64 \<Longrightarrow> (b = 0xF4 \<Longrightarrow> l < 16) \<Longrightarrow>
   (b = 0xF0 \<Longrightarrow> 16 \<le> l) \<Longrightarrow>
   validRune ((b - 0xF0) * 262144 + l * 4096 + m * 64 + n)"
  unfolding validRune_def by (cases "b = 0xF4"; cases "b = 0xF0"; simp; linarith)

lemma valid4_edge:
  "l < 16 \<Longrightarrow> m < 64 \<Longrightarrow> n < 64 \<Longrightarrow> validRune (1048576 + l * 4096 + m * 64 + n)"
  "16 \<le> l \<Longrightarrow> l < 64 \<Longrightarrow> m < 64 \<Longrightarrow> n < 64 \<Longrightarrow> validRune (l * 4096 + m * 64 + n)"
  by (simp_all add: validRune_def)

lemma low6_le: "of_char c \<le> 0x80 + n \<Longrightarrow> low6 c \<le> n" "0x80 + n \<le> of_char c \<Longrightarrow> n \<le> low6 c"
  by (simp_all add: low6_def)

lemma decodeRune_valid: "validRune (fst (decodeRune s))"
proof (cases s)
  case (Cons c t)
  obtain b where b: "of_char c = (b :: nat)" by simp
  have e: "validRune RuneError" by (simp add: validRune_def)

  consider "b < 0x80" | "0xC2 \<le> b" "b \<le> 0xDF" | "0xE0 \<le> b" "b \<le> 0xEF" | "0xF0 \<le> b" "b \<le> 0xF4"
    | "0x80 \<le> b" "b < 0xC2" | "0xF5 \<le> b" by linarith
  then show ?thesis
  proof cases
    case 1
    then show ?thesis by (simp add: Cons decodeRune.simps b valid_low)
  next
    case 2
    then have "fst (decodeRune s) =
        (case t of c1 # s1 \<Rightarrow> if cont c1 then (b - 0xC0) * 64 + low6 c1 else RuneError | [] \<Rightarrow> RuneError)"
      unfolding Cons decodeRune.simps Let_def b by (simp split: list.split)
    then show ?thesis
      using e 2 low6_le(1) [of _ 63] by (auto simp: between_def split: list.split intro!: valid2)
  next
    case 3
    then have "fst (decodeRune s) =
        (case t of c1 # c2 # s2 \<Rightarrow>
             if between (if b = 0xE0 then 0xA0 else 0x80) (if b = 0xED then 0x9F else 0xBF) c1 \<and> cont c2
             then (b - 0xE0) * 4096 + low6 c1 * 64 + low6 c2 else RuneError
         | _ \<Rightarrow> RuneError)"
      unfolding Cons decodeRune.simps Let_def b by (simp split: list.split)
    then show ?thesis
      using e 3 low6_le(1) [of _ 63] low6_le(1) [of _ 31]
      by (auto simp: between_def split: list.split intro!: valid3 valid3_edge simp flip: less_Suc_eq_le)
  next
    case 4
    then have "fst (decodeRune s) =
        (case t of c1 # c2 # c3 # s3 \<Rightarrow>
             if between (if b = 0xF0 then 0x90 else 0x80) (if b = 0xF4 then 0x8F else 0xBF) c1 \<and>
                cont c2 \<and> cont c3
             then (b - 0xF0) * 262144 + low6 c1 * 4096 + low6 c2 * 64 + low6 c3 else RuneError
         | _ \<Rightarrow> RuneError)"
      unfolding Cons decodeRune.simps Let_def b by (auto split: list.split)
    then show ?thesis
      using e 4 low6_le(1) [of _ 63] low6_le(1) [of _ 15] low6_le(2) [of 16]
      by (auto simp: between_def split: list.split intro!: valid4 valid4_edge simp flip: less_Suc_eq_le)
  qed (use e in \<open>simp_all add: Cons decodeRune.simps b\<close>)
qed (simp add: validRune_def)

lemma runes_valid: "r \<in> set (runes s) \<Longrightarrow> validRune r"
  by (induction s rule: runes.induct) (auto simp: decodeRune_valid)

section \<open>Case folding\<close>

definition asciiByte :: "char \<Rightarrow> bool" where
  "asciiByte c \<longleftrightarrow> (of_char c :: nat) < 0x80"

definition asciiLower :: "char \<Rightarrow> char" where
  "asciiLower c = (let b = of_char c :: nat in if 65 \<le> b \<and> b \<le> 90 then char_of (b + 32) else c)"

text \<open>\<open>strings.ToLower\<close>.\<close>

definition ToLower :: "(rune \<Rightarrow> rune) \<Rightarrow> string \<Rightarrow> string" where
  "ToLower lowerRune s =
     (if list_all asciiByte s then map asciiLower s
      else encodeRunes (map lowerRune (runes s)))"

lemma ToLower_ascii: "list_all asciiByte s \<Longrightarrow> ToLower lr s = map asciiLower s"
  by (simp add: ToLower_def)

lemma runes_encode_runes [simp]: "runes (encodeRunes (runes s)) = runes s"
  using runes_encodeRunes runes_valid by blast

section \<open>White space\<close>

definition asciiSpace :: "char \<Rightarrow> bool" where
  "asciiSpace c \<longleftrightarrow> c \<in> {CHR 0x09, CHR 0x0A, CHR 0x0B, CHR 0x0C, CHR 0x0D, CHR 0x20}"

text \<open>\<open>strings.TrimSpace\<close>: \<open>multiSpaces\<close> are the encodings of the white space characters above ASCII.\<close>

definition multiSpaces :: "string list" where
  "multiSpaces = map (map char_of) ([[0xC2, 0x85], [0xC2, 0xA0], [0xE1, 0x9A, 0x80], [0xE2, 0x80, 0xA8], [0xE2, 0x80, 0xA9], [0xE2, 0x80, 0xAF],
     [0xE2, 0x81, 0x9F], [0xE3, 0x80, 0x80]] @ map (\<lambda>i. [0xE2, 0x80, 0x80 + i]) [0..<11] :: nat list list)"

definition goSpaces :: "string list" where
  "goSpaces = map (\<lambda>c. [c]) (filter asciiSpace (map char_of [0..<128::nat])) @ multiSpaces"

definition dropSpace :: "string list \<Rightarrow> string \<Rightarrow> string" where
  "dropSpace ws s = (case find (\<lambda>w. prefix w s) ws of None \<Rightarrow> s | Some w \<Rightarrow> drop (length w) s)"

definition TrimSpace :: "string \<Rightarrow> string" where
  "TrimSpace s =
     (let l = (dropSpace goSpaces ^^ length s) s
      in rev ((dropSpace (map rev goSpaces) ^^ length l) (rev l)))"

end
