(* ===== verification/Float64.thy ===== *)
theory Float64
  imports Complex_Main "HOL-Library.Log_Nat"
begin

text \<open>
  Go's \<open>float64\<close>: the finite values of IEEE 754 binary64 as rationals, and rounding to nearest
  with ties to even as an executable function \<open>fl\<close>. An arithmetic operation of the source is
  the exact operation followed by \<open>fl\<close>, and a decimal constant \<open>0.1\<close> is \<open>fl (1/10)\<close>. Overflow
  to infinity and NaN are outside the model: the components that compute with floating-point
  numbers keep them between zero and a few units.

  The lemmas are the laws a client of rounded arithmetic needs: \<open>fl\<close> is monotone, odd, keeps
  zero, and keeps every value that is already a \<open>float64\<close>.
\<close>

type_synonym float64 = rat

section \<open>Rounding\<close>

text \<open>The integer nearest to \<open>m\<close>, the even one of two equally near.\<close>

definition rne :: "rat \<Rightarrow> int" where
  "rne m = (let f = \<lfloor>m\<rfloor>; d = m - of_int f
            in if d < 1 / 2 then f else if d > 1 / 2 then f + 1 else if even f then f else f + 1)"

text \<open>The exponent of a positive rational: \<open>2 ^ expo x \<le> x < 2 ^ (expo x + 1)\<close>.\<close>

definition expo :: "rat \<Rightarrow> int" where
  "expo x = (let (a, b) = quotient_of x; k = bitlen a - bitlen b
             in if 2 powi k \<le> x then k else k - 1)"

text \<open>The weight of the last of the 53 bits of the significand.\<close>

definition ulpExp :: "rat \<Rightarrow> int" where
  "ulpExp x = max (expo x - 52) (- 1074)"

definition fl :: "rat \<Rightarrow> float64" where
  "fl x = (if x = 0 then 0
           else let e = ulpExp \<bar>x\<bar> in of_int (rne (x / 2 powi e)) * 2 powi e)"

definition isFloat :: "rat \<Rightarrow> bool" where
  "isFloat x \<longleftrightarrow> fl x = x"

section \<open>Laws\<close>

lemma rne_bounds: "\<lfloor>m\<rfloor> \<le> rne m" "rne m \<le> \<lfloor>m\<rfloor> + 1"
  by (auto simp: rne_def Let_def)

lemma rne_of_int [simp]: "rne (of_int n) = n"
  by (simp add: rne_def)

lemma rne_mono: "m \<le> n \<Longrightarrow> rne m \<le> rne n"
proof (cases "\<lfloor>m\<rfloor> = \<lfloor>n\<rfloor>")
  case True
  assume "m \<le> n"
  with True show ?thesis by (auto simp: rne_def Let_def)
next
  case False
  assume "m \<le> n"
  with False have "\<lfloor>m\<rfloor> + 1 \<le> \<lfloor>n\<rfloor>" using floor_mono [of m n] by linarith
  with rne_bounds(2) [of m] rne_bounds(1) [of n] show ?thesis by linarith
qed

lemma rne_le_int: "m \<le> of_int n \<Longrightarrow> rne m \<le> n"
  using rne_mono [of m "of_int n"] by simp

lemma int_le_rne: "of_int n \<le> m \<Longrightarrow> n \<le> rne m"
  using rne_mono [of "of_int n" m] by simp

lemma rne_uminus: "rne (- m) = - rne m"
proof -
  let ?f = "\<lfloor>m\<rfloor>"
  show ?thesis
  proof (cases "m = of_int ?f")
    case True
    then show ?thesis using rne_of_int [of ?f] rne_of_int [of "- ?f"] by simp
  next
    case False
    then have c: "\<lfloor>- m\<rfloor> = - ?f - 1" by (simp add: floor_minus ceiling_altdef)
    obtain f where f: "?f = f" "\<lfloor>- m\<rfloor> = - f - 1" using c by simp
    show ?thesis unfolding rne_def Let_def f by (auto simp: field_simps)
  qed
qed

lemma bitlen_bounds_rat:
  assumes "0 < a"
  shows "(2 :: rat) powi (bitlen a - 1) \<le> of_int a" "of_int a < (2 :: rat) powi bitlen a"
proof -
  have pos: "1 \<le> bitlen a" using assms by (simp add: bitlen_def floorlog_def)
  have b: "2 ^ nat (bitlen a - 1) \<le> a" "a < 2 ^ nat (bitlen a)"
    using bitlen_bounds [OF assms] by auto
  from b(1) have "(of_int (2 ^ nat (bitlen a - 1)) :: rat) \<le> of_int a" by (simp only: of_int_le_iff)
  with pos show "(2 :: rat) powi (bitlen a - 1) \<le> of_int a" by (simp add: power_int_def)
  from b(2) have "(of_int a :: rat) < of_int (2 ^ nat (bitlen a))" by (simp only: of_int_less_iff)
  with pos show "of_int a < (2 :: rat) powi bitlen a" by (simp add: power_int_def)
qed

lemma expo_bounds:
  assumes "0 < x"
  shows "2 powi expo x \<le> x" "x < 2 powi (expo x + 1)"
proof -
  obtain a b where q: "quotient_of x = (a, b)" by fastforce
  then have b: "0 < b" by (rule quotient_of_denom_pos)
  from q have x: "x = of_int a / of_int b" by (rule quotient_of_div)
  with assms b have a: "0 < a" by (simp add: zero_less_divide_iff)
  let ?k = "bitlen a - bitlen b"
  note A = bitlen_bounds_rat [OF a] and B = bitlen_bounds_rat [OF b]
  have "x * 2 powi (bitlen b - 1) \<le> of_int a"
    using B(1) b a by (simp add: x field_simps mult_left_mono)
  then have "x * 2 powi (bitlen b - 1) < 2 powi bitlen a" using A(2) by linarith
  then have up: "x < 2 powi (?k + 1)"
    by (simp add: power_int_diff power_int_add field_simps)
  have "of_int a \<le> x * 2 powi bitlen b"
    using B(2) b a by (simp add: x field_simps mult_left_mono)
  then have "2 powi (bitlen a - 1) \<le> x * 2 powi bitlen b" using A(1) by linarith
  then have low: "2 powi (?k - 1) \<le> x"
    by (simp add: power_int_diff power_int_add field_simps)
  show "2 powi expo x \<le> x" "x < 2 powi (expo x + 1)"
    using up low by (auto simp: expo_def q Let_def not_le)
qed

lemma expo_mono: "0 < x \<Longrightarrow> x \<le> y \<Longrightarrow> expo x \<le> expo y"
proof (rule ccontr)
  assume "0 < x" "x \<le> y" "\<not> expo x \<le> expo y"
  then have "expo y + 1 \<le> expo x" by simp
  then have "(2 :: rat) powi (expo y + 1) \<le> 2 powi expo x" by (rule power_int_increasing) simp
  with expo_bounds [of x] expo_bounds [of y] \<open>0 < x\<close> \<open>x \<le> y\<close> show False by linarith
qed

lemma fl_0 [simp]: "fl 0 = 0"
  by (simp add: fl_def)

lemma fl_uminus: "fl (- x) = - fl x"
proof -
  have "rne (- x / 2 powi e) = - rne (x / 2 powi e)" for e
    using rne_uminus [of "x / 2 powi e"] by simp
  then show ?thesis by (simp add: fl_def Let_def)
qed

lemma fl_pos: "0 < x \<Longrightarrow> fl x = of_int (rne (x / 2 powi ulpExp x)) * 2 powi ulpExp x"
  by (simp add: fl_def Let_def)

lemma fl_nonneg: "0 \<le> x \<Longrightarrow> 0 \<le> fl x"
proof (cases "x = 0")
  case False
  assume "0 \<le> x"
  with False have "0 < x" by simp
  then have "0 \<le> x / 2 powi ulpExp x" by simp
  then have "rne 0 \<le> rne (x / 2 powi ulpExp x)" by (rule rne_mono)
  moreover have "rne 0 = 0" using rne_of_int [of 0] by simp
  ultimately show ?thesis using \<open>0 < x\<close> by (simp add: fl_pos)
qed simp

text \<open>A value does not leave its binade upwards further than to the next power of two.\<close>

lemma fl_upper:
  assumes "0 < x" "expo x < k" "- 1021 \<le> k"
  shows "fl x \<le> 2 powi k"
proof -
  let ?e = "ulpExp x"
  have le: "?e \<le> k" using assms by (simp add: ulpExp_def)
  have "(2 :: rat) powi (expo x + 1) \<le> 2 powi k" by (rule power_int_increasing) (use assms in auto)
  with expo_bounds(2) [OF assms(1)] have "x \<le> 2 powi k" by linarith
  then have "x / 2 powi ?e \<le> 2 powi (k - ?e)" by (simp add: power_int_diff divide_right_mono)
  also have "(2 :: rat) powi (k - ?e) = of_int (2 ^ nat (k - ?e))" using le by (simp add: power_int_def)
  finally have "rne (x / 2 powi ?e) \<le> 2 ^ nat (k - ?e)" by (rule rne_le_int)
  then have "of_int (rne (x / 2 powi ?e)) \<le> (of_int (2 ^ nat (k - ?e)) :: rat)" by (simp only: of_int_le_iff)
  also have "\<dots> = 2 powi (k - ?e)" using le by (simp add: power_int_def)
  finally have "of_int (rne (x / 2 powi ?e)) * 2 powi ?e \<le> (2 :: rat) powi (k - ?e) * 2 powi ?e"
    by (rule mult_right_mono) simp
  then show ?thesis using assms(1) by (simp add: fl_pos power_int_diff)
qed

lemma fl_lower:
  assumes "0 < x" "ulpExp x \<le> k" "2 powi k \<le> x"
  shows "2 powi k \<le> fl x"
proof -
  let ?e = "ulpExp x"
  have "(2 :: rat) powi (k - ?e) \<le> x / 2 powi ?e"
    using assms(3) by (simp add: power_int_diff divide_right_mono)
  moreover have eq: "(2 :: rat) powi (k - ?e) = of_int (2 ^ nat (k - ?e))"
    using assms(2) by (simp add: power_int_def)
  ultimately have "2 ^ nat (k - ?e) \<le> rne (x / 2 powi ?e)" by (metis int_le_rne)
  then have "(of_int (2 ^ nat (k - ?e)) :: rat) \<le> of_int (rne (x / 2 powi ?e))" by (simp only: of_int_le_iff)
  then have "2 powi (k - ?e) * 2 powi ?e \<le> of_int (rne (x / 2 powi ?e)) * (2 :: rat) powi ?e"
    unfolding eq by (rule mult_right_mono) simp
  then show ?thesis using assms(1) by (simp add: fl_pos power_int_diff)
qed

lemma fl_mono_pos:
  assumes "0 < x" "x \<le> y"
  shows "fl x \<le> fl y"
proof (cases "ulpExp x = ulpExp y")
  case True
  have "x / 2 powi ulpExp y \<le> y / 2 powi ulpExp y" using assms by (simp add: divide_right_mono)
  then have "(of_int (rne (x / 2 powi ulpExp y)) :: rat) \<le> of_int (rne (y / 2 powi ulpExp y))"
    by (simp add: rne_mono)
  then have "of_int (rne (x / 2 powi ulpExp y)) * 2 powi ulpExp y
      \<le> of_int (rne (y / 2 powi ulpExp y)) * (2 :: rat) powi ulpExp y"
    by (rule mult_right_mono) simp
  with True assms show ?thesis by (simp add: fl_pos)
next
  case False
  then have *: "expo x < expo y" "- 1021 \<le> expo y" "ulpExp y \<le> expo y"
    using expo_mono [OF assms] by (auto simp: ulpExp_def)
  have "fl x \<le> 2 powi expo y" using assms(1) *(1,2) by (rule fl_upper)
  also have "\<dots> \<le> fl y" using assms * by (intro fl_lower) (auto intro: expo_bounds)
  finally show ?thesis .
qed

lemma fl_mono: "x \<le> y \<Longrightarrow> fl x \<le> fl y"
proof -
  assume xy: "x \<le> y"
  consider "0 < x" | "x \<le> 0" "0 \<le> y" | "y < 0" by linarith
  then show ?thesis
  proof cases
    case 1
    with xy show ?thesis by (rule fl_mono_pos [rotated -1])
  next
    case 2
    with fl_nonneg [of "- x"] fl_nonneg [of y] show ?thesis by (simp add: fl_uminus)
  next
    case 3
    with xy have "fl (- y) \<le> fl (- x)" by (intro fl_mono_pos) auto
    then show ?thesis by (simp add: fl_uminus)
  qed
qed

text \<open>A multiple of the weight of its own last bit is not rounded; so rounding twice is rounding once.\<close>

lemma fl_multiple:
  assumes "0 < y" "y = of_int n * 2 powi k" "ulpExp y \<le> k"
  shows "fl y = y"
proof -
  have "y / 2 powi ulpExp y = of_int n * 2 powi (k - ulpExp y)"
    unfolding assms(2) by (simp add: power_int_diff assms(2) [symmetric])
  also have "\<dots> = of_int (n * 2 ^ nat (k - ulpExp y))" using assms(3) by (simp add: power_int_def)
  finally have i: "y / 2 powi ulpExp y = of_int (n * 2 ^ nat (k - ulpExp y))" .
  then have "of_int (rne (y / 2 powi ulpExp y)) = y / 2 powi ulpExp y" by (simp only: rne_of_int)
  with assms(1) show ?thesis by (simp add: fl_pos)
qed

lemma fl_fl_pos:
  assumes "0 < x"
  shows "fl (fl x) = fl x"
proof (cases "fl x = 0")
  case False
  with assms fl_nonneg [of x] have pos: "0 < fl x" by simp
  let ?y = "fl x"
  show ?thesis
  proof (cases "ulpExp ?y \<le> ulpExp x")
    case True
    with pos show ?thesis by (intro fl_multiple [of _ "rne (x / 2 powi ulpExp x)" "ulpExp x"]) (simp_all add: fl_pos assms)
  next
    case False
    then have gt: "expo x < expo ?y" "- 1074 < expo ?y - 52" by (auto simp: ulpExp_def)
    have "?y \<le> 2 powi expo ?y" using assms gt(1) by (rule fl_upper) (use gt in simp)
    with expo_bounds(1) [OF pos] have "?y = of_int 1 * 2 powi expo ?y" by simp
    with pos show ?thesis by (rule fl_multiple) (use gt in \<open>simp add: ulpExp_def\<close>)
  qed
qed simp

lemma fl_fl [simp]: "fl (fl x) = fl x"
proof -
  consider "0 < x" | "x = 0" | "0 < - x" by linarith
  then show ?thesis
  proof cases
    case 3
    from fl_fl_pos [OF this] show ?thesis by (simp add: fl_uminus)
  qed (simp_all add: fl_fl_pos)
qed

lemma isFloat_fl [simp]: "isFloat (fl x)"
  by (simp add: isFloat_def)

lemma isFloat_0 [simp]: "isFloat 0"
  by (simp add: isFloat_def)

lemma fl_isFloat: "isFloat x \<Longrightarrow> fl x = x"
  by (simp add: isFloat_def)

lemma fl_ge: "isFloat a \<Longrightarrow> a \<le> x \<Longrightarrow> a \<le> fl x"
  using fl_mono [of a x] by (simp add: fl_isFloat)

lemma fl_le: "isFloat b \<Longrightarrow> x \<le> b \<Longrightarrow> fl x \<le> b"
  using fl_mono [of x b] by (simp add: fl_isFloat)

text \<open>Rounded arithmetic.\<close>

definition fadd :: "float64 \<Rightarrow> float64 \<Rightarrow> float64" where "fadd x y = fl (x + y)"
definition fsub :: "float64 \<Rightarrow> float64 \<Rightarrow> float64" where "fsub x y = fl (x - y)"
definition fmul :: "float64 \<Rightarrow> float64 \<Rightarrow> float64" where "fmul x y = fl (x * y)"
definition fdiv :: "float64 \<Rightarrow> float64 \<Rightarrow> float64" where "fdiv x y = fl (x / y)"

lemmas float_ops = fadd_def fsub_def fmul_def fdiv_def

lemma isFloat_ops [simp]: "isFloat (fadd x y)" "isFloat (fsub x y)" "isFloat (fmul x y)" "isFloat (fdiv x y)"
  by (simp_all add: float_ops)


text \<open>Small whole numbers are exact.\<close>

lemma isFloat_of_nat:
  assumes "n < 2 ^ 53"
  shows "isFloat (of_nat n)"
proof (cases "n = 0")
  case False
  let ?y = "of_nat n :: rat"
  have pos: "0 < ?y" using False by simp
  have "?y < of_nat (2 ^ 53)" using assms by (simp only: of_nat_less_iff)
  then have "?y < 2 ^ 53" by simp
  then have "2 powi expo ?y < (2 :: rat) powi 53" using expo_bounds(1) [OF pos] by (simp add: power_int_def)
  then have "expo ?y < 53" using power_int_increasing [of 53 "expo ?y" "2 :: rat"] by force
  then have "ulpExp ?y \<le> 0" by (simp add: ulpExp_def)
  with pos have "fl ?y = ?y" by (intro fl_multiple [of _ "int n" 0]) simp_all
  then show ?thesis unfolding isFloat_def .
qed simp

lemma isFloat_1 [simp]: "isFloat 1"
  using isFloat_of_nat [of 1] by simp

lemma fl_of_int:
  assumes "\<bar>i\<bar> < 2 ^ 53"
  shows "fl (of_int i) = of_int i"
proof (cases "0 \<le> i")
  case True
  then have "nat i < 2 ^ 53" using assms by (simp add: nat_less_iff)
  from isFloat_of_nat [OF this] True show ?thesis by (simp add: isFloat_def)
next
  case False
  then have "nat (- i) < 2 ^ 53" using assms by (simp add: nat_less_iff)
  from isFloat_of_nat [OF this] False show ?thesis by (simp add: isFloat_def fl_uminus)
qed

end
