(* ===== verification/Aegis.thy ===== *)
theory Aegis
  imports Utf8 Float64
begin

text \<open>
  The Aegis content gateway, \<^verbatim>\<open>internal/aegis\<close>, with the trust registry of
  \<^verbatim>\<open>internal/platform/trust.go\<close>: sanitising inbound text, scanning it for injection phrases,
  scoring its source, annotating it, and reviewing outbound text.

  A Go slice expression with bounds out of range panics; functions that contain one return an
  option, \<open>None\<close> being the panic. The NFKC normalisation of \<^verbatim>\<open>golang.org/x/text\<close> and the Unicode
  case table are the arguments \<open>nfkc\<close> and \<open>lowerRune\<close>. Products and sums are rounded one by one,
  as on amd64.
\<close>

section \<open>Sanitising\<close>

definition isInvisible :: "rune \<Rightarrow> bool" where
  "isInvisible r \<longleftrightarrow>
     r \<in> {0x200B, 0x200C, 0x200D, 0xFEFF, 0x2060, 0x00AD, 0x034F} \<or>
     (0x202A \<le> r \<and> r \<le> 0x202E) \<or> (0x2066 \<le> r \<and> r \<le> 0x2069)"

definition Sanitize :: "(string \<Rightarrow> string) \<Rightarrow> string \<Rightarrow> string \<times> bool" where
  "Sanitize nfkc raw =
     (let n = nfkc raw; rs = runes n;
          result = encodeRunes (filter (\<lambda>r. \<not> isInvisible r) rs);
          stripped = list_ex isInvisible rs
      in (result, stripped \<or> n \<noteq> raw))"

section \<open>Injection patterns\<close>

record PatternMatch =
  pm_Category :: string
  pm_Pattern :: string
  pm_Offset :: nat
  pm_Snippet :: string

record patternDef =
  pd_category :: string
  pd_pattern :: string

abbreviation (input) pdef :: "string \<Rightarrow> string \<Rightarrow> patternDef" where
  "pdef c p \<equiv> \<lparr> pd_category = c, pd_pattern = p \<rparr>"

definition classicPatterns :: "patternDef list" where
  "classicPatterns =
     [pdef ''classic'' ''ignore previous'',
      pdef ''classic'' ''ignore all previous instructions'',
      pdef ''classic'' ''you are now'',
      pdef ''classic'' ''new instructions:'',
      pdef ''classic'' ''system prompt:'',
      pdef ''classic'' ''disregard'',
      pdef ''classic'' ''forget your instructions'']"

definition asrpPatterns :: "patternDef list" where
  "asrpPatterns =
     [pdef ''asrp'' ''replicate this message'',
      pdef ''asrp'' ''forward this to'',
      pdef ''asrp'' ''send this to all'',
      pdef ''asrp'' ''copy yourself'']"

text \<open>\<open>s[a:b]\<close> and \<open>s[a:]\<close>, with Go's bounds checks.\<close>

definition goSlice :: "string \<Rightarrow> nat \<Rightarrow> nat \<Rightarrow> string option" where
  "goSlice s a b = (if a \<le> b \<and> b \<le> length s then Some (take (b - a) (drop a s)) else None)"

definition goFrom :: "string \<Rightarrow> nat \<Rightarrow> string option" where
  "goFrom s a = goSlice s a (length s)"

definition snippet :: "string \<Rightarrow> nat \<Rightarrow> nat \<Rightarrow> string option" where
  "snippet content offset radius =
     (let start = offset - radius; end' = min (offset + radius) (length content)
      in goSlice content start end')"

text \<open>The loop of \<open>findAll\<close>, from the offset \<open>start\<close>.\<close>

function findFrom :: "string \<Rightarrow> string \<Rightarrow> patternDef \<Rightarrow> string \<Rightarrow> nat \<Rightarrow> PatternMatch list option" where
  "findFrom lower original def pat start =
     (if length lower < start then None
      else case strIndex (drop start lower) pat of
        None \<Rightarrow> Some []
      | Some idx \<Rightarrow>
          (case snippet original (start + idx) 50 of
             None \<Rightarrow> None
           | Some sn \<Rightarrow>
               map_option ((#) \<lparr> pm_Category = pd_category def, pm_Pattern = pd_pattern def,
                                 pm_Offset = start + idx, pm_Snippet = sn \<rparr>)
                 (findFrom lower original def pat (start + idx + 1))))"
  by pat_completeness auto
termination
  by (relation "measure (\<lambda>(lower, original, def, pat, start). length lower + 1 - start)") auto

declare findFrom.simps [simp del]

definition findAll :: "(rune \<Rightarrow> rune) \<Rightarrow> string \<Rightarrow> string \<Rightarrow> patternDef \<Rightarrow> PatternMatch list option" where
  "findAll lowerRune lower original def =
     findFrom lower original def (ToLower lowerRune (pd_pattern def)) 0"

definition blank :: "char \<Rightarrow> bool" where
  "blank c \<longleftrightarrow> c = CHR '' '' \<or> c = CHR 0x0A \<or> c = CHR 0x09"

text \<open>The matches of the patterns that follow a gap, at the offset \<open>j\<close> where the gap ends.\<close>

fun concealedAt ::
  "(rune \<Rightarrow> rune) \<Rightarrow> string \<Rightarrow> string \<Rightarrow> nat \<Rightarrow> patternDef list \<Rightarrow> PatternMatch list option" where
  "concealedAt lowerRune lower content j [] = Some []"
| "concealedAt lowerRune lower content j (def # defs) =
     (case goFrom lower j of
        None \<Rightarrow> None
      | Some rest \<Rightarrow>
          if hasPrefix rest (ToLower lowerRune (pd_pattern def)) then
            (case snippet content j 50 of
               None \<Rightarrow> None
             | Some sn \<Rightarrow>
                 map_option ((#) \<lparr> pm_Category = ''concealed'', pm_Pattern = pd_pattern def,
                                   pm_Offset = j, pm_Snippet = sn \<rparr>)
                   (concealedAt lowerRune lower content j defs))
          else concealedAt lowerRune lower content j defs)"

function concealedFrom :: "(rune \<Rightarrow> rune) \<Rightarrow> string \<Rightarrow> string \<Rightarrow> nat \<Rightarrow> PatternMatch list option" where
  "concealedFrom lowerRune lower content i =
     (if length content \<le> i then Some []
      else if blank (content ! i) then
        (let j = i + length (takeWhile blank (drop i content))
         in if j - i > 20 \<and> j < length content then
              (case concealedAt lowerRune lower content j (classicPatterns @ asrpPatterns) of
                 None \<Rightarrow> None
               | Some ms \<Rightarrow> map_option ((@) ms) (concealedFrom lowerRune lower content j))
            else concealedFrom lowerRune lower content j)
      else concealedFrom lowerRune lower content (i + 1))"
  by pat_completeness auto
termination
proof (relation "measure (\<lambda>(lowerRune, lower, content, i). length content - i)", goal_cases)
  case (2 lr lower content i j ms)
  then have "drop i content = content ! i # drop (Suc i) content" by (simp add: Cons_nth_drop_Suc)
  with 2 show ?case by auto
next
  case (3 lr lower content i j)
  then have "drop i content = content ! i # drop (Suc i) content" by (simp add: Cons_nth_drop_Suc)
  with 3 show ?case by auto
qed auto

declare concealedFrom.simps [simp del]

definition scanConcealed :: "(rune \<Rightarrow> rune) \<Rightarrow> string \<Rightarrow> PatternMatch list option" where
  "scanConcealed lowerRune content = concealedFrom lowerRune (ToLower lowerRune content) content 0"

fun findEach :: "(rune \<Rightarrow> rune) \<Rightarrow> string \<Rightarrow> string \<Rightarrow> patternDef list \<Rightarrow> PatternMatch list option" where
  "findEach lowerRune lower content [] = Some []"
| "findEach lowerRune lower content (def # defs) =
     (case findAll lowerRune lower content def of
        None \<Rightarrow> None
      | Some ms \<Rightarrow> map_option ((@) ms) (findEach lowerRune lower content defs))"

definition Scan :: "(rune \<Rightarrow> rune) \<Rightarrow> string \<Rightarrow> PatternMatch list option" where
  "Scan lowerRune content =
     (case findEach lowerRune (ToLower lowerRune content) content (classicPatterns @ asrpPatterns) of
        None \<Rightarrow> None
      | Some ms \<Rightarrow> map_option ((@) ms) (scanConcealed lowerRune content))"

section \<open>Outbound review\<close>

record OutboundReport =
  or_Clean :: bool
  or_Findings :: "string list"
  or_Severity :: string

definition apiKeyPrefixes :: "string list" where
  "apiKeyPrefixes = [''sk-'', ''Bearer '', ''token='', ''api_key='', ''ANTHROPIC_API_KEY'',
     ''OPENAI_API_KEY'', ''API_KEY='', ''SECRET_KEY='']"

definition dsnPrefixes :: "string list" where
  "dsnPrefixes = [''postgres://'', ''postgresql://'', ''sqlite://'', ''sqlite3://'', ''mysql://'']"

definition defaultPathPrefixes :: "string list" where
  "defaultPathPrefixes = [''/home/'', ''/etc/'', ''/opt/'', ''/storage/'']"

text \<open>The two regular expressions, as matchers at the start of a string and at any offset.\<close>

definition hexLower :: "char \<Rightarrow> bool" where
  "hexLower c \<longleftrightarrow> c \<in> set ''0123456789abcdef''"

definition alnum :: "char \<Rightarrow> bool" where
  "alnum c \<longleftrightarrow> c \<in> set ''0123456789abcdefghijklmnopqrstuvwxyzABCDEFGHIJKLMNOPQRSTUVWXYZ''"

fun groupAt :: "nat list \<Rightarrow> string \<Rightarrow> bool" where
  "groupAt [] s = True"
| "groupAt [n] s = (n \<le> length s \<and> list_all hexLower (take n s))"
| "groupAt (n # ns) s =
     (n < length s \<and> list_all hexLower (take n s) \<and> s ! n = CHR ''-'' \<and> groupAt ns (drop (n + 1) s))"

definition alnum16 :: "string \<Rightarrow> bool" where
  "alnum16 s \<longleftrightarrow> 16 \<le> length s \<and> list_all alnum (take 16 s)"

definition sessionAt :: "string \<Rightarrow> bool" where
  "sessionAt s \<longleftrightarrow> (hasPrefix s ''sess_'' \<and> alnum16 (drop 5 s)) \<or>
     ((hasPrefix s ''session-'' \<or> hasPrefix s ''session_'') \<and> alnum16 (drop 8 s))"

definition uuidRe :: "string \<Rightarrow> bool" where
  "uuidRe s = list_ex (groupAt [8, 4, 4, 4, 12]) (suffixes s)"

definition sessionIDRe :: "string \<Rightarrow> bool" where
  "sessionIDRe s = list_ex sessionAt (suffixes s)"

definition ScanOutboundWithPaths :: "(rune \<Rightarrow> rune) \<Rightarrow> string \<Rightarrow> string list \<Rightarrow> OutboundReport" where
  "ScanOutboundWithPaths lowerRune content pathPrefixes =
     (let findings =
            map (\<lambda>p. ''possible API key or credential: contains '' @ p) (filter (strContains content) apiKeyPrefixes) @
            (if uuidRe (ToLower lowerRune content) then [''UUID pattern detected''] else []) @
            map (\<lambda>p. ''file path prefix detected: '' @ p) (filter (strContains content) pathPrefixes) @
            (if sessionIDRe content then [''session ID pattern detected''] else []) @
            map (\<lambda>p. ''DSN/connection string detected: '' @ p) (filter (strContains content) dsnPrefixes)
      in \<lparr> or_Clean = (findings = []), or_Findings = findings, or_Severity = '''' \<rparr>)"

definition ScanOutbound :: "(rune \<Rightarrow> rune) \<Rightarrow> string \<Rightarrow> OutboundReport" where
  "ScanOutbound lowerRune content = ScanOutboundWithPaths lowerRune content defaultPathPrefixes"

section \<open>The trust registry\<close>

text \<open>The table \<^verbatim>\<open>trust_registry\<close>: score and number of interactions of each source.\<close>

type_synonym trustTable = "string \<rightharpoonup> float64 \<times> int"

datatype trustError = ErrTrustNotFound | ErrTrustDB error

definition SQLite_GetTrust :: "error option \<Rightarrow> string \<Rightarrow> trustTable \<Rightarrow> trustError + float64 \<times> int" where
  "SQLite_GetTrust fault source tab =
     (case fault of
        Some e \<Rightarrow> Inl (ErrTrustDB e)
      | None \<Rightarrow> (case tab source of None \<Rightarrow> Inl ErrTrustNotFound | Some r \<Rightarrow> Inr r))"

definition SQLite_UpdateTrust :: "error option \<Rightarrow> string \<Rightarrow> float64 \<Rightarrow> trustTable \<Rightarrow> error option \<times> trustTable" where
  "SQLite_UpdateTrust fault source score tab =
     (case fault of
        Some e \<Rightarrow> (Some e, tab)
      | None \<Rightarrow> (None, tab(source \<mapsto> (score, (case tab source of None \<Rightarrow> 0 | Some (_, n) \<Rightarrow> n)))))"

definition SQLite_IncrementInteractions :: "error option \<Rightarrow> string \<Rightarrow> trustTable \<Rightarrow> error option \<times> trustTable" where
  "SQLite_IncrementInteractions fault source tab =
     (case fault of
        Some e \<Rightarrow> (Some e, tab)
      | None \<Rightarrow> (None, tab(source \<mapsto>
          (case tab source of None \<Rightarrow> (fl (40 / 100), 1) | Some (s, n) \<Rightarrow> (s, n + 1)))))"

text \<open>
  PostgreSQL: the column type \<open>REAL\<close> has four bytes there, so that a score is rounded when it is
  stored; the rounding is the argument \<open>real4\<close>.
\<close>

definition Postgres_GetTrust :: "error option \<Rightarrow> string \<Rightarrow> trustTable \<Rightarrow> trustError + float64 \<times> int" where
  "Postgres_GetTrust fault source tab =
     (case fault of
        Some e \<Rightarrow> Inl (ErrTrustDB e)
      | None \<Rightarrow> (case tab source of None \<Rightarrow> Inl ErrTrustNotFound | Some r \<Rightarrow> Inr r))"

definition Postgres_UpdateTrust ::
  "(float64 \<Rightarrow> float64) \<Rightarrow> error option \<Rightarrow> string \<Rightarrow> float64 \<Rightarrow> trustTable \<Rightarrow> error option \<times> trustTable" where
  "Postgres_UpdateTrust real4 fault source score tab =
     (case fault of
        Some e \<Rightarrow> (Some e, tab)
      | None \<Rightarrow> (None, tab(source \<mapsto> (real4 score, (case tab source of None \<Rightarrow> 0 | Some (_, n) \<Rightarrow> n)))))"

definition Postgres_IncrementInteractions ::
  "(float64 \<Rightarrow> float64) \<Rightarrow> error option \<Rightarrow> string \<Rightarrow> trustTable \<Rightarrow> error option \<times> trustTable" where
  "Postgres_IncrementInteractions real4 fault source tab =
     (case fault of
        Some e \<Rightarrow> (Some e, tab)
      | None \<Rightarrow> (None, tab(source \<mapsto>
          (case tab source of None \<Rightarrow> (real4 (40 / 100), 1) | Some (s, n) \<Rightarrow> (s, n + 1)))))"

section \<open>Scoring\<close>

record TrustConfig =
  tc_SkepticalPrior :: float64
  tc_RampInteractions :: int
  tc_MaxTrust :: float64

definition DefaultTrustConfig :: TrustConfig where
  "DefaultTrustConfig = \<lparr> tc_SkepticalPrior = fl (40 / 100), tc_RampInteractions = 5, tc_MaxTrust = fl (95 / 100) \<rparr>"

text \<open>The base score: the stored one, blended with the prior during the ramp, with the ceiling.\<close>

definition baseScore :: "TrustConfig \<Rightarrow> float64 \<Rightarrow> int \<Rightarrow> float64" where
  "baseScore cfg score interactions =
     (let score = (if interactions < tc_RampInteractions cfg
                   then (let weight = fdiv (fl (of_int interactions)) (fl (of_int (tc_RampInteractions cfg)))
                         in fadd (tc_SkepticalPrior cfg) (fmul weight (fsub score (tc_SkepticalPrior cfg))))
                   else score)
      in if score > tc_MaxTrust cfg then tc_MaxTrust cfg else score)"

text \<open>The penalty: one factor per flag, down to the floor.\<close>

fun penalise :: "'f list \<Rightarrow> float64 \<Rightarrow> float64" where
  "penalise [] score = score"
| "penalise (_ # flags) score =
     (let score = fmul score (fl (7 / 10))
      in if score < fl (10 / 100) then fl (10 / 100) else penalise flags score)"

definition Score ::
  "(string \<Rightarrow> 'st \<Rightarrow> trustError + float64 \<times> int) \<Rightarrow>
   (string \<Rightarrow> float64 \<Rightarrow> 'st \<Rightarrow> error option \<times> 'st) \<Rightarrow> (string \<Rightarrow> 'st \<Rightarrow> error option \<times> 'st) \<Rightarrow>
   TrustConfig \<Rightarrow> string \<Rightarrow> 'f list \<Rightarrow> 'st \<Rightarrow> (float64 \<times> trustError option) \<times> 'st" where
  "Score getTrust updateTrust incrementInteractions cfg source flags st =
     (let finish = (\<lambda>score interactions.
            let base = baseScore cfg score interactions;
                st = snd (updateTrust source base st);
                st = snd (incrementInteractions source st)
            in ((penalise flags base, None), st))
      in case getTrust source st of
           Inl ErrTrustNotFound \<Rightarrow> finish (tc_SkepticalPrior cfg) 0
         | Inl e \<Rightarrow> ((tc_SkepticalPrior cfg, Some e), st)
         | Inr (score, interactions) \<Rightarrow> finish score interactions)"

section \<open>The gateway\<close>

record AegisAnnotation =
  aa_TrustScore :: float64
  aa_Source :: string
  aa_ContentSource :: string
  aa_Flags :: "string list"
  aa_Sanitized :: bool
  aa_ScanPassed :: bool
  aa_AnnotatedAt :: time

record AnnotatedContent =
  ac_Original :: string
  ac_Normalized :: string
  ac_Annotation :: AegisAnnotation

text \<open>
  \<open>Gateway.ProcessInbound\<close>: \<open>score source flags st\<close> is the trust scorer. The result is \<open>None\<close> when
  the scan panics; there is no error return on any path.
\<close>

definition ProcessInbound ::
  "(string \<Rightarrow> string) \<Rightarrow> (rune \<Rightarrow> rune) \<Rightarrow> time \<Rightarrow>
   (string \<Rightarrow> PatternMatch list \<Rightarrow> 'st \<Rightarrow> (float64 \<times> trustError option) \<times> 'st) \<Rightarrow> float64 \<Rightarrow>
   string \<Rightarrow> string \<Rightarrow> string \<Rightarrow> 'st \<Rightarrow> (AnnotatedContent \<times> 'st) option" where
  "ProcessInbound nfkc lowerRune now score prior raw source contentSource st =
     (let (normalized, modified) = Sanitize nfkc raw
      in case Scan lowerRune normalized of
           None \<Rightarrow> None
         | Some flags \<Rightarrow>
             (let flagNames = map (\<lambda>f. pm_Category f @ '':'' @ pm_Pattern f) flags;
                  ((trustScore, err), st') = score source flags st;
                  trustScore = (if err \<noteq> None then prior else trustScore)
              in Some (\<lparr> ac_Original = raw, ac_Normalized = normalized,
                         ac_Annotation = \<lparr> aa_TrustScore = trustScore, aa_Source = source,
                           aa_ContentSource = contentSource, aa_Flags = flagNames, aa_Sanitized = modified,
                           aa_ScanPassed = (flags = []), aa_AnnotatedAt = now \<rparr> \<rparr>, st')))"

definition ReviewOutbound :: "(rune \<Rightarrow> rune) \<Rightarrow> string \<Rightarrow> error + OutboundReport" where
  "ReviewOutbound lowerRune content = Inr (ScanOutbound lowerRune content)"

text \<open>\<open>NoOpGateway\<close>.\<close>

definition NoOp_ProcessInbound :: "time \<Rightarrow> string \<Rightarrow> string \<Rightarrow> string \<Rightarrow> error + AnnotatedContent" where
  "NoOp_ProcessInbound now raw source contentSource =
     Inr \<lparr> ac_Original = raw, ac_Normalized = raw,
           ac_Annotation = \<lparr> aa_TrustScore = fl (40 / 100), aa_Source = source,
             aa_ContentSource = contentSource, aa_Flags = [], aa_Sanitized = False,
             aa_ScanPassed = True, aa_AnnotatedAt = now \<rparr> \<rparr>"

definition NoOp_ReviewOutbound :: "string \<Rightarrow> error + OutboundReport" where
  "NoOp_ReviewOutbound content = Inr \<lparr> or_Clean = True, or_Findings = [], or_Severity = '''' \<rparr>"

section \<open>Scanning finds every occurrence\<close>

lemma snippet_safe: "offset \<le> length content + radius \<Longrightarrow> snippet content offset radius \<noteq> None"
  by (auto simp: snippet_def goSlice_def Let_def)

lemma snippet_panics: "length content + radius < offset \<Longrightarrow> snippet content offset radius = None"
  by (simp add: snippet_def goSlice_def Let_def)

lemma hasPrefix_drop_bound: "hasPrefix (drop i s) pat \<Longrightarrow> pat \<noteq> [] \<Longrightarrow> i < length s"
  by (rule ccontr) (simp add: hasPrefix_iff)

lemma strIndex_least:
  "strIndex s pat = Some k \<Longrightarrow> hasPrefix (drop k s) pat \<and> (\<forall>i < k. \<not> hasPrefix (drop i s) pat)"
proof -
  assume k: "strIndex s pat = Some k"
  have "drop k s = pat @ drop (length pat) (drop k s)"
    using strIndex_Some(2) [OF k] append_take_drop_id [of "length pat" "drop k s"] by simp
  with strIndex_Some(3) [OF k] show ?thesis by (metis hasPrefix_append)
qed

lemma strIndex_None_drop: "strIndex s pat = None \<Longrightarrow> \<not> hasPrefix (drop i s) pat"
proof (induction s pat arbitrary: i rule: strIndex.induct)
  case (2 c s sub)
  then show ?case by (cases i) (auto split: if_splits)
qed (auto simp: hasPrefix_iff split: if_splits)

lemma findFrom_complete:
  assumes "length lower \<le> length original + 50" "pat \<noteq> []" "start \<le> length lower"
  shows "\<exists>ms. findFrom lower original def pat start = Some ms \<and>
    pm_Offset ` set ms = {i. start \<le> i \<and> hasPrefix (drop i lower) pat} \<and>
    (\<forall>m \<in> set ms. pm_Category m = pd_category def \<and> pm_Pattern m = pd_pattern def)"
  using assms
proof (induction lower original "def" pat start rule: findFrom.induct)
  case (1 lower original "def" pat start)
  show ?case
  proof (cases "strIndex (drop start lower) pat")
    case None
    have "\<not> hasPrefix (drop i lower) pat" if "start \<le> i" for i
      using strIndex_None_drop [OF None, of "i - start"] that by simp
    with None 1(4) show ?thesis by (subst findFrom.simps) auto
  next
    case (Some idx)
    note least = strIndex_least [OF Some]
    then have at: "hasPrefix (drop (start + idx) lower) pat" by (simp add: add.commute)
    from hasPrefix_drop_bound [OF at 1(3)] have lt: "start + idx < length lower" .
    with 1(2) obtain sn where sn: "snippet original (start + idx) 50 = Some sn"
      using snippet_safe [of "start + idx" original 50] by auto
    obtain ms where ms: "findFrom lower original def pat (start + idx + 1) = Some ms"
      "pm_Offset ` set ms = {i. start + idx + 1 \<le> i \<and> hasPrefix (drop i lower) pat}"
      "\<forall>m \<in> set ms. pm_Category m = pd_category def \<and> pm_Pattern m = pd_pattern def"
      using 1(1) [OF _ Some sn] 1(2-4) lt by auto
    have none: "\<not> hasPrefix (drop i lower) pat" if "start \<le> i" "i < start + idx" for i
      using least that by (auto dest!: spec [of _ "i - start"])
    have "{i. start \<le> i \<and> hasPrefix (drop i lower) pat} =
        insert (start + idx) {i. start + idx + 1 \<le> i \<and> hasPrefix (drop i lower) pat}"
      using at none by (auto simp: not_less_eq_eq) (metis Suc_leI le_neq_implies_less not_le)
    with ms Some sn 1(4) show ?thesis by (subst findFrom.simps) auto
  qed
qed


definition allPatterns :: "patternDef list" where
  "allPatterns = classicPatterns @ asrpPatterns"

lemma patterns_fold:
  "def \<in> set allPatterns \<Longrightarrow> ToLower lr (pd_pattern def) = pd_pattern def \<and> pd_pattern def \<noteq> []"
  by (auto simp: allPatterns_def classicPatterns_def asrpPatterns_def ToLower_def asciiByte_def asciiLower_def)

lemma findEach_complete:
  assumes "length lower \<le> length content + 50" "set defs \<subseteq> set allPatterns"
  shows "\<exists>ms. findEach lr lower content defs = Some ms \<and>
    (\<lambda>m. (pm_Category m, pm_Pattern m, pm_Offset m)) ` set ms =
      {(pd_category d, pd_pattern d, i) | d i. d \<in> set defs \<and> hasPrefix (drop i lower) (pd_pattern d)}"
  using assms(2)
proof (induction defs)
  case (Cons d ds)
  then have p: "ToLower lr (pd_pattern d) = pd_pattern d" "pd_pattern d \<noteq> []"
    using patterns_fold by auto
  obtain m1 where m1: "findAll lr lower content d = Some m1"
    "pm_Offset ` set m1 = {i. hasPrefix (drop i lower) (pd_pattern d)}"
    "\<forall>m \<in> set m1. pm_Category m = pd_category d \<and> pm_Pattern m = pd_pattern d"
    using findFrom_complete [OF assms(1) p(2), of 0 d] by (auto simp: findAll_def p)
  from Cons obtain m2 where m2: "findEach lr lower content ds = Some m2"
    "(\<lambda>m. (pm_Category m, pm_Pattern m, pm_Offset m)) ` set m2 =
      {(pd_category d, pd_pattern d, i) | d i. d \<in> set ds \<and> hasPrefix (drop i lower) (pd_pattern d)}"
    by auto
  have "(\<lambda>m. (pm_Category m, pm_Pattern m, pm_Offset m)) ` set m1 =
      (\<lambda>i. (pd_category d, pd_pattern d, i)) ` (pm_Offset ` set m1)"
    using m1(3) by (auto simp: image_image intro!: image_cong)
  with m1 m2 show ?case by (auto simp: image_Un)
qed simp

text \<open>The gaps never panic, and report only phrases that are there.\<close>

lemma concealedAt_sound:
  assumes "length lower = length content" "j < length content" "set defs \<subseteq> set allPatterns"
  shows "\<exists>ms. concealedAt lr lower content j defs = Some ms \<and>
    (\<forall>m \<in> set ms. pm_Category m = ''concealed'' \<and>
       (\<exists>d \<in> set allPatterns. pm_Pattern m = pd_pattern d \<and> hasPrefix (drop j lower) (pd_pattern d)))"
  using assms(3)
proof (induction defs)
  case (Cons d ds)
  then have p: "ToLower lr (pd_pattern d) = pd_pattern d" using patterns_fold by auto
  obtain sn where "snippet content j 50 = Some sn"
    using snippet_safe [of j content 50] assms by auto
  moreover have "goFrom lower j = Some (drop j lower)" using assms by (simp add: goFrom_def goSlice_def)
  ultimately show ?case using Cons p by auto
qed simp

lemma concealedFrom_sound:
  assumes "length lower = length content"
  shows "\<exists>ms. concealedFrom lr lower content i = Some ms \<and>
    (\<forall>m \<in> set ms. pm_Category m = ''concealed'' \<and>
       (\<exists>d \<in> set allPatterns. \<exists>j. pm_Pattern m = pd_pattern d \<and> hasPrefix (drop j lower) (pd_pattern d)))"
  using assms
proof (induction lr lower content i rule: concealedFrom.induct)
  case (1 lr lower content i)
  let ?j = "i + length (takeWhile blank (drop i content))"
  consider "length content \<le> i" | "\<not> length content \<le> i" "\<not> blank (content ! i)"
    | "\<not> length content \<le> i" "blank (content ! i)" "\<not> (?j - i > 20 \<and> ?j < length content)"
    | "\<not> length content \<le> i" "blank (content ! i)" "?j - i > 20 \<and> ?j < length content" by blast
  then show ?case
  proof cases
    case 4
    obtain m1 where m1: "concealedAt lr lower content ?j (classicPatterns @ asrpPatterns) = Some m1"
      "\<forall>m \<in> set m1. pm_Category m = ''concealed'' \<and>
         (\<exists>d \<in> set allPatterns. \<exists>j. pm_Pattern m = pd_pattern d \<and> hasPrefix (drop j lower) (pd_pattern d))"
      using concealedAt_sound [of lower content ?j "classicPatterns @ asrpPatterns" lr] 1(4) 4(3)
      unfolding allPatterns_def by blast
    from 1(1) [OF 4(1,2) refl 4(3) m1(1) 1(4)] m1 4 show ?thesis
      by (subst concealedFrom.simps) (auto simp: Let_def)
  next
    case 1
    then show ?thesis by (subst concealedFrom.simps) simp
  next
    case 2
    with 1(3) [OF 2(1,2) 1(4)] show ?thesis by (subst concealedFrom.simps) simp
  next
    case 3
    with 1(2) [OF 3(1,2) refl 3(3) 1(4)] show ?thesis by (subst concealedFrom.simps) (auto simp: Let_def)
  qed
qed


lemma scan_exact:
  assumes "length (ToLower lr content) = length content"
  shows "\<exists>ms. Scan lr content = Some ms \<and>
    (\<forall>d \<in> set allPatterns. \<forall>i.
       (\<exists>m \<in> set ms. pm_Category m = pd_category d \<and> pm_Pattern m = pd_pattern d \<and> pm_Offset m = i) \<longleftrightarrow>
       hasPrefix (drop i (ToLower lr content)) (pd_pattern d)) \<and>
    (ms = [] \<longleftrightarrow> (\<forall>d \<in> set allPatterns. \<not> strContains (ToLower lr content) (pd_pattern d)))"
proof -
  let ?lower = "ToLower lr content"
  obtain m1 where m1: "findEach lr ?lower content (classicPatterns @ asrpPatterns) = Some m1"
    "(\<lambda>m. (pm_Category m, pm_Pattern m, pm_Offset m)) ` set m1 =
      {(pd_category d, pd_pattern d, i) | d i. d \<in> set allPatterns \<and> hasPrefix (drop i ?lower) (pd_pattern d)}"
    using findEach_complete [of ?lower content allPatterns lr] assms by (auto simp: allPatterns_def)
  obtain m2 where m2: "scanConcealed lr content = Some m2"
    "\<forall>m \<in> set m2. pm_Category m = ''concealed'' \<and>
       (\<exists>d \<in> set allPatterns. \<exists>j. pm_Pattern m = pd_pattern d \<and> hasPrefix (drop j ?lower) (pd_pattern d))"
    using concealedFrom_sound [OF assms, of lr 0] unfolding scanConcealed_def by blast
  have cat: "pd_category d \<noteq> ''concealed''" if "d \<in> set allPatterns" for d
    using that by (auto simp: allPatterns_def classicPatterns_def asrpPatterns_def)
  have "distinct (map pd_pattern allPatterns)"
    by (simp add: allPatterns_def classicPatterns_def asrpPatterns_def)
  then have inj: "d = e" if "d \<in> set allPatterns" "e \<in> set allPatterns" "pd_pattern d = pd_pattern e" for d e
    using that by (auto simp: distinct_map dest: inj_onD)
  have hit: "(\<exists>m \<in> set (m1 @ m2). pm_Category m = pd_category d \<and> pm_Pattern m = pd_pattern d \<and> pm_Offset m = i) \<longleftrightarrow>
      hasPrefix (drop i ?lower) (pd_pattern d)" if d: "d \<in> set allPatterns" for d i
  proof -
    have "(\<exists>m \<in> set (m1 @ m2). pm_Category m = pd_category d \<and> pm_Pattern m = pd_pattern d \<and> pm_Offset m = i) \<longleftrightarrow>
        (pd_category d, pd_pattern d, i) \<in> (\<lambda>m. (pm_Category m, pm_Pattern m, pm_Offset m)) ` set m1"
      using m2(2) cat [OF d] by force
    also have "\<dots> \<longleftrightarrow> hasPrefix (drop i ?lower) (pd_pattern d)"
      unfolding m1(2) using inj d by blast
    finally show ?thesis .
  qed
  have contains: "strContains s p \<longleftrightarrow> (\<exists>i. hasPrefix (drop i s) p)" for s p
    using strIndex_None_iff [of s p] strIndex_None_drop [of s p] strIndex_least [of s p]
    by (cases "strIndex s p") auto
  have "m1 @ m2 = [] \<longleftrightarrow> (\<forall>d \<in> set allPatterns. \<not> strContains ?lower (pd_pattern d))"
  proof
    assume "m1 @ m2 = []"
    with m1(2) show "\<forall>d \<in> set allPatterns. \<not> strContains ?lower (pd_pattern d)"
      by (auto simp: contains)
  next
    assume none: "\<forall>d \<in> set allPatterns. \<not> strContains ?lower (pd_pattern d)"
    then have "(\<lambda>m. (pm_Category m, pm_Pattern m, pm_Offset m)) ` set m1 = {}"
      unfolding m1(2) by (auto simp: contains)
    then have "set m1 = {}" by (simp only: image_is_empty)
    moreover from none m2(2) have "set m2 = {}" by (fastforce simp: contains)
    ultimately show "m1 @ m2 = []" by simp
  qed
  with m1(1) m2(1) hit show ?thesis by (auto simp: Scan_def)
qed

section \<open>Properties\<close>

text \<open>
  Sanitising removes every zero-width and directional-override character and nothing else:
  the code points of the result are those of the normalised text without the invisible ones,
  in order, whatever bytes come in and whatever the normalisation does.
\<close>

theorem sanitize_strips_exactly_invisible:
  "runes (fst (Sanitize nfkc raw)) = filter (\<lambda>r. \<not> isInvisible r) (runes (nfkc raw)) \<and>
   list_all (\<lambda>r. \<not> isInvisible r) (runes (fst (Sanitize nfkc raw)))"
proof -
  have "\<forall>r \<in> set (filter (\<lambda>r. \<not> isInvisible r) (runes (nfkc raw))). validRune r"
    using runes_valid by auto
  from runes_encodeRunes [OF this] show ?thesis
    by (simp add: Sanitize_def Let_def list_all_iff)
qed

text \<open>
  The modification flag misses one modification: a text that normalisation leaves alone and
  that has no invisible characters is reported unmodified, and the text returned is the
  re-encoding of its code points, in which each byte that is not UTF-8 has become U+FFFD.
\<close>

theorem sanitize_flag_misses_invalid_bytes:
  assumes "nfkc raw = raw" "list_all (\<lambda>r. \<not> isInvisible r) (runes raw)"
  shows "Sanitize nfkc raw = (encodeRunes (runes raw), False)"
proof -
  have "filter (\<lambda>r. \<not> isInvisible r) (runes raw) = runes raw"
    using assms(2) by (simp add: list_all_iff)
  moreover have "\<not> list_ex isInvisible (runes raw)" using assms(2) by (auto simp: list_all_iff list_ex_iff)
  ultimately show ?thesis using assms(1) by (simp add: Sanitize_def Let_def)
qed

theorem sanitize_flag_misses_invalid_bytes_witness:
  "Sanitize (\<lambda>s. s) [CHR 0xFF] = ([CHR 0xEF, CHR 0xBF, CHR 0xBD], False)"
  using sanitize_flag_misses_invalid_bytes [of "\<lambda>s. s" "[CHR 0xFF]"]
  by (simp add: decodeRune.simps isInvisible_def encodeRunes_def encodeRune_def validRune_def char_of_def bit_simps)

text \<open>
  The scan is exact. On a text whose case folding keeps its length in bytes (any ASCII
  text), \<open>Scan\<close> does not panic, reports a phrase at an offset exactly when the folded text has
  the phrase there, and reports nothing at all exactly when no phrase occurs.
\<close>

theorem scan_finds_every_phrase:
  assumes "length (ToLower lr content) = length content"
  shows "\<exists>ms. Scan lr content = Some ms \<and>
    (\<forall>d \<in> set (classicPatterns @ asrpPatterns). \<forall>i.
       (\<exists>m \<in> set ms. pm_Category m = pd_category d \<and> pm_Pattern m = pd_pattern d \<and> pm_Offset m = i) \<longleftrightarrow>
       hasPrefix (drop i (ToLower lr content)) (pd_pattern d)) \<and>
    (ms = [] \<longleftrightarrow> (\<forall>d \<in> set (classicPatterns @ asrpPatterns). \<not> strContains (ToLower lr content) (pd_pattern d)))"
  using scan_exact [OF assms] unfolding allPatterns_def .

theorem scan_finds_every_phrase_witness:
  "\<exists>ms. Scan (\<lambda>r. r) ''Please DISREGARD'' = Some ms \<and>
     (\<exists>m \<in> set ms. pm_Category m = ''classic'' \<and> pm_Pattern m = ''disregard'' \<and> pm_Offset m = 7)"
proof -
  have "length (ToLower (\<lambda>r. r) ''Please DISREGARD'') = length ''Please DISREGARD''"
    and l: "ToLower (\<lambda>r. r) ''Please DISREGARD'' = ''please disregard''"
    by (simp_all add: ToLower_def asciiByte_def asciiLower_def char_of_def bit_simps)
  from scan_finds_every_phrase [OF this(1)] obtain ms where ms: "Scan (\<lambda>r. r) ''Please DISREGARD'' = Some ms"
    "\<forall>d \<in> set (classicPatterns @ asrpPatterns). \<forall>i.
       (\<exists>m \<in> set ms. pm_Category m = pd_category d \<and> pm_Pattern m = pd_pattern d \<and> pm_Offset m = i) \<longleftrightarrow>
       hasPrefix (drop i ''please disregard'') (pd_pattern d)" unfolding l by blast
  have "pdef ''classic'' ''disregard'' \<in> set (classicPatterns @ asrpPatterns)" by (simp add: classicPatterns_def)
  from ms(2) [rule_format, OF this, of 7] ms(1) show ?thesis by simp
qed


text \<open>
  The other side of the same condition: case folding may lengthen a text, and then the offset
  of a match in the folded text lies outside the original one.
\<close>

lemma utf8_023A: "encodeRune 0x23A = [CHR 0xC8, CHR 0xBA]"
  by (simp add: encodeRune_def char_of_def bit_simps)

lemma utf8_2C65: "encodeRune 0x2C65 = [CHR 0xE2, CHR 0xB1, CHR 0xA5]"
  by (simp add: encodeRune_def validRune_def char_of_def bit_simps)

definition longText :: "nat \<Rightarrow> string" where
  "longText n = encodeRunes (replicate n 0x23A) @ ''disregard''"

definition longLower :: "nat \<Rightarrow> string" where
  "longLower n = encodeRunes (replicate n 0x2C65) @ ''disregard''"

lemma encodeRunes_append: "encodeRunes (rs @ ss) = encodeRunes rs @ encodeRunes ss"
  by (simp add: encodeRunes_def)

lemma disregard_runes: "encodeRunes (map of_char ''disregard'') = ''disregard''"
  by (simp add: encodeRunes_def encodeRune_def char_of_def bit_simps)

lemma lengths:
  "length (encodeRunes (replicate n 0x23A)) = 2 * n"
  "length (encodeRunes (replicate n 0x2C65)) = 3 * n"
  by (induction n) (simp_all add: encodeRunes_def utf8_023A utf8_2C65)

lemma longText_lower:
  assumes "lr 0x23A = 0x2C65" "\<And>r. r < 0x80 \<Longrightarrow> lr r = of_char (asciiLower (char_of r))" "0 < n"
  shows "ToLower lr (longText n) = longLower n"
proof -
  let ?rs = "replicate n 0x23A @ map of_char ''disregard''"
  have long: "longText n = encodeRunes ?rs" by (simp only: longText_def encodeRunes_append disregard_runes)
  have "\<forall>r \<in> set ?rs. validRune r" by (auto simp: validRune_def)
  from runes_encodeRunes [OF this] have rs: "runes (longText n) = ?rs" unfolding long .
  have "\<not> list_all asciiByte (longText n)"
    using assms(3) by (cases n) (auto simp: longText_def encodeRunes_def utf8_023A asciiByte_def)
  moreover have "map lr ?rs = replicate n 0x2C65 @ map of_char ''disregard''"
    by (simp add: assms(1,2) asciiLower_def)
  ultimately show ?thesis
    by (simp add: ToLower_def rs longLower_def encodeRunes_append del: map_append)
      (simp only: disregard_runes [simplified] list.map)
qed

lemma index_longLower: "strIndex (longLower n) ''disregard'' = Some (3 * n)"
proof (induction n)
  case 0
  then show ?case by (simp add: longLower_def encodeRunes_def)
next
  case (Suc n)
  have "longLower (Suc n) = CHR 0xE2 # CHR 0xB1 # CHR 0xA5 # longLower n"
    by (simp add: longLower_def encodeRunes_def utf8_2C65)
  with Suc show ?case by simp
qed

text \<open>
  A text of sixty or more letters U+023A (two bytes; its lower-case letter U+2C65 has
  three) followed by the word \<open>disregard\<close> makes \<open>Scan\<close> panic: the snippet of the match is cut
  out of the original text with an offset computed in the longer, folded one.
\<close>

theorem scan_panics_on_growing_text:
  assumes "lr 0x23A = 0x2C65" "\<And>r. r < 0x80 \<Longrightarrow> lr r = of_char (asciiLower (char_of r))" "60 \<le> n"
  shows "Scan lr (longText n) = None"
proof -
  have lower: "ToLower lr (longText n) = longLower n"
    using assms by (intro longText_lower) auto
  have "length (longText n) + 50 < 3 * n" using assms(3) by (simp add: longText_def lengths)
  then have "findFrom (longLower n) (longText n) d ''disregard'' 0 = None" for d
    by (subst findFrom.simps) (simp add: index_longLower snippet_panics)
  moreover have "ToLower lr ''disregard'' = ''disregard''"
    by (simp add: ToLower_def asciiByte_def asciiLower_def)
  ultimately have none: "findAll lr (longLower n) (longText n) (pdef ''classic'' ''disregard'') = None"
    by (simp add: findAll_def)
  have "findEach lr (longLower n) (longText n) defs = None"
    if "pdef ''classic'' ''disregard'' \<in> set defs" for defs
    using that by (induction defs) (auto simp: none split: option.splits)
  moreover have "pdef ''classic'' ''disregard'' \<in> set (classicPatterns @ asrpPatterns)"
    by (simp add: classicPatterns_def)
  ultimately have "findEach lr (longLower n) (longText n) (classicPatterns @ asrpPatterns) = None" .
  then show ?thesis by (simp add: Scan_def lower)
qed

theorem scan_panics_on_growing_text_witness:
  "Scan (\<lambda>r. if r = 0x23A then 0x2C65 else if r < 0x80 then of_char (asciiLower (char_of r)) else r)
     (longText 60) = None"
  by (rule scan_panics_on_growing_text) simp_all


section \<open>The trust registry as an interface\<close>

text \<open>
  \<^verbatim>\<open>pkg.TrustStore\<close>: what the scorer relies on. \<open>view\<close> is the contents of the registry, \<open>stored\<close>
  the value a score has once it has been written, \<open>initial\<close> the score of a row that counting an
  interaction creates. A statement that fails changes nothing.
\<close>

locale trust_store =
  fixes get :: "error option \<Rightarrow> string \<Rightarrow> 'st \<Rightarrow> trustError + float64 \<times> int"
    and upd :: "error option \<Rightarrow> string \<Rightarrow> float64 \<Rightarrow> 'st \<Rightarrow> error option \<times> 'st"
    and inc :: "error option \<Rightarrow> string \<Rightarrow> 'st \<Rightarrow> error option \<times> 'st"
    and view :: "'st \<Rightarrow> string \<Rightarrow> (float64 \<times> int) option"
    and stored :: "float64 \<Rightarrow> float64"
    and initial :: float64
  assumes get_view: "get f source st =
      (case f of Some e \<Rightarrow> Inl (ErrTrustDB e)
       | None \<Rightarrow> (case view st source of None \<Rightarrow> Inl ErrTrustNotFound | Some r \<Rightarrow> Inr r))"
    and upd_view: "view (snd (upd f source x st)) k =
      (if f = None \<and> k = source
       then Some (stored x, (case view st source of None \<Rightarrow> 0 | Some (_, n) \<Rightarrow> n)) else view st k)"
    and inc_view: "view (snd (inc f source st)) k =
      (if f = None \<and> k = source
       then Some (case view st source of None \<Rightarrow> (initial, 1) | Some (s, n) \<Rightarrow> (s, n + 1))
       else view st k)"
begin

text \<open>Scoring changes no other source, and what it stores does not depend on the flags.\<close>

lemma Score_other:
  "k \<noteq> source \<Longrightarrow> view (snd (Score (get f) (upd g) (inc h) cfg source flags st)) k = view st k"
  by (auto simp: Score_def Let_def get_view upd_view inc_view split: option.split)

lemma Score_flags_not_stored:
  "snd (Score (get f) (upd g) (inc h) cfg source flags st) =
   snd (Score (get f) (upd g) (inc h) cfg source flags' st)"
  by (simp add: Score_def Let_def get_view split: option.split)

text \<open>A prior that the registry stores unchanged is never left.\<close>

lemma Score_keeps_prior:
  assumes "\<And>k s n. view st k = Some (s, n) \<Longrightarrow> s = p"
    and "tc_SkepticalPrior cfg = p" "\<And>i. baseScore cfg p i = p" "stored p = p" "initial = p"
    and "view (snd (Score (get f) (upd g) (inc h) cfg source flags st)) k = Some (s, n)"
  shows "s = p"
proof (cases "k = source")
  case True
  then show ?thesis
    using assms
    by (cases "view st source"; cases f; cases g; cases h)
      (auto simp: Score_def Let_def get_view upd_view inc_view split: option.splits)
next
  case False
  with assms show ?thesis by (auto simp: Score_other)
qed

lemma Score_returns_prior:
  assumes "\<And>k s n. view st k = Some (s, n) \<Longrightarrow> s = p"
    and "tc_SkepticalPrior cfg = p" "\<And>i. baseScore cfg p i = p"
  shows "fst (fst (Score (get f) (upd g) (inc h) cfg source flags st)) = (if f = None then penalise flags p else p)"
  using assms
  by (cases "view st source") (auto simp: Score_def Let_def get_view split: option.splits)

end

interpretation sqlite_trust: trust_store SQLite_GetTrust SQLite_UpdateTrust SQLite_IncrementInteractions
    "\<lambda>tab. tab" "\<lambda>x. x" "fl (40 / 100)"
  by unfold_locales
    (auto simp: SQLite_GetTrust_def SQLite_UpdateTrust_def SQLite_IncrementInteractions_def split: option.split)

interpretation postgres_trust: trust_store Postgres_GetTrust "Postgres_UpdateTrust real4"
    "Postgres_IncrementInteractions real4" "\<lambda>tab. tab" real4 "real4 (40 / 100)" for real4
  by unfold_locales
    (auto simp: Postgres_GetTrust_def Postgres_UpdateTrust_def Postgres_IncrementInteractions_def split: option.split)


text \<open>A history of scorings: the statement errors, the source and the flags of each.\<close>

type_synonym scoring = "error option \<times> error option \<times> error option \<times> string \<times> PatternMatch list"

fun runScores :: "scoring list \<Rightarrow> trustTable \<Rightarrow> trustTable" where
  "runScores [] tab = tab"
| "runScores ((f, g, h, source, flags) # cs) tab =
     runScores cs (snd (Score (SQLite_GetTrust f) (SQLite_UpdateTrust g) (SQLite_IncrementInteractions h)
       DefaultTrustConfig source flags tab))"

lemma baseScore_prior:
  "isFloat (tc_SkepticalPrior cfg) \<Longrightarrow> tc_SkepticalPrior cfg \<le> tc_MaxTrust cfg \<Longrightarrow>
   baseScore cfg (tc_SkepticalPrior cfg) i = tc_SkepticalPrior cfg"
  by (simp add: baseScore_def Let_def float_ops fl_isFloat)

lemma default_prior: "baseScore DefaultTrustConfig (fl (40 / 100)) i = fl (40 / 100)"
  using baseScore_prior [of DefaultTrustConfig i] fl_mono [of "40 / 100" "95 / 100"]
  by (simp add: DefaultTrustConfig_def)

lemma default_skeptical: "tc_SkepticalPrior DefaultTrustConfig = fl (40 / 100)"
  by (simp add: DefaultTrustConfig_def)

lemma runScores_prior:
  "(\<And>k s n. tab k = Some (s, n) \<Longrightarrow> s = fl (40 / 100)) \<Longrightarrow> runScores cs tab k = Some (s, n) \<Longrightarrow> s = fl (40 / 100)"
proof (induction cs tab arbitrary: k s n rule: runScores.induct)
  case (2 f g h source flags cs tab)
  show ?case
  proof (rule "2.IH")
    fix k s n
    assume "snd (Score (SQLite_GetTrust f) (SQLite_UpdateTrust g) (SQLite_IncrementInteractions h)
       DefaultTrustConfig source flags tab) k = Some (s, n)"
    then show "s = fl (40 / 100)"
      by (rule sqlite_trust.Score_keeps_prior [rotated -1]) (fact 2(2) default_prior refl default_skeptical)+
  qed (use 2(3) in simp)
qed simp

text \<open>
  Trust never moves. However often and with whatever flags sources are scored with the
  default configuration, starting from an empty registry, every stored score is the skeptical
  prior 0.40, and the score returned for the next content of any source is that prior with the
  penalties of this content's own flags: no number of clean interactions raises it.
\<close>

theorem trust_stays_at_skeptical_prior:
  "(case runScores cs Map.empty source of None \<Rightarrow> True | Some (s, n) \<Rightarrow> s = fl (40 / 100)) \<and>
   fst (fst (Score (SQLite_GetTrust None) (SQLite_UpdateTrust g) (SQLite_IncrementInteractions h)
     DefaultTrustConfig source flags (runScores cs Map.empty))) = penalise flags (fl (40 / 100))"
proof -
  have inv: "s = fl (40 / 100)" if "runScores cs Map.empty k = Some (s, n)" for k s n
    using runScores_prior [of Map.empty cs k s n] that by simp
  moreover have "fst (fst (Score (SQLite_GetTrust None) (SQLite_UpdateTrust g) (SQLite_IncrementInteractions h)
      DefaultTrustConfig source flags (runScores cs Map.empty))) =
      (if None = (None :: error option) then penalise flags (fl (40 / 100)) else fl (40 / 100))"
    by (rule sqlite_trust.Score_returns_prior) (fact inv default_skeptical default_prior)+
  ultimately show ?thesis by (auto split: option.split)
qed

lemma fl_1: "fl 1 = 1"
  by code_simp

lemma fl_seven_tenths: "fl (7 / 10) \<le> 1" "0 \<le> fl (7 / 10)"
  using fl_mono [of "7 / 10" 1] fl_nonneg [of "7 / 10"] by (simp_all add: fl_1)

lemma fmul_penalty: "isFloat s \<Longrightarrow> 0 \<le> s \<Longrightarrow> fmul s (fl (7 / 10)) \<le> s"
  unfolding fmul_def using fl_seven_tenths by (intro fl_le) (auto intro: mult_left_le)

lemma penalise_bounds:
  "isFloat s \<Longrightarrow> fl (10 / 100) \<le> s \<Longrightarrow> fl (10 / 100) \<le> penalise flags s \<and> penalise flags s \<le> s"
proof (induction flags arbitrary: s)
  case (Cons f flags)
  have "0 \<le> fl (10 / 100)" by (rule fl_nonneg) simp
  with Cons have "fmul s (fl (7 / 10)) \<le> s" by (intro fmul_penalty) auto
  with Cons.IH [of "fmul s (fl (7 / 10))"] Cons.prems show ?case by (auto simp: Let_def)
qed simp

lemma baseScore_isFloat: "isFloat s \<Longrightarrow> isFloat (tc_MaxTrust cfg) \<Longrightarrow> isFloat (baseScore cfg s i)"
  by (simp add: baseScore_def Let_def)

text \<open>
  Flags lower the score of this content and nothing else: the score returned lies between
  the floor 0.10 and the base score, never above the ceiling, and the registry is left as if
  the content had carried no flags, so that a flagged message does not degrade its source.
\<close>

theorem flag_penalty_is_local:
  assumes "tab source = Some (s, n)" "isFloat s" "isFloat (tc_MaxTrust cfg)"
    and "fl (10 / 100) \<le> baseScore cfg s n"
  shows "fl (10 / 100) \<le> fst (fst (Score (SQLite_GetTrust None) (SQLite_UpdateTrust g) (SQLite_IncrementInteractions h) cfg source flags tab)) \<and>
    fst (fst (Score (SQLite_GetTrust None) (SQLite_UpdateTrust g) (SQLite_IncrementInteractions h) cfg source flags tab)) \<le> baseScore cfg s n \<and>
    baseScore cfg s n \<le> tc_MaxTrust cfg \<and>
    snd (Score (SQLite_GetTrust None) (SQLite_UpdateTrust g) (SQLite_IncrementInteractions h) cfg source flags tab) =
    snd (Score (SQLite_GetTrust None) (SQLite_UpdateTrust g) (SQLite_IncrementInteractions h) cfg source [] tab)"
proof -
  have "fst (fst (Score (SQLite_GetTrust None) (SQLite_UpdateTrust g) (SQLite_IncrementInteractions h) cfg source flags tab)) =
      penalise flags (baseScore cfg s n)"
    by (simp add: Score_def Let_def SQLite_GetTrust_def assms(1))
  moreover have "baseScore cfg s n \<le> tc_MaxTrust cfg" by (simp add: baseScore_def Let_def)
  ultimately show ?thesis
    using penalise_bounds [OF baseScore_isFloat [OF assms(2,3)] assms(4), of flags]
      sqlite_trust.Score_flags_not_stored [of None g h cfg source flags tab "[]"] by simp
qed


theorem flag_penalty_is_local_witness:
  "fl (10 / 100) \<le> fst (fst (Score (SQLite_GetTrust None) (SQLite_UpdateTrust None) (SQLite_IncrementInteractions None)
     DefaultTrustConfig ''forum'' [(), (), (), (), (), ()] [''forum'' \<mapsto> (fl (40 / 100), 7)]))"
proof -
  have base: "fl (10 / 100) \<le> baseScore DefaultTrustConfig (fl (40 / 100)) 7"
    unfolding default_prior by (rule fl_mono) simp
  show ?thesis
    by (rule flag_penalty_is_local [where s = "fl (40 / 100)" and n = 7, OF _ _ _ base, THEN conjunct1])
      (simp_all add: DefaultTrustConfig_def)
qed





end
