(* ===== verification/Consolidation.thy ===== *)
theory Consolidation
  imports JobStore Aegis
begin

text \<open>
  The link from experiential logs (tier 2) to narrative summaries (tier 3): the two
  implementations of \<^verbatim>\<open>pkg.ConsolidationStore\<close> in \<^verbatim>\<open>internal/platform/storage\<close>, the legacy
  \<open>AtomicT2T3Link\<close> of \<^verbatim>\<open>internal/metabolism/backlink.go\<close>, and the JSON columns they share with
  \<^verbatim>\<open>storage.go\<close>.

  A transaction is a function from the database to its result and the database afterwards;
  each of its statements may fail, which the record \<open>txFaults\<close> says, and a transaction that does
  not reach its commit leaves the database as it was. A JSON column is the value its text
  denotes; \<open>None\<close> is the empty text.
\<close>

section \<open>JSON columns\<close>

text \<open>\<open>time.Time{}\<close>: the first of January of the year 1.\<close>

definition zeroTime :: time where
  "zeroTime = - 62135596800 * second"

datatype json = JNull | JNum float64 | JInt int | JStr string | JBool bool | JArr "json list"
  | JObj "(string \<times> json) list"

record BeliefMeta =
  bm_BaseConfidence :: float64
  bm_AnchorAt :: time
  bm_InferenceDistance :: int
  bm_VerificationState :: string
  bm_Source :: string
  bm_EmotionalRegister :: string

text \<open>\<open>stamp\<close> is \<open>Time.UTC().Format(time.RFC3339)\<close>, \<open>parse\<close> is \<open>time.Parse\<close> with the same layout.\<close>

definition beliefMetaJSON :: "(time \<Rightarrow> string) \<Rightarrow> BeliefMeta option \<Rightarrow> json" where
  "beliefMetaJSON stamp b =
     (case b of
        None \<Rightarrow> JObj []
      | Some b \<Rightarrow>
          JObj ([(''anchor_at'', JStr (stamp (bm_AnchorAt b))),
                 (''inference_distance'', JInt (bm_InferenceDistance b)),
                 (''verification_state'', JStr (bm_VerificationState b)),
                 (''source'', JStr (bm_Source b))] @
                (if bm_EmotionalRegister b \<noteq> '''' then [(''emotional_register'', JStr (bm_EmotionalRegister b))] else [])))"

definition aegisMetaJSON :: "(time \<Rightarrow> string) \<Rightarrow> AegisAnnotation option \<Rightarrow> json option" where
  "aegisMetaJSON stamp ann =
     map_option (\<lambda>a.
       JObj ([(''trust_score'', JNum (aa_TrustScore a)),
              (''source'', JStr (aa_Source a)),
              (''content_source'', JStr (aa_ContentSource a)),
              (''scan_passed'', JBool (aa_ScanPassed a)),
              (''sanitized'', JBool (aa_Sanitized a)),
              (''annotated_at'', JStr (stamp (aa_AnnotatedAt a)))] @
             (if aa_Flags a \<noteq> [] then [(''flags'', JArr (map JStr (aa_Flags a)))] else []))) ann"

text \<open>
  A value that is neither an object nor null does not unmarshal into a map; a field of another type
  is skipped.
\<close>

definition decodeAegisMeta :: "(string \<Rightarrow> time option) \<Rightarrow> json option \<Rightarrow> AegisAnnotation option" where
  "decodeAegisMeta parse col =
     (case (case col of Some (JObj flds) \<Rightarrow> Some flds | Some JNull \<Rightarrow> Some [] | _ \<Rightarrow> None) of
        Some flds \<Rightarrow>
          (let m = map_of flds in
           Some \<lparr> aa_TrustScore = (case m ''trust_score'' of Some (JNum x) \<Rightarrow> x | Some (JInt i) \<Rightarrow> fl (of_int i) | _ \<Rightarrow> 0),
                  aa_Source = (case m ''source'' of Some (JStr s) \<Rightarrow> s | _ \<Rightarrow> ''''),
                  aa_ContentSource = (case m ''content_source'' of Some (JStr s) \<Rightarrow> s | _ \<Rightarrow> ''''),
                  aa_Flags = (case m ''flags'' of
                                Some (JArr xs) \<Rightarrow> List.map_filter (\<lambda>x. case x of JStr s \<Rightarrow> Some s | _ \<Rightarrow> None) xs
                              | _ \<Rightarrow> []),
                  aa_Sanitized = (case m ''sanitized'' of Some (JBool b) \<Rightarrow> b | _ \<Rightarrow> False),
                  aa_ScanPassed = (case m ''scan_passed'' of Some (JBool b) \<Rightarrow> b | _ \<Rightarrow> False),
                  aa_AnnotatedAt = (case m ''annotated_at'' of
                                      Some (JStr s) \<Rightarrow> (case parse s of Some t \<Rightarrow> t | None \<Rightarrow> zeroTime) | _ \<Rightarrow> zeroTime) \<rparr>)
      | _ \<Rightarrow> None)"

definition contentSourcesJSON :: "string list \<Rightarrow> json" where
  "contentSourcesJSON sources = JArr (map JStr sources)"

definition decodeContentSources :: "json option \<Rightarrow> string list" where
  "decodeContentSources col =
     (case col of
        Some (JArr xs) \<Rightarrow>
          if list_all (\<lambda>x. case x of JStr _ \<Rightarrow> True | JNull \<Rightarrow> True | _ \<Rightarrow> False) xs
          then map (\<lambda>x. case x of JStr s \<Rightarrow> s | _ \<Rightarrow> '''') xs else []
      | _ \<Rightarrow> [])"

section \<open>Tables\<close>

record ExperientialLog =
  el_ID :: string
  el_SessionID :: string
  el_Content :: string
  el_ContentSource :: string
  el_CreatedAt :: time
  el_AegisAnnotation :: "AegisAnnotation option"

record NarrativeSummary =
  ns_ID :: string
  ns_SessionID :: string
  ns_Content :: string
  ns_Belief :: "BeliefMeta option"
  ns_Embedding :: "rat list"
  ns_ContentSources :: "string list"
  ns_ExternalAnnotation :: "AegisAnnotation option"

record logRow =
  lr_id :: string
  lr_session_id :: string
  lr_content :: string
  lr_content_source :: string
  lr_aegis_meta :: "json option"
  lr_created_at :: time
  lr_narrative_summary_id :: "string option"

record narrativeRow =
  nr_id :: string
  nr_session_id :: string
  nr_content :: string
  nr_embedding :: "json option"
  nr_belief_meta :: json
  nr_content_sources :: json
  nr_aegis_meta :: "json option"
  nr_created_at :: time

record memDB =
  db_logs :: "logRow list"
  db_narratives :: "narrativeRow list"
  db_jobs :: jobTable

record txFaults =
  tx_notSupported :: bool
  tx_begin :: "error option"
  tx_fence :: "error option"
  tx_insert :: "error option"
  tx_update :: "error option"
  tx_commit :: "error option"

definition noTxFaults :: txFaults where
  "noTxFaults = \<lparr> tx_notSupported = False, tx_begin = None, tx_fence = None, tx_insert = None,
     tx_update = None, tx_commit = None \<rparr>"

text \<open>\<open>embeddingJSON\<close>: NULL for an empty vector.\<close>

definition embeddingJSON :: "rat list \<Rightarrow> json option" where
  "embeddingJSON vec = (if vec = [] then None else Some (JArr (map JNum vec)))"

text \<open>\<open>UPDATE experiential_logs SET narrative_summary_id = nid WHERE id IN (...)\<close>.\<close>

definition linkLogs :: "string \<Rightarrow> string list \<Rightarrow> logRow list \<Rightarrow> logRow list" where
  "linkLogs nid ids = map (\<lambda>r. if lr_id r \<in> set ids then r\<lparr>lr_narrative_summary_id := Some nid\<rparr> else r)"

text \<open>The row the \<open>INSERT INTO narrative_summaries\<close> of the stores writes.\<close>

definition narrativeRowOf :: "(time \<Rightarrow> string) \<Rightarrow> NarrativeSummary \<Rightarrow> string \<Rightarrow> time \<Rightarrow> narrativeRow" where
  "narrativeRowOf stamp n nid created =
     \<lparr> nr_id = nid, nr_session_id = ns_SessionID n, nr_content = ns_Content n,
       nr_embedding = embeddingJSON (ns_Embedding n),
       nr_belief_meta = beliefMetaJSON stamp (ns_Belief n),
       nr_content_sources = contentSourcesJSON (ns_ContentSources n),
       nr_aegis_meta = aegisMetaJSON stamp (ns_ExternalAnnotation n),
       nr_created_at = created \<rparr>"

section \<open>CommitNarrative and UncoveredLogs\<close>

text \<open>
  The result is the error, if any; \<open>newid\<close> is drawn when the narrative has no identifier, which
  the code also stores into the narrative.
\<close>

definition SQLite_CommitNarrative ::
  "(time \<Rightarrow> string) \<Rightarrow> string \<Rightarrow> time \<Rightarrow> txFaults \<Rightarrow> NarrativeSummary option \<Rightarrow> string list \<Rightarrow> memDB \<Rightarrow>
   error option \<times> memDB" where
  "SQLite_CommitNarrative stamp newid now f narrative sourceLogIDs db =
     (case narrative of
        None \<Rightarrow> (Some ''storage: narrative summary is nil'', db)
      | Some n \<Rightarrow>
          if sourceLogIDs = [] then (Some ''storage: no source log IDs for T2 back-link'', db)
          else if tx_notSupported f then (Some ''storage: database does not support transactions'', db)
          else (case tx_begin f of
              Some e \<Rightarrow> (Some (''storage: beginning consolidation transaction: '' @ e), db)
            | None \<Rightarrow>
                (let nid = (if ns_ID n = '''' then newid else ns_ID n) in
                 case (if nid \<in> nr_id ` set (db_narratives db)
                       then Some ''UNIQUE constraint failed: narrative_summaries.id'' else tx_insert f) of
                   Some e \<Rightarrow> (Some (''storage: inserting T3 narrative '' @ nid @ '': '' @ e), db)
                 | None \<Rightarrow>
                     (case tx_update f of
                        Some e \<Rightarrow> (Some (''storage: updating T2 back-links for narrative '' @ nid @ '': '' @ e), db)
                      | None \<Rightarrow>
                          (case tx_commit f of
                             Some e \<Rightarrow> (Some (''storage: committing consolidation transaction: '' @ e), db)
                           | None \<Rightarrow>
                               (None, db\<lparr>db_narratives := db_narratives db @
                                           [narrativeRowOf stamp n nid (sqliteNow now)],
                                         db_logs := linkLogs nid sourceLogIDs (db_logs db)\<rparr>))))))"

definition Postgres_CommitNarrative ::
  "(time \<Rightarrow> string) \<Rightarrow> string \<Rightarrow> time \<Rightarrow> txFaults \<Rightarrow> NarrativeSummary option \<Rightarrow> string list \<Rightarrow> memDB \<Rightarrow>
   error option \<times> memDB" where
  "Postgres_CommitNarrative stamp newid now f narrative sourceLogIDs db =
     (case narrative of
        None \<Rightarrow> (Some ''storage: narrative summary is nil'', db)
      | Some n \<Rightarrow>
          if sourceLogIDs = [] then (Some ''storage: no source log IDs for T2 back-link'', db)
          else if tx_notSupported f then (Some ''storage: database does not support transactions'', db)
          else (case tx_begin f of
              Some e \<Rightarrow> (Some (''storage: beginning consolidation transaction: '' @ e), db)
            | None \<Rightarrow>
                (let nid = (if ns_ID n = '''' then newid else ns_ID n) in
                 case (if nid \<in> nr_id ` set (db_narratives db)
                       then Some ''duplicate key value violates unique constraint'' else tx_insert f) of
                   Some e \<Rightarrow> (Some (''storage: inserting T3 narrative '' @ nid @ '': '' @ e), db)
                 | None \<Rightarrow>
                     (case tx_update f of
                        Some e \<Rightarrow> (Some (''storage: updating T2 back-links for narrative '' @ nid @ '': '' @ e), db)
                      | None \<Rightarrow>
                          (case tx_commit f of
                             Some e \<Rightarrow> (Some (''storage: committing consolidation transaction: '' @ e), db)
                           | None \<Rightarrow>
                               (None, db\<lparr>db_narratives := db_narratives db @
                                           [narrativeRowOf stamp n nid (now)],
                                         db_logs := linkLogs nid sourceLogIDs (db_logs db)\<rparr>))))))"

text \<open>
  \<open>readAt\<close> is the time a row's \<open>created_at\<close> is read back as: the SQLite store parses the text the driver
  returns and ignores a parse error, PostgreSQL returns the time itself.
\<close>

definition logOfRow :: "(time \<Rightarrow> time) \<Rightarrow> (string \<Rightarrow> time option) \<Rightarrow> logRow \<Rightarrow> ExperientialLog" where
  "logOfRow readAt parse r = \<lparr> el_ID = lr_id r, el_SessionID = lr_session_id r, el_Content = lr_content r,
     el_ContentSource = lr_content_source r, el_CreatedAt = readAt (lr_created_at r),
     el_AegisAnnotation = decodeAegisMeta parse (lr_aegis_meta r) \<rparr>"

definition SQLite_UncoveredLogs ::
  "(time \<Rightarrow> time) \<Rightarrow> (string \<Rightarrow> time option) \<Rightarrow> error option \<Rightarrow> string \<Rightarrow> memDB \<Rightarrow> error + ExperientialLog list" where
  "SQLite_UncoveredLogs readAt parse fault sessionID db =
     (case fault of
        Some e \<Rightarrow> Inl (''storage: querying uncovered logs for session '' @ sessionID @ '': '' @ e)
      | None \<Rightarrow> Inr (map (logOfRow readAt parse) (sort_key lr_created_at
                  (filter (\<lambda>r. lr_session_id r = sessionID \<and> lr_narrative_summary_id r = None) (db_logs db)))))"

definition Postgres_UncoveredLogs ::
  "(string \<Rightarrow> time option) \<Rightarrow> error option \<Rightarrow> string \<Rightarrow> memDB \<Rightarrow> error + ExperientialLog list" where
  "Postgres_UncoveredLogs parse fault sessionID db =
     (case fault of
        Some e \<Rightarrow> Inl (''storage: querying uncovered logs for session '' @ sessionID @ '': '' @ e)
      | None \<Rightarrow> Inr (map (logOfRow id parse) (sort_key lr_created_at
                  (filter (\<lambda>r. lr_session_id r = sessionID \<and> lr_narrative_summary_id r = None) (db_logs db)))))"

section \<open>The legacy link with its fence\<close>

text \<open>
  \<open>AtomicT2T3Link\<close>. The fence query is written with the placeholder of SQLite whatever the
  driver; \<open>driver\<close> is the driver name, and on PostgreSQL the query is a syntax error.
\<close>

datatype linkError = LinkFenced | LinkError error

definition linkFence :: "txFaults \<Rightarrow> string \<Rightarrow> string \<Rightarrow> string \<Rightarrow> memDB \<Rightarrow> linkError option" where
  "linkFence f driver fenceJobID fenceToken db =
     (if fenceJobID \<noteq> '''' \<and> fenceToken \<noteq> '''' then
        (case (if driver = ''postgres'' then Some ''syntax error at end of input'' else tx_fence f) of
           Some e \<Rightarrow> Some (LinkError (''metabolism: fence check query: '' @ e))
         | None \<Rightarrow>
             (case find (\<lambda>r. job_id r = fenceJobID) (db_jobs db) of
                None \<Rightarrow> Some (LinkError ''metabolism: fence check query: sql: no rows in result set'')
              | Some r \<Rightarrow> if job_claim_token r = Some fenceToken then None else Some LinkFenced))
      else None)"

definition AtomicT2T3Link ::
  "(time \<Rightarrow> string) \<Rightarrow> time \<Rightarrow> txFaults \<Rightarrow> string \<Rightarrow> NarrativeSummary option \<Rightarrow> string list \<Rightarrow>
   string \<Rightarrow> string \<Rightarrow> memDB \<Rightarrow> linkError option \<times> memDB" where
  "AtomicT2T3Link stamp now f driver narrative sourceLogIDs fenceJobID fenceToken db =
     (case narrative of
        None \<Rightarrow> (Some (LinkError ''metabolism: narrative summary is nil''), db)
      | Some n \<Rightarrow>
          if sourceLogIDs = [] then (Some (LinkError ''metabolism: no source log IDs for T2 back-link''), db)
          else if tx_notSupported f
            then (Some (LinkError ''metabolism: database does not support transactions (platform.TxDB)''), db)
          else (case tx_begin f of
              Some e \<Rightarrow> (Some (LinkError (''metabolism: beginning transaction: '' @ e)), db)
            | None \<Rightarrow>
                (case linkFence f driver fenceJobID fenceToken db of
                   Some e \<Rightarrow> (Some e, db)
                 | None \<Rightarrow>
                 case (if ns_ID n \<in> nr_id ` set (db_narratives db)
                       then Some ''UNIQUE constraint failed: narrative_summaries.id'' else tx_insert f) of
                   Some e \<Rightarrow> (Some (LinkError (''metabolism: inserting T3 narrative '' @ ns_ID n @ '': '' @ e)), db)
                 | None \<Rightarrow>
                     (case tx_update f of
                        Some e \<Rightarrow>
                          (Some (LinkError (''metabolism: updating T2 back-links for narrative '' @ ns_ID n @ '': '' @ e)), db)
                      | None \<Rightarrow>
                          (case tx_commit f of
                             Some e \<Rightarrow> (Some (LinkError (''metabolism: committing T2-T3 link transaction: '' @ e)), db)
                           | None \<Rightarrow>
                               (None, db\<lparr>db_narratives := db_narratives db @
                                           [(narrativeRowOf stamp n (ns_ID n) (if driver = ''postgres'' then now else sqliteNow now))\<lparr>nr_embedding := None\<rparr>],
                                         db_logs := linkLogs (ns_ID n) sourceLogIDs (db_logs db)\<rparr>))))))"

section \<open>The consolidation store as an interface\<close>

text \<open>Every link of a log points to a narrative that exists; identifiers of logs are unique.\<close>

definition linksSound :: "memDB \<Rightarrow> bool" where
  "linksSound db \<longleftrightarrow>
     list_all (\<lambda>r. case lr_narrative_summary_id r of None \<Rightarrow> True
                   | Some nid \<Rightarrow> nid \<in> nr_id ` set (db_narratives db)) (db_logs db)"

lemma linkLogs_id [simp]: "map lr_id (linkLogs nid ids rows) = map lr_id rows"
  by (simp add: linkLogs_def comp_def if_distrib [of lr_id] cong: if_cong)

lemma linksSound_link:
  assumes "linksSound db" "nid \<in> nr_id ` set (db_narratives db')"
    and "set (db_narratives db) \<subseteq> set (db_narratives db')" "db_logs db' = linkLogs nid ids (db_logs db)"
  shows "linksSound db'"
  using assms by (fastforce simp: linksSound_def linkLogs_def list_all_iff split: option.splits)

locale consolidation_store =
  fixes commit :: "string \<Rightarrow> time \<Rightarrow> txFaults \<Rightarrow> NarrativeSummary option \<Rightarrow> string list \<Rightarrow> memDB \<Rightarrow> error option \<times> memDB"
    and uncovered :: "error option \<Rightarrow> string \<Rightarrow> memDB \<Rightarrow> error + ExperientialLog list"
    and readAt :: "time \<Rightarrow> time"
    and parse :: "string \<Rightarrow> time option"
    and rowOf :: "NarrativeSummary \<Rightarrow> string \<Rightarrow> time \<Rightarrow> narrativeRow"
  assumes rowOf_id: "nr_id (rowOf ns nid now) = nid"
    and commit_error: "commit newid now f n ids db = (Some e, db') \<Longrightarrow> db' = db"
    and commit_ok: "commit newid now f n ids db = (None, db') \<Longrightarrow>
      \<exists>ns nid. n = Some ns \<and> nid = (if ns_ID ns = '''' then newid else ns_ID ns) \<and>
        nid \<notin> nr_id ` set (db_narratives db) \<and>
        db' = db\<lparr>db_narratives := db_narratives db @ [rowOf ns nid now], db_logs := linkLogs nid ids (db_logs db)\<rparr>"
    and uncovered_ok: "uncovered None s db = Inr (map (logOfRow readAt parse) (sort_key lr_created_at
        (filter (\<lambda>r. lr_session_id r = s \<and> lr_narrative_summary_id r = None) (db_logs db))))"
begin

lemma commit_sound: "linksSound db \<Longrightarrow> linksSound (snd (commit newid now f n ids db))"
proof (cases "commit newid now f n ids db")
  case (Pair r db')
  assume sound: "linksSound db"
  show ?thesis
  proof (cases r)
    case None
    with Pair commit_ok [of newid now f n ids db db'] obtain ns nid where
      "db' = db\<lparr>db_narratives := db_narratives db @ [rowOf ns nid now], db_logs := linkLogs nid ids (db_logs db)\<rparr>"
      by auto
    with sound Pair show ?thesis
      by (auto simp: rowOf_id intro!: linksSound_link [of db nid _ ids])
  next
    case (Some e)
    with Pair commit_error sound show ?thesis by fastforce
  qed
qed

lemma uncovered_after_commit:
  assumes "commit newid now f n ids db = (None, db')"
    and "uncovered None s db = Inr logs" "set (map el_ID logs) \<subseteq> set ids"
  shows "uncovered None s db' = Inr []"
proof -
  from commit_ok [OF assms(1)] obtain ns nid where
    db': "db' = db\<lparr>db_narratives := db_narratives db @ [rowOf ns nid now], db_logs := linkLogs nid ids (db_logs db)\<rparr>"
    by auto
  have "lr_id r \<in> set ids" if "r \<in> set (db_logs db)" "lr_session_id r = s" "lr_narrative_summary_id r = None" for r
    using that assms(2,3) by (force simp: uncovered_ok logOfRow_def image_subset_iff)
  then have "filter (\<lambda>r. lr_session_id r = s \<and> lr_narrative_summary_id r = None) (db_logs db') = []"
    by (auto simp: db' linkLogs_def filter_empty_conv)
  then show ?thesis by (simp add: uncovered_ok)
qed

end

lemmas commitNarrative_defs = SQLite_CommitNarrative_def Postgres_CommitNarrative_def
  SQLite_UncoveredLogs_def Postgres_UncoveredLogs_def

interpretation sqlite_cons: consolidation_store "SQLite_CommitNarrative stamp"
    "SQLite_UncoveredLogs readAt parse" readAt parse "\<lambda>ns nid now. narrativeRowOf stamp ns nid (sqliteNow now)" for stamp readAt parse
  by unfold_locales
    (auto simp: commitNarrative_defs narrativeRowOf_def Let_def split: option.splits if_splits)

interpretation postgres_cons: consolidation_store "Postgres_CommitNarrative stamp"
    "Postgres_UncoveredLogs parse" id parse "narrativeRowOf stamp" for stamp parse
  by unfold_locales
    (auto simp: commitNarrative_defs narrativeRowOf_def Let_def split: option.splits if_splits)


section \<open>Properties\<close>

text \<open>
  An annotation survives the database: decoding the \<open>aegis_meta\<close> column that was written for
  an annotation gives it back, up to the sub-second part of its time stamp.
\<close>

theorem annotation_round_trip:
  assumes "parse (stamp (aa_AnnotatedAt a)) = Some (aa_AnnotatedAt a div second * second)"
  shows "decodeAegisMeta parse (aegisMetaJSON stamp (Some a)) =
         Some (a\<lparr>aa_AnnotatedAt := aa_AnnotatedAt a div second * second\<rparr>)"
proof -
  have "List.map_filter (\<lambda>x. case x of JStr s \<Rightarrow> Some s | _ \<Rightarrow> None) (map JStr xs) = xs" for xs
    by (induction xs) (simp_all add: map_filter_simps)
  then show ?thesis
    by (simp add: decodeAegisMeta_def aegisMetaJSON_def Let_def assms)
qed

definition sampleAnnotation :: AegisAnnotation where
  "sampleAnnotation = \<lparr> aa_TrustScore = fl (28 / 100), aa_Source = ''discord'', aa_ContentSource = ''discord'',
     aa_Flags = [''classic:disregard''], aa_Sanitized = True, aa_ScanPassed = False, aa_AnnotatedAt = 1500000000 \<rparr>"

theorem annotation_round_trip_witness:
  "decodeAegisMeta (\<lambda>s. Some second) (aegisMetaJSON (\<lambda>t. ''1970-01-01T00:00:01Z'') (Some sampleAnnotation)) =
   Some (sampleAnnotation\<lparr>aa_AnnotatedAt := aa_AnnotatedAt sampleAnnotation div second * second\<rparr>)"
  by (rule annotation_round_trip) (simp add: sampleAnnotation_def)

lemma AtomicT2T3Link_Some:
  "AtomicT2T3Link stamp now f driver n ids j tok db = (Some e, db') \<Longrightarrow> db' = db"
  unfolding AtomicT2T3Link_def by (auto split: option.splits if_splits)

lemma AtomicT2T3Link_error:
  "fst (AtomicT2T3Link stamp now f driver n ids j tok db) \<noteq> None \<Longrightarrow>
   snd (AtomicT2T3Link stamp now f driver n ids j tok db) = db"
  by (metis AtomicT2T3Link_Some option.exhaust prod.collapse)

text \<open>
  The legacy link is fenced: with a job and a token given, a worker whose token is not the
  job's current one writes nothing, and is told so.
\<close>

theorem atomic_link_is_fenced:
  assumes "j \<noteq> ''''" "tok \<noteq> ''''" "find (\<lambda>r. job_id r = j) (db_jobs db) = Some r" "job_claim_token r \<noteq> Some tok"
  shows "fst (AtomicT2T3Link stamp now f driver n ids j tok db) \<noteq> None \<and>
         snd (AtomicT2T3Link stamp now f driver n ids j tok db) = db"
proof -
  have "fst (AtomicT2T3Link stamp now f driver n ids j tok db) \<noteq> None"
    using assms by (simp add: AtomicT2T3Link_def linkFence_def split: option.split)
  with AtomicT2T3Link_error show ?thesis by blast
qed

definition sampleMem :: memDB where
  "sampleMem = \<lparr> db_logs = map (\<lambda>i. \<lparr> lr_id = i, lr_session_id = ''s'', lr_content = ''text '' @ i,
       lr_content_source = ''self'', lr_aegis_meta = None, lr_created_at = 0, lr_narrative_summary_id = None \<rparr>)
       [''l1'', ''l2''],
     db_narratives = [],
     db_jobs = [\<lparr> job_id = ''job'', job_session_id = ''s'', job_status = JobStatusRunning,
       job_type = ''metabolism'', job_started_at = Some 400, job_completed_at = None,
       job_error_message = None, job_retry_count = 0, job_claim_token = Some ''worker-b'',
       job_claim_count = 2, job_created_at = 0 \<rparr>] \<rparr>"

definition sampleNarrative :: "string \<Rightarrow> NarrativeSummary" where
  "sampleNarrative i = \<lparr> ns_ID = i, ns_SessionID = ''s'', ns_Content = ''summary'', ns_Belief = None,
     ns_Embedding = [], ns_ContentSources = [''self''], ns_ExternalAnnotation = None \<rparr>"

theorem atomic_link_is_fenced_witness:
  "fst (AtomicT2T3Link (\<lambda>t. '''') 500 noTxFaults ''sqlite3'' (Some (sampleNarrative ''n1'')) [''l1'', ''l2'']
     ''job'' ''worker-a'' sampleMem) \<noteq> None \<and>
   snd (AtomicT2T3Link (\<lambda>t. '''') 500 noTxFaults ''sqlite3'' (Some (sampleNarrative ''n1'')) [''l1'', ''l2'']
     ''job'' ''worker-a'' sampleMem) = sampleMem"
  by (rule atomic_link_is_fenced [where r = "hd (db_jobs sampleMem)"]) (simp_all add: sampleMem_def)

text \<open>
  On PostgreSQL the fenced legacy link never succeeds: its fence query has SQLite's
  placeholder, so that with a job and a token given every call fails and writes nothing.
\<close>

theorem atomic_link_fails_on_postgres:
  assumes "j \<noteq> ''''" "tok \<noteq> ''''"
  shows "fst (AtomicT2T3Link stamp now f ''postgres'' n ids j tok db) \<noteq> None \<and>
         snd (AtomicT2T3Link stamp now f ''postgres'' n ids j tok db) = db"
proof -
  have "fst (AtomicT2T3Link stamp now f ''postgres'' n ids j tok db) \<noteq> None"
    using assms by (simp add: AtomicT2T3Link_def linkFence_def split: option.split)
  with AtomicT2T3Link_error show ?thesis by blast
qed

theorem atomic_link_fails_on_postgres_witness:
  "fst (AtomicT2T3Link (\<lambda>t. '''') 500 noTxFaults ''postgres'' (Some (sampleNarrative ''n1'')) [''l1'', ''l2'']
     ''job'' ''worker-b'' sampleMem) \<noteq> None"
  using atomic_link_fails_on_postgres [of "''job''" "''worker-b''"] by blast

text \<open>
  C21. Consolidation is atomic and keeps the provenance chain: a commit that reports an error
  leaves the database as it was; one that succeeds appends exactly one narrative, links exactly
  the given logs to it and touches nothing else; and links always lead to an existing
  narrative. In both databases.
\<close>

theorem commit_narrative_atomic:
  assumes "commit \<in> {SQLite_CommitNarrative stamp, Postgres_CommitNarrative stamp}" "linksSound db"
  shows "linksSound (snd (commit newid now f n ids db)) \<and>
    (case commit newid now f n ids db of
       (Some e, db') \<Rightarrow> db' = db
     | (None, db') \<Rightarrow> \<exists>ns row. n = Some ns \<and> nr_id row \<notin> nr_id ` set (db_narratives db) \<and>
         nr_content row = ns_Content ns \<and> db_narratives db' = db_narratives db @ [row] \<and>
         db_jobs db' = db_jobs db \<and>
         db_logs db' = map (\<lambda>r. if lr_id r \<in> set ids then r\<lparr>lr_narrative_summary_id := Some (nr_id row)\<rparr> else r)
                         (db_logs db))"
proof -
  have sound: "linksSound (snd (commit newid now f n ids db))"
    using assms sqlite_cons.commit_sound postgres_cons.commit_sound by blast
  have "\<exists>ns row. n = Some ns \<and> nr_id row \<notin> nr_id ` set (db_narratives db) \<and>
         nr_content row = ns_Content ns \<and> db_narratives db' = db_narratives db @ [row] \<and>
         db_jobs db' = db_jobs db \<and> db_logs db' = linkLogs (nr_id row) ids (db_logs db)"
    if "commit newid now f n ids db = (None, db')" for db'
    using assms(1) that sqlite_cons.commit_ok [of stamp newid now f n ids db db']
      postgres_cons.commit_ok [of stamp newid now f n ids db db']
    by (auto simp: narrativeRowOf_def)
  moreover have "db' = db" if "commit newid now f n ids db = (Some e, db')" for e db'
    using assms(1) that sqlite_cons.commit_error postgres_cons.commit_error by blast
  ultimately show ?thesis using sound by (auto simp: linkLogs_def split: prod.split option.split)
qed

theorem commit_narrative_atomic_witness:
  "linksSound (snd (SQLite_CommitNarrative (\<lambda>t. '''') ''id'' 5 noTxFaults (Some (sampleNarrative '''')) [''l1''] sampleMem))"
  using commit_narrative_atomic [of "SQLite_CommitNarrative (\<lambda>t. '''')" "\<lambda>t. ''''" sampleMem]
  by (simp add: sampleMem_def linksSound_def)


end
