(* ===== verification/Supervisor.thy ===== *)
theory Supervisor
  imports Metabolism
begin

text \<open>
  The supervisor of metabolism jobs, \<^verbatim>\<open>internal/metabolism/supervisor.go\<close>: a semaphore channel of
  \<open>maxConcurrent\<close> slots, a wait group, and a flag that stops new submissions. The goroutines are
  interleaved: a state says how many slots and how much of the wait group are taken and which
  job stands at which point of its dispatch, and a step moves one of them over one operation
  on the shared state.
\<close>

section \<open>State and steps\<close>

datatype drainState = DrainIdle | DrainWaiting | DrainComplete | DrainTimeout

record svState =
  sv_max :: nat                    \<comment> \<open>capacity of \<open>sem\<close>\<close>
  sv_sem :: nat                    \<comment> \<open>elements in \<open>sem\<close>\<close>
  sv_wg :: nat                     \<comment> \<open>counter of \<open>wg\<close>\<close>
  sv_stopped :: bool
  sv_checked :: "string list"      \<comment> \<open>sessions in \<open>Submit\<close>, past the check of \<open>stopped\<close>\<close>
  sv_waiting :: "string list"      \<comment> \<open>jobs about to send on \<open>sem\<close>\<close>
  sv_acquired :: "string list"     \<comment> \<open>jobs with a slot, before \<open>wg.Add\<close>\<close>
  sv_running :: "string list"      \<comment> \<open>goroutines in \<open>Run\<close>\<close>
  sv_released :: "string list"     \<comment> \<open>goroutines past \<open><-s.sem\<close>, before \<open>wg.Done\<close>\<close>
  sv_drain :: drainState

text \<open>\<open>NewSupervisor\<close>: a limit that is not positive becomes two.\<close>

definition NewSupervisor :: "int \<Rightarrow> svState" where
  "NewSupervisor maxConcurrent =
     \<lparr> sv_max = nat (if maxConcurrent \<le> 0 then 2 else maxConcurrent), sv_sem = 0, sv_wg = 0,
       sv_stopped = False, sv_checked = [], sv_waiting = [], sv_acquired = [], sv_running = [],
       sv_released = [], sv_drain = DrainIdle \<rparr>"

inductive svStep :: "svState \<Rightarrow> svState \<Rightarrow> bool" where
  submit_check: "\<not> sv_stopped s \<Longrightarrow> svStep s (s\<lparr>sv_checked := sid # sv_checked s\<rparr>)"
| submit_commit: "sid \<in> set (sv_checked s) \<Longrightarrow>
    svStep s (s\<lparr>sv_checked := remove1 sid (sv_checked s), sv_waiting := j # sv_waiting s\<rparr>)"
| submit_commit_error: "sid \<in> set (sv_checked s) \<Longrightarrow> svStep s (s\<lparr>sv_checked := remove1 sid (sv_checked s)\<rparr>)"
| recover_next: "\<not> sv_stopped s \<Longrightarrow> svStep s (s\<lparr>sv_waiting := j # sv_waiting s\<rparr>)"
| acquire: "j \<in> set (sv_waiting s) \<Longrightarrow> sv_sem s < sv_max s \<Longrightarrow>
    svStep s (s\<lparr>sv_waiting := remove1 j (sv_waiting s), sv_sem := sv_sem s + 1, sv_acquired := j # sv_acquired s\<rparr>)"
| wg_add_and_go: "j \<in> set (sv_acquired s) \<Longrightarrow>
    svStep s (s\<lparr>sv_acquired := remove1 j (sv_acquired s), sv_wg := sv_wg s + 1, sv_running := j # sv_running s\<rparr>)"
| release: "j \<in> set (sv_running s) \<Longrightarrow>
    svStep s (s\<lparr>sv_running := remove1 j (sv_running s), sv_sem := sv_sem s - 1, sv_released := j # sv_released s\<rparr>)"
| wg_done: "j \<in> set (sv_released s) \<Longrightarrow>
    svStep s (s\<lparr>sv_released := remove1 j (sv_released s), sv_wg := sv_wg s - 1\<rparr>)"
| drain_start: "svStep s (s\<lparr>sv_stopped := True, sv_drain := DrainWaiting\<rparr>)"
| drain_complete: "sv_drain s = DrainWaiting \<Longrightarrow> sv_wg s = 0 \<Longrightarrow> svStep s (s\<lparr>sv_drain := DrainComplete\<rparr>)"
| drain_timeout: "sv_drain s = DrainWaiting \<Longrightarrow> svStep s (s\<lparr>sv_drain := DrainTimeout\<rparr>)"

inductive reachable :: "int \<Rightarrow> svState \<Rightarrow> bool" for n :: int where
  start: "reachable n (NewSupervisor n)"
| step: "reachable n s \<Longrightarrow> svStep s t \<Longrightarrow> reachable n t"

text \<open>
  \<open>Recover\<close>, as the caller sees it: the loop stops at the first job for which \<open>stopped\<close> is set, the
  count returned is the number of jobs found.
\<close>

fun dispatchUntil :: "(nat \<Rightarrow> bool) \<Rightarrow> nat \<Rightarrow> 'j list \<Rightarrow> 'j list" where
  "dispatchUntil stopped i [] = []"
| "dispatchUntil stopped i (j # js) = (if stopped i then [] else j # dispatchUntil stopped (i + 1) js)"

definition Recover ::
  "(int \<Rightarrow> jobTable \<Rightarrow> storeError + (string \<times> string \<times> int) list) \<Rightarrow> (nat \<Rightarrow> bool) \<Rightarrow> int \<Rightarrow> memDB \<Rightarrow>
   storeError + int \<times> (string \<times> string) list" where
  "Recover recoverable stopped maxRetries db =
     (case recoverable maxRetries (db_jobs db) of
        Inl e \<Rightarrow> Inl e
      | Inr jobs \<Rightarrow> Inr (int (length jobs), dispatchUntil stopped 0 (map (\<lambda>(j, s, n). (j, s)) jobs)))"

section \<open>Invariant\<close>

definition svInv :: "svState \<Rightarrow> bool" where
  "svInv s \<longleftrightarrow>
     sv_sem s = length (sv_acquired s) + length (sv_running s) \<and>
     sv_wg s = length (sv_running s) + length (sv_released s) \<and>
     sv_sem s \<le> sv_max s"


lemma svInv_step: "svStep s t \<Longrightarrow> svInv s \<Longrightarrow> svInv t \<and> sv_max t = sv_max s"
  by (induction rule: svStep.induct)
    (auto simp: svInv_def length_remove1, (drule length_pos_if_in_set, linarith)+)

lemma reachable_inv: "reachable n s \<Longrightarrow> svInv s \<and> sv_max s = sv_max (NewSupervisor n)"
proof (induction rule: reachable.induct)
  case start
  then show ?case by (simp add: svInv_def NewSupervisor_def)
next
  case (step s t)
  with svInv_step show ?case by metis
qed

section \<open>Properties\<close>

text \<open>
  C22. Bounded concurrency. In every interleaving, at most \<open>maxConcurrent\<close> jobs (two, when the
  limit given is not positive) are between taking a slot and giving it back, and the counter
  of the wait group is exactly the number of goroutines that have not reported done.
\<close>

theorem supervisor_is_bounded:
  assumes "reachable n s"
  shows "int (length (sv_running s)) \<le> (if n \<le> 0 then 2 else n) \<and>
         sv_wg s = length (sv_running s) + length (sv_released s) \<and>
         sv_sem s = length (sv_acquired s) + length (sv_running s)"
  using reachable_inv [OF assms] by (auto simp: svInv_def NewSupervisor_def split: if_splits)

text \<open>Three submissions, two of them running.\<close>

definition twoRunning :: svState where
  "twoRunning = (NewSupervisor 0)\<lparr>sv_sem := 2, sv_wg := 2, sv_waiting := [''c''], sv_running := [''b'', ''a'']\<rparr>"

lemma reachable_step: "reachable n s \<Longrightarrow> svStep s t \<Longrightarrow> t = u \<Longrightarrow> reachable n u"
  using reachable.step by blast

lemma twoRunning_reachable: "reachable 0 twoRunning"
proof -
  let ?s = "NewSupervisor 0"
  have a: "reachable 0 (?s\<lparr>sv_waiting := [''a'']\<rparr>)"
    by (rule reachable_step [OF start recover_next [of _ "''a''"]]) (simp_all add: NewSupervisor_def)
  have b: "reachable 0 (?s\<lparr>sv_waiting := [], sv_sem := 1, sv_acquired := [''a'']\<rparr>)"
    by (rule reachable_step [OF a acquire [of "''a''"]]) (simp_all add: NewSupervisor_def)
  have c: "reachable 0 (?s\<lparr>sv_sem := 1, sv_wg := 1, sv_running := [''a'']\<rparr>)"
    by (rule reachable_step [OF b wg_add_and_go [of "''a''"]]) (simp_all add: NewSupervisor_def)
  have d: "reachable 0 (?s\<lparr>sv_sem := 1, sv_wg := 1, sv_running := [''a''], sv_waiting := [''b'']\<rparr>)"
    by (rule reachable_step [OF c recover_next [of _ "''b''"]]) (simp_all add: NewSupervisor_def)
  have e: "reachable 0 (?s\<lparr>sv_sem := 2, sv_wg := 1, sv_running := [''a''], sv_acquired := [''b'']\<rparr>)"
    by (rule reachable_step [OF d acquire [of "''b''"]]) (simp_all add: NewSupervisor_def)
  have f: "reachable 0 (?s\<lparr>sv_sem := 2, sv_wg := 2, sv_running := [''b'', ''a'']\<rparr>)"
    by (rule reachable_step [OF e wg_add_and_go [of "''b''"]]) (simp_all add: NewSupervisor_def)
  show ?thesis
    by (rule reachable_step [OF f recover_next [of _ "''c''"]]) (simp_all add: NewSupervisor_def twoRunning_def)
qed

theorem supervisor_is_bounded_witness:
  "int (length (sv_running twoRunning)) \<le> 2 \<and> sv_wg twoRunning = 2"
  using supervisor_is_bounded [OF twoRunning_reachable] by (simp add: twoRunning_def)

text \<open>
  \<open>Drain\<close> may report completion too early. There is an interleaving in which \<open>Drain\<close> returns nil
  (all jobs completed) and a job starts running afterwards: a \<open>Submit\<close> that had passed the check
  of \<open>stopped\<close> is not counted by the wait group.
\<close>

theorem drain_misses_submission_in_flight:
  "\<exists>s. reachable n s \<and> sv_drain s = DrainComplete \<and> sv_running s \<noteq> []"
proof -
  let ?s = "NewSupervisor n"
  have a: "reachable n (?s\<lparr>sv_checked := [''s'']\<rparr>)"
    by (rule reachable_step [OF start submit_check [of _ "''s''"]]) (simp_all add: NewSupervisor_def)
  have b: "reachable n (?s\<lparr>sv_checked := [''s''], sv_stopped := True, sv_drain := DrainWaiting\<rparr>)"
    by (rule reachable_step [OF a drain_start]) (simp add: NewSupervisor_def)
  have c: "reachable n (?s\<lparr>sv_checked := [''s''], sv_stopped := True, sv_drain := DrainComplete\<rparr>)"
    by (rule reachable_step [OF b drain_complete]) (simp_all add: NewSupervisor_def)
  have d: "reachable n (?s\<lparr>sv_waiting := [''j''], sv_stopped := True, sv_drain := DrainComplete\<rparr>)"
    by (rule reachable_step [OF c submit_commit [of "''s''" _ "''j''"]]) (simp_all add: NewSupervisor_def)
  have e: "reachable n (?s\<lparr>sv_acquired := [''j''], sv_sem := 1, sv_stopped := True, sv_drain := DrainComplete\<rparr>)"
    by (rule reachable_step [OF d acquire [of "''j''"]]) (simp_all add: NewSupervisor_def)
  have "reachable n (?s\<lparr>sv_running := [''j''], sv_sem := 1, sv_wg := 1, sv_stopped := True, sv_drain := DrainComplete\<rparr>)"
    by (rule reachable_step [OF e wg_add_and_go [of "''j''"]]) (simp_all add: NewSupervisor_def)
  then show ?thesis by fastforce
qed

text \<open>
  \<open>Recover\<close> dispatches a prefix of the recoverable jobs, oldest first, all of them when no
  drain intervenes; the count it returns is that of the jobs found, also when a drain made it
  skip some.
\<close>

theorem recover_dispatches_prefix:
  "\<exists>k. Recover (SQLite_Recoverable None) stopped m db =
        Inr (int (length (filter (recoverableRow m) (db_jobs db))),
             take k (map (\<lambda>r. (job_id r, job_session_id r))
               (sort_key job_created_at (filter (recoverableRow m) (db_jobs db))))) \<and>
      ((\<forall>i. \<not> stopped i) \<longrightarrow> length (filter (recoverableRow m) (db_jobs db)) \<le> k) \<and>
      (stopped 0 \<longrightarrow> k = 0)"
proof -
  have pre: "\<exists>k. dispatchUntil stopped i js = take k js \<and> ((\<forall>i. \<not> stopped i) \<longrightarrow> length js \<le> k) \<and> (stopped i \<longrightarrow> k = 0)"
    for i and js :: "(string \<times> string) list"
  proof (induction js arbitrary: i)
    case (Cons j js)
    from Cons [of "i + 1"] obtain k where "dispatchUntil stopped (i + 1) js = take k js"
      "(\<forall>i. \<not> stopped i) \<longrightarrow> length js \<le> k" by blast
    then have "\<not> stopped i \<Longrightarrow> ?case" by (intro exI [of _ "Suc k"]) simp
    moreover have "stopped i \<Longrightarrow> ?case" by (intro exI [of _ 0]) auto
    ultimately show ?case by blast
  qed auto
  from pre [of 0 "map (\<lambda>r. (job_id r, job_session_id r)) (sort_key job_created_at (filter (recoverableRow m) (db_jobs db)))"]
  show ?thesis by (auto simp: Recover_def SQLite_Recoverable_def comp_def)
qed

theorem recover_dispatches_prefix_witness:
  "Recover (SQLite_Recoverable None) (\<lambda>i. True) 3 sampleMem = Inr (1, [])"
proof -
  from recover_dispatches_prefix [of "\<lambda>i. True" 3 sampleMem] show ?thesis
    by (simp add: sampleMem_def recoverableRow_def)
qed

end
