(* ===== verification/Registry.thy ===== *)
theory Registry
  imports Consolidation "HOL-Library.Word" "HOL-Library.Monad_Syntax"
begin

text \<open>
  The tool registry, \<^verbatim>\<open>internal/tools/registry.go\<close> with \<^verbatim>\<open>register.go\<close> and \<^verbatim>\<open>discover_handler.go\<close>, and
  the tier activation of \<^verbatim>\<open>internal/engine/tools.go\<close>.

  The registry's maps are partial functions. A \<open>range\<close> over a Go map visits the keys in an order
  that is not specified: \<open>List\<close> takes the order of the visit, an enumeration of the handlers'
  names, as an argument. The lock is left out: registration happens at startup.
\<close>

section \<open>Handlers and metadata\<close>

type_synonym args = "string \<rightharpoonup> json"

record ToolDef =
  td_Name :: string
  td_Description :: string
  td_Parameters :: args

record ToolResult =
  tr_CallID :: string
  tr_Content :: string
  tr_IsError :: bool
  tr_Terminate :: bool
  tr_ContentSource :: string

type_synonym ExecutionMode = string

abbreviation ExecParallel :: ExecutionMode where "ExecParallel \<equiv> ''parallel''"
abbreviation ExecSequential :: ExecutionMode where "ExecSequential \<equiv> ''sequential''"

record ToolMeta =
  tm_ExecMode :: ExecutionMode
  tm_Tier :: int
  tm_Keywords :: "string list"
  tm_ContentSource :: string
  tm_Destination :: string

text \<open>
  A handler implements \<open>Execute\<close> (version 1) or also \<open>ExecuteV2\<close>, and possibly \<open>Define\<close>. An execution
  acts on the world; it returns its result or error, and whether the deadline of its context
  had passed when it returned.
\<close>

datatype 'w toolExec =
    ExecV1 "args \<Rightarrow> 'w \<Rightarrow> ((error + string) \<times> bool) \<times> 'w"
  | ExecV2 "args \<Rightarrow> 'w \<Rightarrow> ((error + ToolResult option) \<times> bool) \<times> 'w"

record 'w ToolHandler =
  th_Name :: string
  th_Define :: "ToolDef option"
  th_Execute :: "'w toolExec"

record 'w DefaultRegistry =
  rg_handlers :: "string \<rightharpoonup> 'w ToolHandler"
  rg_tiers :: "string \<rightharpoonup> int"
  rg_keywords :: "string \<rightharpoonup> string list"
  rg_execModes :: "string \<rightharpoonup> ExecutionMode"
  rg_contentSources :: "string \<rightharpoonup> string"

definition NewDefaultRegistry :: "'w DefaultRegistry" where
  "NewDefaultRegistry = \<lparr> rg_handlers = Map.empty, rg_tiers = Map.empty, rg_keywords = Map.empty,
     rg_execModes = Map.empty, rg_contentSources = Map.empty \<rparr>"

section \<open>Registration and lookup\<close>

text \<open>\<open>None\<close> is the panic on a duplicate name. A missing key of a Go map reads as the zero value.\<close>

definition registerFull ::
  "'w ToolHandler \<Rightarrow> int \<Rightarrow> string list \<Rightarrow> ExecutionMode \<Rightarrow> string \<Rightarrow> 'w DefaultRegistry \<Rightarrow> 'w DefaultRegistry option" where
  "registerFull h tier keywords mode contentSource r =
     (let name = th_Name h in
      if rg_handlers r name \<noteq> None then None
      else Some (r\<lparr>rg_handlers := (rg_handlers r)(name \<mapsto> h), rg_tiers := (rg_tiers r)(name \<mapsto> tier),
                   rg_keywords := (rg_keywords r)(name \<mapsto> keywords), rg_execModes := (rg_execModes r)(name \<mapsto> mode),
                   rg_contentSources := (if contentSource \<noteq> '''' then (rg_contentSources r)(name \<mapsto> contentSource)
                                         else rg_contentSources r)\<rparr>))"

definition RegisterFull ::
  "'w ToolHandler \<Rightarrow> int \<Rightarrow> string list \<Rightarrow> ExecutionMode \<Rightarrow> 'w DefaultRegistry \<Rightarrow> 'w DefaultRegistry option" where
  "RegisterFull h tier keywords mode r = registerFull h tier keywords mode '''' r"

definition RegisterExternal ::
  "'w ToolHandler \<Rightarrow> int \<Rightarrow> string list \<Rightarrow> string \<Rightarrow> 'w DefaultRegistry \<Rightarrow> 'w DefaultRegistry option" where
  "RegisterExternal h tier keywords contentSource r = registerFull h tier keywords ExecParallel contentSource r"

definition RegisterWithMeta ::
  "'w ToolHandler \<Rightarrow> int \<Rightarrow> string list \<Rightarrow> 'w DefaultRegistry \<Rightarrow> 'w DefaultRegistry option" where
  "RegisterWithMeta h tier keywords r = RegisterFull h tier keywords ExecParallel r"

definition Register :: "'w ToolHandler \<Rightarrow> 'w DefaultRegistry \<Rightarrow> 'w DefaultRegistry option" where
  "Register h r = RegisterWithMeta h 1 [] r"

definition Get :: "'w DefaultRegistry \<Rightarrow> string \<Rightarrow> 'w ToolHandler option" where
  "Get r name = rg_handlers r name"

definition mapGet :: "(string \<rightharpoonup> 'a) \<Rightarrow> 'a \<Rightarrow> string \<Rightarrow> 'a" where
  "mapGet m z k = (case m k of Some v \<Rightarrow> v | None \<Rightarrow> z)"

definition GetMeta :: "'w DefaultRegistry \<Rightarrow> string \<Rightarrow> ToolMeta option" where
  "GetMeta r name =
     (if rg_handlers r name = None then None
      else (let mode = mapGet (rg_execModes r) '''' name;
                mode = (if mode = '''' then ExecParallel else mode);
                cs = mapGet (rg_contentSources r) '''' name;
                dest = (if cs \<noteq> '''' \<and> cs \<noteq> ''tool-result'' \<and> cs \<noteq> ''self'' \<and> cs \<noteq> ''operator''
                        then ''external'' else ''internal'')
            in Some \<lparr> tm_ExecMode = mode, tm_Tier = mapGet (rg_tiers r) 0 name,
                      tm_Keywords = mapGet (rg_keywords r) [] name, tm_ContentSource = cs, tm_Destination = dest \<rparr>))"

section \<open>Listing\<close>

record ToolGroup =
  tg_Name :: string
  tg_Tier :: int
  tg_Keywords :: "string list"
  tg_Tools :: "ToolDef list"

text \<open>
  \<open>string(rune(n))\<close>: the integer is cut to the 32 bits of a rune; the result is the UTF-8 bytes of a
  valid code point, those of U+FFFD otherwise.
\<close>

definition runeString :: "int \<Rightarrow> string" where
  "runeString n =
     (let c = sint (word_of_int n :: 32 word)
      in if 0 \<le> c \<and> validRune (nat c) then encodeRune (nat c) else encodeRune RuneError)"

definition tierName :: "int \<Rightarrow> string" where
  "tierName tier =
     (if tier = 1 then ''core'' else if tier = 2 then ''extended'' else if tier = 3 then ''experimental''
      else ''tier-'' @ runeString (48 + tier))"

definition toolDefOf :: "string \<Rightarrow> 'w ToolHandler \<Rightarrow> ToolDef" where
  "toolDefOf name h =
     (case th_Define h of Some d \<Rightarrow> d
      | None \<Rightarrow> \<lparr> td_Name = name, td_Description = '''', td_Parameters = Map.empty \<rparr>)"

text \<open>\<open>order\<close> enumerates the names of the handlers; the tiers are visited in ascending order.\<close>

definition tierMembers :: "string list \<Rightarrow> 'w DefaultRegistry \<Rightarrow> int \<Rightarrow> string list" where
  "tierMembers order r tier = filter (\<lambda>name. mapGet (rg_tiers r) 0 name = tier) order"

definition toolGroup :: "string list \<Rightarrow> 'w DefaultRegistry \<Rightarrow> int \<Rightarrow> ToolGroup" where
  "toolGroup order r tier =
     (let names = tierMembers order r tier;
          tools = List.map_filter (\<lambda>name. map_option (toolDefOf name) (rg_handlers r name)) names;
          groupKeywords = nub (concat (map (mapGet (rg_keywords r) []) names))
      in \<lparr> tg_Name = tierName tier, tg_Tier = tier, tg_Keywords = sortStrings groupKeywords,
           tg_Tools = sort_key (\<lambda>d. byteKey (td_Name d)) tools \<rparr>)"

definition List_groups :: "string list \<Rightarrow> 'w DefaultRegistry \<Rightarrow> ToolGroup list" where
  "List_groups order r =
     map (toolGroup order r) (sorted_list_of_set (set (List.map_filter (rg_tiers r) order)))"

section \<open>Tier activation\<close>

definition matchesAnySignal :: "(rune \<Rightarrow> rune) \<Rightarrow> string list \<Rightarrow> string list \<Rightarrow> bool" where
  "matchesAnySignal lowerRune keywords signals =
     list_ex (\<lambda>kw. list_ex (\<lambda>sig. strContains (ToLower lowerRune sig) (ToLower lowerRune kw)) signals) keywords"

definition ActivateTier2 :: "(rune \<Rightarrow> rune) \<Rightarrow> ToolGroup list \<Rightarrow> string list \<Rightarrow> string list" where
  "ActivateTier2 lowerRune groups signals =
     map tg_Name (filter (\<lambda>g. tg_Tier g = 2 \<and> matchesAnySignal lowerRune (tg_Keywords g) signals) groups)"

definition BuildToolList :: "ToolGroup list \<Rightarrow> string list \<Rightarrow> ToolDef list" where
  "BuildToolList groups activatedGroups =
     concat (map (\<lambda>g. if tg_Tier g = 1 then tg_Tools g
                      else if tg_Tier g = 2 \<and> tg_Name g \<in> set activatedGroups then tg_Tools g else []) groups)"

section \<open>Discovery\<close>

text \<open>\<open>stringArg\<close> of \<^verbatim>\<open>cli.go\<close>: the string under a key, and whether there was one.\<close>

definition stringArg :: "args \<Rightarrow> string \<Rightarrow> string \<times> bool" where
  "stringArg args key = (case args key of Some (JStr s) \<Rightarrow> (s, True) | _ \<Rightarrow> ('''', False))"

definition bullet :: string where
  "bullet = [CHR 0xE2, CHR 0x80, CHR 0xA2]"

text \<open>\<open>strings.TrimSpace\<close> on text whose first and last characters are ASCII.\<close>

definition trimSpace :: "string \<Rightarrow> string" where
  "trimSpace s = rev (dropWhile asciiSpace (rev (dropWhile asciiSpace s)))"

definition listCategories :: "ToolGroup list \<Rightarrow> string" where
  "listCategories groups =
     (if groups = [] then ''no Tier 3 tool categories registered''
      else ''=== Available Tier 3 Tool Categories ==='' @ newline @ newline @
        concat (map (\<lambda>g. bullet @ '' '' @ tg_Name g @ '' ('' @ decimal (length (tg_Tools g)) @ '' tools)'' @
            (if tg_Keywords g \<noteq> [] then '' '' @ em_dash @ '' keywords: '' @ strJoin (tg_Keywords g) '', '' else '''') @
            newline) groups) @
        newline @ ''Use discover_tools category=<name> to see tool details.'')"

definition describeCategory :: "(rune \<Rightarrow> rune) \<Rightarrow> ToolGroup list \<Rightarrow> string \<Rightarrow> error + string" where
  "describeCategory lowerRune groups category =
     (case find (\<lambda>g. ToLower lowerRune (tg_Name g) = ToLower lowerRune category) groups of
        Some g \<Rightarrow>
          Inr (trimSpace (''=== Tier 3: '' @ tg_Name g @ '' ==='' @ newline @ newline @
            concat (map (\<lambda>t. bullet @ '' '' @ td_Name t @ newline @
              (if td_Description t \<noteq> '''' then ''  '' @ td_Description t @ newline else '''')) (tg_Tools g))))
      | None \<Rightarrow>
          if groups = []
          then Inl (''discover_tools: category '' @ quoted category @ '' not found (no Tier 3 groups registered)'')
          else Inl (''discover_tools: category '' @ quoted category @ '' not found; available: '' @
                    strJoin (map tg_Name groups) '', ''))"

definition discover_Execute :: "(rune \<Rightarrow> rune) \<Rightarrow> ToolGroup list \<Rightarrow> args \<Rightarrow> error + string" where
  "discover_Execute lowerRune groups args =
     (let (category, hasCategory) = stringArg args ''category'';
          tier3 = filter (\<lambda>g. tg_Tier g = 3) groups
      in if \<not> hasCategory \<or> category = '''' then Inr (listCategories tier3)
         else describeCategory lowerRune tier3 category)"

section \<open>The built-in tools\<close>

text \<open>
  \<open>RegisterAll\<close>: \<open>mk name\<close> is the handler of that name built from the stores and providers given, of
  which the record says which are there.
\<close>

record wiring =
  wi_Memory :: bool
  wi_T2Query :: bool
  wi_Settings :: bool
  wi_Embedding :: bool
  wi_LLMFn :: bool

definition memoryKeywords :: "string list" where
  "memoryKeywords = [''memory'', ''recall'', ''search'', ''remember'', ''focus'']"

definition peopleKeywords :: "string list" where
  "peopleKeywords = [''people'', ''person'', ''profile'', ''relational'', ''contact'']"

definition reflectKeywords :: "string list" where
  "reflectKeywords = [''reflect'', ''reflection'', ''examine'', ''self'', ''essay'', ''dream'']"

definition onlyIf :: "bool \<Rightarrow> ('r \<Rightarrow> 'r option) \<Rightarrow> 'r \<Rightarrow> 'r option" where
  "onlyIf c f r = (if c then f r else Some r)"

definition RegisterAll :: "(string \<Rightarrow> 'w ToolHandler) \<Rightarrow> wiring \<Rightarrow> 'w DefaultRegistry \<Rightarrow> 'w DefaultRegistry option" where
  "RegisterAll mk w r = do {
     r \<leftarrow> Register (mk ''discover_tools'') r;
     r \<leftarrow> onlyIf (wi_Memory w \<and> wi_Embedding w) (RegisterWithMeta (mk ''memory_search'') 2 memoryKeywords) r;
     r \<leftarrow> onlyIf (wi_T2Query w) (RegisterWithMeta (mk ''memory_recall'') 2 memoryKeywords) r;
     r \<leftarrow> onlyIf (wi_Settings w) (RegisterWithMeta (mk ''focus_set'') 2 memoryKeywords) r;
     r \<leftarrow> onlyIf (wi_Settings w) (RegisterWithMeta (mk ''focus_get'') 2 memoryKeywords) r;
     r \<leftarrow> onlyIf (wi_Memory w) (RegisterWithMeta (mk ''people_list'') 2 peopleKeywords) r;
     r \<leftarrow> onlyIf (wi_Memory w) (RegisterWithMeta (mk ''people_show'') 2 peopleKeywords) r;
     r \<leftarrow> onlyIf (wi_LLMFn w) (RegisterWithMeta (mk ''self_examine'') 2 reflectKeywords) r;
     onlyIf (wi_Memory w \<and> wi_Embedding w) (RegisterWithMeta (mk ''write_reflection'') 2 reflectKeywords) r
   }"


section \<open>The contract of a registry\<close>

fun addAll :: "('x \<Rightarrow> 'r \<Rightarrow> 'r option) \<Rightarrow> 'x list \<Rightarrow> 'r \<Rightarrow> 'r option" where
  "addAll add [] r = Some r"
| "addAll add (x # xs) r = Option.bind (add x r) (addAll add xs)"

text \<open>
  \<open>add\<close> registers an item under its name, \<open>get\<close> finds it. The laws: a duplicate name is refused, what
  was registered is found, and nothing else changes.
\<close>

locale tool_registry =
  fixes get :: "'r \<Rightarrow> string \<Rightarrow> 'h option"
    and add :: "'x \<Rightarrow> 'r \<Rightarrow> 'r option"
    and nameOf :: "'x \<Rightarrow> string"
    and itemOf :: "'x \<Rightarrow> 'h"
  assumes add_None: "add x r = None \<longleftrightarrow> get r (nameOf x) \<noteq> None"
    and get_add: "add x r = Some r' \<Longrightarrow> get r' n = (if n = nameOf x then Some (itemOf x) else get r n)"
begin

lemma addAll_fresh:
  "addAll add xs r = Some r' \<Longrightarrow> get r n \<noteq> None \<Longrightarrow> find (\<lambda>x. nameOf x = n) xs = None"
proof (induction xs arbitrary: r)
  case (Cons x xs)
  then obtain r1 where r1: "add x r = Some r1" "addAll add xs r1 = Some r'" by (auto simp: bind_eq_Some_conv)
  with Cons.prems(2) have "nameOf x \<noteq> n" using add_None by (metis option.discI)
  moreover from this have "get r1 n \<noteq> None" using r1(1) get_add Cons.prems(2) by auto
  ultimately show ?case using Cons.IH [OF r1(2)] by simp
qed simp

lemma addAll_get:
  "addAll add xs r = Some r' \<Longrightarrow>
   get r' n = (case find (\<lambda>x. nameOf x = n) xs of Some x \<Rightarrow> Some (itemOf x) | None \<Rightarrow> get r n)"
proof (induction xs arbitrary: r)
  case (Cons x xs)
  then obtain r1 where r1: "add x r = Some r1" "addAll add xs r1 = Some r'" by (auto simp: bind_eq_Some_conv)
  have "find (\<lambda>y. nameOf y = n) xs = None" if "nameOf x = n"
    using addAll_fresh [OF r1(2)] get_add [OF r1(1)] that by simp
  with Cons.IH [OF r1(2)] get_add [OF r1(1)] show ?case by (auto split: option.splits)
qed simp

lemma addAll_Some_iff:
  "(\<exists>r'. addAll add xs r = Some r') \<longleftrightarrow>
   distinct (map nameOf xs) \<and> (\<forall>x \<in> set xs. get r (nameOf x) = None)"
proof (induction xs arbitrary: r)
  case (Cons x xs)
  show ?case
  proof (cases "add x r")
    case None
    then have "get r (nameOf x) \<noteq> None" using add_None by blast
    with None show ?thesis by simp
  next
    case (Some r1)
    then have "get r (nameOf x) = None" using add_None by (metis option.discI)
    moreover have "(\<forall>y \<in> set xs. get r1 (nameOf y) = None) \<longleftrightarrow>
        nameOf x \<notin> nameOf ` set xs \<and> (\<forall>y \<in> set xs. get r (nameOf y) = None)"
      using get_add [OF Some] by (auto simp: image_iff)
    ultimately show ?thesis using Some Cons.IH [of r1] by auto
  qed
qed simp

end

type_synonym 'w regItem = "'w ToolHandler \<times> int \<times> string list \<times> ExecutionMode \<times> string"

definition addItem :: "'w regItem \<Rightarrow> 'w DefaultRegistry \<Rightarrow> 'w DefaultRegistry option" where
  "addItem = (\<lambda>(h, tier, keywords, mode, source). registerFull h tier keywords mode source)"

interpretation default_reg: tool_registry Get addItem "\<lambda>(h, _). th_Name h" "\<lambda>(h, _). h"
  by unfold_locales (auto simp: addItem_def registerFull_def Get_def Let_def split: if_splits)

text \<open>Every map of a registry has an entry for every handler, which is stored under its own name.\<close>

definition wfRegistry :: "'w DefaultRegistry \<Rightarrow> bool" where
  "wfRegistry r \<longleftrightarrow> finite (dom (rg_handlers r)) \<and>
     dom (rg_tiers r) = dom (rg_handlers r) \<and> dom (rg_keywords r) = dom (rg_handlers r) \<and>
     dom (rg_execModes r) = dom (rg_handlers r) \<and>
     (\<forall>n h. rg_handlers r n = Some h \<longrightarrow> th_Name h = n)"

lemma wfRegistry_New [simp]: "wfRegistry NewDefaultRegistry"
  by (simp add: wfRegistry_def NewDefaultRegistry_def)

lemma wfRegistry_addItem: "addItem x r = Some r' \<Longrightarrow> wfRegistry r \<Longrightarrow> wfRegistry r'"
  by (simp add: addItem_def registerFull_def wfRegistry_def Let_def split: if_splits prod.splits) (hypsubst, simp)+

lemma wfRegistry_addAll: "addAll addItem xs r = Some r' \<Longrightarrow> wfRegistry r \<Longrightarrow> wfRegistry r'"
  by (induction xs arbitrary: r) (auto simp: bind_eq_Some_conv dest: wfRegistry_addItem)


section \<open>Listing is determined by the registry\<close>

lemma addAll_fun:
  "addAll add [] = Some"
  "addAll add (x # xs) = (\<lambda>r. Option.bind (add x r) (addAll add xs))"
  by auto

lemma RegisterAll_addAll:
  "RegisterAll mk w r =
     addAll addItem (concat (map (\<lambda>(c, n, t, k). if c then [(mk n, t, k, ExecParallel, '''')] else [])
       [(True, ''discover_tools'', 1, []),
        (wi_Memory w \<and> wi_Embedding w, ''memory_search'', 2, memoryKeywords),
        (wi_T2Query w, ''memory_recall'', 2, memoryKeywords),
        (wi_Settings w, ''focus_set'', 2, memoryKeywords),
        (wi_Settings w, ''focus_get'', 2, memoryKeywords),
        (wi_Memory w, ''people_list'', 2, peopleKeywords),
        (wi_Memory w, ''people_show'', 2, peopleKeywords),
        (wi_LLMFn w, ''self_examine'', 2, reflectKeywords),
        (wi_Memory w \<and> wi_Embedding w, ''write_reflection'', 2, reflectKeywords)])) r"
  unfolding RegisterAll_def onlyIf_def Register_def RegisterWithMeta_def RegisterFull_def
  by (cases "wi_Memory w"; cases "wi_Embedding w"; cases "wi_T2Query w"; cases "wi_Settings w"; cases "wi_LLMFn w")
     (simp_all add: addItem_def addAll_fun)

lemma map_filter_mset:
  "mset xs = mset ys \<Longrightarrow> mset (List.map_filter f xs) = mset (List.map_filter f ys)"
  by (simp add: map_filter_def)

lemma enumerations_mset: "distinct xs \<Longrightarrow> distinct ys \<Longrightarrow> set xs = set ys \<Longrightarrow> mset xs = mset ys"
  using set_eq_iff_mset_eq_distinct by blast

lemma mset_nub_determined: "set xs = set ys \<Longrightarrow> mset (nub xs) = mset (nub ys)"
  by (rule enumerations_mset) auto

lemma set_toolGroup_tools:
  "set (tg_Tools (toolGroup order r tier)) =
     {toolDefOf n h | n h. n \<in> set order \<and> rg_handlers r n = Some h \<and> mapGet (rg_tiers r) 0 n = tier}"
  by (auto simp: toolGroup_def tierMembers_def map_filter_Some_iff Let_def) blast+

lemma toolGroup_determined:
  assumes "distinct order" "distinct order'" "set order = set order'"
    and "inj_on td_Name {toolDefOf n h | n h. rg_handlers r n = Some h}"
  shows "toolGroup order r tier = toolGroup order' r tier"
proof -
  let ?n = "\<lambda>os. tierMembers os r tier"
  let ?t = "\<lambda>os. List.map_filter (\<lambda>name. map_option (toolDefOf name) (rg_handlers r name)) (?n os)"
  have n: "mset (?n order) = mset (?n order')"
    using enumerations_mset [OF assms(1-3)] by (simp add: tierMembers_def)
  have "set (?t order) \<subseteq> {toolDefOf n h | n h. rg_handlers r n = Some h}"
    by (auto simp: map_filter_Some_iff) blast
  then have "inj_on td_Name (set (?t order))" using assms(4) by (rule inj_on_subset [rotated])
  then have "inj_on (byteKey \<circ> td_Name) (set (?t order))"
    using inj_byteKey by (auto intro!: comp_inj_on inj_on_subset [OF inj_byteKey])
  then have "inj_on (\<lambda>d. byteKey (td_Name d)) (set (?t order))" by (simp add: comp_def)
  with map_filter_mset [OF n] have "sort_key (\<lambda>d. byteKey (td_Name d)) (?t order) =
      sort_key (\<lambda>d. byteKey (td_Name d)) (?t order')" by (rule sort_key_determined)
  moreover have "set (?n order) = set (?n order')" using n by (metis set_mset_mset)
  then have "mset (nub (concat (map (mapGet (rg_keywords r) []) (?n order)))) =
      mset (nub (concat (map (mapGet (rg_keywords r) []) (?n order'))))"
    by (intro mset_nub_determined) simp
  then have "sortStrings (nub (concat (map (mapGet (rg_keywords r) []) (?n order)))) =
      sortStrings (nub (concat (map (mapGet (rg_keywords r) []) (?n order'))))"
    by (rule sortStrings_determined)
  ultimately show ?thesis by (simp add: toolGroup_def Let_def)
qed



lemma set_List_groups:
  assumes "wfRegistry r" "set order = dom (rg_handlers r)"
  shows "set (List_groups order r) = (\<lambda>n. toolGroup order r (mapGet (rg_tiers r) 0 n)) ` dom (rg_handlers r)"
proof -
  have "set (List.map_filter (rg_tiers r) order) = mapGet (rg_tiers r) 0 ` dom (rg_handlers r)"
  proof (intro equalityI subsetI)
    fix t assume "t \<in> set (List.map_filter (rg_tiers r) order)"
    then obtain n where "n \<in> dom (rg_handlers r)" "rg_tiers r n = Some t"
      using assms(2) by (auto simp: map_filter_Some_iff)
    then show "t \<in> mapGet (rg_tiers r) 0 ` dom (rg_handlers r)" by (auto simp: mapGet_def intro!: image_eqI [of _ _ n])
  next
    fix t assume "t \<in> mapGet (rg_tiers r) 0 ` dom (rg_handlers r)"
    then obtain n where n: "n \<in> dom (rg_handlers r)" "t = mapGet (rg_tiers r) 0 n" by blast
    then have "n \<in> dom (rg_tiers r)" using assms(1) by (simp add: wfRegistry_def)
    then have "rg_tiers r n = Some t" using n(2) by (auto simp: mapGet_def)
    then show "t \<in> set (List.map_filter (rg_tiers r) order)"
      using n(1) assms(2) by (auto simp: map_filter_Some_iff)
  qed
  moreover have "finite (dom (rg_handlers r))" using assms(1) by (simp add: wfRegistry_def)
  ultimately show ?thesis by (simp add: List_groups_def image_image)
qed

lemma tool_groups [simp]:
  "tg_Tier (toolGroup order r tier) = tier" "tg_Name (toolGroup order r tier) = tierName tier"
  by (simp_all add: toolGroup_def Let_def)

lemma matches_toolGroup:
  "matchesAnySignal lr (tg_Keywords (toolGroup order r tier)) signals \<longleftrightarrow>
     (\<exists>n \<in> set order. mapGet (rg_tiers r) 0 n = tier \<and> matchesAnySignal lr (mapGet (rg_keywords r) [] n) signals)"
  by (auto simp: matchesAnySignal_def toolGroup_def tierMembers_def list_ex_iff Let_def)

lemma in_BuildToolList:
  "d \<in> set (BuildToolList gs a) \<longleftrightarrow>
     (\<exists>g \<in> set gs. d \<in> set (tg_Tools g) \<and> (tg_Tier g = 1 \<or> tg_Tier g = 2 \<and> tg_Name g \<in> set a))"
  by (auto simp: BuildToolList_def)

section \<open>Properties\<close>

text \<open>
  The order in which Go happens to visit its maps does not show: any two enumerations of the
  registered handlers give the same groups, tools and keywords, when the definitions in the
  registry have different names.
\<close>

theorem listing_is_deterministic:
  assumes "distinct order" "distinct order'" "set order = dom (rg_handlers r)" "set order' = dom (rg_handlers r)"
    and "inj_on td_Name {toolDefOf n h | n h. rg_handlers r n = Some h}"
  shows "List_groups order r = List_groups order' r"
proof -
  have "set (List.map_filter (rg_tiers r) order) = set (List.map_filter (rg_tiers r) order')"
    using assms(3,4) by (auto simp: map_filter_Some_iff)
  with toolGroup_determined [OF assms(1,2) _ assms(5)] assms(3,4) show ?thesis
    by (simp add: List_groups_def)
qed

text \<open>
  What the model is offered. The tool list consists of every tier 1 tool, and of every tier 2
  tool as soon as one keyword of any tier 2 tool occurs in a signal; no other tool is in it, a
  tier 3 tool never. Tier 2 is one group: a signal for one of its tools activates all of them.
\<close>

theorem tool_list_is_tiered:
  assumes "wfRegistry r" "set order = dom (rg_handlers r)"
  defines "groups \<equiv> List_groups order r"
    and "tier \<equiv> mapGet (rg_tiers r) 0"
  shows "set (BuildToolList groups (ActivateTier2 lr groups signals)) =
    {toolDefOf n h | n h. rg_handlers r n = Some h \<and>
       (tier n = 1 \<or> tier n = 2 \<and> (\<exists>m \<in> dom (rg_handlers r). tier m = 2 \<and>
          matchesAnySignal lr (mapGet (rg_keywords r) [] m) signals))}"
proof -
  define act where "act \<longleftrightarrow> (\<exists>m \<in> dom (rg_handlers r). tier m = 2 \<and>
     matchesAnySignal lr (mapGet (rg_keywords r) [] m) signals)"
  have g: "set groups = (\<lambda>n. toolGroup order r (tier n)) ` dom (rg_handlers r)"
    using set_List_groups [OF assms(1,2)] by (simp add: groups_def tier_def)
  have a: "tierName 2 \<in> set (ActivateTier2 lr groups signals) \<longleftrightarrow> act"
  proof
    assume act
    then obtain m where "m \<in> dom (rg_handlers r)" "tier m = 2"
      "matchesAnySignal lr (mapGet (rg_keywords r) [] m) signals" by (auto simp: act_def)
    then have "toolGroup order r 2 \<in> set groups"
      "matchesAnySignal lr (tg_Keywords (toolGroup order r 2)) signals"
      unfolding g by (force, auto simp: matches_toolGroup assms(2) tier_def)
    then show "tierName 2 \<in> set (ActivateTier2 lr groups signals)"
      by (auto simp: ActivateTier2_def intro!: image_eqI [of _ _ "toolGroup order r 2"])
  qed (auto simp: ActivateTier2_def g matches_toolGroup assms(2) tier_def act_def)
  have "d \<in> set (BuildToolList groups (ActivateTier2 lr groups signals)) \<longleftrightarrow>
      (\<exists>n h. d = toolDefOf n h \<and> rg_handlers r n = Some h \<and> (tier n = 1 \<or> tier n = 2 \<and> act))" for d
    unfolding in_BuildToolList g bex_simps using a
    by (auto simp: set_toolGroup_tools assms(2) domI simp flip: tier_def) (metis domI)+
  then show ?thesis unfolding act_def by blast
qed


text \<open>A registry of handlers that do nothing, with everything wired.\<close>

definition sampleHandler :: "string \<Rightarrow> unit ToolHandler" where
  "sampleHandler n = \<lparr> th_Name = n, th_Define = None, th_Execute = ExecV1 (\<lambda>a w. ((Inr '''', False), w)) \<rparr>"

definition fullWiring :: wiring where
  "fullWiring = \<lparr> wi_Memory = True, wi_T2Query = True, wi_Settings = True, wi_Embedding = True, wi_LLMFn = True \<rparr>"

definition sampleNames :: "string list" where
  "sampleNames = [''discover_tools'', ''memory_search'', ''memory_recall'', ''focus_set'', ''focus_get'',
     ''people_list'', ''people_show'', ''self_examine'', ''write_reflection'']"

lemma builtin_registry:
  assumes "\<And>n. th_Name (mk n) = n"
  shows "\<exists>r. RegisterAll mk w NewDefaultRegistry = Some r \<and> wfRegistry r"
proof -
  have "\<exists>r. RegisterAll mk w NewDefaultRegistry = Some r"
    unfolding RegisterAll_addAll default_reg.addAll_Some_iff using assms
    by (auto simp: Get_def NewDefaultRegistry_def)
  then show ?thesis
    unfolding RegisterAll_addAll using wfRegistry_addAll wfRegistry_New by blast
qed

definition sampleRegistry :: "unit DefaultRegistry" where
  "sampleRegistry = the (RegisterAll sampleHandler fullWiring NewDefaultRegistry)"

lemma sampleRegistry_wf: "wfRegistry sampleRegistry" "RegisterAll sampleHandler fullWiring NewDefaultRegistry = Some sampleRegistry"
proof -
  have "\<exists>r. RegisterAll sampleHandler fullWiring NewDefaultRegistry = Some r \<and> wfRegistry r"
    by (rule builtin_registry) (simp add: sampleHandler_def)
  then show "wfRegistry sampleRegistry" "RegisterAll sampleHandler fullWiring NewDefaultRegistry = Some sampleRegistry"
    by (auto simp: sampleRegistry_def)
qed

lemma sampleRegistry_maps:
  "rg_handlers sampleRegistry n = (if n \<in> set sampleNames then Some (sampleHandler n) else None)"
  "rg_tiers sampleRegistry ''memory_search'' = Some 2" "rg_tiers sampleRegistry ''people_list'' = Some 2"
  "rg_keywords sampleRegistry ''people_list'' = Some peopleKeywords"
  by (simp_all add: sampleRegistry_def RegisterAll_def onlyIf_def fullWiring_def Register_def RegisterWithMeta_def
      RegisterFull_def registerFull_def sampleHandler_def NewDefaultRegistry_def sampleNames_def Let_def)

theorem listing_is_deterministic_witness:
  "List_groups sampleNames sampleRegistry = List_groups (rev sampleNames) sampleRegistry"
proof (rule listing_is_deterministic)
  show "set sampleNames = dom (rg_handlers sampleRegistry)" "set (rev sampleNames) = dom (rg_handlers sampleRegistry)"
    by (auto simp: sampleRegistry_maps split: if_splits)
  show "inj_on td_Name {toolDefOf n h | n h. rg_handlers sampleRegistry n = Some h}"
    by (auto simp: inj_on_def sampleRegistry_maps toolDefOf_def sampleHandler_def split: if_splits)
qed (simp_all add: sampleNames_def)

theorem tool_list_is_tiered_witness:
  "\<lparr> td_Name = ''memory_search'', td_Description = '''', td_Parameters = Map.empty \<rparr> \<in>
     set (BuildToolList (List_groups sampleNames sampleRegistry)
       (ActivateTier2 (\<lambda>r. r) (List_groups sampleNames sampleRegistry) [''person'']))"
proof -
  have d: "set sampleNames = dom (rg_handlers sampleRegistry)"
    by (auto simp: sampleRegistry_maps split: if_splits)
  have m: "matchesAnySignal (\<lambda>r. r) (mapGet (rg_keywords sampleRegistry) [] ''people_list'') [''person'']"
    by (simp add: matchesAnySignal_def mapGet_def sampleRegistry_maps peopleKeywords_def)
  have "rg_handlers sampleRegistry ''memory_search'' = Some (sampleHandler ''memory_search'')"
    "rg_handlers sampleRegistry ''people_list'' = Some (sampleHandler ''people_list'')"
    "mapGet (rg_tiers sampleRegistry) 0 ''memory_search'' = 2" "mapGet (rg_tiers sampleRegistry) 0 ''people_list'' = 2"
    by (simp_all add: sampleRegistry_maps sampleNames_def mapGet_def)
  with m tool_list_is_tiered [OF sampleRegistry_wf(1) d, of "\<lambda>r. r" "[''person'']"] show ?thesis
    by (force simp: toolDefOf_def sampleHandler_def)
qed


end
