(* ===== verification/Engine.thy ===== *)
theory Engine
  imports Registry Metabolism
begin

text \<open>
  The agentic loop, \<^verbatim>\<open>internal/engine/engine.go\<close>, with its hook pipeline (\<^verbatim>\<open>hooks.go\<close>,
  \<^verbatim>\<open>hooks_phase3.go\<close>) and the messages of \<^verbatim>\<open>pkg/types.go\<close>.

  The language model, the tools, the hooks and the content gateway act on a world of type
  \<open>'w\<close>, which is passed along. The events the engine emits are collected in a list. What other
  goroutines do is an argument, the record \<open>runEnv\<close>: the order in which the tools of a parallel batch
  get to run, and the messages that have arrived on the steering and follow-up channels when
  they are drained.
\<close>

section \<open>Messages\<close>

record ToolCall =
  tc_ID :: string
  tc_Name :: string
  tc_Arguments :: string
  tc_Destination :: string

type_synonym ContentBlockType = string

abbreviation BlockText :: ContentBlockType where "BlockText \<equiv> ''text''"
abbreviation BlockThinking :: ContentBlockType where "BlockThinking \<equiv> ''thinking''"
abbreviation BlockToolCall :: ContentBlockType where "BlockToolCall \<equiv> ''tool_call''"

record ContentBlock =
  cb_Type :: ContentBlockType
  cb_Text :: string
  cb_Thinking :: string
  cb_ToolCall :: "ToolCall option"
  cb_FieldName :: string

record Message =
  ms_Role :: string
  ms_Content :: string
  ms_Blocks :: "ContentBlock list"
  ms_ToolCallID :: string
  ms_IsError :: bool

definition zeroMessage :: Message where
  "zeroMessage = \<lparr> ms_Role = '''', ms_Content = '''', ms_Blocks = [], ms_ToolCallID = '''', ms_IsError = False \<rparr>"

record CompletionRequest =
  rq_System :: string
  rq_Messages :: "Message list"
  rq_Tools :: "ToolDef list"
  rq_MaxTokens :: int
  rq_Temperature :: "float64 option"

record CompletionResponse =
  rp_Blocks :: "ContentBlock list"
  rp_FinishReason :: string
  rp_PromptTokens :: int
  rp_CompletionTokens :: int
  rp_ThinkingTokens :: int
  rp_EffectiveTokS :: float64
  rp_RawTokS :: float64
  rp_TTFT :: duration
  rp_TotalLatency :: duration

definition TextContent :: "CompletionResponse \<Rightarrow> string" where
  "TextContent r = concat (map cb_Text (filter (\<lambda>b. cb_Type b = BlockText) (rp_Blocks r)))"

text \<open>The newline goes before a block once something has been written.\<close>

fun thinkingFrom :: "string \<Rightarrow> ContentBlock list \<Rightarrow> string" where
  "thinkingFrom acc [] = acc"
| "thinkingFrom acc (b # bs) =
     (if cb_Type b = BlockThinking
      then thinkingFrom (acc @ (if acc \<noteq> [] then newline else []) @ cb_Thinking b) bs
      else thinkingFrom acc bs)"

definition ThinkingContent :: "CompletionResponse \<Rightarrow> string" where
  "ThinkingContent r = thinkingFrom [] (rp_Blocks r)"

definition ToolCallBlocks :: "CompletionResponse \<Rightarrow> ToolCall list" where
  "ToolCallBlocks r =
     List.map_filter (\<lambda>b. if cb_Type b = BlockToolCall then cb_ToolCall b else None) (rp_Blocks r)"

section \<open>Turn hooks\<close>

record TurnResult =
  tn_SessionID :: string
  tn_TurnNumber :: int
  tn_Content :: string
  tn_ToolCalls :: "string list"
  tn_ToolResults :: "ToolResult list"
  tn_PromptTokens :: int
  tn_CompletionTokens :: int
  tn_ThinkingTokens :: int
  tn_TTFT :: duration
  tn_TotalDuration :: duration

type_synonym 'w TurnHook = "TurnResult \<Rightarrow> 'w \<Rightarrow> error option \<times> 'w"

record 'w hookEntry =
  he_hook :: "'w TurnHook"
  he_critical :: bool

type_synonym 'w HookPipeline = "'w hookEntry list"

definition Pipeline_Register :: "'w TurnHook \<Rightarrow> 'w HookPipeline \<Rightarrow> 'w HookPipeline" where
  "Pipeline_Register h p = p @ [\<lparr> he_hook = h, he_critical = False \<rparr>]"

definition RegisterCritical :: "'w TurnHook \<Rightarrow> 'w HookPipeline \<Rightarrow> 'w HookPipeline" where
  "RegisterCritical h p = p @ [\<lparr> he_hook = h, he_critical = True \<rparr>]"

fun RunAll :: "'w HookPipeline \<Rightarrow> TurnResult \<Rightarrow> 'w \<Rightarrow> error option \<times> 'w" where
  "RunAll [] turn w = (None, w)"
| "RunAll (entry # es) turn w =
     (case he_hook entry turn w of
        (Some err, w') \<Rightarrow> if he_critical entry then (Some err, w') else RunAll es turn w'
      | (None, w') \<Rightarrow> RunAll es turn w')"

section \<open>Configuration and state of the engine\<close>

record HookResult =
  hr_Block :: bool
  hr_Reason :: string

text \<open>The events of \<^verbatim>\<open>pkg/events.go\<close>, with their data; the time stamps and durations are left out.\<close>

datatype EngineEvent =
    EvSessionStart int
  | EvTurnStart int int
  | EvLLMRequest int int
  | EvLLMResponse int string int int
  | EvToolDispatch string string
  | EvToolResult string string bool string
  | EvHookBlock string string string
  | EvSteeringInjected int string
  | EvLoopTerminated int bool string

text \<open>
  A hook that runs before a tool call receives the map of the arguments itself and may change it; one
  that runs after it receives a pointer to the result: the first component of what it returns is
  the result as the hook left it, the second what it returned, the third the reason of a
  block the engine's own hook reports as an event.
\<close>

type_synonym 'w beforeHook = "ToolCall \<Rightarrow> args \<Rightarrow> 'w \<Rightarrow> (args \<times> (error + HookResult option)) \<times> 'w"
type_synonym 'w afterHook =
  "ToolCall \<Rightarrow> ToolResult \<Rightarrow> 'w \<Rightarrow> (ToolResult \<times> (error + ToolResult option) \<times> string option) \<times> 'w"

record 'w EngineConfig =
  cf_MaxIterations :: int
  cf_ParallelTools :: bool
  cf_ToolTimeout :: duration
  cf_DryRun :: bool
  cf_Rehearsal :: bool
  cf_BeforeToolCall :: "'w beforeHook option"
  cf_AfterToolCall :: "'w afterHook option"
  cf_ShouldStop :: "(CompletionResponse \<Rightarrow> ToolResult list \<Rightarrow> 'w \<Rightarrow> bool \<times> 'w) option"
  cf_SteeringChan :: bool          \<comment> \<open>whether the channel is set\<close>
  cf_FollowUpChan :: bool
  cf_TransformContext :: "(string \<Rightarrow> Message list \<Rightarrow> 'w \<Rightarrow> (error + string \<times> Message list) \<times> 'w) option"

record LoopResult =
  lp_FinalResponse :: "CompletionResponse option"
  lp_History :: "Message list"
  lp_Iterations :: int
  lp_Terminated :: bool

text \<open>The gateway and the library functions the engine formats its results with.\<close>

record 'w aegisGateway =
  gw_ProcessInbound :: "string \<Rightarrow> string \<Rightarrow> string \<Rightarrow> 'w \<Rightarrow> (error + AnnotatedContent) \<times> 'w"
  gw_ReviewOutbound :: "string \<Rightarrow> 'w \<Rightarrow> (error + OutboundReport) \<times> 'w"

record BlockedOutbound =
  bo_ToolName :: string
  bo_CallID :: string
  bo_Destination :: string
  bo_Severity :: string
  bo_Findings :: "string list"
  bo_Reason :: string

record codec =
  co_Unmarshal :: "string \<Rightarrow> error + args option"   \<comment> \<open>\<open>None\<close>: the nil map, from null\<close>
  co_Marshal :: "args \<Rightarrow> error + string"
  co_MarshalBlocked :: "BlockedOutbound \<Rightarrow> string"
  co_Duration :: "duration \<Rightarrow> string"               \<comment> \<open>\<open>%v\<close> of a duration\<close>

record 'w Engine =
  en_client :: "CompletionRequest \<Rightarrow> 'w \<Rightarrow> (error + CompletionResponse) \<times> 'w"
  en_registry :: "'w DefaultRegistry"
  en_order :: "string list"                          \<comment> \<open>the order in which \<open>List\<close> visits the handlers\<close>
  en_hooks :: "'w HookPipeline option"
  en_aegis :: "'w aegisGateway option"
  en_sessionID :: string
  en_codec :: codec

record runEnv =
  rv_sched :: "int \<Rightarrow> nat \<Rightarrow> nat list"               \<comment> \<open>order of a parallel batch of so many calls\<close>
  rv_steer :: "int \<Rightarrow> Message list"                  \<comment> \<open>arrived on \<open>SteeringChan\<close> since the last drain\<close>
  rv_steerClosed :: "int \<Rightarrow> bool"
  rv_follow :: "int \<Rightarrow> Message list"
  rv_followClosed :: "int \<Rightarrow> bool"

record 'w engineState =
  es_world :: 'w
  es_events :: "EngineEvent list"
  es_steering :: "Message list"                      \<comment> \<open>messages left in the channels\<close>
  es_followUp :: "Message list"

definition emit :: "EngineEvent \<Rightarrow> 'w engineState \<Rightarrow> 'w engineState" where
  "emit ev s = s\<lparr>es_events := es_events s @ [ev]\<rparr>"

definition onWorld :: "('w \<Rightarrow> 'a \<times> 'w) \<Rightarrow> 'w engineState \<Rightarrow> 'a \<times> 'w engineState" where
  "onWorld f s = (let (a, w) = f (es_world s) in (a, s\<lparr>es_world := w\<rparr>))"

section \<open>The hooks the engine wires itself\<close>

definition fmtStrings :: "string list \<Rightarrow> string" where
  "fmtStrings xs = ''['' @ strJoin xs '' '' @ '']''"

definition aegisBefore :: "codec \<Rightarrow> 'w aegisGateway \<Rightarrow> 'w beforeHook" where
  "aegisBefore co gw tc args w =
     (case co_Marshal co args of
        Inl e \<Rightarrow> ((args, Inr (Some \<lparr> hr_Block = True, hr_Reason = ''aegis: failed to marshal args: '' @ e \<rparr>)), w)
      | Inr argsJSON \<Rightarrow>
          (case gw_ProcessInbound gw argsJSON (tc_Name tc) ''tool_args'' w of
             (Inl e, w') \<Rightarrow> ((args, Inr (Some \<lparr> hr_Block = True, hr_Reason = ''aegis: inbound scan error: '' @ e \<rparr>)), w')
           | (Inr ac, w') \<Rightarrow>
               (let a = ac_Annotation ac in
                ((args, Inr (if \<not> aa_ScanPassed a
                   then Some \<lparr> hr_Block = True,
                          hr_Reason = ''aegis: inbound scan failed '' @ em_dash @ '' flags: '' @ fmtStrings (aa_Flags a) @
                            '', trust: '' @ fmt2 (aa_TrustScore a) \<rparr>
                   else None)), w'))))"

definition aegisAfter :: "codec \<Rightarrow> 'w aegisGateway \<Rightarrow> 'w afterHook" where
  "aegisAfter co gw tc result w =
     (case gw_ReviewOutbound gw (tr_Content result) w of
        (Inl e, w') \<Rightarrow> ((result, Inr None, None), w')
      | (Inr report, w') \<Rightarrow>
          if or_Clean report then ((result, Inr None, None), w')
          else if tc_Destination tc = ''external'' \<and> or_Severity report = ''critical'' then
            (let blocked = \<lparr> bo_ToolName = tc_Name tc, bo_CallID = tc_ID tc, bo_Destination = tc_Destination tc,
                   bo_Severity = or_Severity report, bo_Findings = or_Findings report,
                   bo_Reason = ''aegis: critical outbound findings blocked for external tool '' @ tc_Name tc \<rparr>
             in ((result, Inr (Some (result\<lparr>tr_Content := ''[BLOCKED: outbound content blocked by Aegis]'' @ newline @
                                             co_MarshalBlocked co blocked, tr_IsError := True\<rparr>)),
                  Some ''aegis_outbound_critical''), w'))
          else ((result, Inr (Some (result\<lparr>tr_Content := ''[aegis: outbound findings ('' @ or_Severity report @ ''): '' @
                                             fmtStrings (or_Findings report) @ '']'' @ newline @ tr_Content result\<rparr>)), None), w'))"

abbreviation (input) maxToolIterationsDefault :: int where "maxToolIterationsDefault \<equiv> 25"
abbreviation (input) toolTimeoutDefault :: duration where "toolTimeoutDefault \<equiv> 2 * minute"

definition wireConfig :: "'w Engine \<Rightarrow> 'w EngineConfig \<Rightarrow> 'w EngineConfig" where
  "wireConfig e cfg =
     (let cfg = (if cf_MaxIterations cfg \<le> 0 then cfg\<lparr>cf_MaxIterations := maxToolIterationsDefault\<rparr> else cfg);
          cfg = (if cf_ToolTimeout cfg \<le> 0 then cfg\<lparr>cf_ToolTimeout := toolTimeoutDefault\<rparr> else cfg)
      in case en_aegis e of
           None \<Rightarrow> cfg
         | Some gw \<Rightarrow>
             (let cfg = (if cf_BeforeToolCall cfg = None
                         then cfg\<lparr>cf_BeforeToolCall := Some (aegisBefore (en_codec e) gw)\<rparr> else cfg)
              in if cf_AfterToolCall cfg = None
                 then cfg\<lparr>cf_AfterToolCall := Some (aegisAfter (en_codec e) gw)\<rparr> else cfg))"

section \<open>One tool call\<close>

definition availableToolNames :: "'w Engine \<Rightarrow> string" where
  "availableToolNames e =
     strJoin (map td_Name (concat (map tg_Tools (List_groups (en_order e) (en_registry e))))) '', ''"

definition destinationOf :: "'w Engine \<Rightarrow> ToolCall \<Rightarrow> string" where
  "destinationOf e tc =
     (if tc_Destination tc = '''' then
        (case GetMeta (en_registry e) (tc_Name tc) of
           Some meta \<Rightarrow> if tm_Destination meta \<noteq> '''' then tm_Destination meta else ''internal''
         | None \<Rightarrow> ''internal'')
      else tc_Destination tc)"

definition parseArgs :: "'w Engine \<Rightarrow> ToolCall \<Rightarrow> error + args" where
  "parseArgs e tc =
     (if tc_Arguments tc = '''' then Inr Map.empty
      else if length (tc_Arguments tc) > 1048576
        then Inl (''Error: arguments for '' @ quoted (tc_Name tc) @ '' exceed 1MB '' @ em_dash @ '' rejecting'')
      else (case co_Unmarshal (en_codec e) (tc_Arguments tc) of
              Inl err \<Rightarrow> Inl (''Error: malformed JSON arguments for '' @ quoted (tc_Name tc) @ '': '' @ err)
            | Inr None \<Rightarrow> Inr Map.empty
            | Inr (Some m) \<Rightarrow> Inr m))"

text \<open>The error content when the call is blocked, the arguments otherwise.\<close>

definition runBefore ::
  "'w EngineConfig \<Rightarrow> ToolCall \<Rightarrow> args \<Rightarrow> 'w engineState \<Rightarrow> (error + args) \<times> 'w engineState" where
  "runBefore cfg tc args s =
     (case cf_BeforeToolCall cfg of
        None \<Rightarrow> (Inr args, s)
      | Some hook \<Rightarrow>
          (case onWorld (hook tc args) s of
             ((args', Inl err), s) \<Rightarrow>
               (Inl (''Error: pre-execution check failed: '' @ err),
                emit (EvHookBlock (tc_Name tc) (tc_ID tc) (''hook error: '' @ err)) s)
           | ((args', Inr (Some hr)), s) \<Rightarrow>
               if hr_Block hr
               then (Inl (''Error: '' @ hr_Reason hr), emit (EvHookBlock (tc_Name tc) (tc_ID tc) (hr_Reason hr)) s)
               else (Inr args', s)
           | ((args', Inr None), s) \<Rightarrow> (Inr args', s)))"

text \<open>The handler: the result so far, and the error content when it failed.\<close>

definition runHandler ::
  "'w Engine \<Rightarrow> 'w EngineConfig \<Rightarrow> 'w ToolHandler \<Rightarrow> ToolCall \<Rightarrow> args \<Rightarrow> ToolResult \<Rightarrow> 'w engineState \<Rightarrow>
   (ToolResult \<times> error option) \<times> 'w engineState" where
  "runHandler e cfg handler tc args result s =
     (let ((result, execErr, late), s) =
            (case th_Execute handler of
               ExecV2 f \<Rightarrow>
                 (case onWorld (f args) s of
                    ((Inl err, late), s) \<Rightarrow> ((result, Some err, late), s)
                  | ((Inr (Some r), late), s) \<Rightarrow> ((r\<lparr>tr_CallID := tc_ID tc\<rparr>, None, late), s)
                  | ((Inr None, late), s) \<Rightarrow> ((result, None, late), s))
             | ExecV1 f \<Rightarrow>
                 (case onWorld (f args) s of
                    ((Inl err, late), s) \<Rightarrow> ((result, Some err, late), s)
                  | ((Inr output, late), s) \<Rightarrow> ((result\<lparr>tr_Content := output\<rparr>, None, late), s)));
          result = (if tr_ContentSource result = '''' then
                      (case GetMeta (en_registry e) (tc_Name tc) of
                         Some meta \<Rightarrow> if tm_ContentSource meta \<noteq> '''' then result\<lparr>tr_ContentSource := tm_ContentSource meta\<rparr> else result
                       | None \<Rightarrow> result)
                    else result)
      in ((result, map_option (\<lambda>err.
             if late then ''Error: tool '' @ quoted (tc_Name tc) @ '' timed out after '' @ co_Duration (en_codec e) (cf_ToolTimeout cfg)
             else ''Error: tool '' @ quoted (tc_Name tc) @ '' failed: '' @ err) execErr), s))"

definition reportBlock :: "ToolCall \<Rightarrow> string option \<Rightarrow> 'w engineState \<Rightarrow> 'w engineState" where
  "reportBlock tc reason s =
     (case reason of None \<Rightarrow> s | Some r \<Rightarrow> emit (EvHookBlock (tc_Name tc) (tc_ID tc) r) s)"

definition runAfter ::
  "'w EngineConfig \<Rightarrow> ToolCall \<Rightarrow> ToolResult \<Rightarrow> 'w engineState \<Rightarrow> ToolResult \<times> 'w engineState" where
  "runAfter cfg tc result s =
     (case cf_AfterToolCall cfg of
        None \<Rightarrow> (result, s)
      | Some hook \<Rightarrow>
          (case onWorld (hook tc result) s of
             ((left, Inl err, blocked), s) \<Rightarrow> (left, reportBlock tc blocked s)
           | ((left, Inr None, blocked), s) \<Rightarrow> (left, reportBlock tc blocked s)
           | ((left, Inr (Some mutated), blocked), s) \<Rightarrow>
               (mutated\<lparr>tr_Terminate := tr_Terminate result\<rparr>, reportBlock tc blocked s)))"

definition preview :: "string \<Rightarrow> string" where
  "preview s = (if length s > 200 then take 200 s @ ellipsis else s)"

definition executeSingleTool ::
  "'w Engine \<Rightarrow> 'w EngineConfig \<Rightarrow> ToolCall \<Rightarrow> 'w engineState \<Rightarrow> ToolResult \<times> 'w engineState" where
  "executeSingleTool e cfg tc s =
     (let result = \<lparr> tr_CallID = tc_ID tc, tr_Content = '''', tr_IsError = False, tr_Terminate = False,
                     tr_ContentSource = '''' \<rparr>
      in case Get (en_registry e) (tc_Name tc) of
           None \<Rightarrow> (result\<lparr>tr_Content := ''Error: unknown tool '' @ quoted (tc_Name tc) @ ''. Available: '' @
                            availableToolNames e, tr_IsError := True\<rparr>, s)
         | Some handler \<Rightarrow>
             (let tc = tc\<lparr>tc_Destination := destinationOf e tc\<rparr>
              in case parseArgs e tc of
                   Inl msg \<Rightarrow> (result\<lparr>tr_Content := msg, tr_IsError := True\<rparr>, s)
                 | Inr args \<Rightarrow>
                     (case runBefore cfg tc args (emit (EvToolDispatch (tc_Name tc) (tc_ID tc)) s) of
                        (Inl msg, s) \<Rightarrow> (result\<lparr>tr_Content := msg, tr_IsError := True\<rparr>, s)
                      | (Inr args, s) \<Rightarrow>
                          if cf_DryRun cfg then (result\<lparr>tr_Content := ''[dry-run] '' @ tc_Name tc @ '' skipped''\<rparr>, s)
                          else (case runHandler e cfg handler tc args result s of
                                  ((result, Some msg), s) \<Rightarrow> (result\<lparr>tr_Content := msg, tr_IsError := True\<rparr>, s)
                                | ((result, None), s) \<Rightarrow>
                                    (let (result, s) = runAfter cfg tc result s
                                     in (result, emit (EvToolResult (tc_Name tc) (tc_ID tc) (tr_IsError result)
                                                        (preview (tr_Content result))) s))))))"


section \<open>A batch of tool calls\<close>

definition zeroResult :: ToolResult where
  "zeroResult = \<lparr> tr_CallID = '''', tr_Content = '''', tr_IsError = False, tr_Terminate = False, tr_ContentSource = '''' \<rparr>"

text \<open>
  A parallel batch: the calls run in the order given by the schedule and write their results
  into the slots of their indices.
\<close>

fun runParallel ::
  "'w Engine \<Rightarrow> 'w EngineConfig \<Rightarrow> ToolCall list \<Rightarrow> nat list \<Rightarrow> ToolResult list \<times> 'w engineState \<Rightarrow>
   ToolResult list \<times> 'w engineState" where
  "runParallel e cfg calls [] (results, s) = (results, s)"
| "runParallel e cfg calls (i # is) (results, s) =
     (let (r, s') = executeSingleTool e cfg (calls ! i) s in runParallel e cfg calls is (results[i := r], s'))"

fun runSequential ::
  "'w Engine \<Rightarrow> 'w EngineConfig \<Rightarrow> ToolCall list \<Rightarrow> 'w engineState \<Rightarrow> ToolResult list \<times> 'w engineState" where
  "runSequential e cfg [] s = ([], s)"
| "runSequential e cfg (call # calls) s =
     (let (r, s1) = executeSingleTool e cfg call s in
      if tr_Terminate r then ([r], s1)
      else (let (rs, s2) = runSequential e cfg calls s1 in (r # rs, s2)))"

definition forceSequential :: "'w Engine \<Rightarrow> ToolCall list \<Rightarrow> bool" where
  "forceSequential e calls =
     list_ex (\<lambda>call. case GetMeta (en_registry e) (tc_Name call) of
                        Some meta \<Rightarrow> tm_ExecMode meta = ExecSequential | None \<Rightarrow> False) calls"

definition executeToolCalls ::
  "'w Engine \<Rightarrow> 'w EngineConfig \<Rightarrow> nat list \<Rightarrow> ToolCall list \<Rightarrow> 'w engineState \<Rightarrow>
   (ToolResult list \<times> bool) \<times> 'w engineState" where
  "executeToolCalls e cfg sched calls s =
     (let (results, s) =
            (if cf_ParallelTools cfg \<and> \<not> forceSequential e calls \<and> length calls > 1
             then runParallel e cfg calls sched (replicate (length calls) zeroResult, s)
             else runSequential e cfg calls s)
      in ((results, results \<noteq> [] \<and> list_all tr_Terminate results), s))"

section \<open>Steering\<close>

text \<open>
  A receive that does not block. What is in the buffer includes what other goroutines send while the
  loop drains; a closed channel delivers the zero message for ever.
\<close>

definition tryRecv :: "bool \<Rightarrow> Message list \<Rightarrow> (Message \<times> Message list) option" where
  "tryRecv isClosed buf = (case buf of m # ms \<Rightarrow> Some (m, ms) | [] \<Rightarrow> if isClosed then Some (zeroMessage, []) else None)"

abbreviation (input) maxSteeringDrain :: nat where "maxSteeringDrain \<equiv> 16"

text \<open>A message with another role is dropped and not counted. \<open>None\<close>: the drain does not end.\<close>

partial_function (option) drainSteering ::
  "bool \<Rightarrow> nat \<Rightarrow> Message list \<Rightarrow> Message list \<Rightarrow> (nat \<times> Message list \<times> Message list) option" where
  "drainSteering isClosed drained history buf =
     (if drained < maxSteeringDrain then
        (case tryRecv isClosed buf of
           None \<Rightarrow> Some (drained, history, buf)
         | Some (m, buf') \<Rightarrow>
             if ms_Role m \<noteq> ''user'' then drainSteering isClosed drained history buf'
             else drainSteering isClosed (drained + 1) (history @ [m]) buf')
      else Some (drained, history, buf))"

definition drainChannels ::
  "runEnv \<Rightarrow> 'w EngineConfig \<Rightarrow> int \<Rightarrow> Message list \<Rightarrow> 'w engineState \<Rightarrow> (Message list \<times> 'w engineState) option" where
  "drainChannels env cfg iterations history s =
     (let steer = es_steering s @ rv_steer env iterations;
          follow = es_followUp s @ rv_follow env iterations
      in case (if cf_SteeringChan cfg then drainSteering (rv_steerClosed env iterations) 0 history steer
               else Some (0, history, steer)) of
           None \<Rightarrow> None
         | Some (drained, history, steer') \<Rightarrow>
             (let s = s\<lparr>es_steering := steer', es_followUp := follow,
                         es_events := es_events s @ replicate drained (EvSteeringInjected iterations ''steering'')\<rparr>
              in if drained = 0 \<and> cf_FollowUpChan cfg then
                   (case tryRecv (rv_followClosed env iterations) follow of
                      None \<Rightarrow> Some (history, s)
                    | Some (m, follow') \<Rightarrow>
                        (let s = s\<lparr>es_followUp := follow'\<rparr> in
                         if ms_Role m \<noteq> ''user'' then Some (history, s)
                         else Some (history @ [m], emit (EvSteeringInjected iterations ''follow_up'') s)))
                 else Some (history, s)))"

section \<open>The loop\<close>

definition buildTurnResult :: "'w Engine \<Rightarrow> int \<Rightarrow> CompletionResponse \<Rightarrow> TurnResult" where
  "buildTurnResult e turnNumber resp =
     \<lparr> tn_SessionID = en_sessionID e, tn_TurnNumber = turnNumber, tn_Content = TextContent resp,
       tn_ToolCalls = [], tn_ToolResults = [], tn_PromptTokens = rp_PromptTokens resp,
       tn_CompletionTokens = rp_CompletionTokens resp, tn_ThinkingTokens = rp_ThinkingTokens resp,
       tn_TTFT = rp_TTFT resp, tn_TotalDuration = rp_TotalLatency resp \<rparr>"

definition assistantMessage :: "CompletionResponse \<Rightarrow> Message" where
  "assistantMessage resp = zeroMessage\<lparr>ms_Role := ''assistant'', ms_Content := TextContent resp, ms_Blocks := rp_Blocks resp\<rparr>"

definition toolMessage :: "ToolResult \<Rightarrow> Message" where
  "toolMessage r = zeroMessage\<lparr>ms_Role := ''tool'', ms_Content := tr_Content r, ms_ToolCallID := tr_CallID r,
     ms_IsError := tr_IsError r\<rparr>"

definition truncatedMessage :: "ToolCall \<Rightarrow> Message" where
  "truncatedMessage tc = zeroMessage\<lparr>ms_Role := ''tool'',
     ms_Content := ''Error: response was truncated. Re-issue your tool call with shorter arguments.'',
     ms_ToolCallID := tc_ID tc, ms_IsError := True\<rparr>"

definition loopResult :: "CompletionResponse \<Rightarrow> Message list \<Rightarrow> int \<Rightarrow> bool \<Rightarrow> LoopResult" where
  "loopResult resp history iterations terminated =
     \<lparr> lp_FinalResponse = Some resp, lp_History = history, lp_Iterations = iterations, lp_Terminated = terminated \<rparr>"

text \<open>An iteration returns from the loop or continues with a system prompt and a history.\<close>

datatype 'w stepOut =
    Return "error + LoopResult" "'w engineState"
  | Continue string "Message list" "'w engineState"

definition runHooks :: "'w Engine \<Rightarrow> TurnResult \<Rightarrow> 'w engineState \<Rightarrow> error option \<times> 'w engineState" where
  "runHooks e tr s = (case en_hooks e of None \<Rightarrow> (None, s) | Some p \<Rightarrow> onWorld (RunAll p tr) s)"

definition transformContext ::
  "'w EngineConfig \<Rightarrow> int \<Rightarrow> string \<Rightarrow> Message list \<Rightarrow> 'w engineState \<Rightarrow> string \<times> Message list \<times> 'w engineState" where
  "transformContext cfg iterations system history s =
     (case cf_TransformContext cfg of
        Some f \<Rightarrow>
          if iterations > 1 then
            (case onWorld (f system history) s of
               (Inl err, s) \<Rightarrow> (system, history, s)
             | (Inr (newSystem, newHistory), s) \<Rightarrow>
                 if newSystem = '''' then (system, history, s) else (newSystem, newHistory, s))
          else (system, history, s)
      | None \<Rightarrow> (system, history, s))"

text \<open>The part of an iteration from the execution of the tools on.\<close>

definition toolPhase ::
  "'w Engine \<Rightarrow> runEnv \<Rightarrow> 'w EngineConfig \<Rightarrow> int \<Rightarrow> string \<Rightarrow> Message list \<Rightarrow> CompletionResponse \<Rightarrow> 'w engineState \<Rightarrow>
   'w stepOut option" where
  "toolPhase e env cfg iterations system history resp s =
     (let calls = ToolCallBlocks resp;
          ((results, terminated), s) = executeToolCalls e cfg (rv_sched env iterations (length calls)) calls s;
          history = history @ map toolMessage results;
          tr = (buildTurnResult e iterations resp)\<lparr>tn_ToolCalls := map tr_CallID results, tn_ToolResults := results\<rparr>;
          (err, s) = runHooks e tr s
      in case err of
           Some err \<Rightarrow> Some (Return (Inl (''engine: critical hook error (iteration '' @ itoa iterations @ ''): '' @ err)) s)
         | None \<Rightarrow>
             if terminated
             then Some (Return (Inr (loopResult resp history iterations True))
                    (emit (EvLoopTerminated iterations True ''tool_terminate'') s))
             else (case drainChannels env cfg iterations history s of
                     None \<Rightarrow> None
                   | Some (history, s) \<Rightarrow>
                       (let (stop, s) = (case cf_ShouldStop cfg of None \<Rightarrow> (False, s) | Some f \<Rightarrow> onWorld (f resp results) s)
                        in if stop
                           then Some (Return (Inr (loopResult resp history iterations False))
                                  (emit (EvLoopTerminated iterations False ''should_stop'') s))
                           else if iterations \<ge> cf_MaxIterations cfg
                           then Some (Return (Inr (loopResult resp history iterations False))
                                  (emit (EvLoopTerminated iterations False ''max_iterations'') s))
                           else Some (Continue system history s))))"

definition iteration ::
  "'w Engine \<Rightarrow> runEnv \<Rightarrow> 'w EngineConfig \<Rightarrow> CompletionRequest \<Rightarrow> int \<Rightarrow> string \<Rightarrow> Message list \<Rightarrow> 'w engineState \<Rightarrow>
   'w stepOut option" where
  "iteration e env cfg req iterations system history s =
     (let s = emit (EvTurnStart iterations (int (length history))) s;
          (system, history, s) = transformContext cfg iterations system history s;
          currentReq = req\<lparr>rq_System := system, rq_Messages := history\<rparr>;
          s = emit (EvLLMRequest iterations (int (length history))) s
      in case onWorld (en_client e currentReq) s of
           (Inl err, s) \<Rightarrow> Some (Return (Inl (''engine: iteration '' @ itoa iterations @ '': '' @ err)) s)
         | (Inr resp, s) \<Rightarrow>
             (let s = emit (EvLLMResponse iterations (rp_FinishReason resp) (rp_PromptTokens resp) (rp_CompletionTokens resp)) s;
                  history = history @ [assistantMessage resp];
                  calls = ToolCallBlocks resp
              in if rp_FinishReason resp = ''length'' \<and> calls \<noteq> [] then
                   (let history = history @ map truncatedMessage calls in
                    if iterations \<ge> cf_MaxIterations cfg
                    then Some (Return (Inr (loopResult resp history iterations False)) s)
                    else Some (Continue system history s))
                 else if calls = [] then
                   (let (err, s) = runHooks e (buildTurnResult e iterations resp) s
                    in case err of
                         Some err \<Rightarrow> Some (Return (Inl (''engine: critical hook error on final turn: '' @ err)) s)
                       | None \<Rightarrow> Some (Return (Inr (loopResult resp history iterations False))
                                   (emit (EvLoopTerminated iterations False ''no_tool_calls'') s)))
                 else toolPhase e env cfg iterations system history resp s))"

lemma iteration_Continue:
  "iteration e env cfg req it sys hist s = Some (Continue sys' hist' s') \<Longrightarrow> it < cf_MaxIterations cfg"
  by (auto simp: iteration_def toolPhase_def Let_def split: prod.splits sum.splits option.splits if_splits)

text \<open>The \<open>for\<close> loop: \<open>n\<close> iterations are over. \<open>None\<close>: an iteration did not end.\<close>

function loop ::
  "'w Engine \<Rightarrow> runEnv \<Rightarrow> 'w EngineConfig \<Rightarrow> CompletionRequest \<Rightarrow> int \<Rightarrow> string \<Rightarrow> Message list \<Rightarrow> 'w engineState \<Rightarrow>
   ((error + LoopResult) \<times> 'w engineState) option" where
  "loop e env cfg req n system history s =
     (case iteration e env cfg req (n + 1) system history s of
        None \<Rightarrow> None
      | Some (Return r s') \<Rightarrow> Some (r, s')
      | Some (Continue system' history' s') \<Rightarrow> loop e env cfg req (n + 1) system' history' s')"
  by pat_completeness auto
termination
  by (relation "measure (\<lambda>(e, env, cfg, req, n, sys, hist, s). nat (cf_MaxIterations cfg - n))")
     (auto dest: iteration_Continue)

declare loop.simps [simp del]

definition RunLoop ::
  "'w Engine \<Rightarrow> runEnv \<Rightarrow> CompletionRequest \<Rightarrow> 'w EngineConfig \<Rightarrow> 'w engineState \<Rightarrow>
   ((error + LoopResult) \<times> 'w engineState) option" where
  "RunLoop e env req cfg s =
     (if cf_Rehearsal cfg
      then Some (Inr \<lparr> lp_FinalResponse = None, lp_History = [], lp_Iterations = 0, lp_Terminated = False \<rparr>, s)
      else loop e env (wireConfig e cfg) req 0 (rq_System req) (rq_Messages req)
             (emit (EvSessionStart (int (length (rq_Tools req)))) s))"


section \<open>Lemmas: what a step leaves alone\<close>

text \<open>The number of requests to the language model that the events show.\<close>

fun isRequest :: "EngineEvent \<Rightarrow> bool" where
  "isRequest (EvLLMRequest i n) = True"
| "isRequest _ = False"

definition requests :: "'w engineState \<Rightarrow> int" where
  "requests s = int (length (filter isRequest (es_events s)))"

lemma requests_emit [simp]: "requests (emit ev s) = requests s + (if isRequest ev then 1 else 0)"
  by (simp add: requests_def emit_def)

lemma requests_onWorld [simp]: "onWorld f s = (a, s') \<Longrightarrow> requests s' = requests s"
  by (auto simp: requests_def onWorld_def split: prod.splits)

lemma requests_upd [simp]:
  "requests (s\<lparr>es_steering := a\<rparr>) = requests s" "requests (s\<lparr>es_followUp := b\<rparr>) = requests s"
  by (simp_all add: requests_def)

lemma requests_runBefore: "runBefore cfg tc args s = (r, s') \<Longrightarrow> requests s' = requests s"
  by (auto simp: runBefore_def split: option.splits prod.splits sum.splits if_splits dest!: requests_onWorld)

lemma requests_runHandler: "runHandler e cfg h tc args r s = (r', s') \<Longrightarrow> requests s' = requests s"
  by (auto simp: runHandler_def Let_def split: toolExec.splits option.splits prod.splits sum.splits if_splits
      dest!: requests_onWorld)

lemma requests_runAfter: "runAfter cfg tc r s = (r', s') \<Longrightarrow> requests s' = requests s"
  by (auto simp: runAfter_def reportBlock_def split: option.splits prod.splits sum.splits if_splits
      dest!: requests_onWorld)

lemma requests_executeSingleTool: "executeSingleTool e cfg tc s = (r, s') \<Longrightarrow> requests s' = requests s"
  by (auto simp: executeSingleTool_def Let_def split: option.splits prod.splits sum.splits if_splits
      dest!: requests_runBefore requests_runHandler requests_runAfter)

lemma requests_runParallel: "runParallel e cfg calls is (rs, s) = (rs', s') \<Longrightarrow> requests s' = requests s"
  by (induction "is" arbitrary: rs s) (auto split: prod.splits dest!: requests_executeSingleTool)

lemma requests_runSequential: "runSequential e cfg calls s = (rs, s') \<Longrightarrow> requests s' = requests s"
  by (induction calls arbitrary: rs s) (fastforce simp: Let_def split: prod.splits if_splits dest!: requests_executeSingleTool)+

lemma requests_executeToolCalls: "executeToolCalls e cfg sched calls s = (r, s') \<Longrightarrow> requests s' = requests s"
  by (auto simp: executeToolCalls_def Let_def split: prod.splits if_splits
      dest!: requests_runParallel requests_runSequential)

lemma requests_runHooks: "runHooks e tr s = (r, s') \<Longrightarrow> requests s' = requests s"
  by (auto simp: runHooks_def split: option.splits dest!: requests_onWorld)

lemma requests_drainChannels: "drainChannels env cfg it h s = Some (h', s') \<Longrightarrow> requests s' = requests s"
  by (auto simp: drainChannels_def Let_def requests_def emit_def
      split: option.splits prod.splits if_splits)

lemma requests_transform: "transformContext cfg it sys h s = (sys', h', s') \<Longrightarrow> requests s' = requests s"
  by (auto simp: transformContext_def split: option.splits prod.splits sum.splits if_splits dest!: requests_onWorld)


fun outState :: "'w stepOut \<Rightarrow> 'w engineState" where
  "outState (Return r s) = s"
| "outState (Continue sys h s) = s"

lemma requests_toolPhase:
  "toolPhase e env cfg it sys h resp s = Some out \<Longrightarrow> requests (outState out) = requests s"
  by (auto simp: toolPhase_def Let_def split: option.splits prod.splits if_splits
      dest!: requests_onWorld requests_executeToolCalls requests_runHooks requests_drainChannels)

lemma requests_iteration:
  assumes "iteration e env cfg req it sys h s = Some out"
  shows "requests (outState out) = requests s + 1"
  using assms
  by (auto simp: iteration_def Let_def split: option.splits prod.splits sum.splits if_splits
      dest!: requests_onWorld requests_runHooks requests_transform requests_toolPhase)

lemma iteration_number:
  "iteration e env cfg req it sys h s = Some (Return (Inr res) s') \<Longrightarrow> lp_Iterations res = it"
  by (auto simp: iteration_def toolPhase_def loopResult_def Let_def
      split: option.splits prod.splits sum.splits if_splits)

lemma drainSteering_open:
  "\<exists>d h' buf'. drainSteering False n h buf = Some (d, h @ h', buf')"
proof (induction buf arbitrary: n h)
  case Nil
  then show ?case by (subst drainSteering.simps) (simp add: tryRecv_def)
next
  case (Cons m buf)
  then obtain d h' buf' d2 h2 buf2 where
    "drainSteering False n h buf = Some (d, h @ h', buf')"
    "drainSteering False (n + 1) (h @ [m]) buf = Some (d2, (h @ [m]) @ h2, buf2)" by meson
  then show ?case by (subst drainSteering.simps) (simp add: tryRecv_def)
qed

lemma drainSteering_extends:
  assumes "drainSteering c n h buf = Some r"
  shows "\<exists>new. fst (snd r) = h @ new"
  by (rule drainSteering.raw_induct [where P = "\<lambda>c n h buf r. \<exists>new. fst (snd r) = h @ new", OF _ assms])
    (fastforce split: if_splits option.splits prod.splits)

text \<open>A closed channel whose buffer does not fill the cap is never found empty.\<close>

lemma drainSteering_closed:
  assumes "n + length (filter (\<lambda>m. ms_Role m = ''user'') buf) < maxSteeringDrain"
  shows "drainSteering True n h buf = None"
proof (rule ccontr)
  let ?P = "\<lambda>c n h buf r. c \<longrightarrow> maxSteeringDrain \<le> n + length (filter (\<lambda>m. ms_Role m = ''user'') buf)"
  assume "drainSteering True n h buf \<noteq> None"
  then obtain r where r: "drainSteering True n h buf = Some r" by blast
  have "?P True n h buf r"
    by (rule drainSteering.raw_induct [where P = ?P, OF _ r])
      (fastforce simp: tryRecv_def zeroMessage_def split: if_splits option.splits prod.splits list.splits)
  with assms show False by simp
qed

lemma drainChannels_open:
  assumes "cf_SteeringChan cfg \<Longrightarrow> \<not> rv_steerClosed env it"
  shows "drainChannels env cfg it h s \<noteq> None"
  using assms drainSteering_open [of 0 h "es_steering s @ rv_steer env it"]
  by (auto simp: drainChannels_def Let_def split: option.splits prod.splits)

lemma iteration_ends:
  assumes "cf_SteeringChan cfg \<Longrightarrow> \<not> rv_steerClosed env it"
  shows "iteration e env cfg req it sys h s \<noteq> None"
proof -
  have nd: "drainChannels env cfg it h s = None \<longleftrightarrow> False" for h s using drainChannels_open assms by blast
  show ?thesis
    by (auto simp: iteration_def toolPhase_def nd Let_def simp del: not_None_eq
        split: option.splits prod.splits sum.splits if_splits)
qed


lemma transform_none: "cf_TransformContext cfg = None \<Longrightarrow> transformContext cfg it sys h s = (sys, h, s)"
  by (simp add: transformContext_def)

lemma drainChannels_extends:
  "drainChannels env cfg it h s = Some (h', s') \<Longrightarrow> \<exists>new. h' = h @ new"
  using drainSteering_extends [of "rv_steerClosed env it" 0 h "es_steering s @ rv_steer env it"]
  by (auto simp: drainChannels_def Let_def split: option.splits prod.splits if_splits)

fun outHistory :: "'w stepOut \<Rightarrow> Message list option" where
  "outHistory (Return (Inl e) s) = None"
| "outHistory (Return (Inr r) s) = Some (lp_History r)"
| "outHistory (Continue sys h s) = Some h"

lemma iteration_extends:
  assumes "cf_TransformContext cfg = None" "iteration e env cfg req it sys h s = Some out" "outHistory out = Some h'"
  shows "\<exists>new. h' = h @ new"
  using assms
  by (fastforce simp: iteration_def toolPhase_def loopResult_def transform_none Let_def
      split: option.splits prod.splits sum.splits if_splits dest!: drainChannels_extends)

lemma loop_returns:
  assumes "\<And>i. cf_SteeringChan cfg \<Longrightarrow> \<not> rv_steerClosed env i" "n < cf_MaxIterations cfg"
  shows "\<exists>r s'. loop e env cfg req n sys h s = Some (r, s') \<and>
    requests s' \<le> requests s + (cf_MaxIterations cfg - n) \<and>
    (\<forall>res. r = Inr res \<longrightarrow> n < lp_Iterations res \<and> lp_Iterations res \<le> cf_MaxIterations cfg \<and>
       requests s' = requests s + (lp_Iterations res - n) \<and>
       (cf_TransformContext cfg = None \<longrightarrow> (\<exists>new. lp_History res = h @ new)))"
  using assms(2)
proof (induction "nat (cf_MaxIterations cfg - n)" arbitrary: n sys h s rule: less_induct)
  case less
  obtain out where out: "iteration e env cfg req (n + 1) sys h s = Some out"
    using iteration_ends assms(1) by blast
  note rq = requests_iteration [OF out]
  show ?case
  proof (cases out)
    case (Return r s')
    have ext: "\<exists>new. lp_History res = h @ new" if "cf_TransformContext cfg = None" "r = Inr res" for res
      using iteration_extends [OF that(1) out, of "lp_History res"] Return that(2) by simp
    have l: "loop e env cfg req n sys h s = Some (r, s')" by (subst loop.simps) (simp add: out Return)
    show ?thesis unfolding l
      using less.prems out Return rq iteration_number ext by (fastforce simp: dest!: iteration_number)
  next
    case (Continue sys' h' s')
    from iteration_Continue out Continue have lt: "n + 1 < cf_MaxIterations cfg" by blast
    from less.hyps [OF _ lt, of sys' h' s'] lt obtain r s'' where IH:
      "loop e env cfg req (n + 1) sys' h' s' = Some (r, s'')"
      "requests s'' \<le> requests s' + (cf_MaxIterations cfg - (n + 1))"
      "\<And>res. r = Inr res \<Longrightarrow> n + 1 < lp_Iterations res \<and> lp_Iterations res \<le> cf_MaxIterations cfg \<and>
         requests s'' = requests s' + (lp_Iterations res - (n + 1)) \<and>
         (cf_TransformContext cfg = None \<longrightarrow> (\<exists>new. lp_History res = h' @ new))" by auto
    have ext: "\<exists>new. h' = h @ new" if "cf_TransformContext cfg = None"
      using iteration_extends [OF that out] Continue by simp
    have l: "loop e env cfg req n sys h s = Some (r, s'')" by (subst loop.simps) (simp add: out Continue IH(1))
    show ?thesis unfolding l using IH(2) IH(3) ext rq Continue by fastforce
  qed
qed

text \<open>The engine loop fails only when the model or a critical hook does.\<close>

lemma iteration_succeeds:
  assumes "\<And>r w. \<exists>resp w'. en_client e r w = (Inr resp, w')" and "\<And>turn s. fst (runHooks e turn s) = None"
    and "iteration e env cfg req it sys h s = Some (Return r s')"
  shows "\<exists>res. r = Inr res"
proof -
  have client: "onWorld (en_client e q) s = (Inl err, s2) \<longleftrightarrow> False" for q s err s2
    using assms(1) [of q "es_world s"] by (auto simp: onWorld_def)
  have hooks: "runHooks e turn s = (Some err, s2) \<longleftrightarrow> False" for turn s err s2 using assms(2) [of turn s] by auto
  show ?thesis
    using assms(3) by (auto simp: iteration_def toolPhase_def client hooks Let_def split: option.splits prod.splits sum.splits if_splits)
qed

lemma loop_succeeds:
  assumes "\<And>r w. \<exists>resp w'. en_client e r w = (Inr resp, w')" and "\<And>turn s. fst (runHooks e turn s) = None"
    and "loop e env cfg req n sys h s = Some (r, s')"
  shows "\<exists>res. r = Inr res"
  using assms
proof (induction e env cfg req n sys h s rule: loop.induct)
  case (1 e env cfg req n sys h s)
  obtain out where out: "iteration e env cfg req (n + 1) sys h s = Some out"
    using 1(4) by (subst (asm) loop.simps) (auto split: option.splits)
  show ?case
  proof (cases out)
    case (Return r' t)
    with 1(4) out have "r = r'" by (subst (asm) loop.simps) simp
    with iteration_succeeds [OF 1(2,3)] out Return show ?thesis by blast
  next
    case (Continue sys' h' t)
    with 1(4) out have "loop e env cfg req (n + 1) sys' h' t = Some (r, s')" by (subst (asm) loop.simps) simp
    with 1(1) [OF out Continue] 1(2,3) show ?thesis by blast
  qed
qed


section \<open>Lemmas: results answer their calls\<close>

definition keepsCallID :: "'w EngineConfig \<Rightarrow> bool" where
  "keepsCallID cfg \<longleftrightarrow> (\<forall>hook tc r w left ret blocked w'. cf_AfterToolCall cfg = Some hook \<longrightarrow>
     hook tc r w = ((left, ret, blocked), w') \<longrightarrow>
     tr_CallID left = tr_CallID r \<and> (\<forall>m. ret = Inr (Some m) \<longrightarrow> tr_CallID m = tr_CallID r))"

lemma keepsCallIDD:
  "keepsCallID cfg \<Longrightarrow> cf_AfterToolCall cfg = Some hook \<Longrightarrow> hook tc r w = ((left, ret, b), w') \<Longrightarrow>
     tr_CallID left = tr_CallID r"
  "keepsCallID cfg \<Longrightarrow> cf_AfterToolCall cfg = Some hook \<Longrightarrow> hook tc r w = ((left, Inr (Some m), b), w') \<Longrightarrow>
     tr_CallID m = tr_CallID r"
  unfolding keepsCallID_def by blast+

lemma aegisAfter_keeps:
  "aegisAfter co gw tc r w = ((left, ret, blocked), w') \<Longrightarrow>
     left = r \<and> (\<exists>m. ret = Inr m \<and> (\<forall>r'. m = Some r' \<longrightarrow> tr_CallID r' = tr_CallID r \<and> tr_Terminate r' = tr_Terminate r))"
  by (auto simp: aegisAfter_def Let_def split: prod.splits sum.splits if_splits)

lemma wireConfig_simps [simp]:
  "cf_MaxIterations (wireConfig e cfg) = (if cf_MaxIterations cfg \<le> 0 then 25 else cf_MaxIterations cfg)"
  "cf_SteeringChan (wireConfig e cfg) = cf_SteeringChan cfg"
  "cf_TransformContext (wireConfig e cfg) = cf_TransformContext cfg"
  "cf_ParallelTools (wireConfig e cfg) = cf_ParallelTools cfg"
  "cf_DryRun (wireConfig e cfg) = cf_DryRun cfg"
  "cf_BeforeToolCall (wireConfig e cfg) = (case cf_BeforeToolCall cfg of Some h \<Rightarrow> Some h
     | None \<Rightarrow> map_option (aegisBefore (en_codec e)) (en_aegis e))"
  "cf_AfterToolCall (wireConfig e cfg) = (case cf_AfterToolCall cfg of Some h \<Rightarrow> Some h
     | None \<Rightarrow> map_option (aegisAfter (en_codec e)) (en_aegis e))"
  by (auto simp: wireConfig_def Let_def split: option.splits)

lemma keepsCallID_wired: "cf_AfterToolCall cfg = None \<Longrightarrow> keepsCallID (wireConfig e cfg)"
  by (fastforce simp: keepsCallID_def dest: aegisAfter_keeps)

lemma runHandler_CallID:
  "runHandler e cfg h tc args r s = ((r', m), s') \<Longrightarrow> tr_CallID r = tc_ID tc \<Longrightarrow> tr_CallID r' = tc_ID tc"
  by (auto simp: runHandler_def Let_def split: toolExec.splits option.splits prod.splits sum.splits if_splits)

lemma runAfter_CallID:
  "keepsCallID cfg \<Longrightarrow> runAfter cfg tc r s = (r', s') \<Longrightarrow> tr_CallID r' = tr_CallID r"
  by (auto simp: runAfter_def onWorld_def split: option.splits prod.splits sum.splits dest: keepsCallIDD)

lemma executeSingleTool_CallID:
  assumes "keepsCallID cfg" "executeSingleTool e cfg tc s = (r, s')"
  shows "tr_CallID r = tc_ID tc"
  using assms(2)
  by (auto simp: executeSingleTool_def Let_def split: option.splits prod.splits sum.splits if_splits
      dest!: runHandler_CallID runAfter_CallID [OF assms(1)])

lemma runParallel_CallID:
  assumes "keepsCallID cfg" "runParallel e cfg calls is (rs, s) = (rs', s')"
    and "length rs = length calls" "set is \<subseteq> {..<length calls}"
  shows "length rs' = length calls \<and>
    (\<forall>i < length calls. if i \<in> set is then tr_CallID (rs' ! i) = tc_ID (calls ! i)
                        else rs' ! i = rs ! i)"
  using assms(2-4)
proof (induction "is" arbitrary: rs s)
  case (Cons i ps)
  obtain r s1 where r: "executeSingleTool e cfg (calls ! i) s = (r, s1)" by fastforce
  with Cons.prems have p: "runParallel e cfg calls ps (rs[i := r], s1) = (rs', s')" by simp
  from Cons.IH [OF p] Cons.prems(2,3) have IH: "length rs' = length calls"
    "\<And>j. j < length calls \<Longrightarrow> if j \<in> set ps then tr_CallID (rs' ! j) = tc_ID (calls ! j) else rs' ! j = rs[i := r] ! j"
    by auto
  show ?case
  proof (intro conjI allI impI)
    fix j assume "j < length calls"
    with IH(2) [of j] executeSingleTool_CallID [OF assms(1) r] Cons.prems(2,3)
    show "if j \<in> set (i # ps) then tr_CallID (rs' ! j) = tc_ID (calls ! j) else rs' ! j = rs ! j"
      by (auto simp: nth_list_update split: if_splits)
  qed (rule IH(1))
qed simp

lemma runSequential_CallID:
  assumes "keepsCallID cfg" "runSequential e cfg calls s = (rs, s')"
  shows "map tr_CallID rs = take (length rs) (map tc_ID calls) \<and> length rs \<le> length calls \<and>
    (length rs < length calls \<longrightarrow> rs \<noteq> [] \<and> tr_Terminate (last rs)) \<and>
    (\<forall>r \<in> set (butlast rs). \<not> tr_Terminate r)"
  using assms(2)
proof (induction calls arbitrary: rs s)
  case (Cons c cs)
  obtain r s1 where r: "executeSingleTool e cfg c s = (r, s1)" by fastforce
  note id = executeSingleTool_CallID [OF assms(1) r]
  show ?case
  proof (cases "tr_Terminate r")
    case True
    with r Cons.prems have "rs = [r]" by simp
    with True id show ?thesis by simp
  next
    case False
    obtain rs1 where rs: "runSequential e cfg cs s1 = (rs1, s')" "rs = r # rs1"
      using False r Cons.prems by (auto split: prod.splits)
    from Cons.IH [OF rs(1)] rs(2) id False show ?thesis by auto
  qed
qed simp


lemma aegisBefore_blocks:
  assumes "co_Marshal co args = Inr j" "gw_ProcessInbound gw j (tc_Name tc) ''tool_args'' w = (scan, w')"
    and "\<And>ac. scan = Inr ac \<Longrightarrow> \<not> aa_ScanPassed (ac_Annotation ac)"
  shows "\<exists>reason. aegisBefore co gw tc args w = ((args, Inr (Some \<lparr> hr_Block = True, hr_Reason = reason \<rparr>)), w')"
  using assms by (cases scan) (auto simp: aegisBefore_def Let_def)

section \<open>Properties\<close>


text \<open>
  C11. Every tool call is answered. For every schedule of a parallel batch the results stand in
  the order of the calls and carry their identifiers. They are all there unless a
  tool of a sequential batch asked to terminate, which cuts the batch after it. The loop ends
  exactly when every result asks for it.
\<close>

theorem tool_calls_answered_in_order:
  assumes "cf_AfterToolCall cfg = None" "mset sched = mset [0..<length calls]"
    and "executeToolCalls e (wireConfig e cfg) sched calls s = ((results, terminated), s')"
  shows "map tr_CallID results = take (length results) (map tc_ID calls) \<and>
    (length results < length calls \<longrightarrow>
       (forceSequential e calls \<or> \<not> cf_ParallelTools cfg) \<and> results \<noteq> [] \<and> tr_Terminate (last results)) \<and>
    (terminated \<longleftrightarrow> results \<noteq> [] \<and> (\<forall>r \<in> set results. tr_Terminate r))"
proof -
  note keep = keepsCallID_wired [OF assms(1), of e]
  have t: "terminated \<longleftrightarrow> results \<noteq> [] \<and> (\<forall>r \<in> set results. tr_Terminate r)"
    using assms(3) by (auto simp: executeToolCalls_def list_all_iff split: prod.splits if_splits)
  show ?thesis
  proof (cases "cf_ParallelTools cfg \<and> \<not> forceSequential e calls \<and> length calls > 1")
    case True
    then have p: "runParallel e (wireConfig e cfg) calls sched (replicate (length calls) zeroResult, s) = (results, s')"
      using assms(3) by (auto simp: executeToolCalls_def split: prod.splits)
    have "set sched = {..<length calls}" using arg_cong [OF assms(2), of set_mset] by auto
    with runParallel_CallID [OF keep p] have "length results = length calls"
      "\<forall>i < length calls. tr_CallID (results ! i) = tc_ID (calls ! i)" by auto
    then have "map tr_CallID results = map tc_ID calls" by (intro nth_equalityI) auto
    with \<open>length results = length calls\<close> t show ?thesis by simp
  next
    case False
    then have q: "runSequential e (wireConfig e cfg) calls s = (results, s')"
      using assms(3) by (auto simp: executeToolCalls_def split: prod.splits if_splits)
    from runSequential_CallID [OF keep q] have r: "map tr_CallID results = take (length results) (map tc_ID calls)"
      "length results < length calls \<longrightarrow> results \<noteq> [] \<and> tr_Terminate (last results)" by auto
    have "length results < length calls \<longrightarrow> length calls > 1" using r(2) by (cases results) auto
    with r t False show ?thesis by blast
  qed
qed

text \<open>
  A cut batch does not end the loop. When a tool that asks to terminate follows one that does not,
  in a sequential batch, the calls after it are not run, their results are missing from the
  history, and the loop is not told to terminate: the next request carries tool calls without results.
\<close>

theorem sequential_terminate_drops_calls:
  assumes "forceSequential e (c1 # c2 # rest)"
    and "executeSingleTool e cfg c1 s = (r1, s1)" "\<not> tr_Terminate r1"
    and "executeSingleTool e cfg c2 s1 = (r2, s2)" "tr_Terminate r2"
  shows "executeToolCalls e cfg sched (c1 # c2 # rest) s = (([r1, r2], False), s2)"
  using assms by (simp add: executeToolCalls_def)

text \<open>
  C12. A tool call the gateway does not pass is not executed. With the gateway wired and no hook of
  the caller's own, a scan that fails, or one that finds something, ends the call with an
  error result that answers it; the world is as the gateway left it.
\<close>

theorem flagged_call_is_not_executed:
  assumes "en_aegis e = Some gw" "cf_BeforeToolCall cfg = None"
    and "Get (en_registry e) (tc_Name tc) = Some h" "parseArgs e tc = Inr args" "co_Marshal (en_codec e) args = Inr j"
    and "gw_ProcessInbound gw j (tc_Name tc) ''tool_args'' (es_world s) = (scan, w')"
    and "\<And>ac. scan = Inr ac \<Longrightarrow> \<not> aa_ScanPassed (ac_Annotation ac)"
    and "executeSingleTool e (wireConfig e cfg) tc s = (r, s')"
  shows "es_world s' = w' \<and> tr_CallID r = tc_ID tc \<and> tr_IsError r \<and> \<not> tr_Terminate r \<and> tr_Content r \<noteq> ''''"
proof -
  have p: "parseArgs e (tc\<lparr>tc_Destination := d\<rparr>) = Inr args" for d
    using assms(4) by (auto simp: parseArgs_def split: sum.splits option.splits if_splits)
  let ?tc = "tc\<lparr>tc_Destination := destinationOf e tc\<rparr>"
  obtain reason where "aegisBefore (en_codec e) gw ?tc args (es_world s) =
      ((args, Inr (Some \<lparr> hr_Block = True, hr_Reason = reason \<rparr>)), w')"
    using aegisBefore_blocks [OF assms(5), of gw ?tc "es_world s" scan w'] assms(6,7) by auto
  with assms(1-3,8) p show ?thesis
    by (auto simp: executeSingleTool_def runBefore_def onWorld_def emit_def Let_def)
qed

text \<open>
  Nothing outbound is ever blocked. With the repository's own review (\<^verbatim>\<open>ScanOutbound\<close>
  reports no severity), the hook that the engine wires never replaces a result by a
  block, also not a leaking result of an external tool: it returns it unchanged or puts the findings before it.
\<close>

theorem outbound_review_never_blocks:
  assumes "\<And>c w. gw_ReviewOutbound gw c w = (ReviewOutbound lr c, w)"
  shows "aegisAfter co gw tc r w =
    ((r, Inr (if or_Clean (ScanOutbound lr (tr_Content r)) then None
              else Some (r\<lparr>tr_Content := ''[aegis: outbound findings (): '' @
                fmtStrings (or_Findings (ScanOutbound lr (tr_Content r))) @ '']'' @ newline @ tr_Content r\<rparr>)), None), w)"
  by (simp add: aegisAfter_def assms ReviewOutbound_def ScanOutbound_def ScanOutboundWithPaths_def Let_def)

text \<open>
  A closed steering channel stops the session. The receive then yields zero messages without end,
  which are dropped and not counted, so the drain of an iteration does not end unless sixteen user
  messages were still waiting.
\<close>

theorem closed_steering_hangs:
  assumes "cf_SteeringChan cfg" "rv_steerClosed env it"
    and "length (filter (\<lambda>m. ms_Role m = ''user'') (es_steering s @ rv_steer env it)) < 16"
  shows "drainChannels env cfg it history s = None"
  using assms drainSteering_closed [of 0 "es_steering s @ rv_steer env it" history]
  by (simp add: drainChannels_def Let_def)


section \<open>Witnesses\<close>

text \<open>
  An engine with two tools, one of which asks to terminate and is declared sequential, a model that
  always calls both, and a gateway that flags everything.
\<close>

definition askTool :: "unit ToolHandler" where
  "askTool = \<lparr> th_Name = ''ask'', th_Define = None, th_Execute = ExecV1 (\<lambda>a w. ((Inr ''fine'', False), w)) \<rparr>"

definition stopTool :: "unit ToolHandler" where
  "stopTool = \<lparr> th_Name = ''stop'', th_Define = None,
     th_Execute = ExecV2 (\<lambda>a w. ((Inr (Some (zeroResult\<lparr>tr_Terminate := True\<rparr>)), False), w)) \<rparr>"

definition twoTools :: "unit DefaultRegistry" where
  "twoTools = \<lparr> rg_handlers = [''ask'' \<mapsto> askTool, ''stop'' \<mapsto> stopTool], rg_tiers = [''ask'' \<mapsto> 1, ''stop'' \<mapsto> 1],
     rg_keywords = [''ask'' \<mapsto> [], ''stop'' \<mapsto> []], rg_execModes = [''ask'' \<mapsto> ExecParallel, ''stop'' \<mapsto> ExecSequential],
     rg_contentSources = Map.empty \<rparr>"

definition sampleCall :: "string \<Rightarrow> string \<Rightarrow> ToolCall" where
  "sampleCall i n = \<lparr> tc_ID = i, tc_Name = n, tc_Arguments = '''', tc_Destination = '''' \<rparr>"

definition sampleResponse :: CompletionResponse where
  "sampleResponse = \<lparr> rp_Blocks = [], rp_FinishReason = ''stop'', rp_PromptTokens = 0, rp_CompletionTokens = 0,
     rp_ThinkingTokens = 0, rp_EffectiveTokS = 0, rp_RawTokS = 0, rp_TTFT = 0, rp_TotalLatency = 0 \<rparr>"

definition sampleEngine :: "unit aegisGateway option \<Rightarrow> unit Engine" where
  "sampleEngine gw = \<lparr> en_client = (\<lambda>r w. (Inr sampleResponse, w)), en_registry = twoTools, en_order = [''ask'', ''stop''],
     en_hooks = None, en_aegis = gw, en_sessionID = ''s'',
     en_codec = \<lparr> co_Unmarshal = (\<lambda>s. Inr None), co_Marshal = (\<lambda>a. Inr ''{}''), co_MarshalBlocked = (\<lambda>b. ''''),
       co_Duration = (\<lambda>d. '''') \<rparr> \<rparr>"

definition sampleConfig :: "unit EngineConfig" where
  "sampleConfig = \<lparr> cf_MaxIterations = 0, cf_ParallelTools = True, cf_ToolTimeout = 0, cf_DryRun = False,
     cf_Rehearsal = False, cf_BeforeToolCall = None, cf_AfterToolCall = None, cf_ShouldStop = None,
     cf_SteeringChan = True, cf_FollowUpChan = False, cf_TransformContext = None \<rparr>"

definition sampleEnv :: "bool \<Rightarrow> runEnv" where
  "sampleEnv c = \<lparr> rv_sched = (\<lambda>i n. rev [0..<n]), rv_steer = (\<lambda>i. []), rv_steerClosed = (\<lambda>i. c),
     rv_follow = (\<lambda>i. []), rv_followClosed = (\<lambda>i. False) \<rparr>"

definition idleState :: "unit engineState" where
  "idleState = \<lparr> es_world = (), es_events = [], es_steering = [], es_followUp = [] \<rparr>"

definition sampleRequest :: CompletionRequest where
  "sampleRequest = \<lparr> rq_System = ''be kind'', rq_Messages = [], rq_Tools = [], rq_MaxTokens = 4096, rq_Temperature = None \<rparr>"

definition alarmGateway :: "unit aegisGateway" where
  "alarmGateway = \<lparr> gw_ProcessInbound = (\<lambda>raw src cs w. (Inl ''down'', w)), gw_ReviewOutbound = (\<lambda>c w. (ReviewOutbound (\<lambda>r. r) c, w)) \<rparr>"

lemmas engine_sample_defs = sampleEngine_def sampleConfig_def twoTools_def askTool_def stopTool_def sampleCall_def
  zeroResult_def Get_def GetMeta_def mapGet_def


lemma run_ask: "executeSingleTool (sampleEngine None) sampleConfig (sampleCall i ''ask'') idleState =
   (zeroResult\<lparr>tr_CallID := i, tr_Content := ''fine''\<rparr>, snd (executeSingleTool (sampleEngine None) sampleConfig (sampleCall i ''ask'') idleState))"
  by (simp add: executeSingleTool_def parseArgs_def runBefore_def runHandler_def runAfter_def onWorld_def Let_def
      destinationOf_def engine_sample_defs)

lemma run_stop: "executeSingleTool (sampleEngine None) sampleConfig (sampleCall i ''stop'') s =
   (zeroResult\<lparr>tr_CallID := i, tr_Terminate := True\<rparr>, snd (executeSingleTool (sampleEngine None) sampleConfig (sampleCall i ''stop'') s))"
  by (simp add: executeSingleTool_def parseArgs_def runBefore_def runHandler_def runAfter_def onWorld_def Let_def
      destinationOf_def engine_sample_defs)

theorem sequential_terminate_drops_calls_witness:
  "\<exists>s'. executeToolCalls (sampleEngine None) sampleConfig []
      [sampleCall ''1'' ''ask'', sampleCall ''2'' ''stop'', sampleCall ''3'' ''ask''] idleState =
    (([zeroResult\<lparr>tr_CallID := ''1'', tr_Content := ''fine''\<rparr>, zeroResult\<lparr>tr_CallID := ''2'', tr_Terminate := True\<rparr>], False), s')"
  by (rule exI, rule sequential_terminate_drops_calls [OF _ run_ask _ run_stop])
     (simp_all add: forceSequential_def engine_sample_defs)

theorem tool_calls_answered_in_order_witness:
  "\<exists>results t s'. executeToolCalls (sampleEngine None) (wireConfig (sampleEngine None) sampleConfig) [1, 0]
      [sampleCall ''1'' ''ask'', sampleCall ''2'' ''ask''] idleState = ((results, t), s') \<and>
     map tr_CallID results = take (length results) [''1'', ''2'']"
proof -
  obtain results t s' where x: "executeToolCalls (sampleEngine None) (wireConfig (sampleEngine None) sampleConfig) [1, 0]
      [sampleCall ''1'' ''ask'', sampleCall ''2'' ''ask''] idleState = ((results, t), s')" by (metis surj_pair)
  from tool_calls_answered_in_order [OF _ _ x] have "map tr_CallID results = take (length results) [''1'', ''2'']"
    by (simp add: sampleConfig_def sampleCall_def upt_rec)
  with x show ?thesis by blast
qed

theorem flagged_call_is_not_executed_witness:
  "\<exists>r s'. executeSingleTool (sampleEngine (Some alarmGateway)) (wireConfig (sampleEngine (Some alarmGateway)) sampleConfig)
      (sampleCall ''1'' ''ask'') idleState = (r, s') \<and> tr_IsError r"
proof -
  obtain r s' where x: "executeSingleTool (sampleEngine (Some alarmGateway)) (wireConfig (sampleEngine (Some alarmGateway)) sampleConfig)
      (sampleCall ''1'' ''ask'') idleState = (r, s')" by fastforce
  have "tr_IsError r"
    using flagged_call_is_not_executed [OF _ _ _ _ _ _ _ x, where gw = alarmGateway and h = askTool and
        args = Map.empty and j = "''{}''" and scan = "Inl ''down''" and w' = "()"]
    by (simp add: parseArgs_def alarmGateway_def engine_sample_defs)
  with x show ?thesis by blast
qed

theorem outbound_review_never_blocks_witness:
  "\<exists>note. aegisAfter (en_codec (sampleEngine None)) alarmGateway ((sampleCall ''1'' ''post'')\<lparr>tc_Destination := ''external''\<rparr>)
     (zeroResult\<lparr>tr_Content := ''token=x''\<rparr>) () =
   ((zeroResult\<lparr>tr_Content := ''token=x''\<rparr>, Inr (Some (zeroResult\<lparr>tr_Content := note @ ''token=x''\<rparr>)), None), ())"
proof -
  have "\<not> or_Clean (ScanOutbound (\<lambda>r. r) ''token=x'')"
    by (simp add: ScanOutbound_def ScanOutboundWithPaths_def apiKeyPrefixes_def Let_def)
  then show ?thesis
    using outbound_review_never_blocks [of alarmGateway "\<lambda>r. r" "en_codec (sampleEngine None)"
        "(sampleCall ''1'' ''post'')\<lparr>tc_Destination := ''external''\<rparr>" "zeroResult\<lparr>tr_Content := ''token=x''\<rparr>" "()"]
    by (auto simp: alarmGateway_def intro: exI [of _ "''[aegis: outbound findings (): '' @ fmtStrings (or_Findings (ScanOutbound (\<lambda>r. r) ''token=x'')) @ '']'' @ newline"])
qed

theorem closed_steering_hangs_witness:
  "drainChannels (sampleEnv True) sampleConfig 1 [] idleState = None"
  by (rule closed_steering_hangs) (simp_all add: sampleEnv_def sampleConfig_def idleState_def)


end
