(* ===== verification/MemoryGraph.thy ===== *)
theory MemoryGraph
  imports Consolidation
begin

text \<open>
  The provenance graph of the memory tiers: the table \<^verbatim>\<open>memory_edges\<close> and the belief columns of
  the tier tables as \<^verbatim>\<open>internal/platform/edges.go\<close> reads and writes them, for both databases, and the
  algorithms of \<^verbatim>\<open>internal/memory\<close> over them: inference distance and staleness (\<^verbatim>\<open>belief.go\<close>,
  \<^verbatim>\<open>retrieve.go\<close>), and the propagation of distrust (\<^verbatim>\<open>edges.go\<close>).

  A statement that fails is an argument of type \<open>error option\<close>. Where an algorithm runs a query per
  record, the argument is a function of the record.
\<close>

section \<open>Tables\<close>

record MemoryEdge =
  me_ID :: string
  me_FromID :: string
  me_FromTier :: int
  me_ToID :: string
  me_ToTier :: int
  me_EdgeType :: string
  me_Author :: string
  me_CreatedAt :: time

record EdgeNode =
  nd_ID :: string
  nd_Tier :: int

abbreviation EdgeDerivedFrom :: string where "EdgeDerivedFrom \<equiv> ''derived_from''"
abbreviation EdgeContradicts :: string where "EdgeContradicts \<equiv> ''contradicts''"
abbreviation EdgeSupersedes :: string where "EdgeSupersedes \<equiv> ''supersedes''"
abbreviation EdgeVerifies :: string where "EdgeVerifies \<equiv> ''verifies''"
abbreviation EdgeAuthorSystem :: string where "EdgeAuthorSystem \<equiv> ''system''"
abbreviation EdgeAuthorAgent :: string where "EdgeAuthorAgent \<equiv> ''agent''"

record reflectionRow =
  rf_id :: string
  rf_type :: string
  rf_content :: string
  rf_base_confidence :: "float64 option"
  rf_belief_meta :: json
  rf_visibility :: string
  rf_created_at :: time

record entityRow =
  ent_id :: string
  ent_name :: string
  ent_type :: string
  ent_summary :: string
  ent_belief_meta :: json
  ent_t_created :: time
  ent_t_expired :: "time option"

record relationRow =
  rel_id :: string
  rel_belief_meta :: json
  rel_t_expired :: "time option"

record graphDB =
  gd_mem :: memDB
  gd_edges :: "MemoryEdge list"
  gd_reflections :: "reflectionRow list"
  gd_entities :: "entityRow list"
  gd_relations :: "relationRow list"

section \<open>Edges\<close>

text \<open>The CHECK constraints of \<^verbatim>\<open>schema/005_memory_edges.sql\<close>, and its two UNIQUE keys.\<close>

definition checkedEdge :: "MemoryEdge \<Rightarrow> bool" where
  "checkedEdge e \<longleftrightarrow> me_EdgeType e \<in> {EdgeDerivedFrom, EdgeContradicts, EdgeSupersedes, EdgeVerifies} \<and>
     me_Author e \<in> {EdgeAuthorSystem, EdgeAuthorAgent}"

definition edgeKey :: "MemoryEdge \<Rightarrow> string \<times> string \<times> string" where
  "edgeKey e = (me_FromID e, me_ToID e, me_EdgeType e)"

text \<open>\<open>INSERT\<close>: the error of a violated constraint; \<open>ON CONFLICT (from_id, to_id, edge_type) DO NOTHING\<close> when \<open>ignore\<close>.\<close>

definition insertEdge :: "bool \<Rightarrow> MemoryEdge \<Rightarrow> MemoryEdge list \<Rightarrow> error + MemoryEdge list" where
  "insertEdge ignore e es =
     (if \<not> checkedEdge e then Inl ''CHECK constraint failed''
      else if edgeKey e \<in> edgeKey ` set es then (if ignore then Inr es else Inl ''UNIQUE constraint failed'')
      else if me_ID e \<in> me_ID ` set es then Inl ''UNIQUE constraint failed: memory_edges.id''
      else Inr (es @ [e]))"

definition storeCreateEdge ::
  "string \<Rightarrow> time \<Rightarrow> error option \<Rightarrow> string \<Rightarrow> string \<Rightarrow> int \<Rightarrow> int \<Rightarrow> string \<Rightarrow> string \<Rightarrow> graphDB \<Rightarrow> error option \<times> graphDB" where
  "storeCreateEdge newid now fault fromID toID fromTier toTier edgeType author db =
     (case (case fault of Some e \<Rightarrow> Inl e
            | None \<Rightarrow> insertEdge True \<lparr> me_ID = newid, me_FromID = fromID, me_FromTier = fromTier, me_ToID = toID,
                        me_ToTier = toTier, me_EdgeType = edgeType, me_Author = author, me_CreatedAt = now \<rparr> (gd_edges db)) of
        Inl e \<Rightarrow> (Some (''platform: inserting edge from='' @ fromID @ '' to='' @ toID @ '' type='' @ edgeType @ '': '' @ e), db)
      | Inr es \<Rightarrow> (None, db\<lparr>gd_edges := es\<rparr>))"

definition storeGetEdges :: "error option \<Rightarrow> string \<Rightarrow> string \<Rightarrow> graphDB \<Rightarrow> error + MemoryEdge list" where
  "storeGetEdges fault recordID direction db =
     (let run = (\<lambda>sel. case fault of
                         Some e \<Rightarrow> Inl (''platform: querying edges for '' @ recordID @ '' (direction='' @ direction @ ''): '' @ e)
                       | None \<Rightarrow> Inr (sort_key me_CreatedAt (filter (\<lambda>e. sel e = recordID) (gd_edges db))))
      in if direction = ''from'' then run me_FromID else if direction = ''to'' then run me_ToID
         else Inl (''platform: direction must be '' @ [CHR 0x27] @ ''from'' @ [CHR 0x27] @ '' or '' @ [CHR 0x27] @ ''to'' @
                   [CHR 0x27] @ '', got '' @ quoted direction))"

text \<open>The records that derive from a record, and those it derives from.\<close>

definition downstream :: "MemoryEdge list \<Rightarrow> string \<Rightarrow> EdgeNode list" where
  "downstream es rid = map (\<lambda>e. \<lparr> nd_ID = me_FromID e, nd_Tier = me_FromTier e \<rparr>)
     (filter (\<lambda>e. me_ToID e = rid \<and> me_EdgeType e = EdgeDerivedFrom) es)"

definition upstream :: "MemoryEdge list \<Rightarrow> string \<Rightarrow> EdgeNode list" where
  "upstream es rid = map (\<lambda>e. \<lparr> nd_ID = me_ToID e, nd_Tier = me_ToTier e \<rparr>)
     (filter (\<lambda>e. me_FromID e = rid \<and> me_EdgeType e = EdgeDerivedFrom) es)"

definition FetchDownstreamEdges :: "(string \<Rightarrow> error option) \<Rightarrow> string \<Rightarrow> graphDB \<Rightarrow> error + EdgeNode list" where
  "FetchDownstreamEdges fault rid db =
     (case fault rid of Some e \<Rightarrow> Inl (''platform: querying downstream edges of '' @ rid @ '': '' @ e)
      | None \<Rightarrow> Inr (downstream (gd_edges db) rid))"

definition QueryEdgesForBFS :: "(string \<Rightarrow> error option) \<Rightarrow> string \<Rightarrow> graphDB \<Rightarrow> error + EdgeNode list" where
  "QueryEdgesForBFS fault rid db =
     (case fault rid of Some e \<Rightarrow> Inl (''platform: querying BFS edges for '' @ rid @ '': '' @ e)
      | None \<Rightarrow> Inr (upstream (gd_edges db) rid))"

text \<open>\<open>CreateEdge\<close> and \<open>GetEdges\<close> of \<^verbatim>\<open>internal/memory/edges.go\<close>.\<close>

definition validEdgeTypes :: "string \<Rightarrow> bool" where
  "validEdgeTypes t \<longleftrightarrow> t \<in> {EdgeDerivedFrom, EdgeContradicts, EdgeSupersedes, EdgeVerifies}"

definition validEdgeAuthors :: "string \<Rightarrow> bool" where
  "validEdgeAuthors a \<longleftrightarrow> a \<in> {EdgeAuthorSystem, EdgeAuthorAgent}"

definition CreateEdge ::
  "string \<Rightarrow> time \<Rightarrow> error option \<Rightarrow> string \<Rightarrow> string \<Rightarrow> int \<Rightarrow> int \<Rightarrow> string \<Rightarrow> string \<Rightarrow> graphDB \<Rightarrow> error option \<times> graphDB" where
  "CreateEdge newid now fault fromID toID fromTier toTier edgeType author db =
     (if \<not> validEdgeTypes edgeType then (Some (''edges: invalid edge_type '' @ quoted edgeType), db)
      else if \<not> validEdgeAuthors author then (Some (''edges: invalid author '' @ quoted author), db)
      else if fromTier < 2 \<or> fromTier > 5 then (Some (''edges: from_tier '' @ itoa fromTier @ '' out of range [2,5]''), db)
      else if toTier < 2 \<or> toTier > 5 then (Some (''edges: to_tier '' @ itoa toTier @ '' out of range [2,5]''), db)
      else (case storeCreateEdge newid now fault fromID toID fromTier toTier edgeType author db of
              (Some e, db') \<Rightarrow> (Some (''edges: inserting edge from='' @ fromID @ '' to='' @ toID @ '' type='' @ edgeType @ '': '' @ e), db')
            | (None, db') \<Rightarrow> (None, db')))"

definition GetEdges :: "error option \<Rightarrow> string \<Rightarrow> string \<Rightarrow> graphDB \<Rightarrow> error + MemoryEdge list" where
  "GetEdges fault recordID direction db =
     (if direction \<noteq> ''from'' \<and> direction \<noteq> ''to''
      then Inl (''edges: direction must be '' @ [CHR 0x27] @ ''from'' @ [CHR 0x27] @ '' or '' @ [CHR 0x27] @ ''to'' @
                [CHR 0x27] @ '', got '' @ quoted direction)
      else (case storeGetEdges fault recordID direction db of
              Inl e \<Rightarrow> Inl (''edges: querying edges for '' @ recordID @ '' (direction='' @ direction @ ''): '' @ e)
            | Inr es \<Rightarrow> Inr es))"

section \<open>Belief columns\<close>

text \<open>\<open>json_set(col, '$.key', v)\<close> and \<open>jsonb_set(col, '{key}', v)\<close>: a value that is no object is kept.\<close>

fun setField :: "string \<Rightarrow> json \<Rightarrow> (string \<times> json) list \<Rightarrow> (string \<times> json) list" where
  "setField k v [] = [(k, v)]"
| "setField k v ((k', v') # fs) = (if k = k' then (k, v) # fs else (k', v') # setField k v fs)"

fun jsonSet :: "string \<Rightarrow> json \<Rightarrow> json \<Rightarrow> json" where
  "jsonSet k v (JObj fs) = JObj (setField k v fs)"
| "jsonSet k v j = j"

definition tierTableName :: "int \<Rightarrow> error + string" where
  "tierTableName tier =
     (if tier = 2 then Inr ''experiential_logs'' else if tier = 3 then Inr ''narrative_summaries''
      else if tier = 4 then Inr ''reflections'' else if tier = 5 then Inr ''kg_entities''
      else Inl (''platform: unknown tier '' @ itoa tier))"

definition validateTableName :: "string \<Rightarrow> error option" where
  "validateTableName table =
     (if table \<in> {''narrative_summaries'', ''reflections'', ''kg_entities'', ''kg_relationships'', ''experiential_logs''}
      then None else Some (''platform: invalid table name '' @ quoted table @ '' '' @ em_dash @ '' not in tier allowlist''))"

text \<open>
  \<open>UPDATE table SET belief_meta = ... WHERE id = ...\<close>. The table of logs has no such column.
\<close>

definition setState :: "string \<Rightarrow> string \<Rightarrow> string \<Rightarrow> graphDB \<Rightarrow> error + graphDB" where
  "setState table rid state db =
     (let upd = jsonSet ''verification_state'' (JStr state) in
      if table = ''narrative_summaries'' then
        Inr (db\<lparr>gd_mem := (gd_mem db)\<lparr>db_narratives := map (\<lambda>r. if nr_id r = rid then r\<lparr>nr_belief_meta := upd (nr_belief_meta r)\<rparr> else r)
               (db_narratives (gd_mem db))\<rparr>\<rparr>)
      else if table = ''reflections'' then
        Inr (db\<lparr>gd_reflections := map (\<lambda>r. if rf_id r = rid then r\<lparr>rf_belief_meta := upd (rf_belief_meta r)\<rparr> else r) (gd_reflections db)\<rparr>)
      else if table = ''kg_entities'' then
        Inr (db\<lparr>gd_entities := map (\<lambda>r. if ent_id r = rid then r\<lparr>ent_belief_meta := upd (ent_belief_meta r)\<rparr> else r) (gd_entities db)\<rparr>)
      else if table = ''kg_relationships'' then
        Inr (db\<lparr>gd_relations := map (\<lambda>r. if rel_id r = rid then r\<lparr>rel_belief_meta := upd (rel_belief_meta r)\<rparr> else r) (gd_relations db)\<rparr>)
      else Inl ''no such column: belief_meta'')"

definition UpdateVerificationState :: "error option \<Rightarrow> string \<Rightarrow> string \<Rightarrow> string \<Rightarrow> graphDB \<Rightarrow> error option \<times> graphDB" where
  "UpdateVerificationState fault table rid state db =
     (case validateTableName table of
        Some e \<Rightarrow> (Some e, db)
      | None \<Rightarrow>
          (case (case fault of Some e \<Rightarrow> Inl e | None \<Rightarrow> setState table rid state db) of
             Inl e \<Rightarrow> (Some e, db) | Inr db' \<Rightarrow> (None, db')))"

definition MarkNeedsReview :: "(string \<Rightarrow> error option) \<Rightarrow> string \<Rightarrow> int \<Rightarrow> graphDB \<Rightarrow> error option \<times> graphDB" where
  "MarkNeedsReview fault rid tier db =
     (case tierTableName tier of
        Inl e \<Rightarrow> (Some e, db)
      | Inr table \<Rightarrow>
          if tier = 2 then (None, db)
          else (case (case fault rid of Some e \<Rightarrow> Inl e | None \<Rightarrow> setState table rid ''needs_review'' db) of
                  Inl e \<Rightarrow> (Some (''platform: marking needs_review on '' @ table @ ''.'' @ rid @ '': '' @ e), db)
                | Inr db' \<Rightarrow> (None, db')))"

text \<open>
  The methods of \<^verbatim>\<open>PostgresStore\<close> run the same statements with other placeholders and \<open>jsonb_set\<close> in the
  place of \<open>json_set\<close>.
\<close>

definition Postgres_CreateEdge :: "string \<Rightarrow> time \<Rightarrow> error option \<Rightarrow> string \<Rightarrow> string \<Rightarrow> int \<Rightarrow> int \<Rightarrow> string \<Rightarrow> string \<Rightarrow> graphDB \<Rightarrow> error option \<times> graphDB" where
  "Postgres_CreateEdge = storeCreateEdge"

definition Postgres_GetEdges :: "error option \<Rightarrow> string \<Rightarrow> string \<Rightarrow> graphDB \<Rightarrow> error + MemoryEdge list" where
  "Postgres_GetEdges = storeGetEdges"

definition Postgres_FetchDownstreamEdges :: "(string \<Rightarrow> error option) \<Rightarrow> string \<Rightarrow> graphDB \<Rightarrow> error + EdgeNode list" where
  "Postgres_FetchDownstreamEdges = FetchDownstreamEdges"

definition Postgres_QueryEdgesForBFS :: "(string \<Rightarrow> error option) \<Rightarrow> string \<Rightarrow> graphDB \<Rightarrow> error + EdgeNode list" where
  "Postgres_QueryEdgesForBFS = QueryEdgesForBFS"

definition Postgres_UpdateVerificationState :: "error option \<Rightarrow> string \<Rightarrow> string \<Rightarrow> string \<Rightarrow> graphDB \<Rightarrow> error option \<times> graphDB" where
  "Postgres_UpdateVerificationState = UpdateVerificationState"

definition Postgres_MarkNeedsReview :: "(string \<Rightarrow> error option) \<Rightarrow> string \<Rightarrow> int \<Rightarrow> graphDB \<Rightarrow> error option \<times> graphDB" where
  "Postgres_MarkNeedsReview = MarkNeedsReview"

section \<open>Inference distance\<close>

text \<open>The inner loop over the nodes of a record: \<open>None\<close> when one of them is a log (tier 2).\<close>

fun scanNodes :: "EdgeNode list \<Rightarrow> string list \<Rightarrow> string list \<Rightarrow> (string list \<times> string list) option" where
  "scanNodes [] visited nxt = Some (visited, nxt)"
| "scanNodes (n # ns) visited nxt =
     (if nd_Tier n = 2 then None
      else if nd_ID n \<in> set visited then scanNodes ns visited nxt
      else scanNodes ns (nd_ID n # visited) (nxt @ [nd_ID n]))"

datatype levelOut = LevelError error | LevelFound | LevelNext "string list" "string list"

fun scanLevel ::
  "(string \<Rightarrow> error option) \<Rightarrow> graphDB \<Rightarrow> string list \<Rightarrow> string list \<Rightarrow> string list \<Rightarrow> levelOut" where
  "scanLevel fault db [] visited nxt = LevelNext visited nxt"
| "scanLevel fault db (rid # queue) visited nxt =
     (case QueryEdgesForBFS fault rid db of
        Inl e \<Rightarrow> LevelError (''belief: querying edges for '' @ rid @ '': '' @ e)
      | Inr nodes \<Rightarrow>
          (case scanNodes nodes visited nxt of
             None \<Rightarrow> LevelFound
           | Some (visited', nxt') \<Rightarrow> scanLevel fault db queue visited' nxt'))"

text \<open>The records a record derives from, and the records that cite a log directly.\<close>

definition derivedRel :: "MemoryEdge list \<Rightarrow> (string \<times> string) set" where
  "derivedRel es = (\<lambda>e. (me_FromID e, me_ToID e)) ` {e \<in> set es. me_EdgeType e = EdgeDerivedFrom}"

definition citesLog :: "MemoryEdge list \<Rightarrow> string \<Rightarrow> bool" where
  "citesLog es x \<longleftrightarrow> (\<exists>e \<in> set es. me_EdgeType e = EdgeDerivedFrom \<and> me_FromID e = x \<and> me_ToTier e = 2)"

lemma upstream_iff:
  "nd_ID ` set (upstream es x) = derivedRel es `` {x}" "(\<exists>n \<in> set (upstream es x). nd_Tier n = 2) \<longleftrightarrow> citesLog es x"
  by (force simp: upstream_def derivedRel_def citesLog_def)+

lemma derivedRel_targets: "derivedRel es `` S \<subseteq> set (map me_ToID es)"
  by (auto simp: derivedRel_def)

lemma scanNodes_None: "scanNodes ns v n = None \<longleftrightarrow> (\<exists>x \<in> set ns. nd_Tier x = 2)"
  by (induction ns v n rule: scanNodes.induct) auto

lemma scanNodes_Some:
  "scanNodes ns v n = Some (v', n') \<Longrightarrow> set n \<subseteq> set v \<Longrightarrow>
     set v' = set v \<union> nd_ID ` set ns \<and> set n' = set n \<union> (nd_ID ` set ns - set v)"
proof (induction ns v n rule: scanNodes.induct)
  case (2 m ns v n)
  show ?case
  proof (cases "nd_ID m \<in> set v")
    case True
    with 2 show ?thesis by (auto split: if_splits)
  next
    case False
    with 2 have "set v' = set (nd_ID m # v) \<union> nd_ID ` set ns \<and> set n' = set (n @ [nd_ID m]) \<union> (nd_ID ` set ns - set (nd_ID m # v))"
      by (auto split: if_splits)
    with False show ?thesis by auto
  qed
qed simp

lemma scanLevel_Next:
  assumes "scanLevel fault db q v n = LevelNext v' n'" "set n \<subseteq> set v"
  shows "set v' = set v \<union> derivedRel (gd_edges db) `` set q \<and>
    set n' = set n \<union> (derivedRel (gd_edges db) `` set q - set v) \<and> (\<forall>x \<in> set q. \<not> citesLog (gd_edges db) x)"
  using assms
proof (induction q arbitrary: v n)
  case (Cons x q)
  then obtain v1 n1 where s: "scanNodes (upstream (gd_edges db) x) v n = Some (v1, n1)"
    "scanLevel fault db q v1 n1 = LevelNext v' n'"
    by (auto simp: QueryEdgesForBFS_def split: option.splits)
  note a = scanNodes_Some [OF s(1) Cons.prems(2)]
  have "\<not> citesLog (gd_edges db) x" using s(1) scanNodes_None upstream_iff(2) by (metis option.discI)
  moreover have "set n1 \<subseteq> set v1" using a Cons.prems(2) by blast
  moreover have "derivedRel (gd_edges db) `` set (x # q) = derivedRel (gd_edges db) `` {x} \<union> derivedRel (gd_edges db) `` set q"
    by auto
  ultimately show ?case using Cons.IH [OF s(2)] a upstream_iff(1) [of "gd_edges db" x]
    by (simp only: list.set Ball_def insert_iff) blast
qed simp

lemma scanLevel_Found:
  "scanLevel (\<lambda>x. None) db q v n = LevelFound \<Longrightarrow> \<exists>x \<in> set q. citesLog (gd_edges db) x"
  by (induction q arbitrary: v n)
    (auto simp: QueryEdgesForBFS_def scanNodes_None upstream_iff(2) split: option.splits)

lemma scanLevel_no_error: "scanLevel (\<lambda>x. None) db q v n \<noteq> LevelError e"
  by (induction q arbitrary: v n) (auto simp: QueryEdgesForBFS_def split: option.splits)

text \<open>The loop over the levels; it ends because every new level holds records not visited before.\<close>

function inferenceLoop ::
  "(string \<Rightarrow> error option) \<Rightarrow> graphDB \<Rightarrow> string list \<Rightarrow> string list \<Rightarrow> int \<Rightarrow> error + int" where
  "inferenceLoop fault db queue visited depth =
     (if queue = [] then Inr 1
      else (case scanLevel fault db queue visited [] of
              LevelError e \<Rightarrow> Inl e
            | LevelFound \<Rightarrow> Inr (depth + 1)
            | LevelNext visited' nxt \<Rightarrow> inferenceLoop fault db nxt visited' (depth + 1)))"
  by pat_completeness auto
termination
proof (relation "measure (\<lambda>(fault, db, q, v, d).
    2 * card (set (map me_ToID (gd_edges db)) - set v) + (if q = [] then 0 else 1))", goal_cases)
  case (2 fault db q v d v' n')
  let ?T = "set (map me_ToID (gd_edges db))" and ?N = "derivedRel (gd_edges db) `` set q"
  from scanLevel_Next [OF 2(2)] have v': "set v' = set v \<union> ?N" "set n' = ?N - set v" by auto
  show ?case
  proof (cases "n' = []")
    case True
    then have "set v' = set v" using v' by auto
    with True 2(1) show ?thesis by simp
  next
    case False
    then have "?N - set v \<noteq> {}" using v'(2) by (metis set_empty)
    then obtain x where "x \<in> ?N" "x \<notin> set v" by blast
    then have "?T - set v' \<subset> ?T - set v" using v'(1) derivedRel_targets [of "gd_edges db" "set q"] by auto
    then have "card (?T - set v') < card (?T - set v)" by (intro psubset_card_mono) auto
    with False 2(1) show ?thesis by simp
  qed
qed simp

declare inferenceLoop.simps [simp del]

definition ComputeInferenceDistance :: "(string \<Rightarrow> error option) \<Rightarrow> string \<Rightarrow> graphDB \<Rightarrow> error + int" where
  "ComputeInferenceDistance fault recordID db = inferenceLoop fault db [recordID] [recordID] 0"


text \<open>
  The specification: \<open>nearby R r d\<close> are the records at most \<open>d\<close> steps from \<open>r\<close>, and the level loop
  keeps the invariant that the visited records are these and that all but the queue are expanded.
\<close>

definition nearby :: "('a \<times> 'a) set \<Rightarrow> 'a \<Rightarrow> nat \<Rightarrow> 'a set" where
  "nearby R r d = {x. \<exists>k \<le> d. (r, x) \<in> R ^^ k}"

lemma nearby_0 [simp]: "nearby R r 0 = {r}"
  by (auto simp: nearby_def)

lemma nearby_Suc: "nearby R r (Suc d) = nearby R r d \<union> R `` nearby R r d"
proof (intro subset_antisym subsetI)
  fix x assume "x \<in> nearby R r (Suc d)"
  then obtain k where k: "k \<le> Suc d" "(r, x) \<in> R ^^ k" by (auto simp: nearby_def)
  show "x \<in> nearby R r d \<union> R `` nearby R r d"
  proof (cases k)
    case (Suc j)
    with k obtain y where "(r, y) \<in> R ^^ j" "(y, x) \<in> R" "j \<le> d" by auto
    then show ?thesis by (auto simp: nearby_def)
  qed (use k in \<open>auto simp: nearby_def\<close>)
next
  fix x assume "x \<in> nearby R r d \<union> R `` nearby R r d"
  then show "x \<in> nearby R r (Suc d)"
  proof
    assume "x \<in> R `` nearby R r d"
    then obtain y k where "k \<le> d" "(r, y) \<in> R ^^ k" "(y, x) \<in> R" by (auto simp: nearby_def)
    then have "Suc k \<le> Suc d" "(r, x) \<in> R ^^ Suc k" by auto
    then show ?thesis unfolding nearby_def by blast
  next
    assume "x \<in> nearby R r d"
    then show ?thesis unfolding nearby_def using le_SucI by blast
  qed
qed

lemma nearby_closed:
  assumes "R `` nearby R r d \<subseteq> nearby R r d" "(r, x) \<in> R ^^ k"
  shows "x \<in> nearby R r d"
  using assms(2)
proof (induction k arbitrary: x)
  case 0
  then show ?case by (auto simp: nearby_def intro: exI [of _ 0])
next
  case (Suc k)
  then obtain y where "(r, y) \<in> R ^^ k" "(y, x) \<in> R" by auto
  with Suc.IH assms(1) show ?case by blast
qed

definition hopsToLog :: "MemoryEdge list \<Rightarrow> string \<Rightarrow> nat \<Rightarrow> bool" where
  "hopsToLog es r k \<longleftrightarrow> (\<exists>x. (r, x) \<in> derivedRel es ^^ k \<and> citesLog es x)"

definition bfsState :: "MemoryEdge list \<Rightarrow> string \<Rightarrow> nat \<Rightarrow> string list \<Rightarrow> string list \<Rightarrow> bool" where
  "bfsState es r d q v \<longleftrightarrow> set v = nearby (derivedRel es) r d \<and> set q \<subseteq> set v \<and>
     (\<forall>x \<in> set v - set q. derivedRel es `` {x} \<subseteq> set v \<and> \<not> citesLog es x) \<and> (\<forall>k < d. \<not> hopsToLog es r k)"

lemma bfsState_found:
  assumes "bfsState es r d q v" "x \<in> set q" "citesLog es x"
  shows "(LEAST k. hopsToLog es r k) = d \<and> hopsToLog es r d"
proof -
  from assms have "x \<in> nearby (derivedRel es) r d" by (auto simp: bfsState_def)
  then obtain k where "k \<le> d" "hopsToLog es r k" using assms(3) by (auto simp: nearby_def hopsToLog_def)
  moreover from this assms(1) have "k = d" by (auto simp: bfsState_def le_less)
  ultimately have "hopsToLog es r d" by simp
  moreover have "d \<le> j" if "hopsToLog es r j" for j
    using that assms(1) by (auto simp: bfsState_def intro: leI)
  ultimately show ?thesis by (simp add: Least_equality)
qed

lemma bfsState_step:
  assumes b: "bfsState es r d q v" and q: "\<forall>x \<in> set q. \<not> citesLog es x"
    and v': "set v' = set v \<union> derivedRel es `` set q" and n': "set n' = derivedRel es `` set q - set v"
  shows "bfsState es r (Suc d) n' v'"
  unfolding bfsState_def
proof (intro conjI ballI allI impI)
  let ?R = "derivedRel es"
  have "?R `` {x} \<subseteq> set v" if "x \<in> set v - set q" for x using b that unfolding bfsState_def by blast
  then have img: "?R `` set v \<subseteq> set v \<union> ?R `` set q" by blast
  have "?R `` set q \<subseteq> ?R `` set v" using b by (auto simp: bfsState_def)
  moreover have "set v = nearby ?R r d" using b unfolding bfsState_def by blast
  ultimately show "set v' = nearby ?R r (Suc d)" using img v' unfolding nearby_Suc by blast
  show "set n' \<subseteq> set v'" using v' n' by auto
  have noc: "\<not> citesLog es x" if "x \<in> set v" for x using that b q by (auto simp: bfsState_def)
  fix x assume "x \<in> set v' - set n'"
  then have x: "x \<in> set v" using v' n' by auto
  then show "?R `` {x} \<subseteq> set v'" using img v' by auto
  show "\<not> citesLog es x" using noc x .
next
  fix k assume k: "k < Suc d"
  have "\<not> citesLog es x" if "(r, x) \<in> derivedRel es ^^ k" for x
    using that k b q by (auto simp: bfsState_def nearby_def less_Suc_eq_le)
  then show "\<not> hopsToLog es r k" by (auto simp: hopsToLog_def)
qed

lemma bfsState_end:
  assumes "bfsState es r d [] v"
  shows "\<not> hopsToLog es r k"
  using assms nearby_closed [of "derivedRel es" r d] by (fastforce simp: bfsState_def hopsToLog_def)

lemma inferenceLoop_result:
  assumes "bfsState (gd_edges db) r d q v"
  shows "inferenceLoop (\<lambda>_. None) db q v (int d) =
    Inr (if \<exists>k. hopsToLog (gd_edges db) r k then int (Suc (LEAST k. hopsToLog (gd_edges db) r k)) else 1)"
  using assms
proof (induction "\<lambda>_::string. None :: error option" db q v "int d" arbitrary: d rule: inferenceLoop.induct)
  case (1 db q v)
  show ?case
  proof (cases "q = []")
    case True
    with 1(2) bfsState_end have "\<nexists>k. hopsToLog (gd_edges db) r k" by blast
    with True show ?thesis by (subst inferenceLoop.simps) auto
  next
    case q: False
    show ?thesis
    proof (cases "scanLevel (\<lambda>_. None) db q v []")
      case LevelFound
      with scanLevel_Found obtain x where "x \<in> set q" "citesLog (gd_edges db) x" by blast
      from bfsState_found [OF 1(2) this] LevelFound q show ?thesis by (auto simp: inferenceLoop.simps)
    next
      case (LevelNext v' n')
      from scanLevel_Next [OF this] have s: "bfsState (gd_edges db) r (Suc d) n' v'"
        by (intro bfsState_step [OF 1(2)]) auto
      have d: "int d + 1 = int (Suc d)" by simp
      show ?thesis
        by (subst inferenceLoop.simps) (simp only: q LevelNext if_False levelOut.case d 1(1) [OF q LevelNext d s])
    qed (simp add: scanLevel_no_error)
  qed
qed

text \<open>
  C31. The distance of a record is one more than the length of a shortest chain of \<open>derived_from\<close> edges to a
  record that cites a log, and 1 when there is no such chain. The search ends on cyclic graphs too.
\<close>

theorem inference_distance_is_shortest:
  "ComputeInferenceDistance (\<lambda>_. None) r db =
     Inr (if \<exists>k. hopsToLog (gd_edges db) r k then int (Suc (LEAST k. hopsToLog (gd_edges db) r k)) else 1)"
  unfolding ComputeInferenceDistance_def
  using inferenceLoop_result [of db r 0 "[r]" "[r]"] by (simp add: bfsState_def)

section \<open>Propagation of distrust\<close>

fun enqueueNew :: "EdgeNode list \<Rightarrow> string list \<Rightarrow> EdgeNode list \<Rightarrow> string list \<times> EdgeNode list" where
  "enqueueNew [] visited queue = (visited, queue)"
| "enqueueNew (d # ds) visited queue =
     (if nd_ID d \<in> set visited then enqueueNew ds visited queue
      else enqueueNew ds (nd_ID d # visited) (queue @ [d]))"

lemma enqueueNew_sets:
  "enqueueNew ds v q = (v', q') \<Longrightarrow> set v' = set v \<union> nd_ID ` set ds \<and>
     (\<exists>new. q' = q @ new \<and> set new \<subseteq> set ds \<and> distinct (map nd_ID new) \<and> nd_ID ` set new = nd_ID ` set ds - set v)"
proof (induction ds v q rule: enqueueNew.induct)
  case (2 d ds v q)
  show ?case
  proof (cases "nd_ID d \<in> set v")
    case True
    with 2 show ?thesis by (auto intro: exI)
  next
    case False
    with 2 obtain new where n: "q' = (q @ [d]) @ new" "set new \<subseteq> set ds" "distinct (map nd_ID new)"
        "nd_ID ` set new = nd_ID ` set ds - set (nd_ID d # v)" and v: "set v' = set (nd_ID d # v) \<union> nd_ID ` set ds"
      by auto
    from n have "nd_ID d \<notin> nd_ID ` set new" by simp
    with n False have "q' = q @ (d # new) \<and> set (d # new) \<subseteq> set (d # ds) \<and> distinct (map nd_ID (d # new)) \<and>
        nd_ID ` set (d # new) = nd_ID ` set (d # ds) - set v"
      by auto
    with v show ?thesis by auto
  qed
qed simp

lemma setState_edges: "setState t i s db = Inr db' \<Longrightarrow> gd_edges db' = gd_edges db"
  by (auto simp: setState_def Let_def split: if_splits)

lemma MarkNeedsReview_edges: "MarkNeedsReview f i t db = (e, db') \<Longrightarrow> gd_edges db' = gd_edges db"
  by (auto simp: MarkNeedsReview_def setState_edges split: sum.splits if_splits option.splits)

lemma downstream_sources: "nd_ID ` set (downstream es x) \<subseteq> set (map me_FromID es)"
  by (auto simp: downstream_def)

lemma enqueueNew_measure:
  assumes "enqueueNew ds v q = (v', q')" "nd_ID ` set ds \<subseteq> S" "finite S"
  shows "card (S - set v') + length q' = card (S - set v) + length q"
proof -
  from enqueueNew_sets [OF assms(1)] obtain new where n: "q' = q @ new" "distinct (map nd_ID new)"
    "nd_ID ` set new = nd_ID ` set ds - set v" "set v' = set v \<union> nd_ID ` set ds" by auto
  have "length new = card (nd_ID ` set new)" using n(2) by (metis distinct_card length_map set_map)
  moreover have "S - set v = (S - set v') \<union> nd_ID ` set new" using n assms(2) by auto
  moreover have "(S - set v') \<inter> nd_ID ` set new = {}" using n by auto
  ultimately have "card (S - set v) = card (S - set v') + length new"
    using assms(3) by (metis card_Un_disjoint finite_Diff finite_imageI List.finite_set)
  with n(1) show ?thesis by simp
qed

text \<open>
  The loop over the queue. A record that cannot be marked is skipped and not expanded; a failing
  query of the edges ends the loop with the number of records marked so far.
\<close>

function propagateLoop ::
  "(string \<Rightarrow> error option) \<Rightarrow> (string \<Rightarrow> error option) \<Rightarrow> EdgeNode list \<Rightarrow> string list \<Rightarrow> int \<Rightarrow> graphDB
     \<Rightarrow> (int \<times> error option) \<times> graphDB" where
  "propagateLoop fetchFault markFault queue visited affected db =
     (case queue of
        [] \<Rightarrow> ((affected, None), db)
      | cur # rest \<Rightarrow>
          (case MarkNeedsReview markFault (nd_ID cur) (nd_Tier cur) db of
             (Some e, db1) \<Rightarrow> propagateLoop fetchFault markFault rest visited affected db1
           | (None, db1) \<Rightarrow>
               (case FetchDownstreamEdges fetchFault (nd_ID cur) db1 of
                  Inl e \<Rightarrow> ((affected + 1, Some e), db1)
                | Inr ds \<Rightarrow>
                    (case enqueueNew ds visited rest of
                       (visited', queue') \<Rightarrow> propagateLoop fetchFault markFault queue' visited' (affected + 1) db1))))"
  by pat_completeness auto
termination
proof (relation "measure (\<lambda>(ff, mf, q, v, n, db). card (set (map me_FromID (gd_edges db)) - set v) + length q)", goal_cases)
  case (2 ff mf q v n db cur rest p db1 ds v' q')
  then have m: "MarkNeedsReview mf (nd_ID cur) (nd_Tier cur) db = (None, db1)" and e: "enqueueNew ds v rest = (v', q')"
    and f: "FetchDownstreamEdges ff (nd_ID cur) db1 = Inr ds" and q: "q = cur # rest" by simp_all
  from f MarkNeedsReview_edges [OF m] have "ds = downstream (gd_edges db) (nd_ID cur)"
    by (auto simp: FetchDownstreamEdges_def split: option.splits)
  with enqueueNew_measure [OF e, of "set (map me_FromID (gd_edges db))"] downstream_sources [of "gd_edges db" "nd_ID cur"]
  show ?case using q MarkNeedsReview_edges [OF m] by simp
next
  case (3 ff mf q v n db cur rest p db1 e)
  then have "MarkNeedsReview mf (nd_ID cur) (nd_Tier cur) db = (Some e, db1)" by simp
  from MarkNeedsReview_edges [OF this] 3 show ?case by simp
qed simp

declare propagateLoop.simps [simp del]

definition PropagateDistrust ::
  "(string \<Rightarrow> error option) \<Rightarrow> (string \<Rightarrow> error option) \<Rightarrow> string \<Rightarrow> graphDB \<Rightarrow> (int \<times> error option) \<times> graphDB" where
  "PropagateDistrust fetchFault markFault sourceID db =
     (case FetchDownstreamEdges fetchFault sourceID db of
        Inl e \<Rightarrow> ((0, Some e), db)
      | Inr seeds \<Rightarrow> (case enqueueNew seeds [sourceID] [] of
                       (visited, queue) \<Rightarrow> propagateLoop fetchFault markFault queue visited 0 db))"

text \<open>The specification of an undisturbed run: every record of the set is marked in the table of its tier.\<close>

definition reviewed :: "json \<Rightarrow> json" where
  "reviewed = jsonSet ''verification_state'' (JStr ''needs_review'')"

definition distrust :: "(string \<Rightarrow> int) \<Rightarrow> string set \<Rightarrow> graphDB \<Rightarrow> graphDB" where
  "distrust tierOf S db = db\<lparr>
     gd_mem := (gd_mem db)\<lparr>db_narratives := map (\<lambda>r. if nr_id r \<in> S \<and> tierOf (nr_id r) = 3
       then r\<lparr>nr_belief_meta := reviewed (nr_belief_meta r)\<rparr> else r) (db_narratives (gd_mem db))\<rparr>,
     gd_reflections := map (\<lambda>r. if rf_id r \<in> S \<and> tierOf (rf_id r) = 4
       then r\<lparr>rf_belief_meta := reviewed (rf_belief_meta r)\<rparr> else r) (gd_reflections db),
     gd_entities := map (\<lambda>r. if ent_id r \<in> S \<and> tierOf (ent_id r) = 5
       then r\<lparr>ent_belief_meta := reviewed (ent_belief_meta r)\<rparr> else r) (gd_entities db)\<rparr>"

definition dependents :: "MemoryEdge list \<Rightarrow> (string \<times> string) set" where
  "dependents es = (\<lambda>e. (me_ToID e, me_FromID e)) ` {e \<in> set es. me_EdgeType e = EdgeDerivedFrom}"

lemma dependents_set:
  "dependents es = set (map (\<lambda>e. (me_ToID e, me_FromID e)) (filter (\<lambda>e. me_EdgeType e = EdgeDerivedFrom) es))"
  by (auto simp: dependents_def)

lemma setField_idem: "setField k v (setField k v fs) = setField k v fs"
  by (induction fs) auto

lemma reviewed_idem [simp]: "reviewed (reviewed j) = reviewed j"
  by (cases j) (auto simp: reviewed_def setField_idem)

lemma distrust_Un: "distrust t S (distrust t T db) = distrust t (S \<union> T) db"
  by (auto simp: distrust_def intro!: graphDB.equality memDB.equality map_cong)

lemma distrust_empty [simp]: "distrust t {} db = db"
  by (simp add: distrust_def)

lemma distrust_edges [simp]: "gd_edges (distrust t S db) = gd_edges db"
  by (simp add: distrust_def)

lemma MarkNeedsReview_distrust:
  assumes "t x \<in> {2..5}"
  shows "MarkNeedsReview (\<lambda>_. None) x (t x) db = (None, distrust t {x} db)"
proof -
  have aux: "map (\<lambda>r. if P r then g r else r) rs = rs" if "\<And>r. \<not> P r" for P :: "'r \<Rightarrow> bool" and g rs
    using that by simp
  from assms consider "t x = 2" | "t x = 3" | "t x = 4" | "t x = 5" by fastforce
  then show ?thesis
    by cases (auto simp: MarkNeedsReview_def tierTableName_def setState_def distrust_def Let_def reviewed_def
        intro!: graphDB.equality memDB.equality map_cong aux [symmetric])
qed

text \<open>The invariant of the loop: \<open>M\<close> are the records marked so far, and all of them but \<open>P\<close> are expanded.\<close>

definition propagated ::
  "(string \<Rightarrow> int) \<Rightarrow> string \<Rightarrow> graphDB \<Rightarrow> string set \<Rightarrow> string set \<Rightarrow> EdgeNode list \<Rightarrow> string list \<Rightarrow> bool" where
  "propagated t src db P M q v \<longleftrightarrow> set v = insert src (M \<union> nd_ID ` set q) \<and> M \<inter> nd_ID ` set q = {} \<and> finite M \<and>
     distinct (map nd_ID q) \<and> src \<notin> M \<union> nd_ID ` set q \<and> (\<forall>n \<in> set q. nd_Tier n = t (nd_ID n) \<and> nd_Tier n \<in> {2..5}) \<and>
     dependents (gd_edges db) `` (insert src M - P) \<subseteq> set v \<and> set v \<subseteq> (dependents (gd_edges db))\<^sup>* `` {src}"

lemma propagated_start: "propagated t src db {src} {} [] [src]"
  by (simp add: propagated_def)

lemma propagated_pop:
  assumes "propagated t src db {} M (n # q) v"
  shows "propagated t src db {nd_ID n} (insert (nd_ID n) M) q v"
proof -
  define I where "I = nd_ID ` set q"
  from assms have "set v = insert src (M \<union> insert (nd_ID n) I)" "M \<inter> insert (nd_ID n) I = {}" "nd_ID n \<notin> I"
    "src \<notin> M \<union> insert (nd_ID n) I"
    unfolding propagated_def I_def by simp_all
  moreover from assms have "dependents (gd_edges db) `` insert src M \<subseteq> set v" unfolding propagated_def by (metis Diff_empty)
  ultimately have "set v = insert src (insert (nd_ID n) M \<union> I)" "insert (nd_ID n) M \<inter> I = {}" "src \<notin> insert (nd_ID n) M \<union> I"
    "dependents (gd_edges db) `` (insert src (insert (nd_ID n) M) - {nd_ID n}) \<subseteq> set v"
    by blast+
  moreover have "finite (insert (nd_ID n) M)" "distinct (map nd_ID q)" "\<forall>n \<in> set q. nd_Tier n = t (nd_ID n) \<and> nd_Tier n \<in> {2..5}"
    "set v \<subseteq> (dependents (gd_edges db))\<^sup>* `` {src}"
    using assms unfolding propagated_def by (elim conjE; simp del: atLeastAtMost_iff; fail)+
  ultimately show ?thesis unfolding propagated_def I_def by (intro conjI)
qed

text \<open>Every edge of the kind followed is stored with the tier its source has.\<close>

definition tiersAgree :: "(string \<Rightarrow> int) \<Rightarrow> MemoryEdge list \<Rightarrow> bool" where
  "tiersAgree t es \<longleftrightarrow> (\<forall>e \<in> set es. me_EdgeType e = EdgeDerivedFrom \<longrightarrow> me_FromTier e = t (me_FromID e) \<and> me_FromTier e \<in> {2..5})"

lemma downstream_ids: "nd_ID ` set (downstream es x) = dependents es `` {x}"
  by (force simp: downstream_def dependents_def)

lemma downstream_tiers: "tiersAgree t es \<Longrightarrow> n \<in> set (downstream es x) \<Longrightarrow> nd_Tier n = t (nd_ID n) \<and> nd_Tier n \<in> {2..5}"
  by (auto simp: downstream_def tiersAgree_def)

lemma propagated_expand:
  assumes p: "propagated t src db {x} M q v" "x \<in> insert src M"
    and a: "tiersAgree t (gd_edges db)" and e: "enqueueNew (downstream (gd_edges db) x) v q = (v', q')"
  shows "propagated t src db {} M q' v'"
proof -
  let ?D = "dependents (gd_edges db)"
  from enqueueNew_sets [OF e] obtain new where n: "q' = q @ new" "set new \<subseteq> set (downstream (gd_edges db) x)"
    "distinct (map nd_ID new)" "nd_ID ` set new = ?D `` {x} - set v" "set v' = set v \<union> ?D `` {x}"
    by (auto simp: downstream_ids)
  have "x \<in> ?D\<^sup>* `` {src}" using p unfolding propagated_def by blast
  then have "set v' \<subseteq> ?D\<^sup>* `` {src}" using p n(5) unfolding propagated_def by (auto intro: rtrancl_into_rtrancl)
  moreover have "\<forall>m \<in> set new. nd_Tier m = t (nd_ID m) \<and> nd_Tier m \<in> {2..5}" using n(2) downstream_tiers [OF a] by blast
  moreover have "?D `` (insert src M - {}) \<subseteq> set v'" using p n(5) unfolding propagated_def by blast
  moreover have "nd_ID ` set q' = nd_ID ` set q \<union> (?D `` {x} - set v)" "set q' = set q \<union> set new" using n(1,4) by auto
  moreover have "distinct (map nd_ID q')" using n(1,3,4) p unfolding propagated_def by auto
  moreover have "\<forall>m \<in> set q'. nd_Tier m = t (nd_ID m) \<and> nd_Tier m \<in> {2..5}"
    using p n(1) \<open>\<forall>m \<in> set new. _ m\<close> unfolding propagated_def by auto
  moreover have "set v = insert src (M \<union> nd_ID ` set q)" "M \<inter> nd_ID ` set q = {}" "finite M" "src \<notin> M \<union> nd_ID ` set q"
    using p(1) unfolding propagated_def by simp_all
  then have "set v' = insert src (M \<union> nd_ID ` set q')" "M \<inter> nd_ID ` set q' = {}" "finite M" "src \<notin> M \<union> nd_ID ` set q'"
    unfolding \<open>nd_ID ` set q' = _\<close> n(5) by blast+
  ultimately show ?thesis unfolding propagated_def by (intro conjI)
qed

lemma propagateLoop_result:
  assumes "propagated t src db {} M q v" "tiersAgree t (gd_edges db)"
  shows "propagateLoop (\<lambda>_. None) (\<lambda>_. None) q v (int (card M)) (distrust t M db) =
    (let D = (dependents (gd_edges db))\<^sup>* `` {src} - {src} in ((int (card D), None), distrust t D db))"
  using assms(1)
proof (induction "card (set (map me_FromID (gd_edges db)) - set v) + length q" arbitrary: M q v rule: less_induct)
  case less
  let ?R = "dependents (gd_edges db)"
  show ?case
  proof (cases q)
    case Nil
    then have v: "set v = insert src M" "src \<notin> M" "?R `` set v \<subseteq> set v" "set v \<subseteq> ?R\<^sup>* `` {src}"
      using less.prems by (auto simp: propagated_def)
    have "?R\<^sup>* `` {src} \<subseteq> set v" using Image_closed_trancl [OF v(3)] v(1) by blast
    with v have "?R\<^sup>* `` {src} - {src} = M" by blast
    with Nil show ?thesis by (simp add: propagateLoop.simps Let_def)
  next
    case (Cons n rest)
    let ?M = "insert (nd_ID n) M"
    have n: "nd_ID n \<notin> M" "finite M" "nd_Tier n = t (nd_ID n)" "t (nd_ID n) \<in> {2..5}"
      using less.prems Cons unfolding propagated_def by auto
    obtain v' q' where e: "enqueueNew (downstream (gd_edges db) (nd_ID n)) v rest = (v', q')" by fastforce
    have p: "propagated t src db {} ?M q' v'"
      using propagated_expand [OF propagated_pop _ assms(2) e] less.prems Cons by simp
    have "card (set (map me_FromID (gd_edges db)) - set v') + length q' < card (set (map me_FromID (gd_edges db)) - set v) + length q"
      using enqueueNew_measure [OF e downstream_sources] Cons by simp
    from less.hyps [OF this p] show ?thesis
      using Cons n e MarkNeedsReview_distrust [of t "nd_ID n" "distrust t M db"]
      by (simp add: propagateLoop.simps [of _ _ "n # rest"] FetchDownstreamEdges_def distrust_Un add.commute)
  qed
qed


text \<open>
  C4. With every statement succeeding and the stored tiers consistent, distrust reaches exactly the records
  that derive from the source, directly or not, each is marked in the table of its tier, nothing else
  of the database changes, and the result is their number.
\<close>

theorem distrust_reaches_dependents:
  assumes "tiersAgree t (gd_edges db)"
  shows "PropagateDistrust (\<lambda>_. None) (\<lambda>_. None) src db =
    (let D = (dependents (gd_edges db))\<^sup>* `` {src} - {src} in ((int (card D), None), distrust t D db))"
proof -
  obtain v q where e: "enqueueNew (downstream (gd_edges db) src) [src] [] = (v, q)" by fastforce
  from propagateLoop_result [OF propagated_expand [OF propagated_start _ assms e] assms] e
  show ?thesis by (simp add: PropagateDistrust_def FetchDownstreamEdges_def)
qed

text \<open>
  What the pass may touch at all: \<open>unmarked\<close> removes the verification state from the belief columns
  and keeps the rest of the database.
\<close>

fun eraseState :: "json \<Rightarrow> json" where
  "eraseState (JObj fs) = JObj (filter (\<lambda>(k, v). k \<noteq> ''verification_state'') fs)"
| "eraseState j = j"

definition unmarked :: "graphDB \<Rightarrow> graphDB" where
  "unmarked db = db\<lparr>
     gd_mem := (gd_mem db)\<lparr>db_narratives := map (nr_belief_meta_update eraseState) (db_narratives (gd_mem db))\<rparr>,
     gd_reflections := map (rf_belief_meta_update eraseState) (gd_reflections db),
     gd_entities := map (ent_belief_meta_update eraseState) (gd_entities db),
     gd_relations := map (rel_belief_meta_update eraseState) (gd_relations db)\<rparr>"

lemma eraseState_jsonSet [simp]: "eraseState (jsonSet ''verification_state'' v j) = eraseState j"
proof -
  have "filter (\<lambda>(k, v). k \<noteq> ''verification_state'') (setField ''verification_state'' v fs) =
        filter (\<lambda>(k, v). k \<noteq> ''verification_state'') fs" for fs
    by (induction fs) auto
  then show ?thesis by (cases j) auto
qed

lemma setState_unmarked: "setState t i s db = Inr db' \<Longrightarrow> unmarked db' = unmarked db"
  by (auto simp: setState_def unmarked_def Let_def split: if_splits
      intro!: graphDB.equality memDB.equality map_cong)

lemma MarkNeedsReview_unmarked: "unmarked (snd (MarkNeedsReview f i t db)) = unmarked db"
  by (auto simp: MarkNeedsReview_def setState_unmarked split: sum.splits if_splits option.splits)

lemma propagateLoop_unmarked: "unmarked (snd (propagateLoop ff mf q v n db)) = unmarked db"
proof (induction ff mf q v n db rule: propagateLoop.induct)
  case (1 ff mf q v n db)
  show ?case
  proof (cases q)
    case Nil
    then show ?thesis by (simp add: propagateLoop.simps)
  next
    case (Cons cur rest)
    obtain r db1 where m: "MarkNeedsReview mf (nd_ID cur) (nd_Tier cur) db = (r, db1)" by fastforce
    with MarkNeedsReview_unmarked [of mf "nd_ID cur" "nd_Tier cur" db] have u: "unmarked db1 = unmarked db" by simp
    show ?thesis
    proof (cases r)
      case None
      with Cons m u 1(1) [OF Cons m [symmetric] None] show ?thesis
        by (auto simp: propagateLoop.simps [of _ _ "cur # rest"] split: sum.splits prod.splits)
    next
      case (Some e)
      with Cons m u 1(2) [OF Cons m [symmetric] Some] show ?thesis by (simp add: propagateLoop.simps [of _ _ "cur # rest"])
    qed
  qed
qed

lemma PropagateDistrust_unmarked: "unmarked (snd (PropagateDistrust fetchFault markFault src db)) = unmarked db"
  by (auto simp: PropagateDistrust_def propagateLoop_unmarked split: sum.splits prod.splits)

text \<open>
  Whatever statement fails and whatever the edges are, the pass reads and annotates only: no edge, no
  content, no column \<open>base_confidence\<close> of a reflection and no other field of a belief column changes.
\<close>

theorem distrust_only_annotates:
  "unmarked (snd (PropagateDistrust fetchFault markFault src db)) = unmarked db"
  by (rule PropagateDistrust_unmarked)

text \<open>
  A graph with a cycle: a log \<open>l\<close>, a summary \<open>n\<close> of it, a reflection \<open>r\<close> on the summary, which the
  summary cites back, and an unrelated entity \<open>e\<close>.
\<close>

definition edge :: "string \<Rightarrow> string \<Rightarrow> int \<Rightarrow> string \<Rightarrow> int \<Rightarrow> MemoryEdge" where
  "edge i f ft t tt = \<lparr> me_ID = i, me_FromID = f, me_FromTier = ft, me_ToID = t, me_ToTier = tt,
     me_EdgeType = EdgeDerivedFrom, me_Author = EdgeAuthorSystem, me_CreatedAt = 0 \<rparr>"

definition sampleGraph :: graphDB where
  "sampleGraph = \<lparr> gd_mem = \<lparr> db_logs = [], db_narratives = [], db_jobs = [] \<rparr>,
     gd_edges = [edge ''1'' ''n'' 3 ''l'' 2, edge ''2'' ''r'' 4 ''n'' 3, edge ''3'' ''n'' 3 ''r'' 4],
     gd_reflections = [\<lparr> rf_id = ''r'', rf_type = ''note'', rf_content = ''c'', rf_base_confidence = None,
       rf_belief_meta = JObj [], rf_visibility = ''private'', rf_created_at = 0 \<rparr>],
     gd_entities = [\<lparr> ent_id = ''e'', ent_name = ''E'', ent_type = ''person'', ent_summary = '''',
       ent_belief_meta = JObj [], ent_t_created = 0, ent_t_expired = None \<rparr>],
     gd_relations = [] \<rparr>"

definition sampleTier :: "string \<Rightarrow> int" where
  "sampleTier x = (if x = ''n'' then 3 else if x = ''r'' then 4 else 2)"

lemma sampleGraph_dependents: "(dependents (gd_edges sampleGraph))\<^sup>* `` {''l''} - {''l''} = {''n'', ''r''}"
proof -
  let ?R = "dependents (gd_edges sampleGraph)"
  have R: "?R = {(''l'', ''n''), (''n'', ''r''), (''r'', ''n'')}"
    by (simp add: dependents_set sampleGraph_def edge_def)
  have "?R `` {''l'', ''n'', ''r''} \<subseteq> {''l'', ''n'', ''r''}" unfolding R by auto
  from Image_closed_trancl [OF this] have "?R\<^sup>* `` {''l''} \<subseteq> {''l'', ''n'', ''r''}" by auto
  moreover have "(''l'', ''n'') \<in> ?R\<^sup>*" "(''n'', ''r'') \<in> ?R\<^sup>*" unfolding R by auto
  moreover from this have "(''l'', ''r'') \<in> ?R\<^sup>*" by (rule rtrancl_trans)
  ultimately show ?thesis by auto
qed

theorem distrust_reaches_dependents_witness:
  "PropagateDistrust (\<lambda>_. None) (\<lambda>_. None) ''l'' sampleGraph = ((2, None), distrust sampleTier {''n'', ''r''} sampleGraph)"
proof -
  have "tiersAgree sampleTier (gd_edges sampleGraph)"
    by (simp add: tiersAgree_def sampleGraph_def edge_def sampleTier_def)
  from distrust_reaches_dependents [OF this, of "''l''"] show ?thesis
    by (simp add: sampleGraph_dependents Let_def)
qed

end
