(* ===== verification/Beliefs.thy ===== *)
theory Beliefs
  imports MemoryGraph
begin

text \<open>
  Confidence and staleness of beliefs: \<open>Confidence\<close> of \<^verbatim>\<open>pkg/types.go\<close>, the decoding of the belief
  columns (\<^verbatim>\<open>internal/platform/db.go\<close>), \<open>LoadBeliefRecords\<close> for both databases
  (\<^verbatim>\<open>internal/platform/edges.go\<close>), and the pass at the end of a session (\<^verbatim>\<open>internal/memory/retrieve.go\<close>
  and \<^verbatim>\<open>belief.go\<close>).

  Arguments stand for what is outside the repository: \<open>pow\<close> and \<open>exp\<close> are \<open>math.Pow\<close> and \<open>math.Exp\<close>
  on the finite values of \<open>float64\<close>, \<open>render\<close> is the text the database has for a JSON column.
\<close>

section \<open>Confidence\<close>

text \<open>\<open>Time.Sub\<close> saturates at the ends of \<open>time.Duration\<close>, an \<open>int64\<close>.\<close>

definition timeSub :: "time \<Rightarrow> time \<Rightarrow> duration" where
  "timeSub t u = max (- (2 ^ 63)) (min (2 ^ 63 - 1) (t - u))"

text \<open>\<open>Duration.Hours\<close>: Go's division truncates.\<close>

definition durationHours :: "duration \<Rightarrow> float64" where
  "durationHours d = (let h = sgn d * (\<bar>d\<bar> div hour); nsec = sgn d * (\<bar>d\<bar> mod hour)
                      in fadd (fl (of_int h)) (fdiv (fl (of_int nsec)) 3600000000000))"

definition daysSince :: "time \<Rightarrow> time \<Rightarrow> float64" where
  "daysSince now anchor = fdiv (durationHours (timeSub now anchor)) 24"

definition Confidence ::
  "(float64 \<Rightarrow> float64 \<Rightarrow> float64) \<Rightarrow> (float64 \<Rightarrow> float64) \<Rightarrow> BeliefMeta \<Rightarrow> time \<Rightarrow> float64 \<Rightarrow> float64 \<Rightarrow> float64" where
  "Confidence pow expf m now decayRate inferenceDecayBase =
     (let effectiveRate = fdiv decayRate (pow inferenceDecayBase (fl (of_int (bm_InferenceDistance m))));
          days = max 0 (daysSince now (bm_AnchorAt m))
      in fmul (bm_BaseConfidence m) (expf (fmul (- effectiveRate) days)))"

section \<open>Loading\<close>

text \<open>\<open>int(v)\<close> of a \<open>float64\<close> truncates.\<close>

definition truncInt :: "float64 \<Rightarrow> int" where
  "truncInt x = (if x < 0 then \<lceil>x\<rceil> else \<lfloor>x\<rfloor>)"

definition fieldsOf :: "json \<Rightarrow> string \<rightharpoonup> json" where
  "fieldsOf j = (case j of JObj fs \<Rightarrow> map_of fs | _ \<Rightarrow> Map.empty)"

definition strField :: "json \<Rightarrow> string \<Rightarrow> string" where
  "strField j k = (case fieldsOf j k of Some (JStr s) \<Rightarrow> s | _ \<Rightarrow> '''')"

definition decodeBeliefMeta :: "(string \<Rightarrow> time option) \<Rightarrow> json \<Rightarrow> BeliefMeta" where
  "decodeBeliefMeta parse j =
     \<lparr> bm_BaseConfidence = 0,
       bm_AnchorAt = (case fieldsOf j ''anchor_at'' of
                        Some (JStr s) \<Rightarrow> (case parse s of Some t \<Rightarrow> t | None \<Rightarrow> zeroTime) | _ \<Rightarrow> zeroTime),
       bm_InferenceDistance = (case fieldsOf j ''inference_distance'' of
                        Some (JNum x) \<Rightarrow> truncInt x | Some (JInt i) \<Rightarrow> truncInt (fl (of_int i)) | _ \<Rightarrow> 0),
       bm_VerificationState = strField j ''verification_state'',
       bm_Source = strField j ''source'',
       bm_EmotionalRegister = '''' \<rparr>"

definition decodeBelief :: "(string \<Rightarrow> time option) \<Rightarrow> json \<Rightarrow> float64 option \<Rightarrow> BeliefMeta" where
  "decodeBelief parse j baseConf =
     (decodeBeliefMeta parse j)\<lparr>bm_BaseConfidence := (case baseConf of Some c \<Rightarrow> c | None \<Rightarrow> 0),
                                bm_EmotionalRegister := strField j ''emotional_register''\<rparr>"

record BeliefRecord =
  br_ID :: string
  br_Belief :: "BeliefMeta option"
  br_TableName :: string

text \<open>\<open>LIKE\<close>: \<open>%\<close> is any text, \<open>_\<close> any character; \<open>eq\<close> compares the others.\<close>

fun like :: "(char \<Rightarrow> char \<Rightarrow> bool) \<Rightarrow> string \<Rightarrow> string \<Rightarrow> bool" where
  "like eq [] s = (s = [])"
| "like eq (p # ps) [] = (p = CHR ''%'' \<and> like eq ps [])"
| "like eq (p # ps) (c # s) =
     (if p = CHR ''%'' then like eq ps (c # s) \<or> like eq (p # ps) s
      else (p = CHR ''_'' \<or> eq p c) \<and> like eq ps s)"

definition stalePattern :: string where
  "stalePattern = ''%'' @ quoted ''verification_state'' @ '':'' @ quoted ''stale'' @ ''%''"

definition sqliteEq :: "char \<Rightarrow> char \<Rightarrow> bool" where
  "sqliteEq p c \<longleftrightarrow> asciiLower p = asciiLower c"

text \<open>The \<open>WHERE\<close> clause the three queries share.\<close>

definition loadable :: "(char \<Rightarrow> char \<Rightarrow> bool) \<Rightarrow> (json \<Rightarrow> string) \<Rightarrow> json \<Rightarrow> bool" where
  "loadable eq render j \<longleftrightarrow> render j \<noteq> ''{}'' \<and> render j \<noteq> '''' \<and> \<not> like eq stalePattern (render j)"

text \<open>The queries in their order: summaries, entities, reflections.\<close>

definition loadRecords ::
  "(char \<Rightarrow> char \<Rightarrow> bool) \<Rightarrow> (json \<Rightarrow> string) \<Rightarrow> (string \<Rightarrow> time option) \<Rightarrow> (string \<Rightarrow> error option) \<Rightarrow> graphDB
     \<Rightarrow> error + BeliefRecord list" where
  "loadRecords eq render parse fault db =
     (let rec = (\<lambda>table i b. \<lparr> br_ID = i, br_Belief = Some b, br_TableName = table \<rparr>);
          failed = (\<lambda>table e. Inl (''platform: querying '' @ table @ '': '' @ e))
      in case fault ''narrative_summaries'' of
           Some e \<Rightarrow> failed ''narrative_summaries'' e
         | None \<Rightarrow>
      (case fault ''kg_entities'' of
         Some e \<Rightarrow> failed ''kg_entities'' e
       | None \<Rightarrow>
      (case fault ''reflections'' of
         Some e \<Rightarrow> failed ''reflections'' e
       | None \<Rightarrow>
           Inr (map (\<lambda>r. rec ''narrative_summaries'' (nr_id r) (decodeBeliefMeta parse (nr_belief_meta r)))
                  (filter (\<lambda>r. loadable eq render (nr_belief_meta r)) (db_narratives (gd_mem db))) @
                map (\<lambda>r. rec ''kg_entities'' (ent_id r) (decodeBeliefMeta parse (ent_belief_meta r)))
                  (filter (\<lambda>r. loadable eq render (ent_belief_meta r)) (gd_entities db)) @
                map (\<lambda>r. rec ''reflections'' (rf_id r)
                           ((decodeBeliefMeta parse (rf_belief_meta r))\<lparr>bm_BaseConfidence := the (rf_base_confidence r)\<rparr>))
                  (filter (\<lambda>r. rf_base_confidence r \<noteq> None \<and> loadable eq render (rf_belief_meta r)) (gd_reflections db))))))"

text \<open>The comparison of \<open>LIKE\<close> ignores the case of letters in SQLite and not in Postgres.\<close>

definition SQLite_LoadBeliefRecords ::
  "(json \<Rightarrow> string) \<Rightarrow> (string \<Rightarrow> time option) \<Rightarrow> (string \<Rightarrow> error option) \<Rightarrow> graphDB \<Rightarrow> error + BeliefRecord list" where
  "SQLite_LoadBeliefRecords = loadRecords sqliteEq"

definition Postgres_LoadBeliefRecords ::
  "(json \<Rightarrow> string) \<Rightarrow> (string \<Rightarrow> time option) \<Rightarrow> (string \<Rightarrow> error option) \<Rightarrow> graphDB \<Rightarrow> error + BeliefRecord list" where
  "Postgres_LoadBeliefRecords = loadRecords (=)"

section \<open>The staleness pass\<close>

record DecayConfig =
  dc_DecayRate :: float64
  dc_InferenceDecayBase :: float64
  dc_StaleThreshold :: float64

definition DefaultDecayConfig :: DecayConfig where
  "DefaultDecayConfig = \<lparr> dc_DecayRate = fl (5 / 100), dc_InferenceDecayBase = fl (90 / 100), dc_StaleThreshold = fl (20 / 100) \<rparr>"

text \<open>
  \<open>FlagStaleBeliefs\<close> over a store with \<open>UpdateVerificationState\<close> as its callback: \<open>conf\<close> is the
  confidence of a belief now.
\<close>

fun FlagStaleBeliefs ::
  "(string \<Rightarrow> error option) \<Rightarrow> (BeliefMeta \<Rightarrow> float64) \<Rightarrow> float64 \<Rightarrow> BeliefRecord list \<Rightarrow> int \<Rightarrow> graphDB
     \<Rightarrow> (int \<times> error option) \<times> graphDB" where
  "FlagStaleBeliefs fault conf threshold [] flagged db = ((flagged, None), db)"
| "FlagStaleBeliefs fault conf threshold (rec # recs) flagged db =
     (case br_Belief rec of
        None \<Rightarrow> FlagStaleBeliefs fault conf threshold recs flagged db
      | Some b \<Rightarrow>
          if bm_VerificationState b = ''stale'' then FlagStaleBeliefs fault conf threshold recs flagged db
          else if conf b < threshold
          then (case UpdateVerificationState (fault (br_ID rec)) (br_TableName rec) (br_ID rec) ''stale'' db of
                  (Some e, db') \<Rightarrow> ((flagged, Some e), db')
                | (None, db') \<Rightarrow> FlagStaleBeliefs fault conf threshold recs (flagged + 1) db')
          else FlagStaleBeliefs fault conf threshold recs flagged db)"

record DecayReport =
  dr_TotalChecked :: int
  dr_NewlyStale :: int
  dr_ByInferenceDistance :: "int \<rightharpoonup> int"
  dr_ReVerified :: int

text \<open>\<open>m[k]++\<close>.\<close>

definition bump :: "int \<Rightarrow> (int \<rightharpoonup> int) \<Rightarrow> (int \<rightharpoonup> int)" where
  "bump k m = m(k \<mapsto> (case m k of Some n \<Rightarrow> n + 1 | None \<Rightarrow> 1))"

fun tallyDistances ::
  "(string \<Rightarrow> error option) \<Rightarrow> (BeliefMeta \<Rightarrow> float64) \<Rightarrow> float64 \<Rightarrow> graphDB \<Rightarrow> BeliefRecord list \<Rightarrow> (int \<rightharpoonup> int) \<Rightarrow> (int \<rightharpoonup> int)" where
  "tallyDistances fault conf threshold db [] m = m"
| "tallyDistances fault conf threshold db (rec # recs) m =
     (case br_Belief rec of
        None \<Rightarrow> tallyDistances fault conf threshold db recs m
      | Some b \<Rightarrow>
          if bm_VerificationState b = ''stale'' then tallyDistances fault conf threshold db recs m
          else if conf b \<ge> threshold then tallyDistances fault conf threshold db recs m
          else tallyDistances fault conf threshold db recs
                 (bump (case ComputeInferenceDistance fault (br_ID rec) db of Inl e \<Rightarrow> - 1 | Inr hops \<Rightarrow> hops) m))"

text \<open>
  The pass on a store: \<open>load\<close> is one of the two loaders. The report is there also when flagging fails.
\<close>

definition RunEndOfSessionDecay ::
  "(graphDB \<Rightarrow> error + BeliefRecord list) \<Rightarrow> (string \<Rightarrow> error option) \<Rightarrow> (string \<Rightarrow> error option)
     \<Rightarrow> (float64 \<Rightarrow> float64 \<Rightarrow> float64) \<Rightarrow> (float64 \<Rightarrow> float64) \<Rightarrow> time \<Rightarrow> DecayConfig \<Rightarrow> graphDB
     \<Rightarrow> (DecayReport option \<times> error option) \<times> graphDB" where
  "RunEndOfSessionDecay load updFault edgeFault pow expf now cfg db =
     (case load db of
        Inl e \<Rightarrow> ((None, Some (''belief: loading records for decay pass: '' @ e)), db)
      | Inr records \<Rightarrow>
          (let report = \<lparr> dr_TotalChecked = int (length records), dr_NewlyStale = 0, dr_ByInferenceDistance = Map.empty, dr_ReVerified = 0 \<rparr>;
               conf = (\<lambda>b. Confidence pow expf b now (dc_DecayRate cfg) (dc_InferenceDecayBase cfg))
           in case FlagStaleBeliefs updFault conf (dc_StaleThreshold cfg) records 0 db of
                ((flagged, Some e), db') \<Rightarrow> ((Some report, Some (''belief: decay pass failed: '' @ e)), db')
              | ((flagged, None), db') \<Rightarrow>
                  ((Some (report\<lparr>dr_NewlyStale := flagged,
                                 dr_ByInferenceDistance := tallyDistances edgeFault conf (dc_StaleThreshold cfg) db' records Map.empty\<rparr>),
                    None), db')))"

section \<open>What the pass does\<close>

definition markStale :: "(string \<times> string) set \<Rightarrow> graphDB \<Rightarrow> graphDB" where
  "markStale F db = (let upd = jsonSet ''verification_state'' (JStr ''stale'') in db\<lparr>
     gd_mem := (gd_mem db)\<lparr>db_narratives := map (\<lambda>r. if (''narrative_summaries'', nr_id r) \<in> F
       then r\<lparr>nr_belief_meta := upd (nr_belief_meta r)\<rparr> else r) (db_narratives (gd_mem db))\<rparr>,
     gd_reflections := map (\<lambda>r. if (''reflections'', rf_id r) \<in> F
       then r\<lparr>rf_belief_meta := upd (rf_belief_meta r)\<rparr> else r) (gd_reflections db),
     gd_entities := map (\<lambda>r. if (''kg_entities'', ent_id r) \<in> F
       then r\<lparr>ent_belief_meta := upd (ent_belief_meta r)\<rparr> else r) (gd_entities db)\<rparr>)"

definition needsFlag :: "(BeliefMeta \<Rightarrow> float64) \<Rightarrow> float64 \<Rightarrow> BeliefRecord \<Rightarrow> bool" where
  "needsFlag conf threshold rec =
     (case br_Belief rec of None \<Rightarrow> False | Some b \<Rightarrow> bm_VerificationState b \<noteq> ''stale'' \<and> conf b < threshold)"

abbreviation key :: "BeliefRecord \<Rightarrow> string \<times> string" where "key rec \<equiv> (br_TableName rec, br_ID rec)"

abbreviation beliefTables :: "string set" where
  "beliefTables \<equiv> {''narrative_summaries'', ''kg_entities'', ''reflections''}"

lemma jsonSet_idem [simp]: "jsonSet k v (jsonSet k v j) = jsonSet k v j"
  by (cases j) (auto simp: setField_idem)

lemma markStale_empty [simp]: "markStale {} db = db"
  by (simp add: markStale_def Let_def)

lemma markStale_Un: "markStale F (markStale G db) = markStale (F \<union> G) db"
  by (auto simp: markStale_def Let_def intro!: graphDB.equality memDB.equality map_cong)

lemma markStale_edges [simp]: "gd_edges (markStale F db) = gd_edges db"
  by (simp add: markStale_def Let_def)

lemma Update_markStale:
  assumes "t \<in> beliefTables"
  shows "UpdateVerificationState None t i ''stale'' db = (None, markStale {(t, i)} db)"
proof -
  from assms consider "t = ''narrative_summaries''" | "t = ''kg_entities''" | "t = ''reflections''" by blast
  then show ?thesis
    by cases (auto simp: UpdateVerificationState_def validateTableName_def setState_def markStale_def Let_def
        intro!: graphDB.equality memDB.equality map_cong)
qed

lemma FlagStaleBeliefs_marks:
  assumes "br_TableName ` set recs \<subseteq> beliefTables"
  shows "FlagStaleBeliefs (\<lambda>_. None) conf thr recs n db =
    ((n + int (length (filter (needsFlag conf thr) recs)), None), markStale (key ` set (filter (needsFlag conf thr) recs)) db)"
  using assms
proof (induction recs arbitrary: n db)
  case (Cons rec recs)
  show ?case
  proof (cases "needsFlag conf thr rec")
    case True
    moreover have "markStale S (markStale {key rec} db) = markStale (insert (key rec) S) db" for S
      by (simp add: markStale_Un)
    ultimately show ?thesis using Cons Update_markStale [of "br_TableName rec" "br_ID rec" db]
      by (auto simp: needsFlag_def split: option.splits)
  next
    case False
    with Cons show ?thesis by (auto simp: needsFlag_def split: option.splits)
  qed
qed simp

text \<open>The records a loader finds, without the order and the queries that fail.\<close>

definition loadedFrom ::
  "(json \<Rightarrow> bool) \<Rightarrow> (string \<Rightarrow> time option) \<Rightarrow> graphDB \<Rightarrow> BeliefRecord \<Rightarrow> bool" where
  "loadedFrom ok parse db rec \<longleftrightarrow>
     (\<exists>r \<in> set (db_narratives (gd_mem db)). ok (nr_belief_meta r) \<and> rec = \<lparr> br_ID = nr_id r,
        br_Belief = Some (decodeBeliefMeta parse (nr_belief_meta r)), br_TableName = ''narrative_summaries'' \<rparr>) \<or>
     (\<exists>r \<in> set (gd_entities db). ok (ent_belief_meta r) \<and> rec = \<lparr> br_ID = ent_id r,
        br_Belief = Some (decodeBeliefMeta parse (ent_belief_meta r)), br_TableName = ''kg_entities'' \<rparr>) \<or>
     (\<exists>r \<in> set (gd_reflections db). rf_base_confidence r \<noteq> None \<and> ok (rf_belief_meta r) \<and> rec = \<lparr> br_ID = rf_id r,
        br_Belief = Some ((decodeBeliefMeta parse (rf_belief_meta r))\<lparr>bm_BaseConfidence := the (rf_base_confidence r)\<rparr>),
        br_TableName = ''reflections'' \<rparr>)"

lemma loadRecords_Inr:
  "\<exists>recs. loadRecords eq render parse (\<lambda>_. None) db = Inr recs \<and>
     (\<forall>rec. rec \<in> set recs \<longleftrightarrow> loadedFrom (loadable eq render) parse db rec)"
  by (auto simp: loadRecords_def Let_def loadedFrom_def image_iff; blast)

lemma loadedFrom_tables: "loadedFrom ok parse db rec \<Longrightarrow> br_TableName rec \<in> beliefTables"
  by (auto simp: loadedFrom_def)

lemma strField_setField [simp]: "strField (JObj (setField k (JStr s) fs)) k = s"
  by (induction fs) (auto simp: strField_def fieldsOf_def)

definition beliefObjects :: "graphDB \<Rightarrow> bool" where
  "beliefObjects db \<longleftrightarrow> (\<forall>r \<in> set (db_narratives (gd_mem db)). \<exists>fs. nr_belief_meta r = JObj fs) \<and>
     (\<forall>r \<in> set (gd_entities db). \<exists>fs. ent_belief_meta r = JObj fs) \<and>
     (\<forall>r \<in> set (gd_reflections db). \<exists>fs. rf_belief_meta r = JObj fs)"

text \<open>After marking, a record a loader finds is stale or was found before and not marked.\<close>

lemma loadedFrom_markStale:
  assumes "loadedFrom ok parse (markStale F db) rec" "beliefObjects db"
  shows "(\<exists>b. br_Belief rec = Some b \<and> bm_VerificationState b = ''stale'') \<or> loadedFrom ok parse db rec \<and> key rec \<notin> F"
proof -
  have st: "bm_VerificationState (decodeBeliefMeta parse (jsonSet ''verification_state'' (JStr ''stale'') j)) = ''stale''"
    if "\<exists>fs. j = JObj fs" for j
    using that by (auto simp: decodeBeliefMeta_def)
  from assms(1) consider
      (n) r where "r \<in> set (db_narratives (gd_mem (markStale F db)))" "ok (nr_belief_meta r)" "rec = \<lparr> br_ID = nr_id r,
        br_Belief = Some (decodeBeliefMeta parse (nr_belief_meta r)), br_TableName = ''narrative_summaries'' \<rparr>"
    | (e) r where "r \<in> set (gd_entities (markStale F db))" "ok (ent_belief_meta r)" "rec = \<lparr> br_ID = ent_id r,
        br_Belief = Some (decodeBeliefMeta parse (ent_belief_meta r)), br_TableName = ''kg_entities'' \<rparr>"
    | (f) r where "r \<in> set (gd_reflections (markStale F db))" "rf_base_confidence r \<noteq> None" "ok (rf_belief_meta r)"
        "rec = \<lparr> br_ID = rf_id r, br_Belief = Some ((decodeBeliefMeta parse (rf_belief_meta r))\<lparr>bm_BaseConfidence := the (rf_base_confidence r)\<rparr>),
        br_TableName = ''reflections'' \<rparr>"
    unfolding loadedFrom_def by blast
  then show ?thesis
  proof cases
    case n
    then show ?thesis using assms(2) st
      by (auto simp: markStale_def Let_def beliefObjects_def loadedFrom_def split: if_splits)
  next
    case e
    then show ?thesis using assms(2) st
      by (auto simp: markStale_def Let_def beliefObjects_def loadedFrom_def split: if_splits)
  next
    case f
    then show ?thesis using assms(2) st
      by (auto simp: markStale_def Let_def beliefObjects_def loadedFrom_def split: if_splits)
  qed
qed

text \<open>A pass with the queries and updates succeeding.\<close>

abbreviation decayPass ::
  "(char \<Rightarrow> char \<Rightarrow> bool) \<Rightarrow> (json \<Rightarrow> string) \<Rightarrow> (string \<Rightarrow> time option) \<Rightarrow> (string \<Rightarrow> error option)
     \<Rightarrow> (float64 \<Rightarrow> float64 \<Rightarrow> float64) \<Rightarrow> (float64 \<Rightarrow> float64) \<Rightarrow> time \<Rightarrow> DecayConfig \<Rightarrow> graphDB
     \<Rightarrow> (DecayReport option \<times> error option) \<times> graphDB" where
  "decayPass eq render parse edgeFault pow expf now cfg \<equiv>
     RunEndOfSessionDecay (loadRecords eq render parse (\<lambda>_. None)) (\<lambda>_. None) edgeFault pow expf now cfg"

abbreviation confAt :: "(float64 \<Rightarrow> float64 \<Rightarrow> float64) \<Rightarrow> (float64 \<Rightarrow> float64) \<Rightarrow> time \<Rightarrow> DecayConfig \<Rightarrow> BeliefMeta \<Rightarrow> float64" where
  "confAt pow expf now cfg b \<equiv> Confidence pow expf b now (dc_DecayRate cfg) (dc_InferenceDecayBase cfg)"

abbreviation needsNow ::
  "(float64 \<Rightarrow> float64 \<Rightarrow> float64) \<Rightarrow> (float64 \<Rightarrow> float64) \<Rightarrow> time \<Rightarrow> DecayConfig \<Rightarrow> BeliefRecord \<Rightarrow> bool" where
  "needsNow pow expf now cfg \<equiv> needsFlag (confAt pow expf now cfg) (dc_StaleThreshold cfg)"

definition passReport ::
  "(string \<Rightarrow> error option) \<Rightarrow> (BeliefMeta \<Rightarrow> float64) \<Rightarrow> float64 \<Rightarrow> BeliefRecord list \<Rightarrow> graphDB \<Rightarrow> DecayReport" where
  "passReport ef conf thr recs db = \<lparr> dr_TotalChecked = int (length recs),
     dr_NewlyStale = int (length (filter (needsFlag conf thr) recs)),
     dr_ByInferenceDistance = tallyDistances ef conf thr db recs Map.empty, dr_ReVerified = 0 \<rparr>"

lemma decayPass_result:
  "\<exists>recs. (\<forall>rec. rec \<in> set recs \<longleftrightarrow> loadedFrom (loadable eq render) parse db rec) \<and>
     (let db' = markStale (key ` set (filter (needsNow pow expf now cfg) recs)) db
      in decayPass eq render parse ef pow expf now cfg db =
           ((Some (passReport ef (confAt pow expf now cfg) (dc_StaleThreshold cfg) recs db'), None), db'))"
proof -
  obtain recs where r: "loadRecords eq render parse (\<lambda>_. None) db = Inr recs"
    "\<forall>rec. rec \<in> set recs \<longleftrightarrow> loadedFrom (loadable eq render) parse db rec"
    using loadRecords_Inr by blast
  then have "br_TableName ` set recs \<subseteq> beliefTables" using loadedFrom_tables by blast
  then show ?thesis using r
    by (intro exI [of _ recs]) (simp add: RunEndOfSessionDecay_def Let_def FlagStaleBeliefs_marks passReport_def)
qed

text \<open>
  The pass is idempotent on both databases: repeated at the same time it flags nothing and leaves the
  database as it is.
\<close>

theorem decay_pass_idempotent:
  assumes "beliefObjects db"
    and "decayPass eq render parse ef pow expf now cfg db = (res, db')"
  shows "snd (decayPass eq render parse ef pow expf now cfg db') = db' \<and>
    (\<exists>rep. fst (decayPass eq render parse ef pow expf now cfg db') = (Some rep, None) \<and> dr_NewlyStale rep = 0)"
proof -
  let ?needs = "needsNow pow expf now cfg"
  obtain recs where r: "\<forall>rec. rec \<in> set recs \<longleftrightarrow> loadedFrom (loadable eq render) parse db rec"
    and db': "db' = markStale (key ` set (filter ?needs recs)) db"
    using decayPass_result [of eq render parse db pow expf now cfg ef] assms(2) unfolding Let_def by auto
  obtain recs' where r': "\<forall>rec. rec \<in> set recs' \<longleftrightarrow> loadedFrom (loadable eq render) parse db' rec"
    and res: "decayPass eq render parse ef pow expf now cfg db' =
      (let db'' = markStale (key ` set (filter ?needs recs')) db'
       in ((Some (passReport ef (confAt pow expf now cfg) (dc_StaleThreshold cfg) recs' db''), None), db''))"
    using decayPass_result [of eq render parse db' pow expf now cfg ef] unfolding Let_def by blast
  have "\<not> ?needs rec" if "rec \<in> set recs'" for rec
    using loadedFrom_markStale [OF _ assms(1)] that r r' db' by (fastforce simp: needsFlag_def)
  then have "filter ?needs recs' = []" by (simp add: filter_empty_conv)
  with res show ?thesis by (simp add: passReport_def)
qed

text \<open>The breakdown of the report.\<close>

lemma sum_bump:
  assumes "finite (dom m)"
  shows "(\<Sum>k \<in> dom (bump x m). the (bump x m k)) = (\<Sum>k \<in> dom m. the (m k)) + 1 \<and> finite (dom (bump x m))"
proof (cases "m x")
  case None
  then have "x \<notin> dom m" by auto
  then have "(\<Sum>k \<in> dom m. the (bump x m k)) = (\<Sum>k \<in> dom m. the (m k))" by (intro sum.cong) (auto simp: bump_def)
  moreover have "dom (bump x m) = insert x (dom m)" "the (bump x m x) = 1" using None by (auto simp: bump_def)
  ultimately show ?thesis using assms \<open>x \<notin> dom m\<close> by simp
next
  case (Some n)
  then have x: "x \<in> dom m" by auto
  then have "dom (bump x m) = dom m" by (auto simp: bump_def)
  moreover have "(\<Sum>k \<in> dom m - {x}. the (bump x m k)) = (\<Sum>k \<in> dom m - {x}. the (m k))"
    by (intro sum.cong) (auto simp: bump_def)
  ultimately show ?thesis using assms x Some
    by (simp add: sum.remove [of "dom m" x] bump_def)
qed

lemma tallyDistances_sum:
  assumes "finite (dom m)"
  shows "(\<Sum>k \<in> dom (tallyDistances f conf thr db recs m). the (tallyDistances f conf thr db recs m k)) =
    (\<Sum>k \<in> dom m. the (m k)) + int (length (filter (needsFlag conf thr) recs))"
  using assms
  by (induction f conf thr db recs m rule: tallyDistances.induct)
    (auto simp: needsFlag_def sum_bump split: option.splits)

text \<open>
  The counts of the report by inference distance add up to the number of newly stale records, the
  records whose distance could not be computed included under the key -1.
\<close>

theorem decay_report_adds_up:
  assumes "decayPass eq render parse ef pow expf now cfg db = ((Some rep, None), db')"
  shows "(\<Sum>k \<in> dom (dr_ByInferenceDistance rep). the (dr_ByInferenceDistance rep k)) = dr_NewlyStale rep"
proof -
  obtain recs where "rep = passReport ef (confAt pow expf now cfg) (dc_StaleThreshold cfg) recs db'"
    using decayPass_result [of eq render parse db pow expf now cfg ef] assms unfolding Let_def by auto
  then show ?thesis by (simp add: passReport_def tallyDistances_sum)
qed

text \<open>
  The text of a summary's or an entity's belief has no base confidence, so it is read back as zero:
  after one pass with a positive threshold every such record a later pass still loads is stale,
  whatever confidence it was written with and however recent it is.
\<close>

theorem tier3_tier5_beliefs_go_stale:
  assumes "beliefObjects db" "0 < dc_StaleThreshold cfg"
    and "decayPass eq render parse ef pow expf now cfg db = (res, db')"
  shows "(\<forall>r \<in> set (db_narratives (gd_mem db')). loadable eq render (nr_belief_meta r) \<longrightarrow>
            strField (nr_belief_meta r) ''verification_state'' = ''stale'') \<and>
         (\<forall>r \<in> set (gd_entities db'). loadable eq render (ent_belief_meta r) \<longrightarrow>
            strField (ent_belief_meta r) ''verification_state'' = ''stale'')"
proof -
  let ?needs = "needsNow pow expf now cfg"
  obtain recs where r: "\<forall>rec. rec \<in> set recs \<longleftrightarrow> loadedFrom (loadable eq render) parse db rec"
    and db': "db' = markStale (key ` set (filter ?needs recs)) db"
    using decayPass_result [of eq render parse db pow expf now cfg ef] assms(3) unfolding Let_def by auto
  have zero: "confAt pow expf now cfg (decodeBeliefMeta parse j) = 0" for j
    by (simp add: Confidence_def decodeBeliefMeta_def Let_def fmul_def fl_def)
  have st: "bm_VerificationState b = ''stale''"
    if "loadedFrom (loadable eq render) parse db' rec" "br_Belief rec = Some b" "b = decodeBeliefMeta parse j" for rec b j
    using loadedFrom_markStale [OF that(1) [unfolded db'] assms(1)] that(2,3) r zero [of j] assms(2)
    by (force simp: needsFlag_def image_iff)
  have "loadedFrom (loadable eq render) parse db' \<lparr> br_ID = nr_id r, br_Belief = Some (decodeBeliefMeta parse (nr_belief_meta r)),
      br_TableName = ''narrative_summaries'' \<rparr>" if "r \<in> set (db_narratives (gd_mem db'))" "loadable eq render (nr_belief_meta r)" for r
    using that by (auto simp: loadedFrom_def)
  moreover have "loadedFrom (loadable eq render) parse db' \<lparr> br_ID = ent_id r, br_Belief = Some (decodeBeliefMeta parse (ent_belief_meta r)),
      br_TableName = ''kg_entities'' \<rparr>" if "r \<in> set (gd_entities db')" "loadable eq render (ent_belief_meta r)" for r
    using that by (auto simp: loadedFrom_def)
  ultimately show ?thesis using st by (fastforce simp: decodeBeliefMeta_def)
qed

text \<open>
  A summary written now, with full confidence, in a database whose texts are like those of
  \<open>jsonb\<close>: a space follows every colon and comma.
\<close>

fun jsonbText :: "json \<Rightarrow> string" where
  "jsonbText JNull = ''null''"
| "jsonbText (JNum x) = itoa (truncInt x)"
| "jsonbText (JInt i) = itoa i"
| "jsonbText (JStr s) = quoted s"
| "jsonbText (JBool b) = (if b then ''true'' else ''false'')"
| "jsonbText (JArr xs) = ''['' @ strJoin (map jsonbText xs) '', '' @ '']''"
| "jsonbText (JObj fs) = ''{'' @ strJoin (map (\<lambda>(k, v). quoted k @ '': '' @ jsonbText v) fs) '', '' @ ''}''"

definition freshBelief :: BeliefMeta where
  "freshBelief = \<lparr> bm_BaseConfidence = 1, bm_AnchorAt = 0, bm_InferenceDistance = 0, bm_VerificationState = ''unverified'',
     bm_Source = ''experience'', bm_EmotionalRegister = '''' \<rparr>"

definition freshDB :: graphDB where
  "freshDB = sampleGraph\<lparr>gd_mem := \<lparr> db_logs = [], db_narratives =
     [narrativeRowOf (\<lambda>t. ''1970-01-01T00:00:00Z'') ((sampleNarrative ''n'')\<lparr>ns_Belief := Some freshBelief\<rparr>) ''n'' 0],
     db_jobs = [] \<rparr>\<rparr>"

definition freshPass :: "graphDB \<Rightarrow> (DecayReport option \<times> error option) \<times> graphDB" where
  "freshPass = decayPass (=) jsonbText (\<lambda>s. Some 0) (\<lambda>_. None) (\<lambda>b e. 1) (\<lambda>x. 1) 0
     \<lparr> dc_DecayRate = 1 / 16, dc_InferenceDecayBase = 1, dc_StaleThreshold = 1 / 4 \<rparr>"

lemma freshDB_objects: "beliefObjects freshDB"
  by (simp add: beliefObjects_def freshDB_def sampleGraph_def narrativeRowOf_def beliefMetaJSON_def split: option.split)

lemma freshDB_loads:
  "loadRecords (=) jsonbText (\<lambda>s. Some 0) (\<lambda>_. None) freshDB = Inr [\<lparr> br_ID = ''n'',
     br_Belief = Some (freshBelief\<lparr>bm_BaseConfidence := 0\<rparr>), br_TableName = ''narrative_summaries'' \<rparr>]"
  by code_simp

text \<open>The pass flags the fresh summary.\<close>

lemma freshPass_flags: "freshPass freshDB = ((Some \<lparr> dr_TotalChecked = 1, dr_NewlyStale = 1,
    dr_ByInferenceDistance = [1 \<mapsto> 1], dr_ReVerified = 0 \<rparr>, None), markStale {(''narrative_summaries'', ''n'')} freshDB)"
proof -
  have "ComputeInferenceDistance (\<lambda>_. None) ''n'' (markStale {(''narrative_summaries'', ''n'')} freshDB) = Inr 1"
    by code_simp
  then show ?thesis
    by (simp add: freshPass_def RunEndOfSessionDecay_def freshDB_loads Update_markStale Let_def
        freshBelief_def Confidence_def fmul_def bump_def)
qed

theorem decay_pass_idempotent_witness:
  "snd (freshPass (snd (freshPass freshDB))) = snd (freshPass freshDB) \<and>
   (\<exists>rep. fst (freshPass (snd (freshPass freshDB))) = (Some rep, None) \<and> dr_NewlyStale rep = 0)"
  unfolding freshPass_def
  by (rule decay_pass_idempotent [OF freshDB_objects, where res = "fst (freshPass freshDB)"]) (simp add: freshPass_def)

theorem decay_report_adds_up_witness: "(\<Sum>k \<in> dom [1 \<mapsto> 1 :: int]. the ([1 \<mapsto> 1 :: int] (k :: int))) = 1"
  using decay_report_adds_up [OF freshPass_flags [unfolded freshPass_def]] by simp

lemma freshRow_loads: "loadable (=) jsonbText (nr_belief_meta (hd (db_narratives (gd_mem (markStale {(''narrative_summaries'', ''n'')} freshDB)))))"
  by code_simp

theorem tier3_tier5_beliefs_go_stale_witness:
  "bm_BaseConfidence freshBelief = 1 \<and>
   strField (nr_belief_meta (hd (db_narratives (gd_mem (markStale {(''narrative_summaries'', ''n'')} freshDB))))) ''verification_state'' = ''stale''"
proof -
  let ?db = "markStale {(''narrative_summaries'', ''n'')} freshDB"
  have "hd (db_narratives (gd_mem ?db)) \<in> set (db_narratives (gd_mem ?db))"
    by (simp add: markStale_def freshDB_def Let_def)
  then have "strField (nr_belief_meta (hd (db_narratives (gd_mem ?db)))) ''verification_state'' = ''stale''"
    using tier3_tier5_beliefs_go_stale [OF freshDB_objects _ freshPass_flags [unfolded freshPass_def]] freshRow_loads by simp
  then show ?thesis by (simp add: freshBelief_def)
qed

section \<open>Bounds of confidence\<close>

text \<open>
  A belief never gains confidence: with a rate that is not negative, and \<open>math.Exp\<close> between zero and one
  on numbers that are not positive, the confidence at any time is between zero and the base.
\<close>

theorem confidence_never_exceeds_base:
  assumes expf: "\<And>x. x \<le> 0 \<Longrightarrow> 0 \<le> expf x \<and> expf x \<le> 1"
    and base: "isFloat (bm_BaseConfidence m)" "0 \<le> bm_BaseConfidence m"
    and rate: "0 \<le> rate" "0 < pow ibase (fl (of_int (bm_InferenceDistance m)))"
  shows "0 \<le> Confidence pow expf m now rate ibase \<and> Confidence pow expf m now rate ibase \<le> bm_BaseConfidence m"
proof -
  let ?d = "max 0 (daysSince now (bm_AnchorAt m))"
  let ?r = "fdiv rate (pow ibase (fl (of_int (bm_InferenceDistance m))))"
  have "0 \<le> ?r" using rate by (simp add: fdiv_def fl_nonneg)
  then have "0 \<le> fl (?r * ?d)" by (intro fl_nonneg mult_nonneg_nonneg) auto
  then have "fmul (- ?r) ?d \<le> 0" by (simp add: fmul_def fl_uminus)
  from expf [OF this] have e: "0 \<le> expf (fmul (- ?r) ?d)" "expf (fmul (- ?r) ?d) \<le> 1" by auto
  have "bm_BaseConfidence m * expf (fmul (- ?r) ?d) \<le> bm_BaseConfidence m" using e base(2) by (simp add: mult_left_le)
  then show ?thesis unfolding Confidence_def Let_def
    using fl_le [OF base(1)] base(2) e by (simp add: fmul_def fl_nonneg)
qed

theorem confidence_never_exceeds_base_witness:
  "0 \<le> Confidence (\<lambda>b e. 1) (\<lambda>x. if x < 0 then 1 / 2 else 1) freshBelief (24 * hour) 1 1 \<and>
   Confidence (\<lambda>b e. 1) (\<lambda>x. if x < 0 then 1 / 2 else 1) freshBelief (24 * hour) 1 1 \<le> 1"
  using confidence_never_exceeds_base [of "\<lambda>x. if x < 0 then 1 / 2 else 1" freshBelief 1 "\<lambda>b e. 1" 1 "24 * hour"]
  by (simp add: freshBelief_def)

end
