(* ===== verification/Retrieval.thy ===== *)
theory Retrieval
  imports Beliefs
begin

text \<open>
  Ranking of retrieved records (\<^verbatim>\<open>internal/memory/retrieve.go\<close>) and the convergence metrics of
  reflections (\<^verbatim>\<open>internal/memory/metrics.go\<close>).

  \<open>sort.Slice\<close> promises a sorted permutation and no order among equals: it is an argument \<open>srt\<close> of
  the model, and \<open>sortsDown\<close> states that promise. \<open>exp\<close> is \<open>math.Exp\<close> and \<open>ln2\<close> is \<open>math.Ln2\<close> as a \<open>float64\<close>.
\<close>

section \<open>Scores\<close>

record RetrievalWeights =
  rw_Recency :: float64
  rw_Relevance :: float64
  rw_Importance :: float64

definition DefaultWeights :: RetrievalWeights where
  "DefaultWeights = \<lparr> rw_Recency = fl (35 / 100), rw_Relevance = fl (45 / 100), rw_Importance = fl (20 / 100) \<rparr>"

definition CompositeScore :: "float64 \<Rightarrow> float64 \<Rightarrow> float64 \<Rightarrow> RetrievalWeights \<Rightarrow> float64" where
  "CompositeScore recency relevance importance weights =
     fadd (fadd (fmul (rw_Recency weights) recency) (fmul (rw_Relevance weights) relevance)) (fmul (rw_Importance weights) importance)"

definition RecencyScore :: "(float64 \<Rightarrow> float64) \<Rightarrow> float64 \<Rightarrow> time \<Rightarrow> time \<Rightarrow> float64 \<Rightarrow> float64" where
  "RecencyScore expf ln2 anchorAt now windowDays =
     (let windowDays = (if windowDays \<le> 0 then 30 else windowDays);
          elapsed = daysSince now anchorAt
      in if elapsed < 0 then 1 else expf (fmul (fdiv (- elapsed) windowDays) ln2))"

definition RRFScore :: "int \<Rightarrow> int \<Rightarrow> float64 \<Rightarrow> float64" where
  "RRFScore ftsRank vectorRank k =
     (let k = (if k \<le> 0 then 60 else k);
          score = (if ftsRank > 0 then fadd 0 (fdiv 1 (fadd k (fl (of_int ftsRank)))) else 0)
      in if vectorRank > 0 then fadd score (fdiv 1 (fadd k (fl (of_int vectorRank)))) else score)"

section \<open>Hybrid search\<close>

record Hit =
  hit_ID :: string
  hit_Score :: float64
  hit_Meta :: "(string \<times> json) list"

text \<open>The rank maps: a later hit with the same identifier overwrites an earlier one.\<close>

fun rankLoop :: "Hit list \<Rightarrow> int \<Rightarrow> (string \<Rightarrow> int) \<Rightarrow> (string \<Rightarrow> int)" where
  "rankLoop [] i m = m"
| "rankLoop (h # hs) i m = rankLoop hs (i + 1) (m(hit_ID h := i + 1))"

definition rankOf :: "Hit list \<Rightarrow> string \<Rightarrow> int" where
  "rankOf hits = rankLoop hits 0 (\<lambda>_. 0)"

fun collectIDs :: "Hit list \<Rightarrow> string list \<Rightarrow> string list" where
  "collectIDs [] ids = ids"
| "collectIDs (h # hs) ids = (if hit_ID h \<in> set ids then collectIDs hs ids else collectIDs hs (ids @ [hit_ID h]))"

text \<open>The metadata of a hit: the last full-text hit with its identifier, or else the first vector hit.\<close>

definition metaOf :: "Hit list \<Rightarrow> Hit list \<Rightarrow> string \<Rightarrow> (string \<times> json) list" where
  "metaOf fts vec x = (case find (\<lambda>h. hit_ID h = x) (rev fts @ vec) of Some h \<Rightarrow> hit_Meta h | None \<Rightarrow> [])"

definition HybridSearch :: "(Hit list \<Rightarrow> Hit list) \<Rightarrow> Hit list \<Rightarrow> Hit list \<Rightarrow> int \<Rightarrow> Hit list" where
  "HybridSearch srt ftsHits vectorHits topK =
     (let allIDs = collectIDs vectorHits (collectIDs ftsHits []);
          results = map (\<lambda>x. \<lparr> hit_ID = x, hit_Score = RRFScore (rankOf ftsHits x) (rankOf vectorHits x) 60,
                              hit_Meta = metaOf ftsHits vectorHits x \<rparr>) allIDs;
          results = srt results
      in if topK > 0 \<and> int (length results) > topK then take (nat topK) results else results)"

definition sortsDown :: "(Hit list \<Rightarrow> Hit list) \<Rightarrow> bool" where
  "sortsDown srt \<longleftrightarrow> (\<forall>xs. mset (srt xs) = mset xs \<and> sorted_wrt (\<lambda>a b. hit_Score a \<ge> hit_Score b) (srt xs))"

section \<open>Convergence metrics\<close>

record ConvergenceMetrics =
  cm_ReflectionDepthRatio :: float64
  cm_T4ToT4Count :: int
  cm_T4ToGroundCount :: int
  cm_SessionNumber :: int

fun countEdges :: "MemoryEdge list \<Rightarrow> int \<times> int \<Rightarrow> int \<times> int" where
  "countEdges [] c = c"
| "countEdges (e # es) (self, ground) =
     (if me_EdgeType e \<noteq> EdgeDerivedFrom \<or> me_FromTier e \<noteq> 4 then countEdges es (self, ground)
      else if me_ToTier e = 4 then countEdges es (self + 1, ground)
      else if me_ToTier e = 2 \<or> me_ToTier e = 3 then countEdges es (self, ground + 1)
      else countEdges es (self, ground))"

fun countSession :: "(string \<Rightarrow> error option) \<Rightarrow> graphDB \<Rightarrow> string list \<Rightarrow> int \<times> int \<Rightarrow> error + int \<times> int" where
  "countSession fault db [] c = Inr c"
| "countSession fault db (i # ids) c =
     (case storeGetEdges (fault i) i ''from'' db of
        Inl e \<Rightarrow> Inl (''convergence: querying edges for '' @ i @ '': '' @ e)
      | Inr es \<Rightarrow> countSession fault db ids (countEdges es c))"

definition ComputeConvergenceMetrics ::
  "(string \<Rightarrow> error option) \<Rightarrow> int \<Rightarrow> string list \<Rightarrow> graphDB \<Rightarrow> error + ConvergenceMetrics" where
  "ComputeConvergenceMetrics fault sessionNumber sessionEdgeIDs db =
     (case countSession fault db sessionEdgeIDs (0, 0) of
        Inl e \<Rightarrow> Inl e
      | Inr (self, ground) \<Rightarrow>
          Inr \<lparr> cm_ReflectionDepthRatio = (if self + ground > 0 then fdiv (fl (of_int self)) (fl (of_int (self + ground))) else 0),
                cm_T4ToT4Count = self, cm_T4ToGroundCount = ground, cm_SessionNumber = sessionNumber \<rparr>)"

record ConvergenceWindow =
  cw_History :: "ConvergenceMetrics list"
  cw_Window :: int

definition NewConvergenceWindow :: "int \<Rightarrow> ConvergenceWindow" where
  "NewConvergenceWindow sz = \<lparr> cw_History = [], cw_Window = (if sz \<le> 0 then 10 else sz) \<rparr>"

definition Add :: "ConvergenceMetrics \<Rightarrow> ConvergenceWindow \<Rightarrow> ConvergenceWindow" where
  "Add m w = (let h = cw_History w @ [m]
              in w\<lparr>cw_History := (if int (length h) > cw_Window w then drop (nat (int (length h) - cw_Window w)) h else h)\<rparr>)"

definition RollingRatio :: "ConvergenceWindow \<Rightarrow> float64" where
  "RollingRatio w =
     (if cw_History w = [] then 0
      else fdiv (foldl (\<lambda>sum m. fadd sum (cm_ReflectionDepthRatio m)) 0 (cw_History w)) (fl (of_nat (length (cw_History w)))))"

text \<open>The loop of \<open>IsUpward\<close> over neighbouring entries.\<close>

fun upwardLoop :: "float64 list \<Rightarrow> bool \<Rightarrow> bool" where
  "upwardLoop (a # b # rs) strict = (if b < a then False else upwardLoop (b # rs) (strict \<or> b > a))"
| "upwardLoop rs strict = strict"

definition IsUpward :: "ConvergenceWindow \<Rightarrow> bool" where
  "IsUpward w =
     (let n = length (cw_History w)
      in if n < 2 then False else upwardLoop (map cm_ReflectionDepthRatio (drop (n - 5) (cw_History w))) False)"

definition ShouldNudge :: "float64 \<Rightarrow> int \<Rightarrow> int \<Rightarrow> int \<Rightarrow> ConvergenceWindow \<Rightarrow> bool" where
  "ShouldNudge threshold cooldown lastNudgeSession currentSession w =
     (if currentSession - lastNudgeSession < cooldown then False
      else if RollingRatio w < threshold then False
      else IsUpward w)"

section \<open>Properties of the search\<close>

lemma collectIDs_set: "set (collectIDs hs ids) = set ids \<union> hit_ID ` set hs"
  by (induction hs ids rule: collectIDs.induct) auto

lemma collectIDs_distinct: "distinct ids \<Longrightarrow> distinct (collectIDs hs ids)"
  by (induction hs ids rule: collectIDs.induct) auto

lemma rankLoop_other: "x \<notin> hit_ID ` set hs \<Longrightarrow> rankLoop hs i m x = m x"
  by (induction hs i m rule: rankLoop.induct) auto

lemma rankLoop_nth:
  "distinct (map hit_ID hs) \<Longrightarrow> k < length hs \<Longrightarrow> rankLoop hs i m (hit_ID (hs ! k)) = i + int k + 1"
proof (induction hs i m arbitrary: k rule: rankLoop.induct)
  case (2 h hs i m)
  show ?case
  proof (cases k)
    case (Suc j)
    with 2 have "rankLoop hs (i + 1) (m(hit_ID h := i + 1)) (hit_ID (hs ! j)) = i + 1 + int j + 1" by (intro 2(1)) auto
    with Suc show ?thesis by simp
  qed (use 2 in \<open>simp add: rankLoop_other\<close>)
qed simp

text \<open>The rank of a hit is its position from one, and zero for an identifier that is not there.\<close>

lemma rankOf_nth: "distinct (map hit_ID hs) \<Longrightarrow> k < length hs \<Longrightarrow> rankOf hs (hit_ID (hs ! k)) = int k + 1"
  by (simp add: rankOf_def rankLoop_nth)

lemma rankOf_absent: "x \<notin> hit_ID ` set hs \<Longrightarrow> rankOf hs x = 0"
  by (simp add: rankOf_def rankLoop_other)

lemma sortsDown_sort_key: "sortsDown (sort_key (\<lambda>h. - hit_Score h))"
proof -
  have "sorted_wrt (\<lambda>a b. hit_Score a \<ge> hit_Score b) (sort_key (\<lambda>h. - hit_Score h) xs)" for xs :: "Hit list"
    using sorted_sort_key [of "\<lambda>h. - hit_Score h" xs] by (simp add: sorted_map)
  then show ?thesis by (simp add: sortsDown_def)
qed

text \<open>
  The specification of a search over the identifiers \<open>S\<close>: one hit for every identifier kept, at most \<open>topK\<close>
  of them when it is positive and all otherwise, each with its score, in descending order, and no
  identifier left out has a better score than a hit returned.
\<close>

definition bestHits :: "(string \<Rightarrow> float64) \<Rightarrow> string set \<Rightarrow> int \<Rightarrow> Hit list \<Rightarrow> bool" where
  "bestHits score S topK out \<longleftrightarrow> distinct (map hit_ID out) \<and> hit_ID ` set out \<subseteq> S \<and>
    length out = (if topK > 0 then min (nat topK) (card S) else card S) \<and>
    (\<forall>h \<in> set out. hit_Score h = score (hit_ID h)) \<and>
    sorted_wrt (\<lambda>a b. hit_Score a \<ge> hit_Score b) out \<and>
    (\<forall>x \<in> S - hit_ID ` set out. \<forall>h \<in> set out. score x \<le> hit_Score h)"

definition fusedScore :: "Hit list \<Rightarrow> Hit list \<Rightarrow> string \<Rightarrow> float64" where
  "fusedScore fts vec x = RRFScore (rankOf fts x) (rankOf vec x) 60"

text \<open>
  Hybrid search returns the best hits of the two lists by the fused score of their ranks, whatever
  order \<open>sort.Slice\<close> gives to equals.
\<close>

theorem hybrid_search_top_k:
  assumes "sortsDown srt"
  shows "bestHits (fusedScore fts vec) (hit_ID ` set fts \<union> hit_ID ` set vec) topK (HybridSearch srt fts vec topK)"
proof -
  define ids where "ids = collectIDs vec (collectIDs fts [])"
  define S where "S = hit_ID ` set fts \<union> hit_ID ` set vec"
  define score where "score = fusedScore fts vec"
  define out where "out = HybridSearch srt fts vec topK"
  define f where "f = (\<lambda>x. \<lparr> hit_ID = x, hit_Score = score x, hit_Meta = metaOf fts vec x \<rparr>)"
  define rs where "rs = srt (map f ids)"
  define n where "n = (if topK > 0 then min (nat topK) (length rs) else length rs)"
  have f [simp]: "hit_ID (f x) = x" "hit_Score (f x) = score x" for x by (simp_all add: f_def)
  have ids: "set ids = S" "distinct ids" by (auto simp: ids_def S_def collectIDs_set collectIDs_distinct)
  have m: "mset rs = mset (map f ids)" and srt: "sorted_wrt (\<lambda>a b. hit_Score a \<ge> hit_Score b) rs"
    using assms(1) by (auto simp: sortsDown_def rs_def)
  have rs: "set rs = f ` S" using m ids by (metis mset_eq_setD set_map)
  have len: "length rs = card S" using m ids by (metis distinct_card length_map mset_eq_length)
  have "mset (map hit_ID rs) = mset (map hit_ID (map f ids))" using m by (metis mset_map)
  then have "mset (map hit_ID rs) = mset ids" by (simp add: comp_def)
  then have dist: "distinct (map hit_ID rs)" using ids(2) by (metis mset_eq_imp_distinct_iff)
  have out: "out = take n rs"
    unfolding out_def HybridSearch_def Let_def ids_def [symmetric] fusedScore_def [symmetric] score_def [symmetric] f_def [symmetric] rs_def [symmetric]
    by (auto simp: n_def min_def)
  have "distinct (map hit_ID out)" unfolding out take_map [symmetric] using dist by (rule distinct_take)
  moreover have in_rs: "set out \<subseteq> f ` S" unfolding out using rs set_take_subset by fast
  moreover have "length out = (if topK > 0 then min (nat topK) (card S) else card S)" by (simp add: out n_def len)
  moreover have so: "sorted_wrt (\<lambda>a b. hit_Score a \<ge> hit_Score b) (take n rs @ drop n rs)" using srt by simp
  moreover have "score x \<le> hit_Score h" if "x \<in> S - hit_ID ` set out" "h \<in> set out" for x h
  proof -
    have "f x \<in> set (take n rs) \<union> set (drop n rs)" using that rs by (simp flip: set_append)
    moreover have "f x \<notin> set (take n rs)" using that out f(1) by (metis DiffD2 imageI)
    ultimately have "hit_Score (f x) \<le> hit_Score h" using so that(2) unfolding sorted_wrt_append out by blast
    then show ?thesis by simp
  qed
  ultimately show ?thesis
    unfolding bestHits_def S_def [symmetric] score_def [symmetric] out_def [symmetric]
    by (auto simp: out sorted_wrt_append)
qed

theorem hybrid_search_top_k_witness:
  "bestHits (fusedScore [\<lparr> hit_ID = ''a'', hit_Score = 0, hit_Meta = [] \<rparr>] [\<lparr> hit_ID = ''b'', hit_Score = 0, hit_Meta = [] \<rparr>])
     {''a'', ''b''} 1
     (HybridSearch (sort_key (\<lambda>h. - hit_Score h)) [\<lparr> hit_ID = ''a'', hit_Score = 0, hit_Meta = [] \<rparr>]
        [\<lparr> hit_ID = ''b'', hit_Score = 0, hit_Meta = [] \<rparr>] 1)"
  using hybrid_search_top_k [OF sortsDown_sort_key, of "[\<lparr> hit_ID = ''a'', hit_Score = 0, hit_Meta = [] \<rparr>]"
      "[\<lparr> hit_ID = ''b'', hit_Score = 0, hit_Meta = [] \<rparr>]" 1] by (simp add: insert_commute)

text \<open>A hit no worse ranked in both searches has no smaller score.\<close>

lemma RRF_term_antimono: "0 < i \<Longrightarrow> i \<le> j \<Longrightarrow> fdiv 1 (fadd 60 (fl (of_int j))) \<le> fdiv 1 (fadd 60 (fl (of_int i)))"
proof -
  assume i: "0 < i" "i \<le> j"
  have "fl (of_int i) \<le> fl (of_int j)" using i by (intro fl_mono) simp
  then have le: "fadd 60 (fl (of_int i)) \<le> fadd 60 (fl (of_int j))" unfolding fadd_def by (intro fl_mono) simp
  have "(1 :: rat) \<le> fl (60 + fl (of_int i))" using i fl_nonneg [of "of_int i"] by (intro fl_ge) auto
  with le show ?thesis unfolding fdiv_def by (intro fl_mono divide_left_mono) (auto simp: fadd_def)
qed

lemma RRFScore_antimono:
  assumes "0 < i" "i \<le> i'" "0 < j" "j \<le> j'"
  shows "RRFScore i' j' 60 \<le> RRFScore i j 60"
proof -
  have "fadd 0 (fdiv 1 (fadd 60 (fl (of_int i')))) \<le> fadd 0 (fdiv 1 (fadd 60 (fl (of_int i))))"
    unfolding fadd_def [of 0] using RRF_term_antimono [OF assms(1,2)] by (intro fl_mono) simp
  with RRF_term_antimono [OF assms(3,4)] assms show ?thesis
    unfolding RRFScore_def Let_def by (simp add: fadd_def [of "fadd 0 _"]) (intro fl_mono add_mono)
qed

section \<open>Properties of the metrics\<close>

lemma Add_history: "0 < cw_Window w \<Longrightarrow>
    cw_History (Add m w) = drop (Suc (length (cw_History w)) - nat (cw_Window w)) (cw_History w @ [m]) \<and>
    cw_Window (Add m w) = cw_Window w"
proof -
  assume "0 < cw_Window w"
  then have "nat (int (Suc (length (cw_History w))) - cw_Window w) = Suc (length (cw_History w)) - nat (cw_Window w)" by linarith
  then show ?thesis by (auto simp: Add_def Let_def)
qed

text \<open>
  The window holds the latest metrics, at most as many as its size: after any sequence of additions the
  history is the end of that sequence.
\<close>

theorem convergence_window_keeps_latest:
  "cw_History (foldl (\<lambda>w m. Add m w) (NewConvergenceWindow n) ms) = drop (length ms - nat (if n \<le> 0 then 10 else n)) ms"
proof -
  have "cw_History (foldl (\<lambda>w m. Add m w) (NewConvergenceWindow n) ms) = drop (length ms - nat (if n \<le> 0 then 10 else n)) ms \<and>
        cw_Window (foldl (\<lambda>w m. Add m w) (NewConvergenceWindow n) ms) = (if n \<le> 0 then 10 else n)"
  proof (induction ms rule: rev_induct)
    case (snoc m ms)
    let ?w = "foldl (\<lambda>w m. Add m w) (NewConvergenceWindow n) ms" and ?n = "nat (if n \<le> 0 then 10 else n)"
    have "0 < cw_Window ?w" using snoc by simp
    from Add_history [OF this, of m] snoc have
      h: "cw_History (Add m ?w) = drop (Suc (length ms - (length ms - ?n)) - ?n) (drop (length ms - ?n) ms @ [m])"
      and w: "cw_Window (Add m ?w) = (if n \<le> 0 then 10 else n)" by (simp_all only: length_drop)
    have "drop (length ms - ?n) ms @ [m] = drop (length ms - ?n) (ms @ [m])" by simp
    moreover have "Suc (length ms - (length ms - ?n)) - ?n + (length ms - ?n) = Suc (length ms) - ?n"
      using \<open>0 < cw_Window ?w\<close> snoc by auto
    ultimately show ?case using h w by (simp only: drop_drop foldl_append foldl.simps length_append_singleton simp_thms)
  qed (simp add: NewConvergenceWindow_def)
  then show ?thesis ..
qed

lemma countEdges_grow: "0 \<le> a \<Longrightarrow> 0 \<le> b \<Longrightarrow> countEdges es (a, b) = (a', b') \<Longrightarrow> 0 \<le> a' \<and> 0 \<le> b'"
  by (induction es "(a, b)" arbitrary: a b rule: countEdges.induct) (auto split: if_splits)

lemma countSession_grow:
  "0 \<le> fst c \<Longrightarrow> 0 \<le> snd c \<Longrightarrow> countSession f db ids c = Inr c' \<Longrightarrow> 0 \<le> fst c' \<and> 0 \<le> snd c'"
proof (induction f db ids c rule: countSession.induct)
  case (2 f db i ids c)
  from 2(4) obtain es where es: "storeGetEdges (f i) i ''from'' db = Inr es" "countSession f db ids (countEdges es c) = Inr c'"
    by (auto split: sum.splits)
  moreover have "0 \<le> fst (countEdges es c) \<and> 0 \<le> snd (countEdges es c)"
    using countEdges_grow [of "fst c" "snd c" es] 2(2,3) by (metis prod.collapse)
  ultimately show ?case using 2(1) by blast
qed simp

definition ratioOK :: "ConvergenceMetrics \<Rightarrow> bool" where
  "ratioOK m \<longleftrightarrow> 0 \<le> cm_ReflectionDepthRatio m \<and> cm_ReflectionDepthRatio m \<le> 1"

lemma metrics_ratio: "ComputeConvergenceMetrics f s ids db = Inr m \<Longrightarrow> ratioOK m"
proof -
  assume "ComputeConvergenceMetrics f s ids db = Inr m"
  then obtain a b where "countSession f db ids (0, 0) = Inr (a, b)" and
    m: "cm_ReflectionDepthRatio m = (if a + b > 0 then fdiv (fl (of_int a)) (fl (of_int (a + b))) else 0)"
    by (auto simp: ComputeConvergenceMetrics_def split: sum.splits)
  with countSession_grow [of "(0, 0)"] have ab: "0 \<le> a" "0 \<le> b" by fastforce+
  have "fl (of_int a) \<le> fl (of_int (a + b))" using ab by (intro fl_mono) simp
  moreover have "0 \<le> fl (of_int (a + b))" using ab by (intro fl_nonneg) simp
  ultimately have "fl (of_int a) / fl (of_int (a + b)) \<le> 1" by (metis divide_le_eq_1 divide_eq_0_iff le_less zero_le_one)
  then show ?thesis using ab by (auto simp: ratioOK_def m fdiv_def intro!: fl_nonneg fl_le divide_nonneg_nonneg)
qed

text \<open>The rounded sum of \<open>n\<close> ratios is at most \<open>n\<close>, so that the mean is at most one.\<close>

lemma ratio_sum:
  "\<forall>m \<in> set ms. ratioOK m \<Longrightarrow> length ms < 2 ^ 53 \<Longrightarrow>
     0 \<le> foldl (\<lambda>sum m. fadd sum (cm_ReflectionDepthRatio m)) 0 ms \<and>
     foldl (\<lambda>sum m. fadd sum (cm_ReflectionDepthRatio m)) 0 ms \<le> of_nat (length ms)"
proof (induction ms rule: rev_induct)
  case (snoc m ms)
  let ?s = "foldl (\<lambda>sum m. fadd sum (cm_ReflectionDepthRatio m)) 0 ms"
  from snoc have s: "0 \<le> ?s" "?s \<le> of_nat (length ms)" and m: "ratioOK m" by simp_all
  then have "0 \<le> ?s + cm_ReflectionDepthRatio m" "?s + cm_ReflectionDepthRatio m \<le> of_nat (Suc (length ms))"
    by (auto simp: ratioOK_def)
  then show ?case using fl_le [OF isFloat_of_nat, of "Suc (length ms)"] snoc.prems(2) by (simp add: fadd_def fl_nonneg)
qed simp

lemma rolling_ratio: "\<forall>m \<in> set (cw_History w). ratioOK m \<Longrightarrow> length (cw_History w) < 2 ^ 53 \<Longrightarrow>
    0 \<le> RollingRatio w \<and> RollingRatio w \<le> 1"
proof (cases "cw_History w = []")
  case False
  assume a: "\<forall>m \<in> set (cw_History w). ratioOK m" "length (cw_History w) < 2 ^ 53"
  let ?n = "of_nat (length (cw_History w)) :: rat"
  have n: "fl ?n = ?n" "0 < ?n" using isFloat_of_nat [OF a(2)] False by (auto simp: fl_isFloat)
  show ?thesis using ratio_sum [OF a] n False
    by (auto simp: RollingRatio_def fdiv_def intro!: fl_nonneg fl_le)
qed (simp add: RollingRatio_def)

text \<open>
  The rolling ratio over a window of measured sessions is between zero and one, rounding included, so
  that a threshold above one never nudges.
\<close>

theorem rolling_ratio_bounds:
  assumes "\<forall>m \<in> set ms. \<exists>f s ids db. ComputeConvergenceMetrics f s ids db = Inr m" "n < 2 ^ 53"
    and "w = foldl (\<lambda>w m. Add m w) (NewConvergenceWindow n) ms"
  shows "0 \<le> RollingRatio w \<and> RollingRatio w \<le> 1 \<and> (1 < t \<longrightarrow> \<not> ShouldNudge t cooldown lst cur w)"
proof -
  have h: "cw_History w = drop (length ms - nat (if n \<le> 0 then 10 else n)) ms"
    unfolding assms(3) by (rule convergence_window_keeps_latest)
  have "\<forall>m \<in> set (cw_History w). ratioOK m" using assms(1) metrics_ratio unfolding h by (meson in_set_dropD)
  moreover have "length (cw_History w) < 2 ^ 53" using assms(2) by (auto simp: h)
  ultimately have "0 \<le> RollingRatio w \<and> RollingRatio w \<le> 1" by (rule rolling_ratio)
  then show ?thesis by (auto simp: ShouldNudge_def)
qed

lemma sample_metrics: "ComputeConvergenceMetrics (\<lambda>_. None) 1 [''r''] sampleGraph =
    Inr \<lparr> cm_ReflectionDepthRatio = 0, cm_T4ToT4Count = 0, cm_T4ToGroundCount = 1, cm_SessionNumber = 1 \<rparr>"
  by code_simp

theorem rolling_ratio_bounds_witness:
  "let w = foldl (\<lambda>w m. Add m w) (NewConvergenceWindow 10)
     [\<lparr> cm_ReflectionDepthRatio = 0, cm_T4ToT4Count = 0, cm_T4ToGroundCount = 1, cm_SessionNumber = 1 \<rparr>]
   in 0 \<le> RollingRatio w \<and> RollingRatio w \<le> 1 \<and> \<not> ShouldNudge 2 5 0 9 w"
  unfolding Let_def
  using rolling_ratio_bounds [OF _ _ refl, where n = 10 and t = 2 and cooldown = 5 and lst = 0 and cur = 9 and
      ms = "[\<lparr> cm_ReflectionDepthRatio = 0, cm_T4ToT4Count = 0, cm_T4ToGroundCount = 1, cm_SessionNumber = 1 \<rparr>]"]
    sample_metrics
  by force

end
