(* ===== verification/MemoryTiers.thy ===== *)
theory MemoryTiers
  imports Beliefs
begin

text \<open>
  Writing and reading the memory tiers: \<^verbatim>\<open>internal/memory/tier2.go\<close> to \<^verbatim>\<open>tier5.go\<close> over the store methods
  of \<^verbatim>\<open>internal/platform/memory.go\<close> and \<^verbatim>\<open>edges.go\<close>, on the tables of \<open>graphDB\<close>.

  \<open>now\<close> is the time the code and the database read, \<open>newid\<close> the identifier drawn, and an
  \<open>error option\<close> the failure of the statement, if any. \<open>column\<close> is what a \<open>REAL\<close> column keeps of a
  number: all of it in SQLite, single precision in PostgreSQL. Rows of the same time are read in the
  order of their insertion.
\<close>

section \<open>LIKE with an escape\<close>

fun likeEsc :: "(char \<Rightarrow> char \<Rightarrow> bool) \<Rightarrow> string \<Rightarrow> string \<Rightarrow> bool" where
  "likeEsc eq [] s = (s = [])"
| "likeEsc eq (p # ps) s =
     (if p = CHR ''%'' then likeEsc eq ps s \<or> (case s of [] \<Rightarrow> False | c # s' \<Rightarrow> likeEsc eq (p # ps) s')
      else if p = CHR 0x5C then (case (ps, s) of (q # qs, c # s') \<Rightarrow> eq q c \<and> likeEsc eq qs s' | _ \<Rightarrow> False)
      else (case s of [] \<Rightarrow> False | c # s' \<Rightarrow> (p = CHR ''_'' \<or> eq p c) \<and> likeEsc eq ps s'))"

declare likeEsc.simps(2) [simp del]

text \<open>\<open>strings.ReplaceAll\<close> of one byte.\<close>

definition replaceByte :: "char \<Rightarrow> string \<Rightarrow> string \<Rightarrow> string" where
  "replaceByte c r s = concat (map (\<lambda>x. if x = c then r else [x]) s)"

definition escapeLike :: "string \<Rightarrow> string" where
  "escapeLike s =
     (let s = replaceByte (CHR 0x5C) [CHR 0x5C, CHR 0x5C] s;
          s = replaceByte (CHR ''%'') [CHR 0x5C, CHR ''%''] s
      in replaceByte (CHR ''_'') [CHR 0x5C, CHR ''_''] s)"

text \<open>\<open>LIMIT\<close>; a negative limit is none in SQLite.\<close>

definition limitRows :: "int \<Rightarrow> 'a list \<Rightarrow> 'a list" where
  "limitRows n xs = (if n < 0 then xs else take (nat n) xs)"

section \<open>Tier 2\<close>

definition validContentSources :: "string \<Rightarrow> bool" where
  "validContentSources s \<longleftrightarrow> s \<in> {''operator'', ''self'', ''tool-result'', ''browser-content'', ''search-result'', ''forum-content'', ''discord''}"

definition AppendExperiential ::
  "(time \<Rightarrow> string) \<Rightarrow> time \<Rightarrow> error option \<Rightarrow> ExperientialLog \<Rightarrow> graphDB \<Rightarrow> error option \<times> graphDB" where
  "AppendExperiential stamp now fault entry db =
     (case fault of
        Some e \<Rightarrow> (Some e, db)
      | None \<Rightarrow>
          if el_ID entry \<in> lr_id ` set (db_logs (gd_mem db)) then (Some ''UNIQUE constraint failed: experiential_logs.id'', db)
          else (None, db\<lparr>gd_mem := (gd_mem db)\<lparr>db_logs := db_logs (gd_mem db) @
                 [\<lparr> lr_id = el_ID entry, lr_session_id = el_SessionID entry, lr_content = el_Content entry,
                    lr_content_source = el_ContentSource entry, lr_aegis_meta = aegisMetaJSON stamp (el_AegisAnnotation entry),
                    lr_created_at = now, lr_narrative_summary_id = None \<rparr>]\<rparr>\<rparr>))"

definition AppendLog ::
  "(time \<Rightarrow> string) \<Rightarrow> time \<Rightarrow> error option \<Rightarrow> ExperientialLog \<Rightarrow> graphDB \<Rightarrow> error option \<times> graphDB" where
  "AppendLog stamp now fault entry db =
     (if \<not> validContentSources (el_ContentSource entry) then (Some (''tier2: invalid content_source '' @ quoted (el_ContentSource entry)), db)
      else if el_ID entry = '''' then (Some ''tier2: entry ID is required'', db)
      else if el_Content entry = '''' then (Some ''tier2: entry content is required'', db)
      else AppendExperiential stamp now fault entry db)"

definition storeQueryLogs ::
  "(time \<Rightarrow> time) \<Rightarrow> (string \<Rightarrow> time option) \<Rightarrow> error option \<Rightarrow> string \<Rightarrow> int \<Rightarrow> graphDB \<Rightarrow> error + ExperientialLog list" where
  "storeQueryLogs readAt parse fault sessionID limit db =
     (case fault of
        Some e \<Rightarrow> Inl (''platform: querying logs for session '' @ sessionID @ '': '' @ e)
      | None \<Rightarrow> Inr (map (logOfRow readAt parse) (limitRows limit
                  (sort_key lr_created_at (filter (\<lambda>r. lr_session_id r = sessionID) (db_logs (gd_mem db)))))))"

definition QueryLogs ::
  "(time \<Rightarrow> time) \<Rightarrow> (string \<Rightarrow> time option) \<Rightarrow> error option \<Rightarrow> string \<Rightarrow> int \<Rightarrow> graphDB \<Rightarrow> error + ExperientialLog list" where
  "QueryLogs readAt parse fault sessionID limit db =
     storeQueryLogs readAt parse fault sessionID (if limit \<le> 0 then 200 else limit) db"

section \<open>Tier 3\<close>

text \<open>
  The belief the stores fall back to. The code also writes the anchor into the caller's belief.
\<close>

definition anchoredBelief :: "time \<Rightarrow> BeliefMeta option \<Rightarrow> BeliefMeta" where
  "anchoredBelief now b =
     (let b = (case b of
                 Some b \<Rightarrow> b
               | None \<Rightarrow> \<lparr> bm_BaseConfidence = 1, bm_AnchorAt = now, bm_InferenceDistance = 1,
                           bm_VerificationState = ''unverified'', bm_Source = '''', bm_EmotionalRegister = '''' \<rparr>)
      in if bm_AnchorAt b = zeroTime then b\<lparr>bm_AnchorAt := now\<rparr> else b)"

definition InsertNarrative ::
  "(time \<Rightarrow> string) \<Rightarrow> time \<Rightarrow> error option \<Rightarrow> NarrativeSummary \<Rightarrow> graphDB \<Rightarrow> error option \<times> graphDB" where
  "InsertNarrative stamp now fault summary db =
     (case fault of
        Some e \<Rightarrow> (Some e, db)
      | None \<Rightarrow>
          if ns_ID summary \<in> nr_id ` set (db_narratives (gd_mem db)) then (Some ''UNIQUE constraint failed: narrative_summaries.id'', db)
          else (None, db\<lparr>gd_mem := (gd_mem db)\<lparr>db_narratives := db_narratives (gd_mem db) @
                 [\<lparr> nr_id = ns_ID summary, nr_session_id = '''', nr_content = ns_Content summary, nr_embedding = None,
                    nr_belief_meta = beliefMetaJSON stamp (Some (anchoredBelief now (ns_Belief summary))),
                    nr_content_sources = contentSourcesJSON (ns_ContentSources summary),
                    nr_aegis_meta = aegisMetaJSON stamp (ns_ExternalAnnotation summary), nr_created_at = now \<rparr>]\<rparr>\<rparr>))"

definition SearchNarrative ::
  "(string \<Rightarrow> time option) \<Rightarrow> error option \<Rightarrow> int \<Rightarrow> graphDB \<Rightarrow> error + NarrativeSummary list" where
  "SearchNarrative parse fault limit db =
     (case fault of
        Some e \<Rightarrow> Inl e
      | None \<Rightarrow> Inr (map (\<lambda>r. \<lparr> ns_ID = nr_id r, ns_SessionID = nr_session_id r, ns_Content = nr_content r,
                                ns_Belief = Some (decodeBelief parse (nr_belief_meta r) None), ns_Embedding = [],
                                ns_ContentSources = decodeContentSources (Some (nr_content_sources r)),
                                ns_ExternalAnnotation = decodeAegisMeta parse (nr_aegis_meta r) \<rparr>)
                  (limitRows limit (sort_key (\<lambda>r. - nr_created_at r) (db_narratives (gd_mem db))))))"

definition honestyTags :: "string list" where
  "honestyTags = [''[UNCERTAIN]'', ''[INFERRED]'', ''[DELIBERATION NOT VISIBLE]'', ''[RESOLVED BY SUMMARY]'']"

fun promptEntries :: "int \<Rightarrow> ExperientialLog list \<Rightarrow> string" where
  "promptEntries i [] = ''''"
| "promptEntries i (e # es) =
     ''['' @ itoa (i + 1) @ ''] source='' @ el_ContentSource e @ newline @ el_Content e @ newline @ newline @ promptEntries (i + 1) es"

definition compressionPrompt :: "string \<Rightarrow> ExperientialLog list \<Rightarrow> string" where
  "compressionPrompt sessionID entries =
     ''Compress the following session log into a concise narrative summary.'' @ newline @
     ''Apply per-claim honesty tags where appropriate:'' @ newline @
     ''  [UNCERTAIN]              '' @ em_dash @ '' claim is held with low confidence'' @ newline @
     ''  [INFERRED]               '' @ em_dash @ '' claim was derived, not directly observed'' @ newline @
     ''  [DELIBERATION NOT VISIBLE] '' @ em_dash @ '' reasoning steps were not logged'' @ newline @
     ''  [RESOLVED BY SUMMARY]    '' @ em_dash @ '' conflicting entries collapsed to a single claim'' @ newline @ newline @
     ''Session ID: '' @ sessionID @ newline @ newline @
     ''Log entries (oldest first):'' @ newline @
     promptEntries 0 entries @
     newline @ ''Produce a coherent narrative. Apply tags inline, after each claim they qualify.''"

text \<open>\<open>strings.Count\<close> of a text that is not empty: the occurrences that do not overlap.\<close>

function strCount :: "string \<Rightarrow> string \<Rightarrow> int" where
  "strCount s sub =
     (if s = [] \<or> sub = [] then 0
      else if hasPrefix s sub then 1 + strCount (drop (length sub) s) sub
      else strCount (tl s) sub)"
  by pat_completeness auto
termination by (relation "measure (\<lambda>(s, sub). length s)") auto

declare strCount.simps [simp del]

definition countHonestyTags :: "string \<Rightarrow> (string \<times> int) list" where
  "countHonestyTags content = map (\<lambda>tag. (tag, strCount content tag)) honestyTags"

definition CompressSession ::
  "(time \<Rightarrow> string) \<Rightarrow> time \<Rightarrow> string \<Rightarrow> error option \<Rightarrow> (string \<Rightarrow> error + rat list) option \<Rightarrow> (string \<Rightarrow> error + string)
     \<Rightarrow> string \<Rightarrow> ExperientialLog list \<Rightarrow> graphDB \<Rightarrow> (error + NarrativeSummary) \<times> graphDB" where
  "CompressSession stamp now newid fault provider llmFn sessionID entries db =
     (if entries = [] then (Inl (''tier3: no entries to compress for session '' @ sessionID), db)
      else (case llmFn (compressionPrompt sessionID entries) of
              Inl e \<Rightarrow> (Inl (''tier3: LLM compression failed for session '' @ sessionID @ '': '' @ e), db)
            | Inr summaryText \<Rightarrow>
                (let belief = \<lparr> bm_BaseConfidence = fl (85 / 100), bm_AnchorAt = now, bm_InferenceDistance = 1,
                                bm_VerificationState = ''unverified'', bm_Source = ''compression'', bm_EmotionalRegister = '''' \<rparr>;
                     embedding = (case provider of None \<Rightarrow> []
                                  | Some emb \<Rightarrow> (case emb summaryText of Inl e \<Rightarrow> [] | Inr v \<Rightarrow> v));
                     summary = \<lparr> ns_ID = newid, ns_SessionID = '''', ns_Content = summaryText, ns_Belief = Some belief,
                                 ns_Embedding = embedding, ns_ContentSources = [], ns_ExternalAnnotation = None \<rparr>
                 in case InsertNarrative stamp now fault summary db of
                      (Some e, db') \<Rightarrow> (Inl (''tier3: inserting narrative summary for session '' @ sessionID @ '': '' @ e), db')
                    | (None, db') \<Rightarrow> (Inr summary, db'))))"

definition SurfaceNarrative :: "NarrativeSummary \<Rightarrow> string \<Rightarrow> string" where
  "SurfaceNarrative summary model =
     ns_Content summary @ newline @ newline @ ''---'' @ newline @ ''[compiled by '' @ model @ ''; tags: '' @
     strJoin (map (\<lambda>(tag, n). itoa n @ '' '' @ tag) (filter (\<lambda>(tag, n). n > 0) (countHonestyTags (ns_Content summary)))) '', '' @ '']''"

section \<open>Tier 4\<close>

record Reflection =
  rfl_ID :: string
  rfl_Type :: string
  rfl_Content :: string
  rfl_Visibility :: string
  rfl_Belief :: "BeliefMeta option"
  rfl_Embedding :: "rat list"

definition IsValidReflectionType :: "string \<Rightarrow> bool" where
  "IsValidReflectionType t \<longleftrightarrow> t \<in> {''essay'', ''note'', ''dream'', ''pattern'', ''examination'', ''challenge''}"

definition reflectionRowOf :: "(float64 \<Rightarrow> float64) \<Rightarrow> (time \<Rightarrow> string) \<Rightarrow> time \<Rightarrow> Reflection \<Rightarrow> reflectionRow" where
  "reflectionRowOf column stamp now ref =
     (let (baseConf, meta) =
            (case rfl_Belief ref of
               None \<Rightarrow> (None, JObj [])
             | Some b \<Rightarrow> if bm_AnchorAt b \<noteq> zeroTime then (Some (column (bm_BaseConfidence b)), beliefMetaJSON stamp (Some b))
                         else (None, beliefMetaJSON stamp (Some b)))
      in \<lparr> rf_id = rfl_ID ref, rf_type = (if rfl_Type ref = '''' then ''note'' else rfl_Type ref), rf_content = rfl_Content ref,
           rf_base_confidence = baseConf, rf_belief_meta = meta,
           rf_visibility = (if rfl_Visibility ref = '''' then ''private'' else rfl_Visibility ref), rf_created_at = now \<rparr>)"

definition InsertReflection ::
  "(float64 \<Rightarrow> float64) \<Rightarrow> (time \<Rightarrow> string) \<Rightarrow> time \<Rightarrow> error option \<Rightarrow> Reflection \<Rightarrow> graphDB \<Rightarrow> error option \<times> graphDB" where
  "InsertReflection column stamp now fault ref db =
     (let row = reflectionRowOf column stamp now ref in
      case fault of
        Some e \<Rightarrow> (Some e, db)
      | None \<Rightarrow>
          if rf_visibility row \<notin> {''private'', ''shared''} then (Some ''CHECK constraint failed: visibility'', db)
          else if rf_id row \<in> rf_id ` set (gd_reflections db) then (Some ''UNIQUE constraint failed: reflections.id'', db)
          else (None, db\<lparr>gd_reflections := gd_reflections db @ [row]\<rparr>))"

definition reflectionOfRow :: "(string \<Rightarrow> time option) \<Rightarrow> reflectionRow \<Rightarrow> Reflection" where
  "reflectionOfRow parse r =
     \<lparr> rfl_ID = rf_id r, rfl_Type = '''', rfl_Content = rf_content r, rfl_Visibility = rf_visibility r,
       rfl_Belief = Some (decodeBelief parse (rf_belief_meta r) (rf_base_confidence r)), rfl_Embedding = [] \<rparr>"

definition SearchReflections :: "(string \<Rightarrow> time option) \<Rightarrow> error option \<Rightarrow> int \<Rightarrow> graphDB \<Rightarrow> error + Reflection list" where
  "SearchReflections parse fault limit db =
     (case fault of
        Some e \<Rightarrow> Inl e
      | None \<Rightarrow> Inr (map (reflectionOfRow parse) (limitRows limit (sort_key (\<lambda>r. - rf_created_at r) (gd_reflections db)))))"

definition GetReflectionByID :: "(string \<Rightarrow> time option) \<Rightarrow> error option \<Rightarrow> string \<Rightarrow> graphDB \<Rightarrow> error + Reflection option" where
  "GetReflectionByID parse fault rid db =
     (case fault of
        Some e \<Rightarrow> Inl e
      | None \<Rightarrow> Inr (map_option (reflectionOfRow parse) (find (\<lambda>r. rf_id r = rid) (gd_reflections db))))"

definition WriteReflection ::
  "(float64 \<Rightarrow> float64) \<Rightarrow> (time \<Rightarrow> string) \<Rightarrow> time \<Rightarrow> error option \<Rightarrow> (string \<Rightarrow> error + rat list) option \<Rightarrow> Reflection
     \<Rightarrow> graphDB \<Rightarrow> error option \<times> graphDB" where
  "WriteReflection column stamp now fault provider ref db =
     (if rfl_ID ref = '''' then (Some ''tier4: reflection ID is required'', db)
      else if rfl_Content ref = '''' then (Some ''tier4: reflection content is required'', db)
      else (let ref = (case provider of
                         None \<Rightarrow> ref
                       | Some emb \<Rightarrow>
                           if rfl_Embedding ref = []
                           then ref\<lparr>rfl_Embedding := (case emb (rfl_Content ref) of Inl e \<Rightarrow> [] | Inr v \<Rightarrow> v)\<rparr> else ref)
            in InsertReflection column stamp now fault ref db))"

definition FilterByVisibility :: "Reflection list \<Rightarrow> string \<Rightarrow> Reflection list" where
  "FilterByVisibility refs visibility = filter (\<lambda>r. rfl_Visibility r = visibility) refs"

section \<open>Tier 5\<close>

record Entity =
  ety_ID :: string
  ety_Name :: string
  ety_Type :: string
  ety_Content :: string
  ety_Belief :: "BeliefMeta option"
  ety_Embedding :: "rat list"

definition UpsertEntity :: "(time \<Rightarrow> string) \<Rightarrow> time \<Rightarrow> error option \<Rightarrow> Entity \<Rightarrow> graphDB \<Rightarrow> error option \<times> graphDB" where
  "UpsertEntity stamp now fault e db =
     (let meta = beliefMetaJSON stamp (Some (anchoredBelief now (ety_Belief e))) in
      case fault of
        Some er \<Rightarrow> (Some er, db)
      | None \<Rightarrow>
          if ety_ID e \<in> ent_id ` set (gd_entities db)
          then (None, db\<lparr>gd_entities := map (\<lambda>r. if ent_id r = ety_ID e
                  then r\<lparr>ent_name := ety_Name e, ent_type := ety_Type e, ent_summary := ety_Content e, ent_belief_meta := meta\<rparr>
                  else r) (gd_entities db)\<rparr>)
          else (None, db\<lparr>gd_entities := gd_entities db @
                  [\<lparr> ent_id = ety_ID e, ent_name = ety_Name e, ent_type = ety_Type e, ent_summary = ety_Content e,
                     ent_belief_meta = meta, ent_t_created = now, ent_t_expired = None \<rparr>]\<rparr>))"

text \<open>\<open>eq\<close> compares two bytes as the database's case-insensitive \<open>LIKE\<close> or \<open>ILIKE\<close> does.\<close>

definition SearchEntities ::
  "(char \<Rightarrow> char \<Rightarrow> bool) \<Rightarrow> (string \<Rightarrow> time option) \<Rightarrow> error option \<Rightarrow> string \<Rightarrow> int \<Rightarrow> graphDB \<Rightarrow> error + Entity list" where
  "SearchEntities eq parse fault query limit db =
     (let pat = ''%'' @ escapeLike query @ ''%'' in
      case fault of
        Some e \<Rightarrow> Inl e
      | None \<Rightarrow> Inr (map (\<lambda>r. \<lparr> ety_ID = ent_id r, ety_Name = ent_name r, ety_Type = ent_type r, ety_Content = ent_summary r,
                                ety_Belief = Some (decodeBelief parse (ent_belief_meta r) None), ety_Embedding = [] \<rparr>)
                  (limitRows limit (sort_key (\<lambda>r. - ent_t_created r)
                     (filter (\<lambda>r. (likeEsc eq pat (ent_name r) \<or> likeEsc eq pat (ent_summary r)) \<and> ent_t_expired r = None)
                        (gd_entities db))))))"

definition ActiveEntities ::
  "(char \<Rightarrow> char \<Rightarrow> bool) \<Rightarrow> (string \<Rightarrow> time option) \<Rightarrow> error option \<Rightarrow> string \<Rightarrow> int \<Rightarrow> time \<Rightarrow> graphDB \<Rightarrow> error + Entity list" where
  "ActiveEntities eq parse fault query limit asOf db = SearchEntities eq parse fault query limit db"

definition storeInvalidateEntity :: "error option \<Rightarrow> string \<Rightarrow> time \<Rightarrow> graphDB \<Rightarrow> (error + int) \<times> graphDB" where
  "storeInvalidateEntity fault eid now db =
     (case fault of
        Some e \<Rightarrow> (Inl e, db)
      | None \<Rightarrow> (Inr (int (length (filter (\<lambda>r. ent_id r = eid \<and> ent_t_expired r = None) (gd_entities db)))),
                 db\<lparr>gd_entities := map (\<lambda>r. if ent_id r = eid \<and> ent_t_expired r = None then r\<lparr>ent_t_expired := Some now\<rparr> else r)
                    (gd_entities db)\<rparr>))"

definition storeInvalidateRelationship :: "error option \<Rightarrow> string \<Rightarrow> time \<Rightarrow> graphDB \<Rightarrow> (error + int) \<times> graphDB" where
  "storeInvalidateRelationship fault rid now db =
     (case fault of
        Some e \<Rightarrow> (Inl e, db)
      | None \<Rightarrow> (Inr (int (length (filter (\<lambda>r. rel_id r = rid \<and> rel_t_expired r = None) (gd_relations db)))),
                 db\<lparr>gd_relations := map (\<lambda>r. if rel_id r = rid \<and> rel_t_expired r = None then r\<lparr>rel_t_expired := Some now\<rparr> else r)
                    (gd_relations db)\<rparr>))"

definition InsertSupersedgesEdge :: "error option \<Rightarrow> string \<Rightarrow> string \<Rightarrow> string \<Rightarrow> time \<Rightarrow> graphDB \<Rightarrow> (error + int) \<times> graphDB" where
  "InsertSupersedgesEdge fault edgeID newEntityID oldID now db =
     (case (case fault of Some e \<Rightarrow> Inl e
            | None \<Rightarrow> insertEdge False \<lparr> me_ID = edgeID, me_FromID = newEntityID, me_FromTier = 5, me_ToID = oldID, me_ToTier = 5,
                        me_EdgeType = EdgeSupersedes, me_Author = EdgeAuthorSystem, me_CreatedAt = now \<rparr> (gd_edges db)) of
        Inl e \<Rightarrow> (Inl e, db)
      | Inr es \<Rightarrow> (Inr 1, db\<lparr>gd_edges := es\<rparr>))"

definition InvalidateEntity :: "error option \<Rightarrow> string \<Rightarrow> time \<Rightarrow> graphDB \<Rightarrow> error option \<times> graphDB" where
  "InvalidateEntity fault eid now db =
     (case storeInvalidateEntity fault eid now db of
        (Inl e, db') \<Rightarrow> (Some (''tier5: invalidating entity '' @ eid @ '': '' @ e), db')
      | (Inr n, db') \<Rightarrow> if n = 0 then (Some (''tier5: entity '' @ eid @ '' not found or already expired''), db') else (None, db'))"

definition InvalidateRelationship :: "error option \<Rightarrow> string \<Rightarrow> time \<Rightarrow> graphDB \<Rightarrow> error option \<times> graphDB" where
  "InvalidateRelationship fault rid now db =
     (case storeInvalidateRelationship fault rid now db of
        (Inl e, db') \<Rightarrow> (Some (''tier5: invalidating relationship '' @ rid @ '': '' @ e), db')
      | (Inr n, db') \<Rightarrow> if n = 0 then (Some (''tier5: relationship '' @ rid @ '' not found or already expired''), db') else (None, db'))"

text \<open>The three statements run one after the other, with no transaction around them.\<close>

definition SupersedeEntity ::
  "(time \<Rightarrow> string) \<Rightarrow> time \<Rightarrow> string \<Rightarrow> error option \<Rightarrow> error option \<Rightarrow> error option \<Rightarrow> string \<Rightarrow> Entity \<Rightarrow> graphDB
     \<Rightarrow> error option \<times> graphDB" where
  "SupersedeEntity stamp now newid invFault upFault edgeFault oldID e db =
     (case InvalidateEntity invFault oldID now db of
        (Some er, db1) \<Rightarrow> (Some er, db1)
      | (None, db1) \<Rightarrow>
          (case UpsertEntity stamp now upFault e db1 of
             (Some er, db2) \<Rightarrow> (Some (''tier5: inserting successor entity: '' @ er), db2)
           | (None, db2) \<Rightarrow>
               (case InsertSupersedgesEdge edgeFault newid (ety_ID e) oldID now db2 of
                  (Inl er, db3) \<Rightarrow> (Some (''tier5: writing supersedes edge: '' @ er), db3)
                | (Inr n, db3) \<Rightarrow> (None, db3))))"

section \<open>The methods of PostgresStore\<close>

text \<open>
  They run the same statements. \<open>real4\<close> is the rounding of a \<open>REAL\<close> column to single precision, \<open>ilike\<close> the
  comparison of \<open>ILIKE\<close>, whose escape character is the backslash by default; times are read as stored.
\<close>

definition Postgres_AppendExperiential :: "(time \<Rightarrow> string) \<Rightarrow> time \<Rightarrow> error option \<Rightarrow> ExperientialLog \<Rightarrow> graphDB \<Rightarrow> error option \<times> graphDB" where
  "Postgres_AppendExperiential = AppendExperiential"

definition Postgres_QueryLogs :: "(string \<Rightarrow> time option) \<Rightarrow> error option \<Rightarrow> string \<Rightarrow> int \<Rightarrow> graphDB \<Rightarrow> error + ExperientialLog list" where
  "Postgres_QueryLogs = storeQueryLogs id"

definition Postgres_InsertNarrative :: "(time \<Rightarrow> string) \<Rightarrow> time \<Rightarrow> error option \<Rightarrow> NarrativeSummary \<Rightarrow> graphDB \<Rightarrow> error option \<times> graphDB" where
  "Postgres_InsertNarrative = InsertNarrative"

definition Postgres_SearchNarrative :: "(string \<Rightarrow> time option) \<Rightarrow> error option \<Rightarrow> int \<Rightarrow> graphDB \<Rightarrow> error + NarrativeSummary list" where
  "Postgres_SearchNarrative = SearchNarrative"

definition Postgres_InsertReflection ::
  "(float64 \<Rightarrow> float64) \<Rightarrow> (time \<Rightarrow> string) \<Rightarrow> time \<Rightarrow> error option \<Rightarrow> Reflection \<Rightarrow> graphDB \<Rightarrow> error option \<times> graphDB" where
  "Postgres_InsertReflection real4 = InsertReflection real4"

definition Postgres_SearchReflections :: "(string \<Rightarrow> time option) \<Rightarrow> error option \<Rightarrow> int \<Rightarrow> graphDB \<Rightarrow> error + Reflection list" where
  "Postgres_SearchReflections = SearchReflections"

definition Postgres_GetReflectionByID :: "(string \<Rightarrow> time option) \<Rightarrow> error option \<Rightarrow> string \<Rightarrow> graphDB \<Rightarrow> error + Reflection option" where
  "Postgres_GetReflectionByID = GetReflectionByID"

definition Postgres_SearchEntities ::
  "(char \<Rightarrow> char \<Rightarrow> bool) \<Rightarrow> (string \<Rightarrow> time option) \<Rightarrow> error option \<Rightarrow> string \<Rightarrow> int \<Rightarrow> graphDB \<Rightarrow> error + Entity list" where
  "Postgres_SearchEntities ilike = SearchEntities ilike"

definition Postgres_UpsertEntity :: "(time \<Rightarrow> string) \<Rightarrow> time \<Rightarrow> error option \<Rightarrow> Entity \<Rightarrow> graphDB \<Rightarrow> error option \<times> graphDB" where
  "Postgres_UpsertEntity = UpsertEntity"

definition Postgres_InvalidateEntity :: "error option \<Rightarrow> string \<Rightarrow> time \<Rightarrow> graphDB \<Rightarrow> (error + int) \<times> graphDB" where
  "Postgres_InvalidateEntity = storeInvalidateEntity"

definition Postgres_InvalidateRelationship :: "error option \<Rightarrow> string \<Rightarrow> time \<Rightarrow> graphDB \<Rightarrow> (error + int) \<times> graphDB" where
  "Postgres_InvalidateRelationship = storeInvalidateRelationship"

definition Postgres_InsertSupersedgesEdge :: "error option \<Rightarrow> string \<Rightarrow> string \<Rightarrow> string \<Rightarrow> time \<Rightarrow> graphDB \<Rightarrow> (error + int) \<times> graphDB" where
  "Postgres_InsertSupersedgesEdge = InsertSupersedgesEdge"

section \<open>Properties\<close>

lemma find_after: "find P xs = None \<Longrightarrow> find P (xs @ ys) = find P ys"
  by (induction xs) (auto split: if_splits)

text \<open>Search: every byte of the query stands for itself.\<close>

definition escByte :: "char \<Rightarrow> string" where
  "escByte c = (if c \<in> {CHR 0x5C, CHR ''%'', CHR ''_''} then [CHR 0x5C, c] else [c])"

lemma escapeLike_bytes: "escapeLike s = concat (map escByte s)"
  by (induction s) (simp_all add: escapeLike_def replaceByte_def escByte_def)

lemma likeEsc_percent: "likeEsc eq (CHR ''%'' # ps) s \<longleftrightarrow> (\<exists>u v. s = u @ v \<and> likeEsc eq ps v)"
proof (induction s)
  case (Cons c s)
  have "(\<exists>u v. c # s = u @ v \<and> likeEsc eq ps v) \<longleftrightarrow> likeEsc eq ps (c # s) \<or> (\<exists>u v. s = u @ v \<and> likeEsc eq ps v)"
    by (metis append_Cons append_Nil list.inject neq_Nil_conv)
  with Cons show ?case by (simp add: likeEsc.simps(2) [of _ _ _ "c # s"])
qed (simp add: likeEsc.simps(2))

lemma likeEsc_byte: "likeEsc eq (escByte c @ ps) s \<longleftrightarrow> (\<exists>d v. s = d # v \<and> eq c d \<and> likeEsc eq ps v)"
  by (cases s) (auto simp: escByte_def likeEsc.simps(2) [of _ _ _ "[]"] likeEsc.simps(2) [of _ _ _ "_ # _"])

lemma likeEsc_escaped: "likeEsc eq (concat (map escByte q) @ ps) s \<longleftrightarrow> (\<exists>m v. s = m @ v \<and> list_all2 eq q m \<and> likeEsc eq ps v)"
proof (induction q arbitrary: s)
  case (Cons c q)
  have "likeEsc eq (concat (map escByte (c # q)) @ ps) s \<longleftrightarrow>
      (\<exists>d v. s = d # v \<and> eq c d \<and> (\<exists>m w. v = m @ w \<and> list_all2 eq q m \<and> likeEsc eq ps w))"
    using likeEsc_byte [of eq c "concat (map escByte q) @ ps" s] Cons by simp
  also have "\<dots> \<longleftrightarrow> (\<exists>m v. s = m @ v \<and> list_all2 eq (c # q) m \<and> likeEsc eq ps v)"
    by (auto simp: list_all2_Cons1) (metis append_Cons, blast)
  finally show ?case .
qed simp

lemma like_literal:
  "likeEsc eq (''%'' @ escapeLike q @ ''%'') s \<longleftrightarrow> (\<exists>u m v. s = u @ m @ v \<and> list_all2 eq q m)"
proof -
  have "likeEsc eq ''%'' v" for v using likeEsc_percent [of eq "[]" v] by simp
  then have "likeEsc eq (escapeLike q @ ''%'') w \<longleftrightarrow> (\<exists>m v. w = m @ v \<and> list_all2 eq q m)" for w
    unfolding escapeLike_bytes likeEsc_escaped by simp
  then show ?thesis using likeEsc_percent [of eq "escapeLike q @ ''%''" s] by auto
qed

text \<open>
  A search for entities is for the text of the query itself: the pattern the stores build matches a
  text exactly when the query, byte for byte and up to the database's comparison of letters, occurs in
  it, also when the query has \<open>%\<close>, \<open>_\<close> or backslashes.
\<close>

theorem search_pattern_is_literal:
  "likeEsc eq (''%'' @ escapeLike q @ ''%'') s \<longleftrightarrow> (\<exists>u m v. s = u @ m @ v \<and> list_all2 eq q m)"
  by (rule like_literal)

text \<open>
  The archive of logs is append-only: a write either fails and changes nothing, or adds one row at the
  end, with a content source of the closed list and the identifier and text it was given.
\<close>

theorem log_append_only:
  assumes "AppendLog stamp now fault entry db = (res, db')"
  shows "(res \<noteq> None \<and> db' = db) \<or>
    (\<exists>row. res = None \<and> db' = db\<lparr>gd_mem := (gd_mem db)\<lparr>db_logs := db_logs (gd_mem db) @ [row]\<rparr>\<rparr> \<and>
       validContentSources (lr_content_source row) \<and> lr_id row = el_ID entry \<and> lr_content row = el_Content entry \<and>
       lr_content row \<noteq> '''' \<and> lr_id row \<notin> lr_id ` set (db_logs (gd_mem db)))"
  using assms by (auto simp: AppendLog_def AppendExperiential_def split: if_splits option.splits)

definition sampleLog :: ExperientialLog where
  "sampleLog = \<lparr> el_ID = ''l9'', el_SessionID = ''s'', el_Content = ''hello'', el_ContentSource = ''discord'', el_CreatedAt = 0,
     el_AegisAnnotation = None \<rparr>"

theorem log_append_only_witness:
  "\<exists>row. snd (AppendLog (\<lambda>t. '''') 7 None sampleLog sampleGraph) =
       sampleGraph\<lparr>gd_mem := (gd_mem sampleGraph)\<lparr>db_logs := db_logs (gd_mem sampleGraph) @ [row]\<rparr>\<rparr> \<and>
     validContentSources (lr_content_source row)"
  using log_append_only [OF prod.collapse [symmetric], of "\<lambda>t. ''''" 7 None sampleLog sampleGraph]
  by (auto simp: AppendLog_def AppendExperiential_def sampleLog_def validContentSources_def sampleGraph_def)

text \<open>
  The consent boundary: a reflection that was written is read back by its identifier with its text, with
  the visibility given or private, and with the base confidence of the agent when the agent anchored
  it and none otherwise; the anchor is read to the second.
\<close>

theorem reflection_round_trip:
  assumes "InsertReflection column stamp now None ref db = (None, db')"
    and "parse (stamp (bm_AnchorAt b)) = Some (bm_AnchorAt b div second * second)" "\<bar>bm_InferenceDistance b\<bar> < 2 ^ 53"
    and "rfl_Belief ref = Some b"
  shows "\<exists>r. GetReflectionByID parse None (rfl_ID ref) db' = Inr (Some r) \<and>
    rfl_ID r = rfl_ID ref \<and> rfl_Content r = rfl_Content ref \<and>
    rfl_Visibility r = (if rfl_Visibility ref = '''' then ''private'' else rfl_Visibility ref) \<and>
    rfl_Belief r = Some (b\<lparr>bm_BaseConfidence := (if bm_AnchorAt b = zeroTime then 0 else column (bm_BaseConfidence b)),
                           bm_AnchorAt := bm_AnchorAt b div second * second\<rparr>)"
proof -
  let ?row = "reflectionRowOf column stamp now ref"
  from assms(1) have db': "db' = db\<lparr>gd_reflections := gd_reflections db @ [?row]\<rparr>" "rf_id ?row \<notin> rf_id ` set (gd_reflections db)"
    by (auto simp: InsertReflection_def Let_def split: if_splits)
  moreover have rid: "rf_id ?row = rfl_ID ref" by (simp add: reflectionRowOf_def split: prod.split)
  ultimately have "find (\<lambda>r. rf_id r = rfl_ID ref) (gd_reflections db) = None" by (auto simp: find_None_iff image_iff)
  then have "find (\<lambda>r. rf_id r = rfl_ID ref) (gd_reflections db') = Some ?row"
    using db'(1) rid by (simp add: find_after)
  moreover have "truncInt (fl (of_int (bm_InferenceDistance b))) = bm_InferenceDistance b"
    using fl_of_int [OF assms(3)] by (simp add: truncInt_def)
  ultimately show ?thesis using assms(2-)
    by (auto simp: GetReflectionByID_def reflectionOfRow_def reflectionRowOf_def decodeBelief_def decodeBeliefMeta_def
        beliefMetaJSON_def fieldsOf_def strField_def)
qed

definition sampleReflection :: Reflection where
  "sampleReflection = \<lparr> rfl_ID = ''r2'', rfl_Type = '''', rfl_Content = ''a thought'', rfl_Visibility = '''',
     rfl_Belief = Some freshBelief, rfl_Embedding = [] \<rparr>"

lemma sampleReflection_inserted:
  "InsertReflection id (\<lambda>t. ''1970-01-01T00:00:00Z'') 5 None sampleReflection sampleGraph =
     (None, snd (InsertReflection id (\<lambda>t. ''1970-01-01T00:00:00Z'') 5 None sampleReflection sampleGraph))"
  by (simp add: InsertReflection_def Let_def reflectionRowOf_def sampleReflection_def sampleGraph_def freshBelief_def zeroTime_def)

theorem reflection_round_trip_witness:
  "\<exists>r. GetReflectionByID (\<lambda>s. Some 0) None ''r2''
       (snd (InsertReflection id (\<lambda>t. ''1970-01-01T00:00:00Z'') 5 None sampleReflection sampleGraph)) = Inr (Some r) \<and>
     rfl_Content r = ''a thought'' \<and> rfl_Visibility r = ''private'' \<and> rfl_Belief r = Some freshBelief"
  using reflection_round_trip [OF sampleReflection_inserted, of "\<lambda>s. Some 0" freshBelief]
  by (simp add: sampleReflection_def freshBelief_def zeroTime_def) blast

text \<open>Entities that are believed now.\<close>

definition active :: "string \<Rightarrow> graphDB \<Rightarrow> bool" where
  "active x db \<longleftrightarrow> (\<exists>r \<in> set (gd_entities db). ent_id r = x \<and> ent_t_expired r = None)"

lemma active_expire:
  assumes "db1 = db\<lparr>gd_entities := map (\<lambda>r. if ent_id r = old \<and> ent_t_expired r = None then r\<lparr>ent_t_expired := Some now\<rparr> else r) (gd_entities db)\<rparr>"
  shows "active x db1 \<longleftrightarrow> active x db \<and> x \<noteq> old"
  using assms by (auto simp: active_def)

lemma InvalidateEntity_None:
  "InvalidateEntity f x now db = (None, db1) \<Longrightarrow> active x db \<and>
     db1 = db\<lparr>gd_entities := map (\<lambda>r. if ent_id r = x \<and> ent_t_expired r = None then r\<lparr>ent_t_expired := Some now\<rparr> else r) (gd_entities db)\<rparr>"
  by (auto simp: InvalidateEntity_def storeInvalidateEntity_def active_def filter_empty_conv split: option.splits if_splits)

lemma UpsertEntity_None:
  "UpsertEntity stamp now f e db = (None, db') \<Longrightarrow>
     (\<forall>x. active x db' \<longleftrightarrow> active x db \<or> x = ety_ID e \<and> ety_ID e \<notin> ent_id ` set (gd_entities db)) \<and> gd_edges db' = gd_edges db"
proof -
  assume a: "UpsertEntity stamp now f e db = (None, db')"
  let ?life = "\<lambda>r :: entityRow. (ent_id r, ent_t_expired r)"
  have act: "active x d \<longleftrightarrow> (x, None) \<in> ?life ` set (gd_entities d)" for x d by (force simp: active_def)
  have same: "?life ` set (map g rs) = ?life ` set rs" if "\<And>r. ?life (g r) = ?life r" for g rs
    using that by (simp add: image_image)
  show ?thesis
  proof (cases "ety_ID e \<in> ent_id ` set (gd_entities db)")
    case True
    define g where "g = (\<lambda>r :: entityRow. if ent_id r = ety_ID e then r\<lparr>ent_name := ety_Name e, ent_type := ety_Type e, ent_summary := ety_Content e,
      ent_belief_meta := beliefMetaJSON stamp (Some (anchoredBelief now (ety_Belief e)))\<rparr> else r)"
    have "?life (g r) = ?life r" for r by (simp add: g_def)
    then have sg: "?life ` set (map g rs) = ?life ` set rs" for rs by (rule same)
    have db': "db' = db\<lparr>gd_entities := map g (gd_entities db)\<rparr>"
      using a True by (simp add: UpsertEntity_def Let_def g_def split: option.splits)
    have "gd_entities db' = map g (gd_entities db)" "gd_edges db' = gd_edges db" unfolding db' by simp_all
    with True show ?thesis unfolding act by (simp only: sg) blast
  next
    case False
    with a show ?thesis unfolding act by (auto simp: UpsertEntity_def Let_def split: option.splits)
  qed
qed

text \<open>
  Superseding an entity by a new one: when it succeeds the old entity was active and no longer is, the
  successor is active, every other entity is as active as before, and an edge leads from the successor to the old one.
\<close>

theorem supersede_replaces:
  assumes "SupersedeEntity stamp now newid f1 f2 f3 old e db = (None, db')" "ety_ID e \<notin> ent_id ` set (gd_entities db)"
  shows "active old db \<and> \<not> active old db' \<and> active (ety_ID e) db' \<and>
    (\<forall>x. x \<noteq> old \<and> x \<noteq> ety_ID e \<longrightarrow> active x db' = active x db) \<and>
    (\<exists>edge \<in> set (gd_edges db'). me_FromID edge = ety_ID e \<and> me_ToID edge = old \<and> me_EdgeType edge = EdgeSupersedes)"
proof -
  from assms(1) obtain db1 db2 n where s: "InvalidateEntity f1 old now db = (None, db1)"
    "UpsertEntity stamp now f2 e db1 = (None, db2)" "InsertSupersedgesEdge f3 newid (ety_ID e) old now db2 = (Inr n, db')"
    unfolding SupersedeEntity_def by (auto split: prod.splits option.splits sum.splits)
  note i = InvalidateEntity_None [OF s(1)] and u = UpsertEntity_None [OF s(2)]
  have old: "active old db" "old \<noteq> ety_ID e" using i assms(2) by (auto simp: active_def image_iff)
  note a1 = active_expire [OF conjunct2 [OF i]]
  have "ety_ID e \<notin> ent_id ` set (gd_entities db1)" using i assms(2) by auto
  with u a1 have a2: "active x db2 \<longleftrightarrow> active x db \<and> x \<noteq> old \<or> x = ety_ID e" for x by blast
  from s(3) have ed: "active x db' = active x db2"
    "\<exists>edge \<in> set (gd_edges db'). me_FromID edge = ety_ID e \<and> me_ToID edge = old \<and> me_EdgeType edge = EdgeSupersedes" for x
    by (auto simp: InsertSupersedgesEdge_def insertEdge_def active_def split: option.splits if_splits)
  show ?thesis using old a2 ed by auto
qed

text \<open>
  It is not atomic: when writing the successor fails the old entity has already been expired, and
  neither of them is active.
\<close>

theorem supersede_failure_loses_both:
  assumes "active old db" "ety_ID e \<notin> ent_id ` set (gd_entities db)"
  shows "fst (SupersedeEntity stamp now newid None (Some er) f3 old e db) \<noteq> None \<and>
    \<not> active old (snd (SupersedeEntity stamp now newid None (Some er) f3 old e db)) \<and>
    \<not> active (ety_ID e) (snd (SupersedeEntity stamp now newid None (Some er) f3 old e db))"
proof -
  let ?db = "db\<lparr>gd_entities := map (\<lambda>r. if ent_id r = old \<and> ent_t_expired r = None then r\<lparr>ent_t_expired := Some now\<rparr> else r) (gd_entities db)\<rparr>"
  have "filter (\<lambda>r. ent_id r = old \<and> ent_t_expired r = None) (gd_entities db) \<noteq> []"
    using assms(1) by (auto simp: active_def filter_empty_conv)
  then have "InvalidateEntity None old now db = (None, ?db)"
    unfolding InvalidateEntity_def storeInvalidateEntity_def by simp
  then have "SupersedeEntity stamp now newid None (Some er) f3 old e db = (Some (''tier5: inserting successor entity: '' @ er), ?db)"
    unfolding SupersedeEntity_def UpsertEntity_def Let_def by simp
  moreover have "\<not> active old ?db" "\<not> active (ety_ID e) ?db"
    unfolding active_expire [OF refl, of _ old now db] using assms(2) by (auto simp: active_def image_iff)
  ultimately show ?thesis by (simp only: fst_conv snd_conv) simp
qed

text \<open>
  An entity once expired stays expired: writing it again updates its columns and leaves \<open>t_expired\<close>, so no
  search returns it any more, and an entity superseded by itself disappears.
\<close>

theorem upsert_does_not_revive:
  assumes "ety_ID e \<in> ent_id ` set (gd_entities db)" "\<not> active (ety_ID e) db"
    and "UpsertEntity stamp now f e db = (None, db')" "SearchEntities eq parse None q limit db' = Inr found"
  shows "ety_ID e \<notin> ety_ID ` set found"
proof -
  have na: "\<not> active (ety_ID e) db'" using UpsertEntity_None [OF assms(3)] assms(1,2) by blast
  have lim: "set (limitRows n xs) \<subseteq> set xs" for n and xs :: "entityRow list"
    by (simp add: limitRows_def set_take_subset)
  let ?rows = "filter (\<lambda>r. (likeEsc eq (''%'' @ escapeLike q @ ''%'') (ent_name r) \<or> likeEsc eq (''%'' @ escapeLike q @ ''%'') (ent_summary r)) \<and>
    ent_t_expired r = None) (gd_entities db')"
  from assms(4) have "ety_ID ` set found = ent_id ` set (limitRows limit (sort_key (\<lambda>r. - ent_t_created r) ?rows))"
    unfolding SearchEntities_def Let_def option.case sum.inject(2) by (elim subst) (simp add: image_image)
  moreover have "set (limitRows limit (sort_key (\<lambda>r. - ent_t_created r) ?rows)) \<subseteq> set ?rows" 
    using lim [of limit "sort_key (\<lambda>r. - ent_t_created r) ?rows"] by (simp only: set_sort)
  moreover have "ety_ID e \<notin> ent_id ` set ?rows" using na by (auto simp: active_def)
  ultimately show ?thesis by blast
qed

definition sampleEntity :: "string \<Rightarrow> Entity" where
  "sampleEntity x = \<lparr> ety_ID = x, ety_Name = ''E'', ety_Type = ''person'', ety_Content = ''again'', ety_Belief = Some freshBelief,
     ety_Embedding = [] \<rparr>"

lemma sample_superseded:
  "SupersedeEntity (\<lambda>t. '''') 9 ''ed'' None None None ''e'' (sampleEntity ''e2'') sampleGraph =
     (None, snd (SupersedeEntity (\<lambda>t. '''') 9 ''ed'' None None None ''e'' (sampleEntity ''e2'') sampleGraph))"
  by (simp add: SupersedeEntity_def InvalidateEntity_def storeInvalidateEntity_def UpsertEntity_def InsertSupersedgesEdge_def
      insertEdge_def checkedEdge_def edgeKey_def edge_def sampleGraph_def sampleEntity_def Let_def)

theorem supersede_replaces_witness:
  "active ''e'' sampleGraph \<and>
   \<not> active ''e'' (snd (SupersedeEntity (\<lambda>t. '''') 9 ''ed'' None None None ''e'' (sampleEntity ''e2'') sampleGraph)) \<and>
   active ''e2'' (snd (SupersedeEntity (\<lambda>t. '''') 9 ''ed'' None None None ''e'' (sampleEntity ''e2'') sampleGraph))"
  using supersede_replaces [OF sample_superseded] by (simp add: sampleGraph_def sampleEntity_def)

lemma sample_active: "active ''e'' sampleGraph"
  by (simp add: active_def sampleGraph_def)

theorem supersede_failure_loses_both_witness:
  "\<not> active ''e'' (snd (SupersedeEntity (\<lambda>t. '''') 9 ''ed'' None (Some ''disk full'') None ''e'' (sampleEntity ''e2'') sampleGraph))"
  using supersede_failure_loses_both [OF sample_active, of "sampleEntity ''e2''" "\<lambda>t. ''''" 9 "''ed''" "''disk full''" None]
  by (simp add: sampleGraph_def sampleEntity_def)

theorem upsert_does_not_revive_witness:
  "let db = snd (InvalidateEntity None ''e'' 9 sampleGraph);
       db' = snd (UpsertEntity (\<lambda>t. '''') 10 None (sampleEntity ''e'') db)
   in \<exists>found. SearchEntities (=) (\<lambda>s. None) None ''E'' 5 db' = Inr found \<and> ''e'' \<notin> ety_ID ` set found"
proof -
  let ?db = "snd (InvalidateEntity None ''e'' 9 sampleGraph)"
  let ?db' = "snd (UpsertEntity (\<lambda>t. '''') 10 None (sampleEntity ''e'') ?db)"
  obtain found where f: "SearchEntities (=) (\<lambda>s. None) None ''E'' 5 ?db' = Inr found"
    unfolding SearchEntities_def Let_def option.case by blast
  have "ety_ID (sampleEntity ''e'') \<in> ent_id ` set (gd_entities ?db)" "\<not> active (ety_ID (sampleEntity ''e'')) ?db"
    "UpsertEntity (\<lambda>t. '''') 10 None (sampleEntity ''e'') ?db = (None, ?db')"
    by (simp_all add: InvalidateEntity_def storeInvalidateEntity_def UpsertEntity_def active_def sampleEntity_def sampleGraph_def Let_def)
  from upsert_does_not_revive [OF this f] f show ?thesis by (simp add: sampleEntity_def Let_def)
qed

end
