(* ===== verification/MemorySafety.thy ===== *)
theory MemorySafety
  imports MemoryTiers "HOL-Library.Sublist"
begin

text \<open>
  What every operation on the memory tables promises, as the locale \<open>memory_operation\<close>: the tables stay
  well formed, and history is kept, that is, no log, summary, reflection, edge or entity is removed and
  the columns the code calls immutable keep their values. Each operation of \<^verbatim>\<open>internal/memory\<close>, and
  the commit of the consolidation store, is an instance. The step relation \<open>memStep\<close> runs them in
  any order, with any arguments and with any statement failing.
\<close>

section \<open>The immutable part of the tables\<close>

definition logFacts :: "graphDB \<Rightarrow> (string \<times> string \<times> string \<times> string \<times> json option \<times> time) list" where
  "logFacts db = map (\<lambda>r. (lr_id r, lr_session_id r, lr_content r, lr_content_source r, lr_aegis_meta r, lr_created_at r))
     (db_logs (gd_mem db))"

definition narrativeFacts :: "graphDB \<Rightarrow> (string \<times> string \<times> string \<times> json \<times> json option \<times> time) list" where
  "narrativeFacts db = map (\<lambda>r. (nr_id r, nr_session_id r, nr_content r, nr_content_sources r, nr_aegis_meta r, nr_created_at r))
     (db_narratives (gd_mem db))"

text \<open>The base confidence of a reflection belongs to the agent.\<close>

definition reflectionFacts :: "graphDB \<Rightarrow> (string \<times> string \<times> string \<times> float64 option \<times> string \<times> time) list" where
  "reflectionFacts db = map (\<lambda>r. (rf_id r, rf_type r, rf_content r, rf_base_confidence r, rf_visibility r, rf_created_at r)) (gd_reflections db)"

definition entityIDs :: "graphDB \<Rightarrow> string list" where
  "entityIDs db = map ent_id (gd_entities db)"

definition kept :: "graphDB \<Rightarrow> graphDB \<Rightarrow> bool" where
  "kept db db' \<longleftrightarrow> prefix (logFacts db) (logFacts db') \<and> prefix (narrativeFacts db) (narrativeFacts db') \<and>
     prefix (reflectionFacts db) (reflectionFacts db') \<and> prefix (gd_edges db) (gd_edges db') \<and> prefix (entityIDs db) (entityIDs db')"

definition wfEdge :: "MemoryEdge \<Rightarrow> bool" where
  "wfEdge e \<longleftrightarrow> checkedEdge e \<and> me_FromTier e \<in> {2..5} \<and> me_ToTier e \<in> {2..5}"

definition wfMem :: "graphDB \<Rightarrow> bool" where
  "wfMem db \<longleftrightarrow> distinct (map fst (logFacts db)) \<and> (\<forall>(i, s, c, src, a, t) \<in> set (logFacts db). i \<noteq> '''' \<and> c \<noteq> '''' \<and> validContentSources src) \<and>
     distinct (map fst (narrativeFacts db)) \<and>
     distinct (map fst (reflectionFacts db)) \<and> (\<forall>(i, ty, c, b, v, t) \<in> set (reflectionFacts db). v \<in> {''private'', ''shared''}) \<and>
     distinct (entityIDs db) \<and> list_all wfEdge (gd_edges db) \<and> distinct (map edgeKey (gd_edges db)) \<and> distinct (map me_ID (gd_edges db))"

lemma kept_refl [simp]: "kept db db"
  by (simp add: kept_def)

lemma kept_trans [trans]: "kept a b \<Longrightarrow> kept b c \<Longrightarrow> kept a c"
  unfolding kept_def by (blast intro: prefix_order.order_trans)

text \<open>What a change of the mutable columns alone leaves.\<close>

definition sameFacts :: "graphDB \<Rightarrow> graphDB \<Rightarrow> bool" where
  "sameFacts db db' \<longleftrightarrow> logFacts db' = logFacts db \<and> narrativeFacts db' = narrativeFacts db \<and>
     reflectionFacts db' = reflectionFacts db \<and> gd_edges db' = gd_edges db \<and> entityIDs db' = entityIDs db"

lemma sameFacts_refl [simp]: "sameFacts db db"
  by (simp add: sameFacts_def)

lemma sameFacts_kept: "sameFacts db db' \<Longrightarrow> kept db db'"
  by (simp add: sameFacts_def kept_def)

lemma sameFacts_wf: "sameFacts db db' \<Longrightarrow> wfMem db' = wfMem db"
  unfolding sameFacts_def wfMem_def by (elim conjE) (simp only:)

lemma unmarked_facts:
  "logFacts (unmarked db) = logFacts db" "narrativeFacts (unmarked db) = narrativeFacts db"
  "reflectionFacts (unmarked db) = reflectionFacts db" "gd_edges (unmarked db) = gd_edges db" "entityIDs (unmarked db) = entityIDs db"
  by (simp_all add: unmarked_def logFacts_def narrativeFacts_def reflectionFacts_def entityIDs_def)

lemma unmarked_sameFacts: "unmarked db' = unmarked db \<Longrightarrow> sameFacts db db'"
  unfolding sameFacts_def by (metis unmarked_facts)

section \<open>The contract of an operation\<close>

locale memory_operation =
  fixes run :: "graphDB \<Rightarrow> 'r \<times> graphDB"
  assumes keeps: "kept db (snd (run db))"
    and typed: "wfMem db \<Longrightarrow> wfMem (snd (run db))"
begin

lemma keeps_after: "kept a db \<Longrightarrow> kept a (snd (run db))"
  using keeps kept_trans by blast

lemma repeated: "kept db (((\<lambda>d. snd (run d)) ^^ n) db) \<and> (wfMem db \<longrightarrow> wfMem (((\<lambda>d. snd (run d)) ^^ n) db))"
  by (induction n) (auto intro: keeps_after typed)

end

text \<open>The contract of one run, for the proofs of the instances.\<close>

definition sound :: "graphDB \<Rightarrow> graphDB \<Rightarrow> bool" where
  "sound db db' \<longleftrightarrow> kept db db' \<and> (wfMem db \<longrightarrow> wfMem db')"

lemma sound_refl [simp]: "sound db db"
  by (simp add: sound_def)

lemma sound_trans [trans]: "sound a b \<Longrightarrow> sound b c \<Longrightarrow> sound a c"
  unfolding sound_def using kept_trans by blast

lemma sameFacts_sound: "sameFacts db db' \<Longrightarrow> sound db db'"
  using sameFacts_kept sameFacts_wf unfolding sound_def by blast

lemma memory_operationI: "(\<And>db. sound db (snd (run db))) \<Longrightarrow> memory_operation run"
  by unfold_locales (auto simp: sound_def)

section \<open>The operations\<close>

text \<open>Operations that write nothing but marks.\<close>

lemma FlagStaleBeliefs_unmarked: "unmarked (snd (FlagStaleBeliefs f conf thr recs n db)) = unmarked db"
proof (induction f conf thr recs n db rule: FlagStaleBeliefs.induct)
  case (2 f conf thr rec recs n db)
  have "unmarked (snd (UpdateVerificationState ft t i s d)) = unmarked d" for ft t i s d
    by (auto simp: UpdateVerificationState_def setState_unmarked split: option.splits sum.splits)
  then have "UpdateVerificationState ft t i s d = (e, d') \<Longrightarrow> unmarked d' = unmarked d" for ft t i s d e d' by (metis snd_conv)
  with 2 show ?case by (auto split: option.splits prod.splits)
qed simp

lemma decay_unmarked: "unmarked (snd (RunEndOfSessionDecay load uf ef pow expf now cfg db)) = unmarked db"
  using FlagStaleBeliefs_unmarked [of uf "confAt pow expf now cfg" "dc_StaleThreshold cfg" _ 0 db]
  by (auto simp: RunEndOfSessionDecay_def Let_def split: sum.splits prod.splits option.splits) (metis snd_conv)+

interpretation distrust_op: memory_operation "PropagateDistrust ff mf src" for ff mf src
  by (rule memory_operationI) (simp add: sameFacts_sound unmarked_sameFacts PropagateDistrust_unmarked)

interpretation decay_op: memory_operation "RunEndOfSessionDecay load uf ef pow expf now cfg" for load uf ef pow expf now cfg
  by (rule memory_operationI) (simp add: sameFacts_sound unmarked_sameFacts decay_unmarked)

text \<open>Operations that add a row.\<close>

lemmas facts_defs = logFacts_def narrativeFacts_def reflectionFacts_def entityIDs_def

lemma log_added:
  assumes "lr_id row \<notin> lr_id ` set (db_logs (gd_mem db))" "lr_id row \<noteq> ''''" "lr_content row \<noteq> ''''" "validContentSources (lr_content_source row)"
  shows "sound db (db\<lparr>gd_mem := (gd_mem db)\<lparr>db_logs := db_logs (gd_mem db) @ [row]\<rparr>\<rparr>)"
  using assms by (auto simp: sound_def kept_def wfMem_def facts_defs comp_def)

lemma narrative_added:
  assumes "nr_id row \<notin> nr_id ` set (db_narratives (gd_mem db))"
  shows "sound db (db\<lparr>gd_mem := (gd_mem db)\<lparr>db_narratives := db_narratives (gd_mem db) @ [row]\<rparr>\<rparr>)"
  using assms by (auto simp: sound_def kept_def wfMem_def facts_defs comp_def)

lemma reflection_added:
  assumes "rf_id row \<notin> rf_id ` set (gd_reflections db)" "rf_visibility row \<in> {''private'', ''shared''}"
  shows "sound db (db\<lparr>gd_reflections := gd_reflections db @ [row]\<rparr>)"
  using assms by (auto simp: sound_def kept_def wfMem_def facts_defs comp_def)

lemma edge_added:
  assumes "insertEdge ign e (gd_edges db) = Inr es" "me_FromTier e \<in> {2..5}" "me_ToTier e \<in> {2..5}"
  shows "sound db (db\<lparr>gd_edges := es\<rparr>)"
  using assms by (auto simp: sound_def insertEdge_def kept_def wfMem_def facts_defs wfEdge_def split: if_splits)

lemma entities_mapped:
  assumes "\<And>r. ent_id (g r) = ent_id r"
  shows "sameFacts db (db\<lparr>gd_entities := map g (gd_entities db)\<rparr>)"
  using assms by (simp add: sameFacts_def facts_defs comp_def)

lemma AppendLog_sound: "sound db (snd (AppendLog stamp now f e db))"
  unfolding AppendLog_def AppendExperiential_def by (auto split: option.splits intro!: log_added)

interpretation append_op: memory_operation "AppendLog stamp now f e" for stamp now f e
  by (rule memory_operationI, rule AppendLog_sound)

lemma InsertNarrative_sound: "sound db (snd (InsertNarrative stamp now f s db))"
  unfolding InsertNarrative_def by (auto split: option.splits intro!: narrative_added)

interpretation compress_op: memory_operation "MemoryTiers.CompressSession stamp now newid f provider llm sid entries"
  for stamp now newid f provider llm sid entries
proof (rule memory_operationI)
  fix db
  have "InsertNarrative stamp now f s db = (e, db') \<Longrightarrow> sound db db'" for s e db' using InsertNarrative_sound by (metis snd_conv)
  then show "sound db (snd (MemoryTiers.CompressSession stamp now newid f provider llm sid entries db))"
    unfolding MemoryTiers.CompressSession_def Let_def by (auto split: sum.splits prod.splits option.splits)
qed

lemma InsertReflection_sound: "sound db (snd (InsertReflection column stamp now f ref db))"
  by (auto simp: InsertReflection_def Let_def split: option.splits intro!: reflection_added)

interpretation reflect_op: memory_operation "WriteReflection column stamp now f provider ref" for column stamp now f provider ref
  by (rule memory_operationI) (simp add: WriteReflection_def Let_def InsertReflection_sound)

lemma storeCreateEdge_sound:
  "fromTier \<in> {2..5} \<Longrightarrow> toTier \<in> {2..5} \<Longrightarrow> sound db (snd (storeCreateEdge newid now f fromID toID fromTier toTier edgeType author db))"
  by (auto simp: storeCreateEdge_def split: option.splits sum.splits intro: edge_added)

interpretation edge_op: memory_operation "CreateEdge newid now f fromID toID fromTier toTier edgeType author"
  for newid now f fromID toID fromTier toTier edgeType author
proof (rule memory_operationI)
  fix db
  have "storeCreateEdge newid now f fromID toID fromTier toTier edgeType author db = (e, db') \<Longrightarrow> fromTier \<in> {2..5} \<Longrightarrow> toTier \<in> {2..5} \<Longrightarrow> sound db db'"
    for e db' using storeCreateEdge_sound by (metis snd_conv)
  then show "sound db (snd (CreateEdge newid now f fromID toID fromTier toTier edgeType author db))"
    unfolding CreateEdge_def by (auto simp: not_less split: option.splits prod.splits)
qed

text \<open>Entities: expiry and update keep the row, and a new row is added at the end.\<close>

lemma InvalidateEntity_sound: "sound db (snd (InvalidateEntity f eid now db))"
proof -
  have "sameFacts db (snd (storeInvalidateEntity f eid now db))"
    by (auto simp: storeInvalidateEntity_def split: option.splits intro!: entities_mapped)
  then show ?thesis unfolding InvalidateEntity_def using sameFacts_sound by (auto split: sum.splits prod.splits)
qed

interpretation invalidate_op: memory_operation "InvalidateEntity f eid now" for f eid now
  by (rule memory_operationI, rule InvalidateEntity_sound)

lemma UpsertEntity_sound: "sound db (snd (UpsertEntity stamp now f e db))"
proof (cases "f = None \<and> ety_ID e \<notin> ent_id ` set (gd_entities db)")
  case True
  then show ?thesis by (auto simp: UpsertEntity_def sound_def kept_def wfMem_def facts_defs comp_def)
next
  case False
  then show ?thesis by (auto simp: UpsertEntity_def Let_def split: option.splits intro!: sameFacts_sound entities_mapped)
qed

interpretation upsert_op: memory_operation "UpsertEntity stamp now f e" for stamp now f e
  by (rule memory_operationI, rule UpsertEntity_sound)

lemma InsertSupersedgesEdge_sound: "sound db (snd (InsertSupersedgesEdge f edgeID new old now db))"
  by (auto simp: InsertSupersedgesEdge_def split: option.splits sum.splits intro: edge_added)

interpretation supersede_op: memory_operation "SupersedeEntity stamp now newid f1 f2 f3 old e" for stamp now newid f1 f2 f3 old e
proof (rule memory_operationI)
  fix db
  have i: "InvalidateEntity f1 old now d = (r, d') \<Longrightarrow> sound d d'" and u: "UpsertEntity stamp now f2 e d = (r, d') \<Longrightarrow> sound d d'" for d r d'
    using InvalidateEntity_sound UpsertEntity_sound by (metis snd_conv)+
  have s: "InsertSupersedgesEdge f3 newid (ety_ID e) old now d = (r, d') \<Longrightarrow> sound d d'" for d r d'
    using InsertSupersedgesEdge_sound by (metis snd_conv)
  show "sound db (snd (SupersedeEntity stamp now newid f1 f2 f3 old e db))"
    unfolding SupersedeEntity_def
    by (auto split: prod.splits option.splits sum.splits intro: sound_trans dest!: i u s)
qed

interpretation relation_op: memory_operation "InvalidateRelationship f rid now" for f rid now
proof (rule memory_operationI)
  fix db
  have "sameFacts db (snd (storeInvalidateRelationship f rid now db))"
    by (auto simp: storeInvalidateRelationship_def sameFacts_def facts_defs split: option.splits)
  then show "sound db (snd (InvalidateRelationship f rid now db))"
    unfolding InvalidateRelationship_def using sameFacts_sound by (auto split: sum.splits prod.splits)
qed

text \<open>The commit of a consolidation links logs to the new summary and adds it, for both stores.\<close>

definition SQLite_commit ::
  "(time \<Rightarrow> string) \<Rightarrow> string \<Rightarrow> time \<Rightarrow> txFaults \<Rightarrow> NarrativeSummary option \<Rightarrow> string list \<Rightarrow> graphDB \<Rightarrow> error option \<times> graphDB" where
  "SQLite_commit stamp newid now f n ids db =
     (case SQLite_CommitNarrative stamp newid now f n ids (gd_mem db) of (r, m) \<Rightarrow> (r, db\<lparr>gd_mem := m\<rparr>))"

definition Postgres_commit ::
  "(time \<Rightarrow> string) \<Rightarrow> string \<Rightarrow> time \<Rightarrow> txFaults \<Rightarrow> NarrativeSummary option \<Rightarrow> string list \<Rightarrow> graphDB \<Rightarrow> error option \<times> graphDB" where
  "Postgres_commit stamp newid now f n ids db =
     (case Postgres_CommitNarrative stamp newid now f n ids (gd_mem db) of (r, m) \<Rightarrow> (r, db\<lparr>gd_mem := m\<rparr>))"

lemma narrative_committed:
  assumes "nr_id row \<notin> nr_id ` set (db_narratives (gd_mem db))"
  shows "sound db (db\<lparr>gd_mem := (gd_mem db)\<lparr>db_narratives := db_narratives (gd_mem db) @ [row], db_logs := linkLogs nid ids (db_logs (gd_mem db))\<rparr>\<rparr>)"
proof -
  have "logFacts (db\<lparr>gd_mem := (gd_mem db)\<lparr>db_narratives := db_narratives (gd_mem db) @ [row], db_logs := linkLogs nid ids (db_logs (gd_mem db))\<rparr>\<rparr>) = logFacts db"
    by (simp add: logFacts_def linkLogs_def)
  then show ?thesis unfolding sound_def kept_def wfMem_def
    using assms by (auto simp: narrativeFacts_def reflectionFacts_def entityIDs_def comp_def)
qed

interpretation sqlite_commit_op: memory_operation "SQLite_commit stamp newid now f n ids" for stamp newid now f n ids
  by (rule memory_operationI)
    (auto simp: SQLite_commit_def SQLite_CommitNarrative_def Let_def narrativeRowOf_def split: option.splits intro!: narrative_committed)

interpretation postgres_commit_op: memory_operation "Postgres_commit stamp newid now f n ids" for stamp newid now f n ids
  by (rule memory_operationI)
    (auto simp: Postgres_commit_def Postgres_CommitNarrative_def Let_def narrativeRowOf_def split: option.splits intro!: narrative_committed)

section \<open>Any sequence of operations\<close>

inductive memStep :: "graphDB \<Rightarrow> graphDB \<Rightarrow> bool" where
  append: "memStep db (snd (AppendLog stamp now f e db))"
| compress: "memStep db (snd (MemoryTiers.CompressSession stamp now newid f provider llm sid entries db))"
| reflect: "memStep db (snd (WriteReflection column stamp now f provider ref db))"
| edge: "memStep db (snd (CreateEdge newid now f fromID toID fromTier toTier edgeType author db))"
| distrust: "memStep db (snd (PropagateDistrust ff mf src db))"
| decay: "memStep db (snd (RunEndOfSessionDecay load uf ef pow expf now cfg db))"
| invalidate: "memStep db (snd (InvalidateEntity f eid now db))"
| relation: "memStep db (snd (InvalidateRelationship f rid now db))"
| upsert: "memStep db (snd (UpsertEntity stamp now f en db))"
| supersede: "memStep db (snd (SupersedeEntity stamp now newid f1 f2 f3 old en db))"
| sqlite_commit: "memStep db (snd (SQLite_commit stamp newid now txf n ids db))"
| postgres_commit: "memStep db (snd (Postgres_commit stamp newid now txf n ids db))"

lemmas operations_keep = append_op.keeps compress_op.keeps reflect_op.keeps edge_op.keeps distrust_op.keeps decay_op.keeps
  invalidate_op.keeps relation_op.keeps upsert_op.keeps supersede_op.keeps sqlite_commit_op.keeps postgres_commit_op.keeps

lemmas operations_typed = append_op.typed compress_op.typed reflect_op.typed edge_op.typed distrust_op.typed decay_op.typed
  invalidate_op.typed relation_op.typed upsert_op.typed supersede_op.typed sqlite_commit_op.typed postgres_commit_op.typed

lemma memStep_kept: "memStep db db' \<Longrightarrow> kept db db'"
  by (induction rule: memStep.induct) (rule operations_keep)+

lemma memStep_typed: "memStep db db' \<Longrightarrow> wfMem db \<Longrightarrow> wfMem db'"
  by (induction rule: memStep.induct) (erule operations_typed)+

definition emptyGraph :: graphDB where
  "emptyGraph = \<lparr> gd_mem = \<lparr> db_logs = [], db_narratives = [], db_jobs = [] \<rparr>, gd_edges = [], gd_reflections = [], gd_entities = [],
     gd_relations = [] \<rparr>"

lemma emptyGraph_wf: "wfMem emptyGraph"
  by (simp add: wfMem_def emptyGraph_def facts_defs)

text \<open>
  C23. History is kept: over any sequence of the memory operations of both stores, whatever fails, no log,
  summary, reflection, edge or entity is removed or reordered, the text and provenance of logs and
  summaries stay, and so do the text, the visibility and the base confidence of every reflection.
\<close>

theorem memory_history_is_kept:
  assumes "memStep\<^sup>*\<^sup>* db db'"
  shows "kept db db'"
  using assms by (induction rule: rtranclp_induct) (auto intro: kept_trans memStep_kept)


definition oneLog :: graphDB where
  "oneLog = snd (AppendLog (\<lambda>t. '''') 7 None sampleLog emptyGraph)"

lemma oneLog_reached: "memStep\<^sup>*\<^sup>* emptyGraph (snd (CreateEdge ''i'' 8 None ''n'' ''l9'' 3 2 EdgeDerivedFrom EdgeAuthorSystem oneLog))"
proof -
  have "memStep emptyGraph oneLog" unfolding oneLog_def by (rule memStep.append)
  moreover have "memStep oneLog (snd (CreateEdge ''i'' 8 None ''n'' ''l9'' 3 2 EdgeDerivedFrom EdgeAuthorSystem oneLog))"
    by (rule memStep.edge)
  ultimately show ?thesis by (meson rtranclp.rtrancl_into_rtrancl r_into_rtranclp)
qed


theorem memory_history_is_kept_witness:
  "kept emptyGraph (snd (CreateEdge ''i'' 8 None ''n'' ''l9'' 3 2 EdgeDerivedFrom EdgeAuthorSystem oneLog))"
  by (rule memory_history_is_kept, rule oneLog_reached)

end
