(* ===== verification/Identity.thy ===== *)
theory Identity
  imports Prelude "HOL-Library.Multiset"
begin

text \<open>
  The identity documents and their integrity: loading (\<^verbatim>\<open>internal/identity/documents.go\<close>), verification
  against the stored anchors (\<^verbatim>\<open>integrity.go\<close>), the substrate log (\<^verbatim>\<open>substrate.go\<close>), the stores
  (\<^verbatim>\<open>internal/platform/identity.go\<close> and \<^verbatim>\<open>storage/assembly_sqlite.go\<close>, \<^verbatim>\<open>assembly_postgres.go\<close>) and the
  identity phase of context assembly with its witness check (\<^verbatim>\<open>internal/assembly/phase_identity.go\<close>).

  Parameters: \<open>fs\<close> is what reading a document of the identity directory gives, \<open>sha\<close> is the hexadecimal
  SHA-256 of a text, and faults of type \<open>error option\<close> say which statements fail. A Go map that is
  ranged over is a list of pairs in the order of the visit.
\<close>

section \<open>Documents\<close>

definition KnownDocs :: "string list" where
  "KnownDocs = [''soul.md'', ''rights.md'', ''values.md'', ''contract.md'']"

record DocMeta =
  dm_FileName :: string
  dm_FilePath :: string
  dm_LastModified :: time
  dm_SizeBytes :: int

record IdentityDoc =
  id_Meta :: DocMeta
  id_Content :: string

datatype fileState = FileMissing | FileError error | FileRead string string time int

text \<open>\<open>FileRead path content modified size\<close>.\<close>

fun loadSingle :: "(string \<Rightarrow> fileState) \<Rightarrow> string \<Rightarrow> fileState + IdentityDoc" where
  "loadSingle fs name =
     (case fs name of
        FileRead path content modified sz \<Rightarrow>
          Inr \<lparr> id_Meta = \<lparr> dm_FileName = name, dm_FilePath = path, dm_LastModified = modified, dm_SizeBytes = sz \<rparr>,
                id_Content = content \<rparr>
      | e \<Rightarrow> Inl e)"

fun loadDocs :: "(string \<Rightarrow> fileState) \<Rightarrow> string list \<Rightarrow> (string \<times> IdentityDoc) list \<Rightarrow> error + (string \<times> IdentityDoc) list" where
  "loadDocs fs [] docs = Inr docs"
| "loadDocs fs (name # names) docs =
     (case loadSingle fs name of
        Inl (FileError e) \<Rightarrow> Inl (''identity: reading '' @ name @ '': '' @ e)
      | Inl _ \<Rightarrow> loadDocs fs names docs
      | Inr doc \<Rightarrow> loadDocs fs names (docs @ [(name, doc)]))"

definition LoadDocuments :: "(string \<Rightarrow> fileState) \<Rightarrow> error + (string \<times> IdentityDoc) list" where
  "LoadDocuments fs = loadDocs fs KnownDocs []"

section \<open>Stores\<close>

record anchorRow =
  an_doc_name :: string
  an_sha256_hash :: string
  an_amendment_id :: "string option"

record AmendmentRecord =
  am_ID :: string
  am_DocName :: string
  am_OldHash :: string
  am_NewHash :: string
  am_Reason :: string
  am_CoSigner :: string
  am_CreatedAt :: time

record SubstrateTransition =
  st_ID :: string
  st_ModelName :: string
  st_ModelVersion :: string
  st_TransitionDate :: time
  st_ContinuityLetterPath :: string
  st_PreviousEntryID :: string
  st_CreatedAt :: time

record identityDB =
  idb_anchors :: "anchorRow list"
  idb_amendments :: "AmendmentRecord list"
  idb_substrates :: "SubstrateTransition list"
  idb_founding :: "(string \<times> string) list"
  idb_actions :: "(string \<times> string) list"

text \<open>Rows of \<open>founding_records\<close> as type and text, of \<open>operator_actions\<close> as type and description.\<close>

definition GetAnchor :: "error option \<Rightarrow> string \<Rightarrow> identityDB \<Rightarrow> error + string \<times> string" where
  "GetAnchor fault docName db =
     (case fault of
        Some e \<Rightarrow> Inl (''platform: getting anchor for '' @ quoted docName @ '': '' @ e)
      | None \<Rightarrow> (case find (\<lambda>r. an_doc_name r = docName) (idb_anchors db) of
                  None \<Rightarrow> Inr ('''', '''')
                | Some r \<Rightarrow> Inr (an_sha256_hash r, (case an_amendment_id r of None \<Rightarrow> '''' | Some a \<Rightarrow> a))))"

definition putAnchor :: "string \<Rightarrow> string \<Rightarrow> string option \<Rightarrow> anchorRow list \<Rightarrow> anchorRow list" where
  "putAnchor docName hash amend rows =
     (if docName \<in> an_doc_name ` set rows
      then map (\<lambda>r. if an_doc_name r = docName then r\<lparr>an_sha256_hash := hash, an_amendment_id := amend\<rparr> else r) rows
      else rows @ [\<lparr> an_doc_name = docName, an_sha256_hash = hash, an_amendment_id = amend \<rparr>])"

definition UpsertAnchor :: "error option \<Rightarrow> string \<Rightarrow> string \<Rightarrow> string \<Rightarrow> identityDB \<Rightarrow> error option \<times> identityDB" where
  "UpsertAnchor fault docName hash amendmentID db =
     (case (if amendmentID \<noteq> '''' \<and> amendmentID \<notin> am_ID ` set (idb_amendments db) then Some ''FOREIGN KEY constraint failed'' else fault) of
        Some e \<Rightarrow> (Some (''platform: upserting anchor for '' @ quoted docName @ '': '' @ e), db)
      | None \<Rightarrow> (None, db\<lparr>idb_anchors := putAnchor docName hash (if amendmentID = '''' then None else Some amendmentID) (idb_anchors db)\<rparr>))"

definition GetAmendmentByID :: "error option \<Rightarrow> string \<Rightarrow> identityDB \<Rightarrow> error + AmendmentRecord option" where
  "GetAmendmentByID fault aid db =
     (case fault of
        Some e \<Rightarrow> Inl (''platform: getting amendment '' @ quoted aid @ '': '' @ e)
      | None \<Rightarrow> Inr (find (\<lambda>r. am_ID r = aid) (idb_amendments db)))"

definition InsertAmendment :: "string \<Rightarrow> time \<Rightarrow> error option \<Rightarrow> AmendmentRecord \<Rightarrow> identityDB \<Rightarrow> (error + string) \<times> identityDB" where
  "InsertAmendment newid now fault rec db =
     (let rec = (if am_ID rec = '''' then rec\<lparr>am_ID := newid\<rparr> else rec) in
      case (if am_ID rec \<in> am_ID ` set (idb_amendments db) then Some ''UNIQUE constraint failed: identity_amendments.id'' else fault) of
        Some e \<Rightarrow> (Inl (''platform: inserting amendment: '' @ e), db)
      | None \<Rightarrow> (Inr (am_ID rec), db\<lparr>idb_amendments := idb_amendments db @ [rec\<lparr>am_CreatedAt := now\<rparr>]\<rparr>))"

definition ListAmendments :: "error option \<Rightarrow> string \<Rightarrow> identityDB \<Rightarrow> error + AmendmentRecord list" where
  "ListAmendments fault docName db =
     (case fault of
        Some e \<Rightarrow> Inl (''platform: listing amendments for '' @ quoted docName @ '': '' @ e)
      | None \<Rightarrow> Inr (sort_key (\<lambda>r. - am_CreatedAt r) (filter (\<lambda>r. am_DocName r = docName) (idb_amendments db))))"

definition ListAnchoredDocs :: "error option \<Rightarrow> identityDB \<Rightarrow> error + string list" where
  "ListAnchoredDocs fault db =
     (case fault of Some e \<Rightarrow> Inl (''platform: listing anchored docs: '' @ e) | None \<Rightarrow> Inr (map an_doc_name (idb_anchors db)))"

definition InsertSubstrateTransition :: "time \<Rightarrow> error option \<Rightarrow> SubstrateTransition \<Rightarrow> identityDB \<Rightarrow> error option \<times> identityDB" where
  "InsertSubstrateTransition now fault entry db =
     (case (if st_ID entry \<in> st_ID ` set (idb_substrates db) then Some ''UNIQUE constraint failed: substrate_transitions.id''
            else if st_PreviousEntryID entry \<noteq> '''' \<and> st_PreviousEntryID entry \<notin> insert (st_ID entry) (st_ID ` set (idb_substrates db)) then Some ''FOREIGN KEY constraint failed''
            else fault) of
        Some e \<Rightarrow> (Some (''platform: inserting substrate transition: '' @ e), db)
      | None \<Rightarrow> (None, db\<lparr>idb_substrates := idb_substrates db @ [entry\<lparr>st_CreatedAt := now\<rparr>]\<rparr>))"

definition ListSubstrateHistory :: "error option \<Rightarrow> identityDB \<Rightarrow> error + SubstrateTransition list" where
  "ListSubstrateHistory fault db =
     (case fault of
        Some e \<Rightarrow> Inl (''platform: listing substrate history: '' @ e)
      | None \<Rightarrow> Inr (sort_key st_TransitionDate (idb_substrates db)))"

definition GetLatestSubstrate :: "error option \<Rightarrow> identityDB \<Rightarrow> error + SubstrateTransition option" where
  "GetLatestSubstrate fault db =
     (case fault of
        Some e \<Rightarrow> Inl (''platform: scanning substrate row: '' @ e)
      | None \<Rightarrow> Inr (case sort_key (\<lambda>r. - st_TransitionDate r) (idb_substrates db) of [] \<Rightarrow> None | r # _ \<Rightarrow> Some r))"

definition RecordTransition :: "time \<Rightarrow> time \<Rightarrow> error option \<Rightarrow> SubstrateTransition \<Rightarrow> identityDB \<Rightarrow> error option \<times> identityDB" where
  "RecordTransition zero now fault entry db =
     (if st_ID entry = '''' then (Some ''identity: SubstrateTransition.ID must be set by the caller'', db)
      else if st_ModelName entry = '''' then (Some ''identity: SubstrateTransition.ModelName is required'', db)
      else InsertSubstrateTransition now fault (if st_TransitionDate entry = zero then entry\<lparr>st_TransitionDate := now\<rparr> else entry) db)"

definition HasWitnessLetter :: "error option \<Rightarrow> identityDB \<Rightarrow> error + bool" where
  "HasWitnessLetter fault db =
     (case fault of
        Some e \<Rightarrow> Inl (''storage: querying founding_records: '' @ e)
      | None \<Rightarrow> Inr (length (filter (\<lambda>(ty, c). ty = ''witness_letter'') (idb_founding db)) > 0))"

definition LogOperatorAction :: "error option \<Rightarrow> string \<Rightarrow> string \<Rightarrow> identityDB \<Rightarrow> error option \<times> identityDB" where
  "LogOperatorAction fault actionType description db =
     (case fault of
        Some e \<Rightarrow> (Some (''storage: logging operator action: '' @ e), db)
      | None \<Rightarrow> (None, db\<lparr>idb_actions := idb_actions db @ [(actionType, description)]\<rparr>))"

text \<open>The methods of the PostgreSQL stores run the same statements with other placeholders.\<close>

definition Postgres_GetAnchor :: "error option \<Rightarrow> string \<Rightarrow> identityDB \<Rightarrow> error + string \<times> string" where
  "Postgres_GetAnchor = GetAnchor"

definition Postgres_UpsertAnchor :: "error option \<Rightarrow> string \<Rightarrow> string \<Rightarrow> string \<Rightarrow> identityDB \<Rightarrow> error option \<times> identityDB" where
  "Postgres_UpsertAnchor = UpsertAnchor"

definition Postgres_GetAmendmentByID :: "error option \<Rightarrow> string \<Rightarrow> identityDB \<Rightarrow> error + AmendmentRecord option" where
  "Postgres_GetAmendmentByID = GetAmendmentByID"

definition Postgres_InsertAmendment :: "string \<Rightarrow> time \<Rightarrow> error option \<Rightarrow> AmendmentRecord \<Rightarrow> identityDB \<Rightarrow> (error + string) \<times> identityDB" where
  "Postgres_InsertAmendment = InsertAmendment"

definition Postgres_ListAmendments :: "error option \<Rightarrow> string \<Rightarrow> identityDB \<Rightarrow> error + AmendmentRecord list" where
  "Postgres_ListAmendments = ListAmendments"

definition Postgres_ListAnchoredDocs :: "error option \<Rightarrow> identityDB \<Rightarrow> error + string list" where
  "Postgres_ListAnchoredDocs = ListAnchoredDocs"

definition Postgres_InsertSubstrateTransition :: "time \<Rightarrow> error option \<Rightarrow> SubstrateTransition \<Rightarrow> identityDB \<Rightarrow> error option \<times> identityDB" where
  "Postgres_InsertSubstrateTransition = InsertSubstrateTransition"

definition Postgres_GetLatestSubstrate :: "error option \<Rightarrow> identityDB \<Rightarrow> error + SubstrateTransition option" where
  "Postgres_GetLatestSubstrate = GetLatestSubstrate"

definition Postgres_ListSubstrateHistory :: "error option \<Rightarrow> identityDB \<Rightarrow> error + SubstrateTransition list" where
  "Postgres_ListSubstrateHistory = ListSubstrateHistory"

definition Postgres_HasWitnessLetter :: "error option \<Rightarrow> identityDB \<Rightarrow> error + bool" where
  "Postgres_HasWitnessLetter = HasWitnessLetter"

definition Postgres_LogOperatorAction :: "error option \<Rightarrow> string \<Rightarrow> string \<Rightarrow> identityDB \<Rightarrow> error option \<times> identityDB" where
  "Postgres_LogOperatorAction = LogOperatorAction"

section \<open>Verification\<close>

datatype AnchorStatus = AnchorMatch | AnchorAmendment | AnchorTampering | AnchorNew

record FileReport =
  fr_DocName :: string
  fr_Status :: AnchorStatus
  fr_StoredHash :: string
  fr_CurrentHash :: string
  fr_AmendmentID :: string

record IntegrityReport =
  ir_Files :: "FileReport list"
  ir_HasTampering :: bool

definition ComputeAnchors :: "(string \<Rightarrow> string) \<Rightarrow> (string \<times> IdentityDoc) list \<Rightarrow> (string \<times> string) list" where
  "ComputeAnchors sha docs = map (\<lambda>(name, doc). (name, sha (id_Content doc))) docs"

definition findAmendmentByNewHash :: "error option \<Rightarrow> string \<Rightarrow> string \<Rightarrow> identityDB \<Rightarrow> error + AmendmentRecord option" where
  "findAmendmentByNewHash fault docName newHash db =
     (case ListAmendments fault docName db of
        Inl e \<Rightarrow> Inl e
      | Inr recs \<Rightarrow> Inr (find (\<lambda>r. am_NewHash r = newHash) recs))"

text \<open>One document; \<open>get\<close> and \<open>lst\<close> are the failures of the two queries.\<close>

definition verifyDoc :: "error option \<Rightarrow> error option \<Rightarrow> identityDB \<Rightarrow> string \<Rightarrow> string \<Rightarrow> error + FileReport" where
  "verifyDoc get lst db docName currentHash =
     (case GetAnchor get docName db of
        Inl e \<Rightarrow> Inl (''identity: getting anchor for '' @ docName @ '': '' @ e)
      | Inr (storedHash, amendmentID) \<Rightarrow>
          (let fr = \<lparr> fr_DocName = docName, fr_Status = AnchorNew, fr_StoredHash = storedHash, fr_CurrentHash = currentHash, fr_AmendmentID = '''' \<rparr>
           in if storedHash = '''' then Inr fr
              else if storedHash = currentHash then Inr (fr\<lparr>fr_Status := AnchorMatch, fr_AmendmentID := amendmentID\<rparr>)
              else (case findAmendmentByNewHash lst docName currentHash db of
                      Inl e \<Rightarrow> Inl (''identity: looking up amendment for '' @ docName @ '': '' @ e)
                    | Inr (Some rec) \<Rightarrow> Inr (fr\<lparr>fr_Status := AnchorAmendment, fr_AmendmentID := am_ID rec\<rparr>)
                    | Inr None \<Rightarrow> Inr (fr\<lparr>fr_Status := AnchorTampering\<rparr>))))"

fun verifyDocs ::
  "(string \<Rightarrow> error option) \<Rightarrow> (string \<Rightarrow> error option) \<Rightarrow> identityDB \<Rightarrow> (string \<times> string) list \<Rightarrow> IntegrityReport \<Rightarrow> error + IntegrityReport" where
  "verifyDocs get lst db [] report = Inr report"
| "verifyDocs get lst db ((docName, currentHash) # hs) report =
     (case verifyDoc (get docName) (lst docName) db docName currentHash of
        Inl e \<Rightarrow> Inl e
      | Inr fr \<Rightarrow> verifyDocs get lst db hs
          \<lparr> ir_Files = ir_Files report @ [fr], ir_HasTampering = ir_HasTampering report \<or> fr_Status fr = AnchorTampering \<rparr>)"

fun deletedDocs :: "string list \<Rightarrow> (string \<times> string) list \<Rightarrow> IntegrityReport \<Rightarrow> IntegrityReport" where
  "deletedDocs [] hs report = report"
| "deletedDocs (d # ds) hs report =
     (if d \<in> fst ` set hs then deletedDocs ds hs report
      else deletedDocs ds hs \<lparr> ir_Files = ir_Files report @ [\<lparr> fr_DocName = d, fr_Status = AnchorTampering, fr_StoredHash = '''',
             fr_CurrentHash = '''', fr_AmendmentID = '''' \<rparr>], ir_HasTampering = True \<rparr>)"

definition VerifyAnchors ::
  "(string \<Rightarrow> error option) \<Rightarrow> (string \<Rightarrow> error option) \<Rightarrow> error option \<Rightarrow> (string \<times> string) list \<Rightarrow> identityDB \<Rightarrow> error + IntegrityReport" where
  "VerifyAnchors get lst docsFault currentHashes db =
     (case verifyDocs get lst db currentHashes \<lparr> ir_Files = [], ir_HasTampering = False \<rparr> of
        Inl e \<Rightarrow> Inl e
      | Inr report \<Rightarrow>
          (case ListAnchoredDocs docsFault db of
             Inl e \<Rightarrow> Inl (''identity: listing anchored docs: '' @ e)
           | Inr stored \<Rightarrow> Inr (deletedDocs stored currentHashes report)))"

fun writeAnchors :: "(string \<Rightarrow> error option) \<Rightarrow> FileReport list \<Rightarrow> identityDB \<Rightarrow> error option \<times> identityDB" where
  "writeAnchors up [] db = (None, db)"
| "writeAnchors up (fr # frs) db =
     (if fr_Status fr = AnchorNew
      then (case UpsertAnchor (up (fr_DocName fr)) (fr_DocName fr) (fr_CurrentHash fr) '''' db of
              (Some e, db') \<Rightarrow> (Some (''identity: writing initial anchor for '' @ fr_DocName fr @ '': '' @ e), db')
            | (None, db') \<Rightarrow> writeAnchors up frs db')
      else writeAnchors up frs db)"

definition WriteInitialAnchors :: "(string \<Rightarrow> error option) \<Rightarrow> IntegrityReport \<Rightarrow> identityDB \<Rightarrow> error option \<times> identityDB" where
  "WriteInitialAnchors up report = writeAnchors up (ir_Files report)"

definition UpdateAnchorAfterAmendment :: "error option \<Rightarrow> string \<Rightarrow> string \<Rightarrow> string \<Rightarrow> identityDB \<Rightarrow> error option \<times> identityDB" where
  "UpdateAnchorAfterAmendment fault docName newHash amendmentID = UpsertAnchor fault docName newHash amendmentID"

section \<open>The identity phase\<close>

record identityFaults =
  if_get :: "string \<Rightarrow> error option"
  if_list :: "string \<Rightarrow> error option"
  if_docs :: "error option"
  if_upsert :: "string \<Rightarrow> error option"
  if_letter :: "error option"
  if_action :: "error option"

definition noIdentityFaults :: identityFaults where
  "noIdentityFaults = \<lparr> if_get = (\<lambda>_. None), if_list = (\<lambda>_. None), if_docs = None, if_upsert = (\<lambda>_. None), if_letter = None, if_action = None \<rparr>"

record witnessConfig =
  wc_HasAnchors :: bool
  wc_HasAssemblyStore :: bool
  wc_SkipWitnessCheck :: bool

definition enforceWitnessCheck :: "identityFaults \<Rightarrow> witnessConfig \<Rightarrow> identityDB \<Rightarrow> error option \<times> identityDB" where
  "enforceWitnessCheck f cfg db =
     (if \<not> wc_HasAssemblyStore cfg
      then (if wc_SkipWitnessCheck cfg then (None, db)
            else (Some (''WitnessRequired: no AssemblyStore available to verify witness letter. '' @
                        ''Set SKIP_WITNESS_CHECK=true to bypass (development only).''), db))
      else if (case HasWitnessLetter (if_letter f) db of Inl e \<Rightarrow> False | Inr b \<Rightarrow> b) then (None, db)
      else if wc_SkipWitnessCheck cfg
      then (None, snd (LogOperatorAction (if_action f) ''witness_check_bypassed''
                         (''First boot proceeded without a witness letter '' @ em_dash @ '' SKIP_WITNESS_CHECK was set.'') db))
      else (Some (''WitnessRequired: no witness letter found in founding_records. '' @
                  ''Set SKIP_WITNESS_CHECK=true to bypass (logged to operator_actions).''), db))"

definition buildIdentityBlock :: "(string \<times> IdentityDoc) list \<Rightarrow> string" where
  "buildIdentityBlock docs =
     ''=== IDENTITY ==='' @ newline @
     concat (map (\<lambda>name. case map_of docs name of
                           None \<Rightarrow> ''''
                         | Some doc \<Rightarrow> ''--- '' @ name @ '' ---'' @ newline @ id_Content doc @ newline) KnownDocs)"

record identityResult =
  idr_Content :: string
  idr_Docs :: "(string \<times> IdentityDoc) list"
  idr_Report :: "IntegrityReport option"

text \<open>\<open>visit\<close> gives the order in which the map of the current hashes is ranged over.\<close>

definition IdentityPhase_Assemble ::
  "((string \<times> string) list \<Rightarrow> (string \<times> string) list) \<Rightarrow> (string \<Rightarrow> string) \<Rightarrow> (string \<Rightarrow> fileState) \<Rightarrow> identityFaults \<Rightarrow> witnessConfig
     \<Rightarrow> identityDB \<Rightarrow> (error + identityResult) \<times> identityDB" where
  "IdentityPhase_Assemble visit sha fs f cfg db =
     (case LoadDocuments fs of
        Inl e \<Rightarrow> (Inl (''context: phase 1 identity load: '' @ e), db)
      | Inr docs \<Rightarrow>
          if \<not> wc_HasAnchors cfg then (Inr \<lparr> idr_Content = buildIdentityBlock docs, idr_Docs = docs, idr_Report = None \<rparr>, db)
          else (case VerifyAnchors (if_get f) (if_list f) (if_docs f) (visit (ComputeAnchors sha docs)) db of
             Inl e \<Rightarrow> (Inl (''context: phase 1 integrity check: '' @ e), db)
           | Inr report \<Rightarrow>
               if ir_HasTampering report
               then (Inl (''context: identity tampering detected '' @ em_dash @ '' session aborted pending investigation''), db)
               else (case WriteInitialAnchors (if_upsert f) report db of
                  (Some e, db1) \<Rightarrow> (Inl (''context: phase 1 anchor init: '' @ e), db1)
                | (None, db1) \<Rightarrow>
                    (case (if list_all (\<lambda>fr. fr_Status fr = AnchorNew) (ir_Files report) then enforceWitnessCheck f cfg db1 else (None, db1)) of
                       (Some e, db2) \<Rightarrow> (Inl e, db2)
                     | (None, db2) \<Rightarrow>
                         (Inr \<lparr> idr_Content = buildIdentityBlock docs, idr_Docs = docs, idr_Report = Some report \<rparr>, db2)))))"

section \<open>The anchors as a table\<close>

text \<open>What verification relies on: writing an anchor is seen by the next reading of it, and of no other.\<close>

locale anchor_table =
  fixes lookup :: "string \<Rightarrow> 'db \<Rightarrow> string"
    and put :: "string \<Rightarrow> string \<Rightarrow> 'db \<Rightarrow> 'db"
    and names :: "'db \<Rightarrow> string set"
  assumes lookup_put: "lookup d (put d' h db) = (if d = d' then h else lookup d db)"
    and names_put: "names (put d h db) = insert d (names db)"
begin

lemma lookup_puts:
  "distinct (map fst hs) \<Longrightarrow>
     lookup d (fold (\<lambda>(d, h). put d h) hs db) = (case map_of hs d of None \<Rightarrow> lookup d db | Some h \<Rightarrow> h)"
proof (induction hs arbitrary: db)
  case (Cons p hs)
  obtain a b where p: "p = (a, b)" by fastforce
  from Cons.prems have "map_of hs a = None" by (simp add: p map_of_eq_None_iff)
  with Cons p show ?case by (auto simp: lookup_put split: option.split)
qed simp

lemma names_puts: "names (fold (\<lambda>(d, h). put d h) hs db) = names db \<union> fst ` set hs"
  by (induction hs arbitrary: db) (auto simp: names_put)

end

definition storedHash :: "string \<Rightarrow> identityDB \<Rightarrow> string" where
  "storedHash d db = (case find (\<lambda>r. an_doc_name r = d) (idb_anchors db) of None \<Rightarrow> '''' | Some r \<Rightarrow> an_sha256_hash r)"

definition anchorNames :: "identityDB \<Rightarrow> string set" where
  "anchorNames db = an_doc_name ` set (idb_anchors db)"

definition initialAnchor :: "string \<Rightarrow> string \<Rightarrow> identityDB \<Rightarrow> identityDB" where
  "initialAnchor d h db = db\<lparr>idb_anchors := putAnchor d h None (idb_anchors db)\<rparr>"

lemma putAnchor_find:
  "(case find (\<lambda>r. an_doc_name r = d) (putAnchor d' h a rows) of None \<Rightarrow> '''' | Some r \<Rightarrow> an_sha256_hash r) =
   (if d = d' then h else case find (\<lambda>r. an_doc_name r = d) rows of None \<Rightarrow> '''' | Some r \<Rightarrow> an_sha256_hash r)"
proof (cases "d' \<in> an_doc_name ` set rows")
  case True
  let ?g = "\<lambda>r. if an_doc_name r = d' then r\<lparr>an_sha256_hash := h, an_amendment_id := a\<rparr> else r"
  have "(case find (\<lambda>r. an_doc_name r = d) (map ?g rows) of None \<Rightarrow> '''' | Some r \<Rightarrow> an_sha256_hash r) =
      (if d = d' \<and> d' \<in> an_doc_name ` set rows then h
       else case find (\<lambda>r. an_doc_name r = d) rows of None \<Rightarrow> '''' | Some r \<Rightarrow> an_sha256_hash r)"
    by (induction rows) auto
  with True show ?thesis by (simp add: putAnchor_def)
next
  case False
  have "(case find (\<lambda>r. an_doc_name r = d) (rows @ [\<lparr> an_doc_name = d', an_sha256_hash = h, an_amendment_id = a \<rparr>]) of None \<Rightarrow> '''' | Some r \<Rightarrow> an_sha256_hash r) =
      (if d = d' then h else case find (\<lambda>r. an_doc_name r = d) rows of None \<Rightarrow> '''' | Some r \<Rightarrow> an_sha256_hash r)"
    using False by (induction rows) auto
  with False show ?thesis by (simp add: putAnchor_def)
qed

lemma putAnchor_names: "map an_doc_name (putAnchor d h a rows) = map an_doc_name rows @ (if d \<in> an_doc_name ` set rows then [] else [d])"
  by (simp add: putAnchor_def)

interpretation stored: anchor_table storedHash initialAnchor anchorNames
proof
  show "storedHash d (initialAnchor d' h db) = (if d = d' then h else storedHash d db)" for d d' h db
    using putAnchor_find [of d d' h None "idb_anchors db"] by (simp add: storedHash_def initialAnchor_def)
  show "anchorNames (initialAnchor d h db) = insert d (anchorNames db)" for d h db
    using arg_cong [OF putAnchor_names [of d h None "idb_anchors db"], of set] by (auto simp: anchorNames_def initialAnchor_def split: if_splits)
qed

section \<open>Properties\<close>

definition amended :: "identityDB \<Rightarrow> string \<Rightarrow> string \<Rightarrow> bool" where
  "amended db d h \<longleftrightarrow> (\<exists>r \<in> set (idb_amendments db). am_DocName r = d \<and> am_NewHash r = h)"

definition docStatus :: "identityDB \<Rightarrow> string \<Rightarrow> string \<Rightarrow> AnchorStatus" where
  "docStatus db d h = (if storedHash d db = '''' then AnchorNew else if storedHash d db = h then AnchorMatch
     else if amended db d h then AnchorAmendment else AnchorTampering)"

lemma verifyDoc_status:
  assumes "verifyDoc g l db d h = Inr fr"
  shows "fr_Status fr = docStatus db d h \<and> fr_DocName fr = d \<and> fr_CurrentHash fr = h"
proof -
  have g: "GetAnchor g d db = Inr (s, a) \<Longrightarrow> s = storedHash d db" for s a
    by (auto simp: GetAnchor_def storedHash_def split: option.splits)
  have am: "r \<noteq> None \<longleftrightarrow> amended db d h" if "findAmendmentByNewHash l d h db = Inr r" for r
  proof -
    let ?xs = "sort_key (\<lambda>r. - am_CreatedAt r) (filter (\<lambda>r. am_DocName r = d) (idb_amendments db))"
    from that have "r = find (\<lambda>r. am_NewHash r = h) ?xs"
      by (auto simp: findAmendmentByNewHash_def ListAmendments_def split: option.splits)
    then have "r \<noteq> None \<longleftrightarrow> (\<exists>x \<in> set ?xs. am_NewHash x = h)" by (metis (mono_tags, lifting) find_None_iff)
    then show ?thesis by (auto simp: amended_def)
  qed
  from assms obtain s a where s: "GetAnchor g d db = Inr (s, a)" by (auto simp: verifyDoc_def split: sum.splits)
  from g [OF s] assms s am show ?thesis
    by (fastforce simp: verifyDoc_def docStatus_def Let_def split: if_splits sum.splits option.splits)
qed

lemma verifyDocs_report:
  "verifyDocs g l db hs rep = Inr rep' \<Longrightarrow>
     (ir_HasTampering rep' \<longleftrightarrow> ir_HasTampering rep \<or> (\<exists>(d, h) \<in> set hs. docStatus db d h = AnchorTampering)) \<and>
     map (\<lambda>fr. (fr_DocName fr, fr_CurrentHash fr, fr_Status fr)) (ir_Files rep') =
       map (\<lambda>fr. (fr_DocName fr, fr_CurrentHash fr, fr_Status fr)) (ir_Files rep) @ map (\<lambda>(d, h). (d, h, docStatus db d h)) hs"
proof (induction g l db hs rep rule: verifyDocs.induct)
  case (2 g l db d h hs rep)
  from 2(2) obtain fr where fr: "verifyDoc (g d) (l d) db d h = Inr fr" by (auto split: sum.splits)
  with 2 verifyDoc_status [OF fr] show ?case by auto
qed simp

lemma deletedDocs_report:
  "(ir_HasTampering (deletedDocs ds hs rep) \<longleftrightarrow> ir_HasTampering rep \<or> \<not> set ds \<subseteq> fst ` set hs) \<and>
   (set ds \<subseteq> fst ` set hs \<longrightarrow> deletedDocs ds hs rep = rep)"
  by (induction ds hs rep rule: deletedDocs.induct) auto

lemma VerifyAnchors_report:
  assumes "VerifyAnchors g l df hs db = Inr rep"
  shows "ir_HasTampering rep \<longleftrightarrow> (\<exists>(d, h) \<in> set hs. docStatus db d h = AnchorTampering) \<or> \<not> anchorNames db \<subseteq> fst ` set hs"
    and "\<not> ir_HasTampering rep \<Longrightarrow>
      map (\<lambda>fr. (fr_DocName fr, fr_CurrentHash fr, fr_Status fr)) (ir_Files rep) = map (\<lambda>(d, h). (d, h, docStatus db d h)) hs"
proof -
  from assms obtain r where r: "verifyDocs g l db hs \<lparr> ir_Files = [], ir_HasTampering = False \<rparr> = Inr r"
    "rep = deletedDocs (map an_doc_name (idb_anchors db)) hs r"
    by (auto simp: VerifyAnchors_def ListAnchoredDocs_def split: sum.splits option.splits)
  note v = verifyDocs_report [OF r(1)] and d = deletedDocs_report [of "map an_doc_name (idb_anchors db)" hs r]
  show "ir_HasTampering rep \<longleftrightarrow> (\<exists>(d, h) \<in> set hs. docStatus db d h = AnchorTampering) \<or> \<not> anchorNames db \<subseteq> fst ` set hs"
    using v d r(2) by (simp add: anchorNames_def)
  show "\<not> ir_HasTampering rep \<Longrightarrow>
      map (\<lambda>fr. (fr_DocName fr, fr_CurrentHash fr, fr_Status fr)) (ir_Files rep) = map (\<lambda>(d, h). (d, h, docStatus db d h)) hs"
    using v d r(2) by (simp add: anchorNames_def)
qed

lemma VerifyAnchors_total: "\<exists>rep. VerifyAnchors (\<lambda>_. None) (\<lambda>_. None) None hs db = Inr rep"
proof -
  have "\<exists>fr. verifyDoc None None db d h = Inr fr" for d h
    by (auto simp: verifyDoc_def GetAnchor_def findAmendmentByNewHash_def ListAmendments_def Let_def split: option.splits)
  then have "\<exists>r. verifyDocs (\<lambda>_. None) (\<lambda>_. None) db hs rep = Inr r" for rep
    by (induction hs arbitrary: rep) (auto, metis sum.case(2))
  then obtain r where "verifyDocs (\<lambda>_. None) (\<lambda>_. None) db hs \<lparr> ir_Files = [], ir_HasTampering = False \<rparr> = Inr r" by blast
  then show ?thesis by (simp add: VerifyAnchors_def ListAnchoredDocs_def)
qed

text \<open>
  C28. Verification reports tampering exactly when a document differs from its stored anchor without an
  amendment record that leads to its current hash, or an anchored document is missing.
\<close>

theorem tampering_detected_exactly:
  "\<exists>rep. VerifyAnchors (\<lambda>_. None) (\<lambda>_. None) None hs db = Inr rep \<and>
     (ir_HasTampering rep \<longleftrightarrow>
        (\<exists>(d, h) \<in> set hs. storedHash d db \<notin> {'''', h} \<and> \<not> amended db d h) \<or> (\<exists>d \<in> anchorNames db. d \<notin> fst ` set hs))"
proof -
  have "docStatus db d h = AnchorTampering \<longleftrightarrow> storedHash d db \<notin> {'''', h} \<and> \<not> amended db d h" for d h
    by (auto simp: docStatus_def)
  with VerifyAnchors_total [of hs db] VerifyAnchors_report(1) show ?thesis by fastforce
qed

lemma LoadDocuments_distinct: "LoadDocuments fs = Inr docs \<Longrightarrow> distinct (map fst docs)"
proof -
  have "loadDocs fs ns acc = Inr docs \<Longrightarrow> distinct (map fst acc @ ns) \<Longrightarrow> distinct (map fst docs)" for ns acc docs
    by (induction fs ns acc rule: loadDocs.induct) (auto split: sum.splits fileState.splits)
  from this [of KnownDocs "[]" docs] show "LoadDocuments fs = Inr docs \<Longrightarrow> distinct (map fst docs)"
    by (simp add: LoadDocuments_def KnownDocs_def)
qed

definition visits :: "((string \<times> string) list \<Rightarrow> (string \<times> string) list) \<Rightarrow> bool" where
  "visits visit \<longleftrightarrow> (\<forall>xs. mset (visit xs) = mset xs)"

lemma visits_set: "visits visit \<Longrightarrow> set (visit xs) = set xs"
  unfolding visits_def by (metis mset_eq_setD)

lemma visits_distinct: "visits visit \<Longrightarrow> distinct (map fst xs) \<Longrightarrow> distinct (map fst (visit xs))"
  unfolding visits_def by (metis mset_map mset_eq_imp_distinct_iff)

text \<open>
  A session starts only under an intact identity: whatever statements fail and in whatever order the
  documents are visited, when the phase with an anchor store returns a context, every document with a
  stored anchor was loaded and its content has the anchored hash or the hash of a recorded amendment.
\<close>

theorem identity_phase_is_fail_closed:
  assumes "visits visit" "IdentityPhase_Assemble visit sha fs f cfg db = (Inr res, db')" "wc_HasAnchors cfg"
    and "d \<in> anchorNames db" "storedHash d db \<noteq> ''''"
  shows "\<exists>doc. (d, doc) \<in> set (idr_Docs res) \<and>
    (sha (id_Content doc) = storedHash d db \<or> amended db d (sha (id_Content doc)))"
proof -
  from assms(2,3) obtain docs rep where docs: "LoadDocuments fs = Inr docs" "idr_Docs res = docs"
    and rep: "VerifyAnchors (if_get f) (if_list f) (if_docs f) (visit (ComputeAnchors sha docs)) db = Inr rep" "\<not> ir_HasTampering rep"
    unfolding IdentityPhase_Assemble_def by (auto split: sum.splits if_splits prod.splits option.splits)
  note v = VerifyAnchors_report(1) [OF rep(1)]
  then have "d \<in> fst ` set (ComputeAnchors sha docs)" using rep(2) assms(4) visits_set [OF assms(1)] by auto
  then obtain doc where doc: "(d, doc) \<in> set docs" "(d, sha (id_Content doc)) \<in> set (visit (ComputeAnchors sha docs))"
    using visits_set [OF assms(1)] by (force simp: ComputeAnchors_def)
  then have "docStatus db d (sha (id_Content doc)) \<noteq> AnchorTampering" using v rep(2) by auto
  then show ?thesis using doc(1) docs(2) assms(5) by (auto simp: docStatus_def split: if_splits)
qed

text \<open>The first and the second boot on a fresh database.\<close>

lemma writeAnchors_new:
  "list_all (\<lambda>fr. fr_Status fr = AnchorNew) frs \<Longrightarrow>
     writeAnchors (\<lambda>_. None) frs db = (None, fold (\<lambda>(d, h). initialAnchor d h) (map (\<lambda>fr. (fr_DocName fr, fr_CurrentHash fr)) frs) db)"
  by (induction frs arbitrary: db) (auto simp: UpsertAnchor_def initialAnchor_def)

lemma writeAnchors_old: "list_all (\<lambda>fr. fr_Status fr \<noteq> AnchorNew) frs \<Longrightarrow> writeAnchors up frs db = (None, db)"
  by (induction frs) auto

lemma verified_without_tampering:
  assumes "anchorNames db \<subseteq> fst ` set hs" "\<forall>(d, h) \<in> set hs. docStatus db d h = st" "st \<noteq> AnchorTampering"
  obtains rep where "VerifyAnchors (\<lambda>_. None) (\<lambda>_. None) None hs db = Inr rep" "\<not> ir_HasTampering rep"
    "list_all (\<lambda>fr. fr_Status fr = st) (ir_Files rep)" "map (\<lambda>fr. (fr_DocName fr, fr_CurrentHash fr)) (ir_Files rep) = hs"
proof -
  obtain rep where r: "VerifyAnchors (\<lambda>_. None) (\<lambda>_. None) None hs db = Inr rep" using VerifyAnchors_total by blast
  have t: "\<not> ir_HasTampering rep" using VerifyAnchors_report(1) [OF r] assms by auto
  have m: "map (\<lambda>fr. (fr_DocName fr, fr_CurrentHash fr, fr_Status fr)) (ir_Files rep) = map (\<lambda>(d, h). (d, h, st)) hs"
    using VerifyAnchors_report(2) [OF r t] assms(2) by (auto intro!: map_cong split: prod.splits)
  have "list_all (\<lambda>fr. fr_Status fr = st) (ir_Files rep)"
    using arg_cong [OF m, of "map (\<lambda>(d, h, s). s)"] by (auto simp: list_all_iff comp_def split_def map_replicate_const dest!: arg_cong [of _ _ set])
  moreover have "map (\<lambda>fr. (fr_DocName fr, fr_CurrentHash fr)) (ir_Files rep) = hs"
    using arg_cong [OF m, of "map (\<lambda>(d, h, s). (d, h))"] by (simp add: comp_def split_def)
  ultimately show thesis using that r t by blast
qed

text \<open>
  The witness check can be passed by without a letter and without a trace: the first boot on a fresh
  identity writes the anchors before it demands the letter, so that a second boot, with nothing changed,
  finds no new document, skips the check and starts the session; no bypass is logged.
\<close>

theorem second_boot_skips_witness_check:
  assumes "visits visit" "LoadDocuments fs = Inr docs" "docs \<noteq> []" "\<And>c. sha c \<noteq> ''''"
    and "idb_anchors db = []" "HasWitnessLetter None db = Inr False"
    and "cfg = \<lparr> wc_HasAnchors = True, wc_HasAssemblyStore = True, wc_SkipWitnessCheck = False \<rparr>"
  shows "\<exists>e db1 res. IdentityPhase_Assemble visit sha fs noIdentityFaults cfg db = (Inl e, db1) \<and>
    IdentityPhase_Assemble visit sha fs noIdentityFaults cfg db1 = (Inr res, db1) \<and>
    idb_founding db1 = idb_founding db \<and> idb_actions db1 = idb_actions db"
proof -
  let ?hs = "visit (ComputeAnchors sha docs)" and ?put = "fold (\<lambda>(d, h). initialAnchor d h)"
  have "map fst (ComputeAnchors sha docs) = map fst docs" by (simp add: ComputeAnchors_def comp_def split_def)
  then have dist: "distinct (map fst ?hs)" using visits_distinct [OF assms(1)] LoadDocuments_distinct [OF assms(2)] by metis
  have ne: "?hs \<noteq> []" using visits_set [OF assms(1), of "ComputeAnchors sha docs"] assms(3) by (auto simp: ComputeAnchors_def)
  have h: "h \<noteq> ''''" if "(d, h) \<in> set ?hs" for d h
    using that assms(4) visits_set [OF assms(1)] by (auto simp: ComputeAnchors_def)
  obtain rep where rep: "VerifyAnchors (\<lambda>_. None) (\<lambda>_. None) None ?hs db = Inr rep" "\<not> ir_HasTampering rep"
    "list_all (\<lambda>fr. fr_Status fr = AnchorNew) (ir_Files rep)" "map (\<lambda>fr. (fr_DocName fr, fr_CurrentHash fr)) (ir_Files rep) = ?hs"
    by (rule verified_without_tampering [of db ?hs AnchorNew]) (auto simp: anchorNames_def docStatus_def storedHash_def assms(5))
  let ?db = "?put ?hs db"
  have same: "idb_founding (?put hs d) = idb_founding d \<and> idb_actions (?put hs d) = idb_actions d" for hs d
    by (induction hs arbitrary: d) (auto simp: initialAnchor_def)
  have first: "\<exists>e. IdentityPhase_Assemble visit sha fs noIdentityFaults cfg db = (Inl e, ?db)"
    using rep assms(2,6,7) same [of ?hs db]
    by (simp add: IdentityPhase_Assemble_def noIdentityFaults_def WriteInitialAnchors_def writeAnchors_new enforceWitnessCheck_def HasWitnessLetter_def)
  have st: "docStatus ?db d x = AnchorMatch" if "(d, x) \<in> set ?hs" for d x
    using that h stored.lookup_puts [OF dist, of d db] dist by (auto simp: docStatus_def)
  obtain rep' where rep': "VerifyAnchors (\<lambda>_. None) (\<lambda>_. None) None ?hs ?db = Inr rep'" "\<not> ir_HasTampering rep'"
    "list_all (\<lambda>fr. fr_Status fr = AnchorMatch) (ir_Files rep')" "map (\<lambda>fr. (fr_DocName fr, fr_CurrentHash fr)) (ir_Files rep') = ?hs"
  proof (rule verified_without_tampering [of ?db ?hs AnchorMatch])
    show "anchorNames ?db \<subseteq> fst ` set ?hs" unfolding stored.names_puts by (simp add: anchorNames_def assms(5))
    show "\<forall>(d, x) \<in> set ?hs. docStatus ?db d x = AnchorMatch" using st by blast
  qed simp
  have "ir_Files rep' \<noteq> []" using rep'(4) ne by auto
  moreover have "list_all (\<lambda>fr. fr_Status fr \<noteq> AnchorNew) (ir_Files rep')" using rep'(3) by (auto simp: list_all_iff)
  ultimately have "\<exists>res. IdentityPhase_Assemble visit sha fs noIdentityFaults cfg ?db = (Inr res, ?db)"
    using rep' assms(2,7)
    by (auto simp: IdentityPhase_Assemble_def noIdentityFaults_def WriteInitialAnchors_def writeAnchors_old list_all_iff neq_Nil_conv)
  with first same [of ?hs db] show ?thesis by blast
qed

text \<open>A directory with one document, and a fresh database.\<close>

definition oneDoc :: "string \<Rightarrow> fileState" where
  "oneDoc name = (if name = ''soul.md'' then FileRead ''id/soul.md'' ''I am'' 0 4 else FileMissing)"

definition freshIdentity :: identityDB where
  "freshIdentity = \<lparr> idb_anchors = [], idb_amendments = [], idb_substrates = [], idb_founding = [], idb_actions = [] \<rparr>"

definition bootedIdentity :: identityDB where
  "bootedIdentity = freshIdentity\<lparr>idb_anchors := [\<lparr> an_doc_name = ''soul.md'', an_sha256_hash = ''#I am'', an_amendment_id = None \<rparr>]\<rparr>"

definition strictConfig :: witnessConfig where
  "strictConfig = \<lparr> wc_HasAnchors = True, wc_HasAssemblyStore = True, wc_SkipWitnessCheck = False \<rparr>"

lemma visits_id: "visits id"
  by (simp add: visits_def)

theorem second_boot_skips_witness_check_witness:
  "\<exists>e db1 res. IdentityPhase_Assemble id (\<lambda>c. CHR 0x23 # c) oneDoc noIdentityFaults strictConfig freshIdentity = (Inl e, db1) \<and>
    IdentityPhase_Assemble id (\<lambda>c. CHR 0x23 # c) oneDoc noIdentityFaults strictConfig db1 = (Inr res, db1) \<and>
    idb_founding db1 = [] \<and> idb_actions db1 = []"
proof -
  obtain docs where "LoadDocuments oneDoc = Inr docs" "docs \<noteq> []"
    by (simp add: LoadDocuments_def KnownDocs_def oneDoc_def)
  from second_boot_skips_witness_check [OF visits_id this, of "\<lambda>c. CHR 0x23 # c" freshIdentity strictConfig] show ?thesis
    by (simp add: freshIdentity_def HasWitnessLetter_def strictConfig_def)
qed

theorem identity_phase_is_fail_closed_witness:
  "\<exists>res db' doc. IdentityPhase_Assemble id (\<lambda>c. CHR 0x23 # c) oneDoc noIdentityFaults strictConfig bootedIdentity = (Inr res, db') \<and>
     (''soul.md'', doc) \<in> set (idr_Docs res) \<and> (id_Content doc = ''I am'' \<or> amended bootedIdentity ''soul.md'' (CHR 0x23 # id_Content doc))"
proof -
  obtain res db' where r: "IdentityPhase_Assemble id (\<lambda>c. CHR 0x23 # c) oneDoc noIdentityFaults strictConfig bootedIdentity = (Inr res, db')"
    by (simp add: IdentityPhase_Assemble_def LoadDocuments_def KnownDocs_def oneDoc_def strictConfig_def noIdentityFaults_def ComputeAnchors_def
        VerifyAnchors_def verifyDoc_def GetAnchor_def bootedIdentity_def freshIdentity_def ListAnchoredDocs_def WriteInitialAnchors_def Let_def)
  from identity_phase_is_fail_closed [OF visits_id r, of "''soul.md''"] r show ?thesis
    by (auto simp: strictConfig_def bootedIdentity_def anchorNames_def storedHash_def)
qed

end
