(* ===== verification/Profiles.thy ===== *)
theory Profiles
  imports MemoryTiers
begin

text \<open>
  The relational profiles of \<^verbatim>\<open>internal/platform/memory.go\<close>: \<open>GetProfile\<close> and \<open>ListProfiles\<close> of both stores. A row of
  \<^verbatim>\<open>relational_profiles\<close> keeps the aliases as one text, which no query reads back. \<open>eq\<close> is the comparison
  of letters of the database's \<open>LIKE\<close> (\<open>ILIKE\<close> in PostgreSQL), \<open>coll\<close> the order of names of its \<open>ORDER BY\<close>, bytewise in
  SQLite. A query without an order that is cut to one row takes the first in insertion order.
\<close>

record profileRow =
  pw_id :: string
  pw_name :: string
  pw_aliases :: string
  pw_content :: string

record RelationalProfile =
  rp_ID :: string
  rp_Name :: string
  rp_Aliases :: "string list"
  rp_Content :: string

definition profileOfRow :: "profileRow \<Rightarrow> RelationalProfile" where
  "profileOfRow r = \<lparr> rp_ID = pw_id r, rp_Name = pw_name r, rp_Aliases = [], rp_Content = pw_content r \<rparr>"

definition profileMatches :: "(char \<Rightarrow> char \<Rightarrow> bool) \<Rightarrow> string \<Rightarrow> profileRow \<Rightarrow> bool" where
  "profileMatches eq name r \<longleftrightarrow> pw_name r = name \<or> likeEsc eq (''%'' @ escapeLike name @ ''%'') (pw_aliases r)"

definition GetProfile :: "(char \<Rightarrow> char \<Rightarrow> bool) \<Rightarrow> error option \<Rightarrow> string \<Rightarrow> profileRow list \<Rightarrow> error + RelationalProfile option" where
  "GetProfile eq fault name rows =
     (case fault of
        Some e \<Rightarrow> Inl e
      | None \<Rightarrow> Inr (map_option profileOfRow (find (profileMatches eq name) rows)))"

definition ListProfiles :: "error option \<Rightarrow> profileRow list \<Rightarrow> error + RelationalProfile list" where
  "ListProfiles fault rows =
     (case fault of Some e \<Rightarrow> Inl e | None \<Rightarrow> Inr (map profileOfRow (sort_key (\<lambda>r. byteKey (pw_name r)) rows)))"

definition Postgres_GetProfile :: "(char \<Rightarrow> char \<Rightarrow> bool) \<Rightarrow> error option \<Rightarrow> string \<Rightarrow> profileRow list \<Rightarrow> error + RelationalProfile option" where
  "Postgres_GetProfile = GetProfile"

definition Postgres_ListProfiles :: "(string \<Rightarrow> nat list) \<Rightarrow> error option \<Rightarrow> profileRow list \<Rightarrow> error + RelationalProfile list" where
  "Postgres_ListProfiles coll fault rows =
     (case fault of Some e \<Rightarrow> Inl e | None \<Rightarrow> Inr (map profileOfRow (sort_key (\<lambda>r. coll (pw_name r)) rows)))"

section \<open>Properties\<close>

text \<open>
  A lookup finds somebody exactly when a name is the one asked for or an alias text contains it, also
  in the middle of a word; it never returns an alias; and it may return another person
  although the one asked for by name is there.
\<close>

lemma profileMatches_iff: "profileMatches eq name r \<longleftrightarrow> pw_name r = name \<or> (\<exists>u m v. pw_aliases r = u @ m @ v \<and> list_all2 eq name m)"
  unfolding profileMatches_def like_literal ..

theorem profile_lookup_is_by_substring:
  "\<exists>res. GetProfile eq None name rows = Inr res \<and>
     (res = None \<longleftrightarrow> (\<forall>r \<in> set rows. pw_name r \<noteq> name \<and> (\<nexists>u m v. pw_aliases r = u @ m @ v \<and> list_all2 eq name m))) \<and>
     (\<forall>p. res = Some p \<longrightarrow> rp_Aliases p = [] \<and> (\<exists>r \<in> set rows. pw_id r = rp_ID p))"
proof (cases "find (profileMatches eq name) rows")
  case None
  then have "\<not> (\<exists>r. r \<in> set rows \<and> profileMatches eq name r)" by (simp only: find_None_iff not_False_eq_True)
  with None show ?thesis by (auto simp: GetProfile_def profileMatches_iff)
next
  case (Some r)
  then have "r \<in> set rows" "profileMatches eq name r" by (auto simp: find_Some_iff)
  moreover from this have "pw_name r = name \<or> (\<exists>u m v. pw_aliases r = u @ m @ v \<and> list_all2 eq name m)" by (simp only: profileMatches_iff)
  ultimately show ?thesis using Some by (intro exI [of _ "Some (profileOfRow r)"]) (auto simp: GetProfile_def profileOfRow_def)
qed

text \<open>Two people, where the first has an alias that contains the name of the second.\<close>

definition twoPeople :: "profileRow list" where
  "twoPeople = [\<lparr> pw_id = ''p1'', pw_name = ''Robert'', pw_aliases = ''Alan'', pw_content = ''r'' \<rparr>,
     \<lparr> pw_id = ''p2'', pw_name = ''Al'', pw_aliases = '''', pw_content = ''a'' \<rparr>]"

lemma lookup_returns_another_person:
  "GetProfile (=) None ''Al'' twoPeople = Inr (Some \<lparr> rp_ID = ''p1'', rp_Name = ''Robert'', rp_Aliases = [], rp_Content = ''r'' \<rparr>)"
  by (simp add: GetProfile_def twoPeople_def profileMatches_def escapeLike_def replaceByte_def profileOfRow_def likeEsc.simps(2))

end
