(* ===== verification/Assembly.thy ===== *)
theory Assembly
  imports Lifecycle Identity Profiles Registry Metabolism
begin

text \<open>
  Context assembly (\<^verbatim>\<open>internal/assembly\<close>): the assembler and its six phases, the orientation bridge and
  the grounding data of \<^verbatim>\<open>internal/awareness\<close> and the token budget.

  A phase reads the configuration and the world (the identity database, which only the identity phase
  writes), and returns its result, an error or a panic, with the depth manifest as it leaves it.
  Random numbers, the clock, the file system and the database's comparison of
  letters are fields of the environment \<open>asmEnv\<close>. Logging is left out.
\<close>

section \<open>Token budget\<close>

datatype BudgetLevel = BudgetOK | BudgetSoft | BudgetHard

record TokenBudget =
  tb_total :: int
  tb_softPct :: float64
  tb_hardPct :: float64
  tb_used :: int
  tb_hardFloor :: int

definition NewTokenBudget :: "int \<Rightarrow> int \<Rightarrow> TokenBudget" where
  "NewTokenBudget tot hardFloor =
     \<lparr> tb_total = tot, tb_softPct = fl (80 / 100), tb_hardPct = fl (95 / 100), tb_used = 0, tb_hardFloor = hardFloor \<rparr>"

definition Remaining :: "TokenBudget \<Rightarrow> int" where
  "Remaining b = (let r = tb_total b - tb_used b in if r < 0 then 0 else r)"

definition level :: "TokenBudget \<Rightarrow> BudgetLevel" where
  "level b =
     (if tb_total b = 0 then BudgetOK
      else (let frac = fdiv (fl (of_int (tb_used b))) (fl (of_int (tb_total b))); remaining = tb_total b - tb_used b
            in if frac \<ge> tb_hardPct b \<or> remaining \<le> tb_hardFloor b then BudgetHard
               else if frac \<ge> tb_softPct b then BudgetSoft else BudgetOK))"

definition TokenBudget_Add :: "int \<Rightarrow> int \<Rightarrow> TokenBudget \<Rightarrow> BudgetLevel \<times> TokenBudget" where
  "TokenBudget_Add prompt completion b = (let b' = b\<lparr>tb_used := tb_used b + (prompt + completion)\<rparr> in (level b', b'))"

section \<open>Configuration\<close>

record asmStore =
  as_db :: graphDB
  as_profiles :: "profileRow list"
  as_narrativeFault :: "error option"
  as_reflectionFault :: "error option"
  as_echoFault :: "error option"
  as_entityFault :: "error option"
  as_profileFault :: "error option"
  as_edgeFault :: "string \<Rightarrow> error option"
  as_pointFault :: "string \<Rightarrow> error option"

record GroundingConfig =
  gc_Timezone :: string
  gc_Location :: string
  gc_WeatherAPIKey :: string
  gc_WeatherLocation :: string

record BridgeConfig =
  bc_AbstainRate :: float64
  bc_Model :: string

record assembleConfig =
  ac_store :: "asmStore option"
  ac_edges :: bool
  ac_witness :: witnessConfig
  ac_provider :: "(string \<Rightarrow> error + rat list) option"
  ac_grounding :: GroundingConfig
  ac_bridge :: BridgeConfig
  ac_llmFn :: "(string \<Rightarrow> error + string) option"
  ac_contradictionProbability :: float64
  ac_InbandNotes :: "string list"
  ac_Plan :: "LifecyclePlan option"
  ac_SessionID :: string

record asmEnv =
  ev_parse :: "string \<Rightarrow> time option"
  ev_randFloat :: float64
  ev_cryptoFloat :: float64
  ev_eq :: "char \<Rightarrow> char \<Rightarrow> bool"
  ev_zone :: "string \<Rightarrow> bool"
  ev_clock :: "string \<Rightarrow> string"
  ev_sha :: "string \<Rightarrow> string"
  ev_fs :: "string \<Rightarrow> fileState"
  ev_visit :: "(string \<times> string) list \<Rightarrow> (string \<times> string) list"
  ev_identityFaults :: identityFaults
  ev_newid :: string
  ev_now :: time

record DepthManifest =
  mf_NarrativeTotal :: int
  mf_NarrativeLoaded :: int
  mf_ReflectionTotal :: int
  mf_ReflectionLoaded :: int
  mf_EntityTotal :: int
  mf_EntityLoaded :: int
  mf_ProfileTotal :: int
  mf_ProfileLoaded :: int
  mf_UnreadMessages :: int
  mf_AccessHints :: "string list"

definition emptyManifest :: DepthManifest where
  "emptyManifest = \<lparr> mf_NarrativeTotal = 0, mf_NarrativeLoaded = 0, mf_ReflectionTotal = 0, mf_ReflectionLoaded = 0, mf_EntityTotal = 0,
     mf_EntityLoaded = 0, mf_ProfileTotal = 0, mf_ProfileLoaded = 0, mf_UnreadMessages = 0, mf_AccessHints = [] \<rparr>"

definition hint :: "string \<Rightarrow> DepthManifest \<Rightarrow> DepthManifest" where
  "hint h m = m\<lparr>mf_AccessHints := mf_AccessHints m @ [h]\<rparr>"

record PhaseResult =
  pr_Content :: string
  pr_CharsUsed :: int
  pr_TokenEstimate :: int
  pr_IdentityDocs :: "(string \<times> IdentityDoc) list option"
  pr_IntegrityReport :: "IntegrityReport option"
  pr_BridgeAbstained :: bool

definition phaseResult :: "string \<Rightarrow> int \<Rightarrow> PhaseResult" where
  "phaseResult content chars = \<lparr> pr_Content = content, pr_CharsUsed = chars, pr_TokenEstimate = 0, pr_IdentityDocs = None,
     pr_IntegrityReport = None, pr_BridgeAbstained = False \<rparr>"

datatype phaseOut = PhaseOk PhaseResult | PhaseErr error | PhasePanic

type_synonym phaseFn = "assembleConfig \<Rightarrow> DepthManifest \<Rightarrow> int \<Rightarrow> identityDB \<Rightarrow> phaseOut \<times> DepthManifest \<times> identityDB"

record Phase =
  ph_Name :: string
  ph_Priority :: int
  ph_MinBudget :: int
  ph_IsFatal :: bool
  ph_Assemble :: phaseFn

text \<open>\<open>summarize\<close> cuts bytes.\<close>

definition summarize :: "string \<Rightarrow> nat \<Rightarrow> string" where
  "summarize content maxChars = (if length content \<le> maxChars then content else take maxChars content @ ellipsis)"

section \<open>The phases\<close>

definition IdentityPhase :: "asmEnv \<Rightarrow> Phase" where
  "IdentityPhase env = \<lparr> ph_Name = ''identity'', ph_Priority = 100, ph_MinBudget = 0, ph_IsFatal = True,
     ph_Assemble = (\<lambda>cfg m remaining idb.
       case IdentityPhase_Assemble (ev_visit env) (ev_sha env) (ev_fs env) (ev_identityFaults env) (ac_witness cfg) idb of
         (Inl e, idb') \<Rightarrow> (PhaseErr e, m, idb')
       | (Inr r, idb') \<Rightarrow> (PhaseOk ((phaseResult (idr_Content r) 0)\<lparr>pr_IdentityDocs := Some (idr_Docs r), pr_IntegrityReport := idr_Report r\<rparr>), m, idb')) \<rparr>"

definition buildBridgePrompt :: "string \<Rightarrow> string list \<Rightarrow> string" where
  "buildBridgePrompt narrative activeThreads =
     ''You are writing a brief orientation bridge for an AI agent waking from sleep.'' @ newline @
     ''Write in second person, present tense. Two to four sentences maximum.'' @ newline @
     ''Ground her in where she left off '' @ em_dash @ '' what she was doing, what she cares about,'' @ newline @
     ''what is still in motion. Do not summarise everything; surface what matters most right now.'' @ newline @ newline @
     ''RECENT NARRATIVE:'' @ newline @ narrative @ newline @ newline @
     (if activeThreads \<noteq> []
      then ''ACTIVE THREADS:'' @ newline @ concat (map (\<lambda>t. ''- '' @ TrimSpace t @ newline) activeThreads) @ newline
      else '''') @
     ''Write the orientation bridge now:''"

record BridgeResult =
  bg_Content :: string
  bg_Abstained :: bool

definition SynthesizeBridge ::
  "asmEnv \<Rightarrow> string \<Rightarrow> string list \<Rightarrow> BridgeConfig \<Rightarrow> (string \<Rightarrow> error + string) \<Rightarrow> error + BridgeResult" where
  "SynthesizeBridge env narrative activeThreads cfg llmFn =
     (let rate = (if bc_AbstainRate cfg \<le> 0 then fl (20 / 100) else bc_AbstainRate cfg)
      in if ev_randFloat env < rate then Inr \<lparr> bg_Content = '''', bg_Abstained = True \<rparr>
         else (case llmFn (buildBridgePrompt narrative activeThreads) of
                 Inl e \<Rightarrow> Inl (''bridge: LLM call failed: '' @ e)
               | Inr content \<Rightarrow> Inr \<lparr> bg_Content = TrimSpace content, bg_Abstained = False \<rparr>))"

text \<open>The note about unfinished metabolism, with the hint.\<close>

definition metabolismNote :: "LifecyclePlan option \<Rightarrow> bool \<Rightarrow> (string \<times> string) option" where
  "metabolismNote plan noNarratives =
     (case plan of
        None \<Rightarrow> None
      | Some p \<Rightarrow>
          (let ms = plan_PriorMetabolismStatus p in
           if ms \<in> {MetabolismQueued, MetabolismRunning, MetabolismFailedRetry, MetabolismFailedTerminal, MetabolismPartial}
           then Some (''[Metabolism Note] Prior session metabolism is '' @ ms @
                        ''. Experience from the last session may not be fully integrated into memory.'' @
                        (if noNarratives then '' No T3 narrative summaries are available; use memory search for targeted recall of recent experience.'' else ''''),
                      ''prior metabolism '' @ ms @ '' '' @ em_dash @ '' T3 may not cover the most recent session; memory search is the fallback'')
           else None))"

definition narrativePart :: "NarrativeSummary \<Rightarrow> string" where
  "narrativePart n =
     (case ns_ExternalAnnotation n of
        None \<Rightarrow> ns_Content n
      | Some a \<Rightarrow> ''[Content-Provenance: this summary includes external input from '' @ aa_Source a @ '' (trust='' @ fmt2 (aa_TrustScore a) @
                  '', scan_passed='' @ (if aa_ScanPassed a then ''true'' else ''false'') @ '')]'' @ newline @ ns_Content n)"

definition bridgePart :: "asmEnv \<Rightarrow> assembleConfig \<Rightarrow> string \<Rightarrow> string list \<Rightarrow> string list \<times> bool" where
  "bridgePart env cfg recentNarrative threads =
     (case (ac_llmFn cfg, ac_Plan cfg) of
        (Some llmFn, Some plan) \<Rightarrow>
          if recentNarrative = '''' \<or> plan_BridgePolicy plan \<noteq> BridgeAutoWithAbstention then ([], False)
          else (case SynthesizeBridge env recentNarrative threads (ac_bridge cfg) llmFn of
                  Inl e \<Rightarrow> ([], False)
                | Inr br \<Rightarrow>
                    (if \<not> bg_Abstained br \<and> bg_Content br \<noteq> '''' then [''=== ORIENTATION BRIDGE ==='' @ newline @ bg_Content br] else [],
                     bg_Abstained br))
      | _ \<Rightarrow> ([], False))"

definition assembleContinuity ::
  "asmEnv \<Rightarrow> assembleConfig \<Rightarrow> asmStore \<Rightarrow> DepthManifest \<Rightarrow> (error + string \<times> bool) \<times> DepthManifest" where
  "assembleContinuity env cfg st m =
     (case SearchNarrative (ev_parse env) (as_narrativeFault st) 3 (as_db st) of
        Inl e \<Rightarrow> (Inl (''phase 2: T3 search: '' @ e), m)
      | Inr narratives \<Rightarrow>
          (let m = m\<lparr>mf_NarrativeTotal := int (length narratives)\<rparr>;
               m = (if narratives = []
                    then hint (''similarity search unavailable '' @ em_dash @ '' retrieval is recency-only; use memory search for targeted lookups'') m else m);
               note = metabolismNote (ac_Plan cfg) (narratives = []);
               m = (case note of None \<Rightarrow> m | Some (n, h) \<Rightarrow> hint h m);
               recentNarrative = (case narratives of [] \<Rightarrow> '''' | n # _ \<Rightarrow> ns_Content n);
               loaded = take 2 narratives;
               m = m\<lparr>mf_NarrativeLoaded := mf_NarrativeLoaded m + int (length loaded)\<rparr>;
               parts = (case note of None \<Rightarrow> [] | Some (n, h) \<Rightarrow> [n]) @ map narrativePart loaded;
               (parts, abstained, m) =
                 (case SearchReflections (ev_parse env) (as_reflectionFault st) 5 (as_db st) of
                    Inl e \<Rightarrow> (parts, False, m)
                  | Inr refs \<Rightarrow>
                      (let m = m\<lparr>mf_ReflectionTotal := int (length refs)\<rparr>;
                           m = (if refs = []
                                then hint (''reflection search unavailable '' @ em_dash @ '' use memory search for targeted reflection lookups'') m else m);
                           m = m\<lparr>mf_ReflectionLoaded := mf_ReflectionLoaded m + int (length refs)\<rparr>;
                           (br, abst) = bridgePart env cfg recentNarrative (map rfl_Content refs)
                       in (br @ parts, abst, m)))
           in (Inr (if parts = [] then '''' else ''=== CONTINUITY ==='' @ newline @ strJoin parts (newline @ ''---'' @ newline) @ newline, abstained), m)))"

definition ContinuityPhase :: "asmEnv \<Rightarrow> Phase" where
  "ContinuityPhase env = \<lparr> ph_Name = ''continuity'', ph_Priority = 200, ph_MinBudget = 0, ph_IsFatal = False,
     ph_Assemble = (\<lambda>cfg m remaining idb.
       case ac_store cfg of
         None \<Rightarrow> (PhaseOk (phaseResult '''' 0), m, idb)
       | Some st \<Rightarrow>
           (case assembleContinuity env cfg st m of
              (Inl e, m') \<Rightarrow> (PhaseErr e, m', idb)
            | (Inr (s, abst), m') \<Rightarrow> (PhaseOk ((phaseResult s (int (length s)))\<lparr>pr_BridgeAbstained := abst\<rparr>), m', idb))) \<rparr>"

definition WorldModelPhase :: "asmEnv \<Rightarrow> Phase" where
  "WorldModelPhase env = \<lparr> ph_Name = ''world-model'', ph_Priority = 300, ph_MinBudget = 1, ph_IsFatal = False,
     ph_Assemble = (\<lambda>cfg m remaining idb.
       case ac_store cfg of
         None \<Rightarrow> (PhaseOk (phaseResult '''' 0), m, idb)
       | Some st \<Rightarrow>
           (let (parts, m) =
                  (case SearchEntities (ev_eq env) (ev_parse env) (as_entityFault st) '''' 10 (as_db st) of
                     Inl e \<Rightarrow> ([], m)
                   | Inr es \<Rightarrow> (map (\<lambda>e. ''['' @ ety_Type e @ ''] '' @ ety_Name e @ '': '' @ summarize (ety_Content e) 200) es,
                               m\<lparr>mf_EntityTotal := int (length es), mf_EntityLoaded := mf_EntityLoaded m + int (length es)\<rparr>));
                (parts', m) =
                  (case ListProfiles (as_profileFault st) (as_profiles st) of
                     Inl e \<Rightarrow> ([], m)
                   | Inr ps \<Rightarrow> (map (\<lambda>p. ''[person] '' @ rp_Name p @ '': '' @ summarize (rp_Content p) 150) ps,
                               m\<lparr>mf_ProfileTotal := int (length ps), mf_ProfileLoaded := mf_ProfileLoaded m + int (length ps)\<rparr>));
                parts = parts @ parts'
            in if parts = [] then (PhaseOk (phaseResult '''' 0), m, idb)
               else (let content = ''=== WORLD MODEL ==='' @ newline @ strJoin parts newline @ newline
                     in (PhaseOk (phaseResult content (int (length content))), m, idb)))) \<rparr>"

text \<open>The inner and the outer loop of \<open>findContradiction\<close>.\<close>

fun contradictionIn :: "asmEnv \<Rightarrow> asmStore \<Rightarrow> MemoryEdge list \<Rightarrow> Reflection option" where
  "contradictionIn env st [] = None"
| "contradictionIn env st (e # es) =
     (if me_EdgeType e \<noteq> ''contradicts'' then contradictionIn env st es
      else (case GetReflectionByID (ev_parse env) (as_pointFault st (me_ToID e)) (me_ToID e) (as_db st) of
              Inr (Some r) \<Rightarrow> Some r
            | _ \<Rightarrow> contradictionIn env st es))"

fun findContradiction :: "asmEnv \<Rightarrow> asmStore \<Rightarrow> string list \<Rightarrow> Reflection option" where
  "findContradiction env st [] = None"
| "findContradiction env st (x # xs) =
     (case storeGetEdges (as_edgeFault st x) x ''from'' (as_db st) of
        Inl e \<Rightarrow> findContradiction env st xs
      | Inr es \<Rightarrow> (case contradictionIn env st es of Some r \<Rightarrow> Some r | None \<Rightarrow> findContradiction env st xs))"

text \<open>The phase calls the store without asking whether there is one.\<close>

definition EchoPoolPhase :: "asmEnv \<Rightarrow> Phase" where
  "EchoPoolPhase env = \<lparr> ph_Name = ''echo-pool'', ph_Priority = 400, ph_MinBudget = 8000, ph_IsFatal = False,
     ph_Assemble = (\<lambda>cfg m remaining idb.
       case ac_provider cfg of
         None \<Rightarrow> (PhaseOk (phaseResult '''' 0), hint (''echo pool requires embedding provider '' @ em_dash @ '' use memory search for serendipitous retrieval'') m, idb)
       | Some emb \<Rightarrow>
           (case emb ''past experience insight reflection memory'' of
              Inl e \<Rightarrow> (PhaseErr (''phase 4: seed embedding: '' @ e), m, idb)
            | Inr vec \<Rightarrow>
                (case ac_store cfg of
                   None \<Rightarrow> (PhasePanic, m, idb)
                 | Some st \<Rightarrow>
                     (case SearchReflections (ev_parse env) (as_echoFault st) 2 (as_db st) of
                        Inl e \<Rightarrow> (PhaseErr (''phase 4: reflection echo search: '' @ e), m, idb)
                      | Inr echoes \<Rightarrow>
                          if echoes = [] then (PhaseOk (phaseResult '''' 0), m, idb)
                          else (let parts = map (\<lambda>e. summarize (rfl_Content e) 300) echoes;
                                    extra = (if ac_edges cfg \<and> ac_contradictionProbability cfg > 0 \<and> ev_cryptoFloat env < ac_contradictionProbability cfg
                                             then (case findContradiction env st (map rfl_ID echoes) of
                                                     Some r \<Rightarrow> [''[contradiction] '' @ summarize (rfl_Content r) 300] | None \<Rightarrow> [])
                                             else []);
                                    content = ''=== ECHO POOL ==='' @ newline @ strJoin (parts @ extra) (newline @ ''---'' @ newline) @ newline
                                in (PhaseOk (phaseResult content (int (length content))), m, idb)))))) \<rparr>"

definition IncomingPhase :: Phase where
  "IncomingPhase = \<lparr> ph_Name = ''incoming'', ph_Priority = 500, ph_MinBudget = 0, ph_IsFatal = False,
     ph_Assemble = (\<lambda>cfg m remaining idb.
       let content = ''=== INCOMING ==='' @ newline @ ''Unread messages: '' @ itoa (mf_UnreadMessages m) @ newline @
                     concat (map (\<lambda>note. note @ newline) (ac_InbandNotes cfg))
       in (PhaseOk (phaseResult content (int (length content))), m, idb)) \<rparr>"

record GroundingData =
  gnd_Time :: string
  gnd_Timezone :: string
  gnd_Location :: string
  gnd_Weather :: string

definition Gather :: "asmEnv \<Rightarrow> GroundingConfig \<Rightarrow> GroundingData" where
  "Gather env cfg =
     (let tz = (if gc_Timezone cfg = '''' then ''UTC'' else gc_Timezone cfg); tz = (if ev_zone env tz then tz else ''UTC'')
      in \<lparr> gnd_Time = ev_clock env tz, gnd_Timezone = tz, gnd_Location = gc_Location cfg, gnd_Weather = ''not configured'' \<rparr>)"

definition Format :: "GroundingData \<Rightarrow> string" where
  "Format g = ''Time: '' @ gnd_Time g @ newline @ ''Timezone: '' @ gnd_Timezone g @ newline @
     ''Location: '' @ (if gnd_Location g = '''' then ''unknown'' else gnd_Location g) @ newline @ ''Weather: '' @ gnd_Weather g"

definition GroundingPhase :: "asmEnv \<Rightarrow> Phase" where
  "GroundingPhase env = \<lparr> ph_Name = ''grounding'', ph_Priority = 600, ph_MinBudget = 1, ph_IsFatal = False,
     ph_Assemble = (\<lambda>cfg m remaining idb.
       let content = ''=== GROUNDING ==='' @ newline @ Format (Gather env (ac_grounding cfg)) @ newline
       in (PhaseOk (phaseResult content (int (length content))), m, idb)) \<rparr>"

definition DefaultPhases :: "asmEnv \<Rightarrow> Phase list" where
  "DefaultPhases env = [IdentityPhase env, ContinuityPhase env, WorldModelPhase env, EchoPoolPhase env, IncomingPhase, GroundingPhase env]"

section \<open>The assembler\<close>

record ContextAssembler =
  ca_budget :: int
  ca_phases :: "Phase list"

definition NewContextAssembler :: "asmEnv \<Rightarrow> int \<Rightarrow> ContextAssembler" where
  "NewContextAssembler env budget = \<lparr> ca_budget = (if budget \<le> 0 then 160000 else budget), ca_phases = DefaultPhases env \<rparr>"

record AssemblyManifest =
  amf_ID :: string
  amf_PlanID :: string
  amf_SessionID :: string
  amf_PhasesRun :: "string list"
  amf_PhasesSkipped :: "string list"
  amf_SkipReasons :: "string \<rightharpoonup> string"
  amf_BudgetTotal :: int
  amf_BudgetUsed :: int
  amf_PhaseCosts :: "string \<rightharpoonup> int"
  amf_CreatedAt :: time

record AssembledContext =
  ax_SystemPrompt :: string
  ax_IdentityDocs :: "(string \<times> IdentityDoc) list option"
  ax_IntegrityReport :: "IntegrityReport option"
  ax_BridgeAbstained :: bool
  ax_DepthManifest :: DepthManifest
  ax_Manifest :: AssemblyManifest

text \<open>The variables of the loop.\<close>

record asmState =
  sx_sections :: "string list"
  sx_remaining :: int
  sx_run :: "string list"
  sx_skipped :: "string list"
  sx_reasons :: "string \<rightharpoonup> string"
  sx_costs :: "string \<rightharpoonup> int"
  sx_docs :: "(string \<times> IdentityDoc) list option"
  sx_report :: "IntegrityReport option"
  sx_abstained :: bool
  sx_depth :: DepthManifest
  sx_idb :: identityDB

datatype asmOut = AsmOk asmState | AsmErr error identityDB | AsmPanic identityDB

definition skipPhase :: "Phase \<Rightarrow> string \<Rightarrow> asmState \<Rightarrow> asmState" where
  "skipPhase p reason s = s\<lparr>sx_skipped := sx_skipped s @ [ph_Name p], sx_reasons := (sx_reasons s)(ph_Name p \<mapsto> reason)\<rparr>"

definition chargePhase :: "Phase \<Rightarrow> PhaseResult \<Rightarrow> asmState \<Rightarrow> asmState" where
  "chargePhase p r s =
     s\<lparr>sx_costs := (sx_costs s)(ph_Name p \<mapsto> (if pr_TokenEstimate r = 0 \<and> pr_CharsUsed r > 0 then (pr_CharsUsed r + 3) div 4 else pr_TokenEstimate r)),
       sx_run := sx_run s @ [ph_Name p],
       sx_sections := (if pr_Content r \<noteq> '''' then sx_sections s @ [pr_Content r] else sx_sections s),
       sx_remaining := (if pr_CharsUsed r > 0 then sx_remaining s - pr_CharsUsed r else sx_remaining s),
       sx_docs := (if pr_IdentityDocs r \<noteq> None then pr_IdentityDocs r else sx_docs s),
       sx_report := (if pr_IntegrityReport r \<noteq> None then pr_IntegrityReport r else sx_report s),
       sx_abstained := (sx_abstained s \<or> pr_BridgeAbstained r)\<rparr>"

fun runPhases :: "assembleConfig \<Rightarrow> Phase list \<Rightarrow> asmState \<Rightarrow> asmOut" where
  "runPhases cfg [] s = AsmOk s"
| "runPhases cfg (p # ps) s =
     (if ph_MinBudget p > 0 \<and> sx_remaining s < ph_MinBudget p
      then runPhases cfg ps
             (skipPhase p (''budget pressure ('' @ itoa (sx_remaining s) @ '' chars remaining, '' @ itoa (ph_MinBudget p) @ '' required)'')
                (s\<lparr>sx_depth := hint (ph_Name p @ '' omitted '' @ em_dash @ '' budget pressure'') (sx_depth s)\<rparr>))
      else (case ph_Assemble p cfg (sx_depth s) (sx_remaining s) (sx_idb s) of
              (PhasePanic, m, idb) \<Rightarrow> AsmPanic idb
            | (PhaseErr e, m, idb) \<Rightarrow>
                if ph_IsFatal p then AsmErr e idb
                else runPhases cfg ps (skipPhase p (''error: '' @ e) (s\<lparr>sx_depth := m, sx_idb := idb\<rparr>))
            | (PhaseOk r, m, idb) \<Rightarrow> runPhases cfg ps (chargePhase p r (s\<lparr>sx_depth := m, sx_idb := idb\<rparr>))))"

definition buildManifestBlock :: "DepthManifest \<Rightarrow> string" where
  "buildManifestBlock m =
     ''=== DEPTH MANIFEST ==='' @ newline @
     ''narrative: '' @ itoa (mf_NarrativeLoaded m) @ ''/'' @ itoa (mf_NarrativeTotal m) @ '' loaded'' @ newline @
     ''reflections: '' @ itoa (mf_ReflectionLoaded m) @ ''/'' @ itoa (mf_ReflectionTotal m) @ '' loaded'' @ newline @
     ''entities: '' @ itoa (mf_EntityLoaded m) @ ''/'' @ itoa (mf_EntityTotal m) @ '' loaded'' @ newline @
     ''profiles: '' @ itoa (mf_ProfileLoaded m) @ ''/'' @ itoa (mf_ProfileTotal m) @ '' loaded'' @ newline @
     ''unread_messages: '' @ itoa (mf_UnreadMessages m) @ newline @
     (if mf_AccessHints m \<noteq> [] then ''access_hints:'' @ newline @ concat (map (\<lambda>h. ''  - '' @ h @ newline) (mf_AccessHints m)) else '''')"

text \<open>\<open>srt\<close> is \<open>sort.Slice\<close> by priority.\<close>

definition Assemble ::
  "(Phase list \<Rightarrow> Phase list) \<Rightarrow> asmEnv \<Rightarrow> ContextAssembler \<Rightarrow> assembleConfig \<Rightarrow> identityDB
     \<Rightarrow> (error + AssembledContext) option \<times> identityDB" where
  "Assemble srt env a cfg idb =
     (let budgetChars = ca_budget a * 4;
          s = \<lparr> sx_sections = [], sx_remaining = budgetChars, sx_run = [], sx_skipped = [], sx_reasons = Map.empty, sx_costs = Map.empty,
                sx_docs = None, sx_report = None, sx_abstained = False, sx_depth = emptyManifest, sx_idb = idb \<rparr>
      in case runPhases cfg (srt (ca_phases a)) s of
           AsmPanic idb' \<Rightarrow> (None, idb')
         | AsmErr e idb' \<Rightarrow> (Some (Inl e), idb')
         | AsmOk s' \<Rightarrow>
             (Some (Inr \<lparr> ax_SystemPrompt = strJoin (sx_sections s' @ [buildManifestBlock (sx_depth s')]) newline,
                          ax_IdentityDocs = sx_docs s', ax_IntegrityReport = sx_report s', ax_BridgeAbstained = sx_abstained s',
                          ax_DepthManifest = sx_depth s',
                          ax_Manifest = \<lparr> amf_ID = ev_newid env, amf_PlanID = (case ac_Plan cfg of None \<Rightarrow> '''' | Some p \<Rightarrow> plan_ID p),
                            amf_SessionID = ac_SessionID cfg, amf_PhasesRun = sx_run s', amf_PhasesSkipped = sx_skipped s',
                            amf_SkipReasons = sx_reasons s', amf_BudgetTotal = budgetChars, amf_BudgetUsed = budgetChars - sx_remaining s',
                            amf_PhaseCosts = sx_costs s', amf_CreatedAt = ev_now env \<rparr> \<rparr>), sx_idb s'))"

section \<open>The phases under one contract\<close>

text \<open>
  What the assembler relies on for its accounting: a phase charges the length of what it writes, leaves
  the estimate to the assembler, and touches neither the identity database nor the identity outputs.
\<close>

locale charged_phase =
  fixes p :: Phase
  assumes charged: "ph_Assemble p cfg m r idb = (PhaseOk res, m', idb') \<Longrightarrow>
      pr_CharsUsed res = int (length (pr_Content res)) \<and> pr_IdentityDocs res = None \<and> pr_IntegrityReport res = None"
    and database: "ph_Assemble p cfg m r idb = (out, m', idb') \<Longrightarrow> idb' = idb"
    and not_fatal: "\<not> ph_IsFatal p"
begin

lemma charge_exact:
  assumes "ph_Assemble p cfg m r idb = (PhaseOk res, m', idb')"
  shows "\<exists>secs. sx_sections (chargePhase p res s) = sx_sections s @ secs \<and> '''' \<notin> set secs \<and>
    sx_remaining (chargePhase p res s) = sx_remaining s - int (sum_list (map length secs)) \<and>
    sx_docs (chargePhase p res s) = sx_docs s \<and> sx_report (chargePhase p res s) = sx_report s \<and> sx_idb (chargePhase p res s) = sx_idb s"
  using charged [OF assms] by (intro exI [of _ "if pr_Content res = '''' then [] else [pr_Content res]"]) (auto simp: chargePhase_def)

end

interpretation continuity: charged_phase "ContinuityPhase env" for env
  by unfold_locales (auto simp: ContinuityPhase_def phaseResult_def split: option.splits prod.splits sum.splits)

interpretation worldModel: charged_phase "WorldModelPhase env" for env
  by unfold_locales (auto simp: WorldModelPhase_def phaseResult_def Let_def split: option.splits prod.splits if_splits)

interpretation echoPool: charged_phase "EchoPoolPhase env" for env
  by unfold_locales (auto simp: EchoPoolPhase_def phaseResult_def Let_def split: option.splits prod.splits sum.splits if_splits)

interpretation incoming: charged_phase IncomingPhase
  by unfold_locales (auto simp: IncomingPhase_def phaseResult_def Let_def)

interpretation grounding: charged_phase "GroundingPhase env" for env
  by unfold_locales (auto simp: GroundingPhase_def phaseResult_def Let_def)

lemmas charged_phases = continuity.charged_phase_axioms worldModel.charged_phase_axioms echoPool.charged_phase_axioms
  incoming.charged_phase_axioms grounding.charged_phase_axioms

lemma runPhases_charged:
  assumes "list_all charged_phase ps" "runPhases cfg ps s = AsmOk s'"
  shows "\<exists>secs. sx_sections s' = sx_sections s @ secs \<and> '''' \<notin> set secs \<and>
    sx_remaining s' = sx_remaining s - int (sum_list (map length secs)) \<and>
    sx_docs s' = sx_docs s \<and> sx_report s' = sx_report s \<and> sx_idb s' = sx_idb s"
  using assms
proof (induction cfg ps s rule: runPhases.induct)
  case (2 cfg p ps s)
  from "2.prems"(1) have c: "charged_phase p" and cs: "list_all charged_phase ps" by auto
  obtain out m idb where ph: "ph_Assemble p cfg (sx_depth s) (sx_remaining s) (sx_idb s) = (out, m, idb)" by (metis prod_cases3)
  then have idb: "idb = sx_idb s" using charged_phase.database [OF c] by blast
  show ?case
  proof (cases "ph_MinBudget p > 0 \<and> sx_remaining s < ph_MinBudget p")
    case True
    with "2.prems"(2) show ?thesis using "2.IH"(1) [OF True cs] by (auto simp: skipPhase_def)
  next
    case False
    show ?thesis
    proof (cases out)
      case (PhaseOk r)
      let ?s = "chargePhase p r (s\<lparr>sx_depth := m, sx_idb := idb\<rparr>)"
      have "runPhases cfg ps ?s = AsmOk s'" using "2.prems"(2) False ph PhaseOk by simp
      from "2.IH"(2) [OF False ph [symmetric] PhaseOk refl cs this] obtain secs where
        secs: "sx_sections s' = sx_sections ?s @ secs" "'''' \<notin> set secs" "sx_remaining s' = sx_remaining ?s - int (sum_list (map length secs))"
          "sx_docs s' = sx_docs ?s \<and> sx_report s' = sx_report ?s \<and> sx_idb s' = sx_idb ?s" by auto
      from ph PhaseOk have "ph_Assemble p cfg (sx_depth s) (sx_remaining s) (sx_idb s) = (PhaseOk r, m, idb)" by simp
      from charged_phase.charge_exact [OF c this, of "s\<lparr>sx_depth := m, sx_idb := idb\<rparr>"] obtain sec where
        "sx_sections ?s = sx_sections s @ sec" "'''' \<notin> set sec" "sx_remaining ?s = sx_remaining s - int (sum_list (map length sec))"
          "sx_docs ?s = sx_docs s \<and> sx_report ?s = sx_report s \<and> sx_idb ?s = sx_idb s" using idb by auto
      with secs show ?thesis by (intro exI [of _ "sec @ secs"]) auto
    next
      case (PhaseErr e)
      with "2.prems"(2) False ph idb charged_phase.not_fatal [OF c] show ?thesis
        using "2.IH"(3) [OF False ph [symmetric] PhaseErr refl charged_phase.not_fatal [OF c] cs] by (auto simp: skipPhase_def)
    next
      case PhasePanic
      with "2.prems"(2) False ph show ?thesis by simp
    qed
  qed
qed auto

lemma runPhases_partition:
  assumes "runPhases cfg ps s = AsmOk s'"
  shows "mset (sx_run s') + mset (sx_skipped s') = mset (sx_run s) + mset (sx_skipped s) + mset (map ph_Name ps)"
    and "dom (sx_reasons s) = set (sx_skipped s) \<Longrightarrow> dom (sx_reasons s') = set (sx_skipped s')"
    and "dom (sx_costs s) = set (sx_run s) \<Longrightarrow> dom (sx_costs s') = set (sx_run s')"
  using assms
  by (induction cfg ps s rule: runPhases.induct)
    (auto simp: skipPhase_def chargePhase_def split: if_splits prod.splits phaseOut.splits)

section \<open>The default assembler\<close>

text \<open>\<open>sort.Slice\<close> by priority: it keeps the phases and orders them; ties it may break as it likes.\<close>

definition sortsPhases :: "(Phase list \<Rightarrow> Phase list) \<Rightarrow> bool" where
  "sortsPhases srt \<longleftrightarrow> (\<forall>ps. mset (srt ps) = mset ps \<and> sorted (map ph_Priority (srt ps)))"

lemma sortsPhases_sort_key: "sortsPhases (sort_key ph_Priority)"
  by (simp add: sortsPhases_def)

lemma priorities:
  "ph_Priority (IdentityPhase env) = 100" "ph_Priority (ContinuityPhase env) = 200" "ph_Priority (WorldModelPhase env) = 300"
  "ph_Priority (EchoPoolPhase env) = 400" "ph_Priority IncomingPhase = 500" "ph_Priority (GroundingPhase env) = 600"
  by (simp_all add: IdentityPhase_def ContinuityPhase_def WorldModelPhase_def EchoPoolPhase_def IncomingPhase_def GroundingPhase_def)

lemma sorted_unique_key:
  assumes "mset xs = mset ys" "sorted (map f xs)" "sorted (map f ys)" "distinct (map f ys)"
  shows "xs = ys"
proof -
  have "mset (map f xs) = mset (map f ys)" using assms(1) by (metis mset_map)
  then have m: "map f xs = map f ys" using assms(2,3) by (metis properties_for_sort)
  have "inj_on f (set ys)" using assms(4) by (simp add: distinct_map)
  moreover have "set xs = set ys" using assms(1) by (metis mset_eq_setD)
  ultimately show ?thesis using m by (metis Un_absorb inj_on_map_eq_map)
qed

lemma default_order: "sortsPhases srt \<Longrightarrow> srt (DefaultPhases env) = DefaultPhases env"
  by (rule sorted_unique_key [where f = ph_Priority]) (simp_all add: sortsPhases_def DefaultPhases_def priorities)

definition startState :: "int \<Rightarrow> identityDB \<Rightarrow> asmState" where
  "startState chars idb = \<lparr> sx_sections = [], sx_remaining = chars, sx_run = [], sx_skipped = [], sx_reasons = Map.empty, sx_costs = Map.empty,
     sx_docs = None, sx_report = None, sx_abstained = False, sx_depth = emptyManifest, sx_idb = idb \<rparr>"

definition identityOf :: "asmEnv \<Rightarrow> assembleConfig \<Rightarrow> identityDB \<Rightarrow> (error + identityResult) \<times> identityDB" where
  "identityOf env cfg idb = IdentityPhase_Assemble (ev_visit env) (ev_sha env) (ev_fs env) (ev_identityFaults env) (ac_witness cfg) idb"

definition identityRun :: "asmEnv \<Rightarrow> identityResult \<Rightarrow> asmState \<Rightarrow> identityDB \<Rightarrow> asmState" where
  "identityRun env r s idb = chargePhase (IdentityPhase env)
     ((phaseResult (idr_Content r) 0)\<lparr>pr_IdentityDocs := Some (idr_Docs r), pr_IntegrityReport := idr_Report r\<rparr>) (s\<lparr>sx_idb := idb\<rparr>)"

lemma runPhases_identity:
  "runPhases cfg (IdentityPhase env # ps) s =
     (case identityOf env cfg (sx_idb s) of
        (Inl e, idb) \<Rightarrow> AsmErr e idb
      | (Inr r, idb) \<Rightarrow> runPhases cfg ps (identityRun env r s idb))"
proof -
  have [simp]: "s\<lparr>sx_depth := sx_depth s, sx_idb := i\<rparr> = s\<lparr>sx_idb := i\<rparr>" for i by simp
  show ?thesis by (auto simp: IdentityPhase_def identityOf_def identityRun_def split: prod.splits sum.splits)
qed

lemma identity_content:
  "identityOf env cfg idb = (Inr r, idb') \<Longrightarrow> idr_Content r = buildIdentityBlock (idr_Docs r) \<and> idr_Content r \<noteq> ''''"
  by (auto simp: identityOf_def IdentityPhase_Assemble_def buildIdentityBlock_def split: sum.splits if_splits prod.splits option.splits)

lemma Assemble_cases:
  "Assemble srt env a cfg idb =
     (case runPhases cfg (srt (ca_phases a)) (startState (ca_budget a * 4) idb) of
        AsmPanic idb' \<Rightarrow> (None, idb') | AsmErr e idb' \<Rightarrow> (Some (Inl e), idb')
      | AsmOk s \<Rightarrow>
          (Some (Inr \<lparr> ax_SystemPrompt = strJoin (sx_sections s @ [buildManifestBlock (sx_depth s)]) newline, ax_IdentityDocs = sx_docs s,
             ax_IntegrityReport = sx_report s, ax_BridgeAbstained = sx_abstained s, ax_DepthManifest = sx_depth s,
             ax_Manifest = \<lparr> amf_ID = ev_newid env, amf_PlanID = (case ac_Plan cfg of None \<Rightarrow> '''' | Some p \<Rightarrow> plan_ID p),
               amf_SessionID = ac_SessionID cfg, amf_PhasesRun = sx_run s, amf_PhasesSkipped = sx_skipped s, amf_SkipReasons = sx_reasons s,
               amf_BudgetTotal = ca_budget a * 4, amf_BudgetUsed = ca_budget a * 4 - sx_remaining s, amf_PhaseCosts = sx_costs s,
               amf_CreatedAt = ev_now env \<rparr> \<rparr>), sx_idb s))"
  by (auto simp: Assemble_def startState_def Let_def split: asmOut.splits)

lemma Assemble_Ok:
  assumes "Assemble srt env a cfg idb = (Some (Inr ax), idb')"
  obtains s where "runPhases cfg (srt (ca_phases a)) (startState (ca_budget a * 4) idb) = AsmOk s"
    "ax_SystemPrompt ax = strJoin (sx_sections s @ [buildManifestBlock (ax_DepthManifest ax)]) newline"
    "ax_IdentityDocs ax = sx_docs s" "amf_BudgetUsed (ax_Manifest ax) = ca_budget a * 4 - sx_remaining s"
    "amf_PhasesRun (ax_Manifest ax) = sx_run s" "amf_PhasesSkipped (ax_Manifest ax) = sx_skipped s"
    "amf_SkipReasons (ax_Manifest ax) = sx_reasons s" "amf_PhaseCosts (ax_Manifest ax) = sx_costs s"
  using assms by (auto simp: Assemble_cases split: asmOut.splits)

text \<open>A context of the default assembler, taken apart.\<close>

lemma default_context:
  assumes "sortsPhases srt" "Assemble srt env (NewContextAssembler env b) cfg idb = (Some (Inr ax), idb')"
  obtains r idb1 secs where "identityOf env cfg idb = (Inr r, idb1)" "ax_IdentityDocs ax = Some (idr_Docs r)"
    "ax_SystemPrompt ax = strJoin (buildIdentityBlock (idr_Docs r) # secs @ [buildManifestBlock (ax_DepthManifest ax)]) newline"
    "'''' \<notin> set secs" "amf_BudgetUsed (ax_Manifest ax) = int (sum_list (map length secs))"
proof -
  let ?ps = "[ContinuityPhase env, WorldModelPhase env, EchoPoolPhase env, IncomingPhase, GroundingPhase env]"
  let ?a = "NewContextAssembler env b"
  have ph: "srt (ca_phases ?a) = IdentityPhase env # ?ps"
    using default_order [OF assms(1), of env] by (simp add: NewContextAssembler_def DefaultPhases_def)
  obtain s where s: "runPhases cfg (srt (ca_phases ?a)) (startState (ca_budget ?a * 4) idb) = AsmOk s"
    "ax_SystemPrompt ax = strJoin (sx_sections s @ [buildManifestBlock (ax_DepthManifest ax)]) newline"
    "ax_IdentityDocs ax = sx_docs s" "amf_BudgetUsed (ax_Manifest ax) = ca_budget ?a * 4 - sx_remaining s"
    by (rule Assemble_Ok [OF assms(2)])
  obtain r idb1 where r: "identityOf env cfg idb = (Inr r, idb1)"
    and run: "runPhases cfg ?ps (identityRun env r (startState (ca_budget ?a * 4) idb) idb1) = AsmOk s"
    using s(1) unfolding ph runPhases_identity by (auto simp: startState_def split: prod.splits sum.splits)
  note c = identity_content [OF r]
  have ch: "list_all charged_phase ?ps" by (simp add: charged_phases)
  obtain secs where secs: "sx_sections s = idr_Content r # secs" "'''' \<notin> set secs" "sx_remaining s = ca_budget ?a * 4 - int (sum_list (map length secs))"
    "sx_docs s = Some (idr_Docs r)"
    using runPhases_charged [OF ch run] c
    by (auto simp: identityRun_def chargePhase_def startState_def phaseResult_def)
  show thesis using that [OF r] s(2-4) secs c by simp
qed

section \<open>Properties\<close>

text \<open>
  Every byte of the system prompt is accounted for: it is the identity block, the texts of
  the other phases and the depth manifest, one line apart, and the budget used is the length of those
  texts; the identity block and the manifest are free.
\<close>

theorem prompt_is_accounted:
  assumes "sortsPhases srt" "Assemble srt env (NewContextAssembler env b) cfg idb = (Some (Inr ax), idb')"
  shows "\<exists>docs secs. ax_IdentityDocs ax = Some docs \<and> '''' \<notin> set secs \<and>
    ax_SystemPrompt ax = strJoin (buildIdentityBlock docs # secs @ [buildManifestBlock (ax_DepthManifest ax)]) newline \<and>
    amf_BudgetUsed (ax_Manifest ax) = int (sum_list (map length secs))"
  by (rule default_context [OF assms]) blast

text \<open>
  No phase is lost: for any registry of phases, those run and those skipped are together all of them;
  exactly the skipped ones have a reason and exactly the others a cost.
\<close>

theorem phases_are_accounted:
  assumes "sortsPhases srt" "Assemble srt env a cfg idb = (Some (Inr ax), idb')"
  shows "mset (amf_PhasesRun (ax_Manifest ax)) + mset (amf_PhasesSkipped (ax_Manifest ax)) = mset (map ph_Name (ca_phases a)) \<and>
    dom (amf_SkipReasons (ax_Manifest ax)) = set (amf_PhasesSkipped (ax_Manifest ax)) \<and>
    dom (amf_PhaseCosts (ax_Manifest ax)) = set (amf_PhasesRun (ax_Manifest ax))"
proof -
  have m: "mset (map ph_Name (srt (ca_phases a))) = mset (map ph_Name (ca_phases a))"
    using assms(1) by (simp add: sortsPhases_def)
  obtain s where s: "runPhases cfg (srt (ca_phases a)) (startState (ca_budget a * 4) idb) = AsmOk s"
    "amf_PhasesRun (ax_Manifest ax) = sx_run s" "amf_PhasesSkipped (ax_Manifest ax) = sx_skipped s"
    "amf_SkipReasons (ax_Manifest ax) = sx_reasons s" "amf_PhaseCosts (ax_Manifest ax) = sx_costs s"
    by (rule Assemble_Ok [OF assms(2)])
  from runPhases_partition [OF s(1)] m show ?thesis unfolding s(2-5) by (simp add: startState_def)
qed

text \<open>
  C27. A session starts only under an intact identity: when the default assembler, with an anchor store,
  returns a context, every document with a stored anchor is in the prompt's documents, and its content
  has the anchored hash or the hash of a recorded amendment, whatever statements failed.
\<close>

theorem context_has_intact_identity:
  assumes "sortsPhases srt" "visits (ev_visit env)" "Assemble srt env (NewContextAssembler env b) cfg idb = (Some (Inr ax), idb')"
    and "wc_HasAnchors (ac_witness cfg)" "d \<in> anchorNames idb" "storedHash d idb \<noteq> ''''"
  shows "\<exists>docs doc rest. ax_IdentityDocs ax = Some docs \<and> ax_SystemPrompt ax = buildIdentityBlock docs @ rest \<and> (d, doc) \<in> set docs \<and>
    (ev_sha env (id_Content doc) = storedHash d idb \<or> amended idb d (ev_sha env (id_Content doc)))"
proof (rule default_context [OF assms(1,3)])
  fix r idb1 secs
  assume r: "identityOf env cfg idb = (Inr r, idb1)" and d: "ax_IdentityDocs ax = Some (idr_Docs r)"
    and p: "ax_SystemPrompt ax = strJoin (buildIdentityBlock (idr_Docs r) # secs @ [buildManifestBlock (ax_DepthManifest ax)]) newline"
  from identity_phase_is_fail_closed [OF assms(2) r [unfolded identityOf_def] assms(4-6)] obtain doc where
    "(d, doc) \<in> set (idr_Docs r)" "ev_sha env (id_Content doc) = storedHash d idb \<or> amended idb d (ev_sha env (id_Content doc))" by blast
  moreover have "\<exists>rest. strJoin (x # xs @ [y]) z = x @ rest" for x y z :: string and xs by (cases xs) auto
  ultimately show ?thesis using d p by metis
qed

definition calm :: "assembleConfig \<Rightarrow> Phase \<Rightarrow> bool" where
  "calm cfg p \<longleftrightarrow> (\<forall>m r idb. fst (ph_Assemble p cfg m r idb) \<noteq> PhasePanic)"

lemma runPhases_calm: "list_all (calm cfg) ps \<Longrightarrow> runPhases cfg ps s \<noteq> AsmPanic idb"
proof (induction cfg ps s rule: runPhases.induct)
  case (2 cfg p ps s)
  obtain out m i where ph: "ph_Assemble p cfg (sx_depth s) (sx_remaining s) (sx_idb s) = (out, m, i)" by (metis prod_cases3)
  with "2.prems" have "out \<noteq> PhasePanic" by (auto simp: calm_def dest!: spec [of _ "sx_depth s"] spec [of _ "sx_remaining s"] spec [of _ "sx_idb s"])
  with "2.IH" "2.prems" ph show ?case by (cases out) auto
qed simp

abbreviation echoSeed :: string where
  "echoSeed \<equiv> ''past experience insight reflection memory''"

definition embeds :: "assembleConfig \<Rightarrow> bool" where
  "embeds cfg \<longleftrightarrow> (\<exists>emb v. ac_provider cfg = Some emb \<and> emb echoSeed = Inr v)"

lemma calm_phases:
  "calm cfg (ContinuityPhase env)" "calm cfg (WorldModelPhase env)" "calm cfg IncomingPhase" "calm cfg (GroundingPhase env)"
  "calm cfg (EchoPoolPhase env) \<longleftrightarrow> ac_store cfg \<noteq> None \<or> \<not> embeds cfg"
  by (auto simp: calm_def ContinuityPhase_def WorldModelPhase_def IncomingPhase_def GroundingPhase_def EchoPoolPhase_def embeds_def Let_def
      split: option.splits prod.splits sum.splits if_splits)

lemma panic_without_store:
  assumes "ac_store cfg = None" "0 < sx_remaining s"
  shows "(\<exists>idb. runPhases cfg [ContinuityPhase env, WorldModelPhase env, EchoPoolPhase env, IncomingPhase, GroundingPhase env] s = AsmPanic idb)
    \<longleftrightarrow> 8000 \<le> sx_remaining s \<and> embeds cfg"
proof -
  have skip: "runPhases cfg (p # ps) s = runPhases cfg ps (chargePhase p (phaseResult '''' 0) s)"
    if "ph_Assemble p cfg (sx_depth s) (sx_remaining s) (sx_idb s) = (PhaseOk (phaseResult '''' 0), sx_depth s, sx_idb s)"
      "\<not> (ph_MinBudget p > 0 \<and> sx_remaining s < ph_MinBudget p)" for p ps s
    using that by auto
  let ?s = "chargePhase (WorldModelPhase env) (phaseResult '''' 0) (chargePhase (ContinuityPhase env) (phaseResult '''' 0) s)"
  have "runPhases cfg (ContinuityPhase env # WorldModelPhase env # ps) s = runPhases cfg ps ?s" for ps
    using assms
    by (subst skip; (subst skip)?) (simp_all add: ContinuityPhase_def WorldModelPhase_def chargePhase_def phaseResult_def)
  moreover have "sx_remaining ?s = sx_remaining s" by (simp add: chargePhase_def phaseResult_def)
  moreover have "list_all (calm cfg) [IncomingPhase, GroundingPhase env]" by (simp add: calm_phases)
  note rest = runPhases_calm [OF this]
  have "(\<exists>idb. runPhases cfg (EchoPoolPhase env # [IncomingPhase, GroundingPhase env]) s = AsmPanic idb) \<longleftrightarrow> 8000 \<le> sx_remaining s \<and> embeds cfg" for s
  proof (cases "8000 \<le> sx_remaining s \<and> embeds cfg")
    case True
    with assms(1) show ?thesis by (auto simp: EchoPoolPhase_def embeds_def)
  next
    case False
    have "ph_MinBudget (EchoPoolPhase env) = 8000" by (simp add: EchoPoolPhase_def)
    moreover have "fst (ph_Assemble (EchoPoolPhase env) cfg m r idb) \<noteq> PhasePanic" if "\<not> embeds cfg" for m r idb
      using calm_phases(5) [of cfg env] that by (simp add: calm_def)
    ultimately show ?thesis using False rest
      by (auto simp del: runPhases.simps(2) simp: runPhases.simps(2) [of cfg "EchoPoolPhase env"] split: prod.splits phaseOut.splits if_splits)
        (metis fst_conv)+
  qed
  ultimately show ?thesis by (simp only:)
qed

text \<open>
  The default assembler panics in exactly one situation: an embedding provider is configured and answers,
  no memory store is, the identity is accepted and the budget reaches the echo pool.
\<close>

theorem assembler_panics_without_store:
  assumes "sortsPhases srt"
  shows "fst (Assemble srt env (NewContextAssembler env b) cfg idb) = None \<longleftrightarrow>
    ac_store cfg = None \<and> embeds cfg \<and> (b \<le> 0 \<or> 2000 \<le> b) \<and> (\<exists>r. fst (identityOf env cfg idb) = Inr r)"
proof -
  let ?a = "NewContextAssembler env b"
  let ?ps = "[ContinuityPhase env, WorldModelPhase env, EchoPoolPhase env, IncomingPhase, GroundingPhase env]"
  have ph: "srt (ca_phases ?a) = IdentityPhase env # ?ps"
    using default_order [OF assms, of env] by (simp add: NewContextAssembler_def DefaultPhases_def)
  have bud: "0 < ca_budget ?a" "8000 \<le> ca_budget ?a * 4 \<longleftrightarrow> b \<le> 0 \<or> 2000 \<le> b" by (auto simp: NewContextAssembler_def)
  have key: "(\<exists>idb'. runPhases cfg ?ps (identityRun env r (startState (ca_budget ?a * 4) idb) i) = AsmPanic idb') \<longleftrightarrow>
    ac_store cfg = None \<and> embeds cfg \<and> (b \<le> 0 \<or> 2000 \<le> b)" for r i
  proof (cases "ac_store cfg")
    case None
    have "sx_remaining (identityRun env r (startState (ca_budget ?a * 4) idb) i) = ca_budget ?a * 4"
      by (simp add: identityRun_def chargePhase_def startState_def phaseResult_def)
    with panic_without_store [OF None, of "identityRun env r (startState (ca_budget ?a * 4) idb) i" env] bud None show ?thesis
      by (auto simp del: runPhases.simps)
  next
    case (Some st)
    then have "list_all (calm cfg) ?ps" by (simp add: calm_phases)
    from runPhases_calm [OF this] Some show ?thesis by (simp del: runPhases.simps)
  qed
  obtain out i where id: "identityOf env cfg idb = (out, i)" by (metis prod.exhaust)
  have [simp]: "sx_idb (startState (ca_budget ?a * 4) idb) = idb" by (simp add: startState_def)
  show ?thesis
  proof (cases out)
    case (Inl e)
    with id show ?thesis unfolding Assemble_cases ph runPhases_identity by (simp del: runPhases.simps)
  next
    case (Inr r)
    with id key [of r i] show ?thesis unfolding Assemble_cases ph runPhases_identity
      by (cases "runPhases cfg ?ps (identityRun env r (startState (ca_budget ?a * 4) idb) i)") (simp_all del: runPhases.simps)
  qed
qed

text \<open>
  The token budget warns in time: with a positive budget below two to the fifty-third, recording usage never lowers the level, and
  at four fifths of the budget it is at least soft and at nineteen twentieths hard, rounding included.
\<close>

definition budgetRank :: "BudgetLevel \<Rightarrow> nat" where
  "budgetRank l = (case l of BudgetOK \<Rightarrow> 0 | BudgetSoft \<Rightarrow> 1 | BudgetHard \<Rightarrow> 2)"

lemma level_rank:
  "0 < tb_total b \<Longrightarrow> budgetRank (level b) =
     (if fdiv (fl (of_int (tb_used b))) (fl (of_int (tb_total b))) \<ge> tb_hardPct b \<or> tb_total b - tb_used b \<le> tb_hardFloor b then 2
      else if fdiv (fl (of_int (tb_used b))) (fl (of_int (tb_total b))) \<ge> tb_softPct b then 1 else 0)"
  by (simp add: level_def budgetRank_def Let_def)

lemma used_fraction_mono:
  assumes "0 < t" "u \<le> u'"
  shows "fdiv (fl (of_int u)) (fl (of_int t)) \<le> fdiv (fl (of_int u')) (fl (of_int t))"
proof -
  have "0 \<le> fl (of_int t)" using assms(1) by (intro fl_nonneg) simp
  then show ?thesis unfolding fdiv_def using assms(2) by (intro fl_mono divide_right_mono) (simp_all add: fl_mono)
qed

theorem token_budget_warns:
  assumes "b = NewTokenBudget t f" "0 < t" "t < 2 ^ 53" "0 \<le> u" "0 \<le> p + c" "u + p + c < 2 ^ 53"
    and "(l, b') = TokenBudget_Add p c (b\<lparr>tb_used := u\<rparr>)"
  shows "budgetRank (level (b\<lparr>tb_used := u\<rparr>)) \<le> budgetRank l \<and> tb_used b' = u + p + c \<and>
    (4 * t \<le> 5 * (u + p + c) \<longrightarrow> 1 \<le> budgetRank l) \<and> (19 * t \<le> 20 * (u + p + c) \<longrightarrow> l = BudgetHard)"
proof -
  have l: "l = level b'" "b' = b\<lparr>tb_used := u + p + c\<rparr>" using assms(7) by (auto simp: TokenBudget_Add_def Let_def algebra_simps)
  have tb: "tb_total b = t" "tb_softPct b = fl (80 / 100)" "tb_hardPct b = fl (95 / 100)" "tb_hardFloor b = f"
    using assms(1) by (simp_all add: NewTokenBudget_def)
  have m: "budgetRank (level (b\<lparr>tb_used := u\<rparr>)) \<le> budgetRank l"
    unfolding l using assms(2,5) used_fraction_mono [OF assms(2), of u "u + p + c"]
    by (auto simp: level_rank tb)
  have x: "fl (of_int t) = of_int t" "fl (of_int (u + p + c)) = of_int (u + p + c)" using assms(2-6) fl_of_int [of t] fl_of_int [of "u + p + c"] by simp_all
  have frac: "fl q \<le> fdiv (fl (of_int (u + p + c))) (fl (of_int t))" if "q * of_int t \<le> of_int (u + p + c)" for q :: rat
    unfolding x fdiv_def using that assms(2) by (intro fl_mono) (simp add: field_simps)
  have s: "1 \<le> budgetRank l" if "4 * t \<le> 5 * (u + p + c)"
  proof -
    have "(of_int (4 * t) :: rat) \<le> of_int (5 * (u + p + c))" using that by (rule of_int_le_iff [THEN iffD2])
    then show ?thesis using frac [of "80 / 100"] assms(2) by (auto simp: l level_rank tb)
  qed
  have h: "l = BudgetHard" if "19 * t \<le> 20 * (u + p + c)"
  proof -
    have "(of_int (19 * t) :: rat) \<le> of_int (20 * (u + p + c))" using that by (rule of_int_le_iff [THEN iffD2])
    then have "fl (95 / 100) \<le> fdiv (fl (of_int (u + p + c))) (fl (of_int t))" using frac [of "95 / 100"] by simp
    then show ?thesis using assms(2) by (simp add: l level_def tb Let_def)
  qed
  show ?thesis using m s h l(2) by simp
qed

text \<open>A machine with one document, an anchored identity, no memory and no embedding provider.\<close>

definition plainEnv :: asmEnv where
  "plainEnv = \<lparr> ev_parse = (\<lambda>_. None), ev_randFloat = 0, ev_cryptoFloat = 0, ev_eq = (=), ev_zone = (\<lambda>_. True), ev_clock = (\<lambda>_. ''now''),
     ev_sha = (\<lambda>c. CHR 0x23 # c), ev_fs = oneDoc, ev_visit = (\<lambda>xs. xs), ev_identityFaults = noIdentityFaults, ev_newid = ''m1'', ev_now = 0 \<rparr>"

definition plainConfig :: assembleConfig where
  "plainConfig = \<lparr> ac_store = None, ac_edges = False, ac_witness = strictConfig, ac_provider = None,
     ac_grounding = \<lparr> gc_Timezone = '''', gc_Location = '''', gc_WeatherAPIKey = '''', gc_WeatherLocation = '''' \<rparr>,
     ac_bridge = \<lparr> bc_AbstainRate = 0, bc_Model = '''' \<rparr>, ac_llmFn = None, ac_contradictionProbability = 0, ac_InbandNotes = [],
     ac_Plan = None, ac_SessionID = ''s1'' \<rparr>"

lemma plain_identity: "\<exists>r. identityOf plainEnv plainConfig bootedIdentity = (Inr r, bootedIdentity)"
  by (simp add: identityOf_def plainEnv_def plainConfig_def IdentityPhase_Assemble_def LoadDocuments_def KnownDocs_def oneDoc_def strictConfig_def
      noIdentityFaults_def ComputeAnchors_def VerifyAnchors_def verifyDoc_def GetAnchor_def bootedIdentity_def freshIdentity_def
      ListAnchoredDocs_def WriteInitialAnchors_def Let_def)

lemma runPhases_nonfatal: "list_all (\<lambda>p. calm cfg p \<and> \<not> ph_IsFatal p) ps \<Longrightarrow> \<exists>s'. runPhases cfg ps s = AsmOk s'"
proof (induction cfg ps s rule: runPhases.induct)
  case (2 cfg p ps s)
  obtain out m i where ph: "ph_Assemble p cfg (sx_depth s) (sx_remaining s) (sx_idb s) = (out, m, i)" by (metis prod_cases3)
  with "2.prems" have "out \<noteq> PhasePanic"
    by (auto simp: calm_def dest!: spec [of _ "sx_depth s"] spec [of _ "sx_remaining s"] spec [of _ "sx_idb s"])
  with "2.IH" "2.prems" ph show ?case by (cases out) auto
qed simp

lemma plain_context:
  obtains ax idb where "Assemble (sort_key ph_Priority) plainEnv (NewContextAssembler plainEnv 0) plainConfig bootedIdentity = (Some (Inr ax), idb)"
proof -
  let ?a = "NewContextAssembler plainEnv 0"
  let ?ps = "[ContinuityPhase plainEnv, WorldModelPhase plainEnv, EchoPoolPhase plainEnv, IncomingPhase, GroundingPhase plainEnv]"
  obtain r where r: "identityOf plainEnv plainConfig bootedIdentity = (Inr r, bootedIdentity)" using plain_identity by blast
  have "list_all (\<lambda>p. calm plainConfig p \<and> \<not> ph_IsFatal p) ?ps"
    by (simp add: calm_phases charged_phases [THEN charged_phase.not_fatal] embeds_def plainConfig_def)
  from runPhases_nonfatal [OF this] obtain s where
    "runPhases plainConfig ?ps (identityRun plainEnv r (startState (ca_budget ?a * 4) bootedIdentity) bootedIdentity) = AsmOk s" by blast
  moreover have "sort_key ph_Priority (ca_phases ?a) = IdentityPhase plainEnv # ?ps"
    using default_order [OF sortsPhases_sort_key, of plainEnv] by (simp add: NewContextAssembler_def DefaultPhases_def)
  moreover have "sx_idb (startState (ca_budget ?a * 4) bootedIdentity) = bootedIdentity" by (simp add: startState_def)
  ultimately show thesis using r that unfolding Assemble_cases by (simp only: runPhases_identity) (simp del: runPhases.simps)
qed

theorem prompt_is_accounted_witness:
  "\<exists>ax idb docs secs. Assemble (sort_key ph_Priority) plainEnv (NewContextAssembler plainEnv 0) plainConfig bootedIdentity = (Some (Inr ax), idb) \<and>
    ax_IdentityDocs ax = Some docs \<and> '''' \<notin> set secs \<and>
    ax_SystemPrompt ax = strJoin (buildIdentityBlock docs # secs @ [buildManifestBlock (ax_DepthManifest ax)]) newline \<and>
    amf_BudgetUsed (ax_Manifest ax) = int (sum_list (map length secs))"
  by (rule plain_context) (use prompt_is_accounted [OF sortsPhases_sort_key] in blast)

theorem phases_are_accounted_witness:
  "\<exists>ax idb. Assemble (sort_key ph_Priority) plainEnv (NewContextAssembler plainEnv 0) plainConfig bootedIdentity = (Some (Inr ax), idb) \<and>
    mset (amf_PhasesRun (ax_Manifest ax)) + mset (amf_PhasesSkipped (ax_Manifest ax)) =
      mset [''identity'', ''continuity'', ''world-model'', ''echo-pool'', ''incoming'', ''grounding''] \<and>
    dom (amf_SkipReasons (ax_Manifest ax)) = set (amf_PhasesSkipped (ax_Manifest ax)) \<and>
    dom (amf_PhaseCosts (ax_Manifest ax)) = set (amf_PhasesRun (ax_Manifest ax))"
proof (rule plain_context)
  fix ax idb
  assume a: "Assemble (sort_key ph_Priority) plainEnv (NewContextAssembler plainEnv 0) plainConfig bootedIdentity = (Some (Inr ax), idb)"
  have "map ph_Name (ca_phases (NewContextAssembler plainEnv 0)) = [''identity'', ''continuity'', ''world-model'', ''echo-pool'', ''incoming'', ''grounding'']"
    by (simp add: NewContextAssembler_def DefaultPhases_def IdentityPhase_def ContinuityPhase_def WorldModelPhase_def EchoPoolPhase_def IncomingPhase_def GroundingPhase_def)
  with phases_are_accounted [OF sortsPhases_sort_key a] a show ?thesis by metis
qed

theorem context_has_intact_identity_witness:
  "\<exists>ax idb docs doc rest. Assemble (sort_key ph_Priority) plainEnv (NewContextAssembler plainEnv 0) plainConfig bootedIdentity = (Some (Inr ax), idb) \<and>
    ax_IdentityDocs ax = Some docs \<and> ax_SystemPrompt ax = buildIdentityBlock docs @ rest \<and> (''soul.md'', doc) \<in> set docs \<and>
    (CHR 0x23 # id_Content doc = ''#I am'' \<or> amended bootedIdentity ''soul.md'' (CHR 0x23 # id_Content doc))"
proof (rule plain_context)
  fix ax idb
  assume a: "Assemble (sort_key ph_Priority) plainEnv (NewContextAssembler plainEnv 0) plainConfig bootedIdentity = (Some (Inr ax), idb)"
  have "visits (ev_visit plainEnv)" by (simp add: visits_def plainEnv_def)
  from context_has_intact_identity [OF sortsPhases_sort_key this a, of "''soul.md''"] a show ?thesis
    by (auto simp: plainEnv_def plainConfig_def strictConfig_def bootedIdentity_def anchorNames_def storedHash_def)
qed

theorem assembler_panics_without_store_witness:
  "fst (Assemble (sort_key ph_Priority) plainEnv (NewContextAssembler plainEnv 0) (plainConfig\<lparr>ac_provider := Some (\<lambda>_. Inr [])\<rparr>) bootedIdentity) = None"
  unfolding assembler_panics_without_store [OF sortsPhases_sort_key]
  using plain_identity by (auto simp: embeds_def plainConfig_def identityOf_def)

theorem token_budget_warns_witness:
  "budgetRank (level (NewTokenBudget 1000 10\<lparr>tb_used := 100\<rparr>)) \<le> budgetRank (fst (TokenBudget_Add 500 250 (NewTokenBudget 1000 10\<lparr>tb_used := 100\<rparr>))) \<and>
    1 \<le> budgetRank (fst (TokenBudget_Add 500 250 (NewTokenBudget 1000 10\<lparr>tb_used := 100\<rparr>)))"
  using token_budget_warns [OF refl, of 1000 100 500 250, OF _ _ _ _ _ prod.collapse] by simp

end
