(* ===== verification/Settings.thy ===== *)
theory Settings
  imports Prelude
begin

text \<open>
  The settings of \<^verbatim>\<open>internal/platform/settings.go\<close>: the table \<^verbatim>\<open>agent_settings\<close> with the constraint on its owner,
  the rows of \<^verbatim>\<open>operator_actions\<close> a change writes, and the operations of both stores, which run the
  same statements with other placeholders. \<open>decodeBounds\<close> is the JSON decoder of the bounds: the raw members of the
  object, or no object. An \<open>error option\<close> is the failure of a statement, \<open>now\<close> the clock, and \<open>aid\<close> the identifier drawn.
\<close>

record settingRow =
  st_name :: string
  st_value :: string
  st_default_value :: string
  st_bounds :: string
  st_owner :: string
  st_consent_required :: bool
  st_description :: string
  st_last_changed :: time
  st_changed_by :: string
  st_reason :: string

record actionRow =
  ar_id :: string
  ar_action_type :: string
  ar_actor :: string
  ar_description :: string
  ar_reason :: string

record settingsDB =
  sdb_settings :: "settingRow list"
  sdb_actions :: "actionRow list"

record SettingsEntry =
  se_Name :: string
  se_Value :: string
  se_DefaultValue :: string
  se_BoundsMin :: string
  se_BoundsMax :: string
  se_Owner :: string
  se_ConsentRequired :: bool
  se_Description :: string
  se_LastChanged :: time
  se_ChangedBy :: string
  se_Reason :: string

type_synonym boundsDecoder = "string \<Rightarrow> (string \<rightharpoonup> string) option"

definition parseBounds :: "boundsDecoder \<Rightarrow> string \<Rightarrow> string \<times> string" where
  "parseBounds decodeBounds boundsJSON =
     (case decodeBounds boundsJSON of
        None \<Rightarrow> ('''', '''')
      | Some m \<Rightarrow> ((case m ''min'' of Some v \<Rightarrow> v | None \<Rightarrow> ''''), (case m ''max'' of Some v \<Rightarrow> v | None \<Rightarrow> '''')))"

definition scanSettingsRow :: "boundsDecoder \<Rightarrow> settingRow \<Rightarrow> SettingsEntry" where
  "scanSettingsRow dec r =
     (let (mn, mx) = parseBounds dec (st_bounds r)
      in \<lparr> se_Name = st_name r, se_Value = st_value r, se_DefaultValue = st_default_value r, se_BoundsMin = mn, se_BoundsMax = mx,
           se_Owner = st_owner r, se_ConsentRequired = st_consent_required r, se_Description = st_description r,
           se_LastChanged = st_last_changed r, se_ChangedBy = st_changed_by r, se_Reason = st_reason r \<rparr>)"

definition GetSetting :: "boundsDecoder \<Rightarrow> error option \<Rightarrow> string \<Rightarrow> settingsDB \<Rightarrow> error + SettingsEntry option" where
  "GetSetting dec fault name db =
     (case fault of
        Some e \<Rightarrow> Inl (''platform: getting setting '' @ quoted name @ '': '' @ e)
      | None \<Rightarrow> Inr (map_option (scanSettingsRow dec) (find (\<lambda>r. st_name r = name) (sdb_settings db))))"

definition ListSettings :: "boundsDecoder \<Rightarrow> error option \<Rightarrow> string \<Rightarrow> settingsDB \<Rightarrow> error + SettingsEntry list" where
  "ListSettings dec fault ownerFilter db =
     (case fault of
        Some e \<Rightarrow> Inl (''platform: listing settings: '' @ e)
      | None \<Rightarrow> Inr (map (scanSettingsRow dec) (sort_key (\<lambda>r. byteKey (st_name r))
                  (filter (\<lambda>r. ownerFilter = '''' \<or> st_owner r = ownerFilter) (sdb_settings db)))))"

definition buildBoundsJSON :: "string \<Rightarrow> string \<Rightarrow> string" where
  "buildBoundsJSON mn mx =
     (if mn = '''' \<and> mx = '''' then ''{}''
      else ''{'' @ [CHR 0x22] @ ''min'' @ [CHR 0x22] @ '':'' @ mn @ '','' @ [CHR 0x22] @ ''max'' @ [CHR 0x22] @ '':'' @ mx @ ''}'')"

abbreviation settingOwners :: "string set" where
  "settingOwners \<equiv> {''operator'', ''agent'', ''negotiated''}"

text \<open>The default value is written by the first insertion only.\<close>

definition UpsertSetting :: "time \<Rightarrow> error option \<Rightarrow> SettingsEntry \<Rightarrow> settingsDB \<Rightarrow> error option \<times> settingsDB" where
  "UpsertSetting now fault e db =
     (let row = \<lparr> st_name = se_Name e, st_value = se_Value e, st_default_value = se_DefaultValue e,
                  st_bounds = buildBoundsJSON (se_BoundsMin e) (se_BoundsMax e), st_owner = se_Owner e,
                  st_consent_required = se_ConsentRequired e, st_description = se_Description e, st_last_changed = now,
                  st_changed_by = se_ChangedBy e, st_reason = se_Reason e \<rparr>;
          failed = (\<lambda>er. (Some (''platform: upserting setting '' @ quoted (se_Name e) @ '': '' @ er), db))
      in case fault of
           Some er \<Rightarrow> failed er
         | None \<Rightarrow>
             if st_owner row \<notin> settingOwners then failed ''CHECK constraint failed: owner''
             else if se_Name e \<in> st_name ` set (sdb_settings db)
             then (None, db\<lparr>sdb_settings := map (\<lambda>r. if st_name r = se_Name e then row\<lparr>st_default_value := st_default_value r\<rparr> else r) (sdb_settings db)\<rparr>)
             else (None, db\<lparr>sdb_settings := sdb_settings db @ [row]\<rparr>))"

text \<open>\<open>apply\<close> and \<open>logf\<close> are the failures of the update and of the insertion into the log.\<close>

definition logAction :: "error option \<Rightarrow> actionRow \<Rightarrow> settingsDB \<Rightarrow> error option \<times> settingsDB" where
  "logAction fault a db =
     (case fault of
        Some e \<Rightarrow> (Some e, db)
      | None \<Rightarrow> if ar_id a \<in> ar_id ` set (sdb_actions db) then (Some ''UNIQUE constraint failed: operator_actions.id'', db)
                else (None, db\<lparr>sdb_actions := sdb_actions db @ [a]\<rparr>))"

definition applySetting :: "time \<Rightarrow> string \<Rightarrow> string \<Rightarrow> string \<Rightarrow> string \<Rightarrow> settingsDB \<Rightarrow> settingsDB" where
  "applySetting now name value reason who db = db\<lparr>sdb_settings := map (\<lambda>r. if st_name r = name
     then r\<lparr>st_value := value, st_last_changed := now, st_changed_by := who, st_reason := reason\<rparr> else r) (sdb_settings db)\<rparr>"

definition applyOrPropose ::
  "time \<Rightarrow> string \<Rightarrow> error option \<Rightarrow> error option \<Rightarrow> SettingsEntry \<Rightarrow> string \<Rightarrow> string \<Rightarrow> string \<Rightarrow> settingsDB \<Rightarrow> error option \<times> settingsDB" where
  "applyOrPropose now aid appl logf entry value reason proposedBy db =
     (if se_Owner entry = ''operator''
      then (Some (''platform: setting '' @ quoted (se_Name entry) @ '' is operator-only; agent cannot change it''), db)
      else if se_Owner entry = ''agent''
      then (case appl of
              Some e \<Rightarrow> (Some (''platform: applying setting '' @ quoted (se_Name entry) @ '': '' @ e), db)
            | None \<Rightarrow> logAction logf \<lparr> ar_id = aid, ar_action_type = ''settings_change'', ar_actor = proposedBy,
                        ar_description = ''agent setting '' @ quoted (se_Name entry) @ '' changed to '' @ value, ar_reason = reason \<rparr>
                        (applySetting now (se_Name entry) value reason proposedBy db))
      else if se_Owner entry = ''negotiated''
      then logAction logf \<lparr> ar_id = aid, ar_action_type = ''settings_proposal'', ar_actor = proposedBy,
             ar_description = ''proposal: change '' @ quoted (se_Name entry) @ '' to '' @ value, ar_reason = reason \<rparr> db
      else (Some (''platform: unknown owner '' @ quoted (se_Owner entry) @ '' for setting '' @ quoted (se_Name entry)), db))"

definition ProposeSetting ::
  "boundsDecoder \<Rightarrow> time \<Rightarrow> string \<Rightarrow> error option \<Rightarrow> error option \<Rightarrow> error option \<Rightarrow> string \<Rightarrow> string \<Rightarrow> string \<Rightarrow> string
     \<Rightarrow> settingsDB \<Rightarrow> error option \<times> settingsDB" where
  "ProposeSetting dec now aid get appl logf name value reason proposedBy db =
     (case GetSetting dec get name db of
        Inl e \<Rightarrow> (Some e, db)
      | Inr None \<Rightarrow> (Some (''platform: setting '' @ quoted name @ '' not found''), db)
      | Inr (Some existing) \<Rightarrow> applyOrPropose now aid appl logf existing value reason proposedBy db)"

definition Postgres_GetSetting :: "boundsDecoder \<Rightarrow> error option \<Rightarrow> string \<Rightarrow> settingsDB \<Rightarrow> error + SettingsEntry option" where
  "Postgres_GetSetting = GetSetting"

text \<open>\<open>coll\<close> is the order of names in the database's collation.\<close>

definition Postgres_ListSettings ::
  "(string \<Rightarrow> nat list) \<Rightarrow> boundsDecoder \<Rightarrow> error option \<Rightarrow> string \<Rightarrow> settingsDB \<Rightarrow> error + SettingsEntry list" where
  "Postgres_ListSettings coll dec fault ownerFilter db =
     (case fault of
        Some e \<Rightarrow> Inl (''platform: listing settings: '' @ e)
      | None \<Rightarrow> Inr (map (scanSettingsRow dec) (sort_key (\<lambda>r. coll (st_name r))
                  (filter (\<lambda>r. ownerFilter = '''' \<or> st_owner r = ownerFilter) (sdb_settings db)))))"

definition Postgres_UpsertSetting :: "time \<Rightarrow> error option \<Rightarrow> SettingsEntry \<Rightarrow> settingsDB \<Rightarrow> error option \<times> settingsDB" where
  "Postgres_UpsertSetting = UpsertSetting"

definition applyOrProposePostgres ::
  "time \<Rightarrow> string \<Rightarrow> error option \<Rightarrow> error option \<Rightarrow> SettingsEntry \<Rightarrow> string \<Rightarrow> string \<Rightarrow> string \<Rightarrow> settingsDB \<Rightarrow> error option \<times> settingsDB" where
  "applyOrProposePostgres = applyOrPropose"

definition Postgres_ProposeSetting ::
  "boundsDecoder \<Rightarrow> time \<Rightarrow> string \<Rightarrow> error option \<Rightarrow> error option \<Rightarrow> error option \<Rightarrow> string \<Rightarrow> string \<Rightarrow> string \<Rightarrow> string
     \<Rightarrow> settingsDB \<Rightarrow> error option \<times> settingsDB" where
  "Postgres_ProposeSetting = ProposeSetting"

section \<open>Who may change what\<close>

text \<open>One call of \<open>ProposeSetting\<close>, with what it reads and which of its statements fail.\<close>

record proposal =
  pp_now :: time
  pp_id :: string
  pp_get :: "error option"
  pp_apply :: "error option"
  pp_log :: "error option"
  pp_name :: string
  pp_value :: string
  pp_reason :: string
  pp_by :: string

definition propose :: "boundsDecoder \<Rightarrow> proposal \<Rightarrow> settingsDB \<Rightarrow> settingsDB" where
  "propose dec p db = snd (ProposeSetting dec (pp_now p) (pp_id p) (pp_get p) (pp_apply p) (pp_log p) (pp_name p) (pp_value p) (pp_reason p) (pp_by p) db)"

text \<open>What a proposal keeps of a row: all of it unless the agent owns it, and then all but the value and the trail.\<close>

definition keptRow :: "settingRow \<Rightarrow> settingRow \<Rightarrow> bool" where
  "keptRow r r' \<longleftrightarrow>
     (if st_owner r = ''agent''
      then r' = r\<lparr>st_value := st_value r', st_last_changed := st_last_changed r', st_changed_by := st_changed_by r', st_reason := st_reason r'\<rparr>
      else r' = r)"

lemma keptRow_refl [simp]: "keptRow r r"
  by (simp add: keptRow_def)

lemma keptRow_owner: "keptRow r r' \<Longrightarrow> st_owner r' = st_owner r \<and> st_name r' = st_name r"
  by (cases r; cases r') (auto simp: keptRow_def split: if_splits)

lemma keptRow_trans: "keptRow r r' \<Longrightarrow> keptRow r' r'' \<Longrightarrow> keptRow r r''"
  by (cases r; cases r'; cases r'') (auto simp: keptRow_def split: if_splits)

lemma scanSettingsRow_fields [simp]: "se_Owner (scanSettingsRow dec r) = st_owner r" "se_Name (scanSettingsRow dec r) = st_name r"
  "se_Value (scanSettingsRow dec r) = st_value r"
  by (simp_all add: scanSettingsRow_def split_def Let_def)

lemma logAction_settings: "sdb_settings (snd (logAction f a db)) = sdb_settings db"
  by (simp add: logAction_def split: option.splits)

lemma propose_kept:
  assumes "distinct (map st_name (sdb_settings db))"
  shows "list_all2 keptRow (sdb_settings db) (sdb_settings (propose dec p db))"
proof -
  have id: "list_all2 keptRow rs rs" for rs by (simp add: list_all2_same)
  show ?thesis
  proof (cases "GetSetting dec (pp_get p) (pp_name p) db")
    case (Inr res)
    show ?thesis
    proof (cases res)
      case (Some e)
      then obtain r where r: "r \<in> set (sdb_settings db)" "st_name r = pp_name p" "se_Owner e = st_owner r" "se_Name e = st_name r"
        using Inr by (auto simp: GetSetting_def dest!: find_SomeD split: option.splits)
      have own: "st_owner r' = se_Owner e" if "r' \<in> set (sdb_settings db)" "st_name r' = pp_name p" for r'
        using that r assms by (metis distinct_map inj_onD)
      have "list_all2 keptRow (sdb_settings db) (sdb_settings (applySetting now (se_Name e) v x w db))" if "se_Owner e = ''agent''" for now v x w
        unfolding applySetting_def using own that r(2,4)
        by (simp add: list.rel_map, intro list.rel_refl_strong) (simp add: keptRow_def)
      with Inr Some id show ?thesis
        by (auto simp: propose_def ProposeSetting_def applyOrPropose_def logAction_settings split: option.splits)
    qed (use Inr id in \<open>simp add: propose_def ProposeSetting_def\<close>)
  qed (use id in \<open>simp add: propose_def ProposeSetting_def\<close>)
qed

text \<open>Reading back what was written, whatever was there before.\<close>

lemma find_replaced:
  assumes "x \<in> f ` set rs" "\<And>r. f r = x \<Longrightarrow> f (g r) = x"
  shows "\<exists>r \<in> set rs. f r = x \<and> find (\<lambda>r. f r = x) (map (\<lambda>r. if f r = x then g r else r) rs) = Some (g r)"
  using assms(1) by (induction rs) (auto simp: assms(2))

lemma upsert_get:
  assumes "UpsertSetting now fault e db = (None, db')"
  shows "\<exists>e'. GetSetting dec None (se_Name e) db' = Inr (Some e') \<and> se_Value e' = se_Value e \<and> se_Owner e' = se_Owner e"
proof (cases "se_Name e \<in> st_name ` set (sdb_settings db)")
  case True
  define upd where "upd r = \<lparr> st_name = se_Name e, st_value = se_Value e, st_default_value = st_default_value r,
    st_bounds = buildBoundsJSON (se_BoundsMin e) (se_BoundsMax e), st_owner = se_Owner e, st_consent_required = se_ConsentRequired e,
    st_description = se_Description e, st_last_changed = now, st_changed_by = se_ChangedBy e, st_reason = se_Reason e \<rparr>" for r :: settingRow
  have upd: "st_name (upd r) = se_Name e" "st_value (upd r) = se_Value e" "st_owner (upd r) = se_Owner e" for r by (simp_all add: upd_def)
  have "sdb_settings db' = map (\<lambda>r. if st_name r = se_Name e then upd r else r) (sdb_settings db)"
    using assms True by (auto simp: UpsertSetting_def upd_def Let_def split: option.splits if_splits)
  then obtain r where "find (\<lambda>r. st_name r = se_Name e) (sdb_settings db') = Some (upd r)"
    using find_replaced [OF True, of upd] upd(1) by auto
  then show ?thesis by (simp add: GetSetting_def upd)
next
  case False
  then obtain row where row: "sdb_settings db' = sdb_settings db @ [row]" "st_name row = se_Name e" "st_value row = se_Value e" "st_owner row = se_Owner e"
    using assms by (auto simp: UpsertSetting_def Let_def split: option.splits if_splits)
  have "find (\<lambda>r. st_name r = se_Name e) (rs @ [row]) = Some row" if "se_Name e \<notin> st_name ` set rs" for rs
    using that row(2) by (induction rs) auto
  with False row show ?thesis by (simp add: GetSetting_def)
qed

text \<open>
  C33. The agent changes only what is its own: over any sequence of proposals, whatever statements fail,
  no setting is added, removed or renamed, settings of the operator and negotiated ones keep their value and
  settings of the agent keep their owner, bounds and default.
\<close>

theorem proposals_respect_ownership:
  assumes "distinct (map st_name (sdb_settings db))"
  shows "list_all2 keptRow (sdb_settings db) (sdb_settings (fold (propose dec) ps db))"
  using assms
proof (induction ps arbitrary: db)
  case (Cons p ps)
  note k = propose_kept [OF Cons.prems, of dec p]
  have "map st_name (sdb_settings (propose dec p db)) = map st_name (sdb_settings db)"
    using k by (induction rule: list_all2_induct) (auto dest: keptRow_owner)
  then have "list_all2 keptRow (sdb_settings (propose dec p db)) (sdb_settings (fold (propose dec) ps (propose dec p db)))"
    using Cons.IH [of "propose dec p db"] Cons.prems by simp
  with k show ?case by (auto intro: list_all2_trans [OF keptRow_trans])
qed (simp add: list_all2_same)

text \<open>
  The declared bounds are not enforced: a proposal for a setting of the agent applies any value,
  whatever the bounds of the row are.
\<close>

theorem agent_setting_ignores_bounds:
  assumes "distinct (map st_name (sdb_settings db))" "r \<in> set (sdb_settings db)" "st_owner r = ''agent''" "aid \<notin> ar_id ` set (sdb_actions db)"
  shows "\<exists>db' r'. ProposeSetting dec now aid None None None (st_name r) v why who db = (None, db') \<and> r' \<in> set (sdb_settings db') \<and>
    st_name r' = st_name r \<and> st_bounds r' = st_bounds r \<and> st_value r' = v"
proof -
  have "find (\<lambda>x. st_name x = st_name r) rs = Some r" if "distinct (map st_name rs)" "r \<in> set rs" for rs
    using that by (induction rs) (auto simp: image_iff)
  from this [OF assms(1,2)] show ?thesis
    using assms(2-4)
    by (auto simp: ProposeSetting_def GetSetting_def applyOrPropose_def logAction_def applySetting_def image_iff intro!: bexI [of _ r])
qed

text \<open>A change the log could not record stays applied.\<close>

lemma unlogged_change_stays:
  assumes "GetSetting dec None name db = Inr (Some e)" "se_Owner e = ''agent''"
  shows "ProposeSetting dec now aid None None (Some err) name v why who db = (Some err, applySetting now (se_Name e) v why who db)"
  using assms by (simp add: ProposeSetting_def applyOrPropose_def logAction_def)

text \<open>A seeded setting, and one of the operator.\<close>

definition seededSettings :: settingsDB where
  "seededSettings = \<lparr> sdb_settings =
     [\<lparr> st_name = ''echo'', st_value = ''5'', st_default_value = ''5'', st_bounds = buildBoundsJSON ''1'' ''20'', st_owner = ''agent'', st_consent_required = False,
        st_description = '''', st_last_changed = 0, st_changed_by = ''system'', st_reason = '''' \<rparr>,
      \<lparr> st_name = ''mode'', st_value = ''1'', st_default_value = ''1'', st_bounds = ''{}'', st_owner = ''operator'', st_consent_required = False,
        st_description = '''', st_last_changed = 0, st_changed_by = ''system'', st_reason = '''' \<rparr>], sdb_actions = [] \<rparr>"

theorem proposals_respect_ownership_witness:
  "list_all2 keptRow (sdb_settings seededSettings) (sdb_settings (fold (propose (\<lambda>_. None))
     [\<lparr> pp_now = 1, pp_id = ''a'', pp_get = None, pp_apply = None, pp_log = None, pp_name = ''mode'', pp_value = ''2'', pp_reason = '''',
        pp_by = ''agent'' \<rparr>] seededSettings))"
  by (rule proposals_respect_ownership) (simp add: seededSettings_def)

theorem agent_setting_ignores_bounds_witness:
  "\<exists>db' r'. ProposeSetting (\<lambda>_. None) 1 ''a'' None None None ''echo'' ''9000'' '''' ''agent'' seededSettings = (None, db') \<and>
    r' \<in> set (sdb_settings db') \<and> st_name r' = ''echo'' \<and> st_bounds r' = buildBoundsJSON ''1'' ''20'' \<and> st_value r' = ''9000''"
  using agent_setting_ignores_bounds [of seededSettings "hd (sdb_settings seededSettings)" "''a''" "\<lambda>_. None" 1 "''9000''" "''''" "''agent''"]
  by (simp add: seededSettings_def)


end
