(* ===== verification/ToolHandlers.thy ===== *)
theory ToolHandlers
  imports Settings Profiles Registry
begin

text \<open>
  The built-in tools: \<^verbatim>\<open>internal/tools/memory_cmds.go\<close>, \<^verbatim>\<open>reflect_cmds.go\<close> and \<^verbatim>\<open>people_cmds.go\<close> over the memory and the settings, and the command
  line dispatcher of \<^verbatim>\<open>cli.go\<close>. Each \<open>Execute\<close> is a function of the arguments and of the tables it reads or writes;
  an \<open>error option\<close> is the failure of a statement. The embedding provider, the advising model, the sandbox and the advisor are
  parameters.
\<close>

section \<open>Arguments\<close>

definition intArg :: "args \<Rightarrow> string \<Rightarrow> int \<Rightarrow> int" where
  "intArg args k def = (case args k of Some (JInt n) \<Rightarrow> n | Some (JNum x) \<Rightarrow> truncInt x | _ \<Rightarrow> def)"

text \<open>\<open>fmt.Sprintf\<close> of one entry for each member of a list, with its index from one.\<close>

definition numbered :: "(nat \<Rightarrow> 'a \<Rightarrow> string) \<Rightarrow> 'a list \<Rightarrow> string" where
  "numbered f xs = concat (map (\<lambda>(i, x). f (i + 1) x) (zip [0..<length xs] xs))"

section \<open>Memory\<close>

definition MemorySearch_Execute ::
  "(string \<Rightarrow> time option) \<Rightarrow> (string \<Rightarrow> error + rat list) \<Rightarrow> error option \<Rightarrow> error option \<Rightarrow> args \<Rightarrow> graphDB \<Rightarrow> error + string" where
  "MemorySearch_Execute parse provider nf rf args db =
     (let (query, ok) = stringArg args ''query'' in
      if \<not> ok \<or> query = '''' then Inl (''memory_search: missing required arg '' @ [CHR 0x27] @ ''query'' @ [CHR 0x27])
      else (let limit = intArg args ''limit'' 5 in
        case provider query of
          Inl e \<Rightarrow> Inl (''memory_search: embed query: '' @ e)
        | Inr vec \<Rightarrow>
            (case SearchNarrative parse nf limit db of
               Inl e \<Rightarrow> Inl (''memory_search: search narrative: '' @ e)
             | Inr narratives \<Rightarrow>
                 (case SearchReflections parse rf limit db of
                    Inl e \<Rightarrow> Inl (''memory_search: search reflections: '' @ e)
                  | Inr reflections \<Rightarrow>
                      if narratives = [] \<and> reflections = [] then Inr ''no memory results found''
                      else Inr (TrimSpace
                        ((if narratives = [] then '''' else ''=== Narrative Summaries (T3) ==='' @ newline @
                            numbered (\<lambda>i n. ''['' @ itoa (int i) @ ''] id='' @ ns_ID n @ newline @ ns_Content n @ newline @ newline) narratives) @
                         (if reflections = [] then '''' else ''=== Reflections (T4) ==='' @ newline @
                            numbered (\<lambda>i r. ''['' @ itoa (int i) @ ''] id='' @ rfl_ID r @ '' type='' @ rfl_Type r @ '' visibility='' @ rfl_Visibility r @
                              newline @ rfl_Content r @ newline @ newline) reflections)))))))"

definition boolArg :: "args \<Rightarrow> string \<Rightarrow> bool" where
  "boolArg args k = (case args k of Some (JBool b) \<Rightarrow> b | _ \<Rightarrow> False)"

definition MemoryRecall_Execute ::
  "(time \<Rightarrow> time) \<Rightarrow> (string \<Rightarrow> time option) \<Rightarrow> error option \<Rightarrow> string \<Rightarrow> args \<Rightarrow> graphDB \<Rightarrow> error + string" where
  "MemoryRecall_Execute readAt parse fault CurrentSessionID args db =
     (let sid = fst (stringArg args ''session_id''); sid = (if sid = '''' then CurrentSessionID else sid)
      in if sid \<noteq> CurrentSessionID \<and> \<not> boolArg args ''cross_session''
         then Inl (''memory_recall: reading session '' @ quoted sid @ '' requires cross_session=true (current session is '' @ quoted CurrentSessionID @ '')'')
         else (case storeQueryLogs readAt parse fault sid (intArg args ''limit'' 50) db of
                 Inl e \<Rightarrow> Inl (''memory_recall: query logs: '' @ e)
               | Inr logs \<Rightarrow>
                   if logs = [] then Inr (''no logs found for session '' @ sid)
                   else Inr (TrimSpace (''=== Session '' @ sid @ '' '' @ em_dash @ '' '' @ itoa (int (length logs)) @ '' entries ==='' @ newline @ newline @
                          concat (map (\<lambda>l. ''['' @ el_ID l @ ''] source='' @ el_ContentSource l @ newline @ el_Content l @ newline @ newline) logs)))))"

definition focusEntry :: "string \<Rightarrow> string \<Rightarrow> SettingsEntry" where
  "focusEntry focus reason = \<lparr> se_Name = ''agent_focus'', se_Value = quoted focus, se_DefaultValue = '''', se_BoundsMin = '''', se_BoundsMax = '''',
     se_Owner = ''agent'', se_ConsentRequired = False, se_Description = ''Agent'' @ [CHR 0x27] @ ''s stated focus for the next session'',
     se_LastChanged = zeroTime, se_ChangedBy = ''agent'', se_Reason = reason \<rparr>"

definition FocusSet_Execute :: "time \<Rightarrow> error option \<Rightarrow> args \<Rightarrow> settingsDB \<Rightarrow> (error + string) \<times> settingsDB" where
  "FocusSet_Execute now fault args db =
     (let (focus, ok) = stringArg args ''focus'' in
      if \<not> ok \<or> focus = '''' then (Inl (''focus_set: missing required arg '' @ [CHR 0x27] @ ''focus'' @ [CHR 0x27]), db)
      else (let reason = fst (stringArg args ''reason'');
                entry = focusEntry focus reason
            in case UpsertSetting now fault entry db of
                 (Some e, db') \<Rightarrow> (Inl (''focus_set: upsert setting: '' @ e), db')
               | (None, db') \<Rightarrow> (Inr (''agent_focus set: '' @ focus), db')))"

definition FocusGet_Execute :: "boundsDecoder \<Rightarrow> error option \<Rightarrow> settingsDB \<Rightarrow> error + string" where
  "FocusGet_Execute dec fault db =
     (case GetSetting dec fault ''agent_focus'' db of
        Inl e \<Rightarrow> Inl (''focus_get: '' @ e)
      | Inr None \<Rightarrow> Inr ''no agent_focus set''
      | Inr (Some entry) \<Rightarrow> Inr (''agent_focus: '' @ se_Value entry))"

section \<open>Reflection\<close>

definition SelfExamine_Execute :: "(string \<Rightarrow> error + string) option \<Rightarrow> args \<Rightarrow> error + string" where
  "SelfExamine_Execute llmFn args =
     (let (prompt, ok) = stringArg args ''prompt'' in
      if \<not> ok \<or> prompt = '''' then Inl (''self_examine: missing required arg '' @ [CHR 0x27] @ ''prompt'' @ [CHR 0x27])
      else (case llmFn of
              None \<Rightarrow> Inl ''self_examine: llmFn not configured''
            | Some llm \<Rightarrow>
                (case llm prompt of
                   Inl e \<Rightarrow> Inl (''self_examine: LLM call: '' @ e)
                 | Inr content \<Rightarrow>
                     Inr (''Advisor examination (not stored '' @ em_dash @ '' use write_reflection to preserve insights):'' @ newline @ newline @ content))))"

abbreviation reflectionTypes :: "string list" where
  "reflectionTypes \<equiv> [''essay'', ''note'', ''dream'', ''pattern'', ''examination'', ''challenge'']"

text \<open>What the tool stores: self-sourced, anchored now, with the zero value of the confidence.\<close>

definition toolReflection :: "string \<Rightarrow> time \<Rightarrow> string \<Rightarrow> string \<Rightarrow> string \<Rightarrow> string \<Rightarrow> rat list \<Rightarrow> Reflection" where
  "toolReflection newid now content reflType visibility emotionalRegister vec =
     \<lparr> rfl_ID = newid, rfl_Type = reflType, rfl_Content = content, rfl_Visibility = visibility,
       rfl_Belief = Some \<lparr> bm_BaseConfidence = 0, bm_AnchorAt = now, bm_InferenceDistance = 0, bm_VerificationState = '''',
         bm_Source = ''self'', bm_EmotionalRegister = emotionalRegister \<rparr>, rfl_Embedding = vec \<rparr>"

text \<open>\<open>order\<close> is the order in which the map of types is ranged over for the message.\<close>

definition WriteReflection_Execute ::
  "(string list \<Rightarrow> string list) \<Rightarrow> (float64 \<Rightarrow> float64) \<Rightarrow> (time \<Rightarrow> string) \<Rightarrow> time \<Rightarrow> string \<Rightarrow> error option \<Rightarrow> (string \<Rightarrow> error + rat list)
     \<Rightarrow> args \<Rightarrow> graphDB \<Rightarrow> (error + string) \<times> graphDB" where
  "WriteReflection_Execute order column stamp now newid fault provider args db =
     (let (content, ok) = stringArg args ''content'' in
      if \<not> ok \<or> content = '''' then (Inl (''write_reflection: missing required arg '' @ [CHR 0x27] @ ''content'' @ [CHR 0x27]), db)
      else (let reflType = fst (stringArg args ''type''); reflType = (if reflType = '''' then ''note'' else reflType);
                visibility = fst (stringArg args ''visibility''); visibility = (if visibility = '''' then ''private'' else visibility);
                emotionalRegister = fst (stringArg args ''emotional_register'')
            in if reflType \<notin> set reflectionTypes
               then (Inl (''write_reflection: invalid type '' @ quoted reflType @ ''; valid: '' @ strJoin (order reflectionTypes) '', ''), db)
               else (case provider content of
                 Inl e \<Rightarrow> (Inl (''write_reflection: embed content: '' @ e), db)
               | Inr vec \<Rightarrow>
                   (let ref = toolReflection newid now content reflType visibility emotionalRegister vec
                    in case InsertReflection column stamp now fault ref db of
                         (Some e, db') \<Rightarrow> (Inl (''write_reflection: store: '' @ e), db')
                       | (None, db') \<Rightarrow> (Inr (''reflection stored (id='' @ rfl_ID ref @ '' type='' @ rfl_Type ref @ '' visibility='' @ rfl_Visibility ref @ '')''), db')))))"

section \<open>People\<close>

definition PeopleList_Execute :: "error option \<Rightarrow> profileRow list \<Rightarrow> error + string" where
  "PeopleList_Execute fault rows =
     (case ListProfiles fault rows of
        Inl e \<Rightarrow> Inl (''people_list: '' @ e)
      | Inr profiles \<Rightarrow>
          if profiles = [] then Inr ''no relational profiles found''
          else Inr (TrimSpace (''=== Relational Profiles ('' @ itoa (int (length profiles)) @ '') ==='' @ newline @ newline @
                 concat (map (\<lambda>p. bullet @ '' '' @ rp_Name p @ '' (id='' @ rp_ID p @ '')'' @
                   (if rp_Aliases p \<noteq> [] then '', aliases: '' @ strJoin (rp_Aliases p) '', '' else '''') @ newline) profiles))))"

definition PeopleShow_Execute :: "(char \<Rightarrow> char \<Rightarrow> bool) \<Rightarrow> error option \<Rightarrow> args \<Rightarrow> profileRow list \<Rightarrow> error + string" where
  "PeopleShow_Execute eq fault args rows =
     (let (name, ok) = stringArg args ''name'' in
      if \<not> ok \<or> name = '''' then Inl (''people_show: missing required arg '' @ [CHR 0x27] @ ''name'' @ [CHR 0x27])
      else (case GetProfile eq fault name rows of
              Inl e \<Rightarrow> Inl (''people_show: '' @ e)
            | Inr None \<Rightarrow> Inr (''no profile found for '' @ quoted name)
            | Inr (Some p) \<Rightarrow>
                Inr (TrimSpace (''=== Profile: '' @ rp_Name p @ '' ==='' @ newline @ ''ID: '' @ rp_ID p @ newline @
                  (if rp_Aliases p \<noteq> [] then ''Aliases: '' @ strJoin (rp_Aliases p) '', '' @ newline else '''') @ newline @ rp_Content p))))"

section \<open>The command line dispatcher\<close>

record SocketResponse =
  sr_Result :: string
  sr_Error :: string

record 'w CLIDispatcher =
  cd_groups :: "ToolGroup list"
  cd_handlers :: "string \<rightharpoonup> (args \<Rightarrow> 'w \<Rightarrow> (error + string) \<times> 'w)"
  cd_sandbox :: "(string \<Rightarrow> 'w \<Rightarrow> (error + string) \<times> 'w) option"
  cd_advisor :: "(string \<Rightarrow> string \<Rightarrow> 'w \<Rightarrow> (error + string) \<times> 'w) option"
  cd_activeTiers :: "string set option"

definition SetActiveTiers :: "string list option \<Rightarrow> 'w CLIDispatcher \<Rightarrow> 'w CLIDispatcher" where
  "SetActiveTiers toolNames d = d\<lparr>cd_activeTiers := map_option set toolNames\<rparr>"

definition failed :: "string \<Rightarrow> SocketResponse" where
  "failed e = \<lparr> sr_Result = '''', sr_Error = e \<rparr>"

definition respond :: "string \<Rightarrow> (error + string) \<times> 'w \<Rightarrow> SocketResponse \<times> 'w" where
  "respond who out = (case out of (Inl e, w) \<Rightarrow> (failed (who @ '': '' @ e), w) | (Inr r, w) \<Rightarrow> (\<lparr> sr_Result = r, sr_Error = '''' \<rparr>, w))"

definition handleBash :: "'w CLIDispatcher \<Rightarrow> args \<Rightarrow> 'w \<Rightarrow> SocketResponse \<times> 'w" where
  "handleBash d args w =
     (let (command, ok) = stringArg args ''command'' in
      if \<not> ok then (failed (''bash: missing required arg '' @ [CHR 0x27] @ ''command'' @ [CHR 0x27]), w)
      else (case cd_sandbox d of None \<Rightarrow> (failed ''bash: sandbox not configured'', w) | Some run \<Rightarrow> respond ''bash'' (run command w)))"

definition handleAdvisor :: "'w CLIDispatcher \<Rightarrow> args \<Rightarrow> 'w \<Rightarrow> SocketResponse \<times> 'w" where
  "handleAdvisor d args w =
     (let (question, ok) = stringArg args ''question'' in
      if \<not> ok then (failed (''advisor: missing required arg '' @ [CHR 0x27] @ ''question'' @ [CHR 0x27]), w)
      else (case cd_advisor d of
              None \<Rightarrow> (failed ''advisor: advisor not configured'', w)
            | Some ask \<Rightarrow> respond ''advisor'' (ask question (fst (stringArg args ''provider'')) w)))"

definition handleDiscover :: "(rune \<Rightarrow> rune) \<Rightarrow> 'w CLIDispatcher \<Rightarrow> args \<Rightarrow> SocketResponse" where
  "handleDiscover lowerRune d args =
     (if cd_groups d = [] then \<lparr> sr_Result = ''no tool groups registered'', sr_Error = '''' \<rparr>
      else (let (tierStr, hasTier) = stringArg args ''tier'' in
        \<lparr> sr_Result = concat (map (\<lambda>g.
             if hasTier \<and> itoa (tg_Tier g) \<noteq> tierStr \<and> ToLower lowerRune (tg_Name g) \<noteq> tierStr then ''''
             else ''tier '' @ itoa (tg_Tier g) @ '' ('' @ tg_Name g @ '') '' @ em_dash @ '' '' @ itoa (int (length (tg_Tools g))) @ '' tool(s)'' @
                  (if tg_Keywords g \<noteq> [] then '', keywords: '' @ strJoin (tg_Keywords g) '', '' else '''') @ newline @
                  concat (map (\<lambda>t. ''  '' @ bullet @ '' '' @ td_Name t @ (if td_Description t \<noteq> '''' then '': '' @ td_Description t else '''') @ newline)
                    (tg_Tools g))) (cd_groups d)), sr_Error = '''' \<rparr>))"

definition handleRegistry :: "'w CLIDispatcher \<Rightarrow> string \<Rightarrow> args \<Rightarrow> 'w \<Rightarrow> SocketResponse \<times> 'w" where
  "handleRegistry d method args w =
     (if (case cd_activeTiers d of None \<Rightarrow> False | Some s \<Rightarrow> method \<notin> s)
      then (failed (''command '' @ quoted method @ '' not available in current session tier''), w)
      else (case cd_handlers d method of
              None \<Rightarrow> (failed (''unknown command: '' @ method), w)
            | Some h \<Rightarrow> respond method (h args w)))"

definition Handle :: "(rune \<Rightarrow> rune) \<Rightarrow> 'w CLIDispatcher \<Rightarrow> string \<Rightarrow> args \<Rightarrow> 'w \<Rightarrow> SocketResponse \<times> 'w" where
  "Handle lowerRune d method args w =
     (let m = ToLower lowerRune method in
      if m = ''bash'' \<or> m = ''shell'' then handleBash d args w
      else if m = ''advisor'' then handleAdvisor d args w
      else if m = ''discover'' then (handleDiscover lowerRune d args, w)
      else handleRegistry d method args w)"

section \<open>Properties\<close>

text \<open>The row that the tool adds.\<close>

lemma WriteReflection_row:
  assumes "WriteReflection_Execute order column stamp now newid fault provider args db = (Inr msg, db')" "now \<noteq> zeroTime"
  obtains r fs where "gd_reflections db' = gd_reflections db @ [r]" "rf_id r = newid" "rf_base_confidence r = Some (column 0)"
    "rf_belief_meta r = JObj fs" "strField (JObj fs) ''verification_state'' = ''''"
proof -
  obtain c t v g vec where i: "InsertReflection column stamp now fault (toolReflection newid now c t v g vec) db = (None, db')"
    using assms(1) by (auto simp: WriteReflection_Execute_def Let_def split: prod.splits if_splits sum.splits option.splits)
  let ?row = "reflectionRowOf column stamp now (toolReflection newid now c t v g vec)"
  have "gd_reflections db' = gd_reflections db @ [?row]" using i by (auto simp: InsertReflection_def Let_def split: option.splits if_splits)
  moreover have "rf_id ?row = newid" "rf_base_confidence ?row = Some (column 0)" "\<exists>fs. rf_belief_meta ?row = JObj fs"
    "strField (rf_belief_meta ?row) ''verification_state'' = ''''"
    using assms(2) by (auto simp: reflectionRowOf_def toolReflection_def beliefMetaJSON_def strField_def fieldsOf_def Let_def)
  ultimately show thesis using that by metis
qed

text \<open>
  A reflection the agent writes with the tool is anchored with a base confidence of zero, although the agent stated
  none: the row it adds has confidence zero instead of none, and the next end-of-session pass with a
  positive threshold marks it stale, however recent it is.
\<close>

theorem tool_reflection_goes_stale:
  assumes "WriteReflection_Execute order column stamp now newid fault provider args db = (Inr msg, db1)" "now \<noteq> zeroTime" "column 0 = 0"
    and "0 < dc_StaleThreshold cfg" "decayPass eq render parse ef pow expf later cfg db1 = (res, db2)"
    and "loadable eq render (rf_belief_meta (last (gd_reflections db1)))"
  shows "rf_base_confidence (last (gd_reflections db2)) = Some 0 \<and> rf_id (last (gd_reflections db2)) = newid \<and>
    strField (rf_belief_meta (last (gd_reflections db2))) ''verification_state'' = ''stale''"
proof -
  obtain r fs where r: "gd_reflections db1 = gd_reflections db @ [r]" "rf_id r = newid" "rf_base_confidence r = Some (column 0)"
    "rf_belief_meta r = JObj fs" "strField (JObj fs) ''verification_state'' = ''''"
    by (rule WriteReflection_row [OF assms(1,2)])
  let ?needs = "needsNow pow expf later cfg"
  let ?rec = "\<lparr> br_ID = rf_id r, br_Belief = Some ((decodeBeliefMeta parse (rf_belief_meta r))\<lparr>bm_BaseConfidence := the (rf_base_confidence r)\<rparr>),
    br_TableName = ''reflections'' \<rparr>"
  obtain recs where recs: "\<forall>rec. rec \<in> set recs \<longleftrightarrow> loadedFrom (loadable eq render) parse db1 rec"
    and db2: "db2 = markStale (key ` set (filter ?needs recs)) db1"
    using decayPass_result [of eq render parse db1 pow expf later cfg ef] assms(5) unfolding Let_def by auto
  have "loadedFrom (loadable eq render) parse db1 ?rec"
    unfolding loadedFrom_def using r(1,3) assms(6) by (intro disjI2 bexI [of _ r]) auto
  moreover have "?needs ?rec"
    using r(3-5) assms(3,4) by (simp add: needsFlag_def decodeBeliefMeta_def Confidence_def Let_def fmul_def)
  ultimately have "(''reflections'', rf_id r) \<in> key ` set (filter ?needs recs)" using recs by force
  then have "last (gd_reflections db2) = r\<lparr>rf_belief_meta := jsonSet ''verification_state'' (JStr ''stale'') (rf_belief_meta r)\<rparr>"
    using r(1) by (simp add: db2 markStale_def Let_def)
  then show ?thesis using r assms(3) by simp
qed

text \<open>
  Recall is confined to the current session: without \<open>cross_session\<close>, what the tool answers does not depend on the logs of any
  other session.
\<close>

theorem recall_is_confined:
  assumes "\<not> boolArg args ''cross_session''"
    and "filter (\<lambda>r. lr_session_id r = cur) (db_logs (gd_mem db)) = filter (\<lambda>r. lr_session_id r = cur) (db_logs (gd_mem db'))"
  shows "MemoryRecall_Execute readAt parse fault cur args db = MemoryRecall_Execute readAt parse fault cur args db'"
  using assms by (simp add: MemoryRecall_Execute_def storeQueryLogs_def Let_def split: option.splits)

text \<open>
  As \<open>RegisterAll\<close> wires it, the recall tool has no current session: without arguments it reads the session with the empty name,
  and every session, the running one included, needs \<open>cross_session\<close>.
\<close>

theorem registered_recall_has_no_session:
  assumes "\<forall>r \<in> set (db_logs (gd_mem db)). lr_session_id r \<noteq> ''''"
  shows "MemoryRecall_Execute readAt parse None '''' Map.empty db = Inr ''no logs found for session '' \<and>
    (sid \<noteq> '''' \<longrightarrow> (\<exists>e. MemoryRecall_Execute readAt parse None '''' [''session_id'' \<mapsto> JStr sid] db = Inl e))"
proof -
  have "filter (\<lambda>r. lr_session_id r = '''') (db_logs (gd_mem db)) = []" using assms by (simp add: filter_empty_conv)
  then show ?thesis by (simp add: MemoryRecall_Execute_def storeQueryLogs_def stringArg_def boolArg_def limitRows_def Let_def)
qed

text \<open>
  The focus tool writes and reads one setting, and takes it over: whoever owned the setting before, a successful
  \<open>focus_set\<close> makes it the agent's, and \<open>focus_get\<close> answers the quoted text.
\<close>

theorem focus_round_trip:
  assumes "FocusSet_Execute now fault args db = (Inr msg, db')"
  shows "FocusGet_Execute dec None db' = Inr (''agent_focus: '' @ quoted (fst (stringArg args ''focus''))) \<and>
    (\<exists>e. GetSetting dec None ''agent_focus'' db' = Inr (Some e) \<and> se_Owner e = ''agent'')"
proof -
  obtain f r where u: "UpsertSetting now fault (focusEntry f r) db = (None, db')" "f = fst (stringArg args ''focus'')"
    using assms by (auto simp: FocusSet_Execute_def Let_def split: prod.splits if_splits option.splits)
  from upsert_get [OF u(1), of dec] u(2) show ?thesis by (auto simp: FocusGet_Execute_def focusEntry_def)
qed

text \<open>
  The dispatcher's gate: a command that is not active and is not one of the four built-in ones is
  answered with an error and has no effect; the built-in ones are not gated.
\<close>

theorem inactive_command_is_refused:
  assumes "cd_activeTiers d = Some allowed" "method \<notin> allowed" "Handle lr d method args w = (resp, w')"
  shows "(ToLower lr method \<notin> {''bash'', ''shell'', ''advisor'', ''discover''} \<longrightarrow> w' = w \<and> sr_Error resp \<noteq> '''') \<and>
    (ToLower lr method \<in> {''bash'', ''shell'', ''advisor'', ''discover''} \<longrightarrow>
       Handle lr (d\<lparr>cd_activeTiers := None\<rparr>) method args w = (resp, w'))"
  using assms by (auto simp: Handle_def handleRegistry_def failed_def handleBash_def handleAdvisor_def handleDiscover_def Let_def split: prod.splits)


text \<open>A note written with the tool into the sample database, and the pass that follows.\<close>

definition noteWritten :: graphDB where
  "noteWritten = snd (WriteReflection_Execute id id (\<lambda>t. ''1970-01-01T00:00:00Z'') 0 ''r9'' None (\<lambda>_. Inr []) [''content'' \<mapsto> JStr ''I noticed''] freshDB)"

lemma noteWritten_result:
  "WriteReflection_Execute id id (\<lambda>t. ''1970-01-01T00:00:00Z'') 0 ''r9'' None (\<lambda>_. Inr []) [''content'' \<mapsto> JStr ''I noticed''] freshDB =
     (Inr ''reflection stored (id=r9 type=note visibility=private)'', noteWritten)"
  unfolding noteWritten_def by code_simp

lemma noteWritten_loadable: "loadable (=) jsonbText (rf_belief_meta (last (gd_reflections noteWritten)))"
  by code_simp

theorem tool_reflection_goes_stale_witness:
  "rf_id (last (gd_reflections (snd (freshPass noteWritten)))) = ''r9'' \<and>
   strField (rf_belief_meta (last (gd_reflections (snd (freshPass noteWritten))))) ''verification_state'' = ''stale''"
  unfolding freshPass_def
  using tool_reflection_goes_stale [OF noteWritten_result _ _ _ prod.collapse [symmetric] noteWritten_loadable] by (simp add: zeroTime_def)

theorem recall_is_confined_witness:
  "MemoryRecall_Execute id (\<lambda>_. None) None ''s'' Map.empty freshDB = MemoryRecall_Execute id (\<lambda>_. None) None ''s'' Map.empty noteWritten"
  by (rule recall_is_confined) (simp_all add: boolArg_def noteWritten_def WriteReflection_Execute_def stringArg_def InsertReflection_def reflectionRowOf_def
      toolReflection_def Let_def)

theorem registered_recall_has_no_session_witness:
  "MemoryRecall_Execute id (\<lambda>_. None) None '''' Map.empty freshDB = Inr ''no logs found for session '' \<and>
   (\<exists>e. MemoryRecall_Execute id (\<lambda>_. None) None '''' [''session_id'' \<mapsto> JStr ''s''] freshDB = Inl e)"
  using registered_recall_has_no_session [of freshDB id "\<lambda>_. None" "''s''"] by (simp add: freshDB_def)

theorem focus_round_trip_witness:
  "FocusGet_Execute (\<lambda>_. None) None (snd (FocusSet_Execute 5 None [''focus'' \<mapsto> JStr ''rest''] seededSettings)) = Inr (''agent_focus: '' @ quoted ''rest'')"
proof -
  have "\<exists>msg. FocusSet_Execute 5 None [''focus'' \<mapsto> JStr ''rest''] seededSettings = (Inr msg, snd (FocusSet_Execute 5 None [''focus'' \<mapsto> JStr ''rest''] seededSettings))"
    by (simp add: FocusSet_Execute_def stringArg_def UpsertSetting_def focusEntry_def seededSettings_def Let_def)
  then show ?thesis using focus_round_trip by (fastforce simp: stringArg_def)
qed

definition quietDispatcher :: "nat CLIDispatcher" where
  "quietDispatcher = \<lparr> cd_groups = [], cd_handlers = [''memory_search'' \<mapsto> \<lambda>a w. (Inr ''found'', w + 1)], cd_sandbox = Some (\<lambda>c w. (Inr ''ran'', w + 1)),
     cd_advisor = None, cd_activeTiers = Some {} \<rparr>"

theorem inactive_command_is_refused_witness:
  "snd (Handle id quietDispatcher ''memory_search'' Map.empty 0) = 0 \<and> sr_Error (fst (Handle id quietDispatcher ''memory_search'' Map.empty 0)) \<noteq> ''''"
proof -
  have "ToLower id ''memory_search'' \<notin> {''bash'', ''shell'', ''advisor'', ''discover''}" by (simp add: ToLower_ascii asciiByte_def asciiLower_def)
  then show ?thesis
    using inactive_command_is_refused [of quietDispatcher "{}" "''memory_search''" id Map.empty 0, OF _ _ prod.collapse [symmetric]]
    by (simp add: quietDispatcher_def)
qed


end
