(* ===== verification/LifecycleStore.thy ===== *)
theory LifecycleStore
  imports Policy JobStore Assembly
begin

text \<open>
  The lifecycle stores, \<^verbatim>\<open>internal/platform/storage/lifecycle_sqlite.go\<close> and \<^verbatim>\<open>lifecycle_postgres.go\<close>, over the tables of migrations 006, 009 and 013
  with their constraints: the enumerated columns, the unique identifiers, and the reference of wake facts and manifests to a plan.

  The primary keys of \<^verbatim>\<open>wake_facts\<close> and \<^verbatim>\<open>configuration_applied\<close> are declared \<open>INTEGER PRIMARY KEY\<close> and never given by the code: SQLite numbers such a
  row itself, PostgreSQL refuses the missing value. \<open>now\<close> is the clock of the database, which SQLite reads to the second; an \<open>error option\<close>
  is another failure of the statement. The JSON encoder is a parameter, as is \<open>readback\<close>, what a stored time is when it is scanned and parsed.
\<close>

section \<open>Tables\<close>

record wakeRow =
  wk_plan_id :: string
  wk_wake_at :: time
  wk_elapsed_duration_sec :: float64
  wk_gap_class :: "string option"
  wk_transition_context :: "string option"
  wk_extra_json :: string

record manifestRow =
  mr_id :: string
  mr_session_id :: string
  mr_plan_id :: string
  mr_phases_loaded :: string
  mr_phases_skipped :: string
  mr_known_omissions :: string
  mr_total_tokens_used :: int
  mr_total_tokens_budget :: int
  mr_context_utilization :: float64
  mr_assembled_at :: time

record configRow =
  cfg_session_id :: string
  cfg_policy_path :: string
  cfg_policy_hash :: string
  cfg_previous_hash :: "string option"
  cfg_changes_summary :: string
  cfg_policy_source :: string
  cfg_policy_snapshot :: string
  cfg_applied_at :: time

record checkpointRow =
  cp_id :: string
  cp_session_id :: string
  cp_turn_number :: int
  cp_t2_high_water :: string
  cp_token_usage :: int
  cp_state :: string
  cp_created_at :: time

record lifecycleDB =
  ldb_plans :: "planRow list"
  ldb_wakes :: "wakeRow list"
  ldb_manifests :: "manifestRow list"
  ldb_config :: "configRow list"
  ldb_checkpoints :: "checkpointRow list"

text \<open>The failure of a statement, if any, before its effect.\<close>

definition violation :: "error option \<Rightarrow> (bool \<times> string) list \<Rightarrow> error option" where
  "violation fault checks = (case fault of Some e \<Rightarrow> Some e | None \<Rightarrow> map_option snd (find (\<lambda>(ok, e). \<not> ok) checks))"

definition planChecks :: "planRow list \<Rightarrow> planRow \<Rightarrow> (bool \<times> string) list" where
  "planChecks rows r =
     [(row_temporal_mode r \<in> {''episodic'', ''diurnal'', ''continuous''}, ''CHECK constraint failed: temporal_mode''),
      (row_wake_cause r \<in> set ValidWakeCauses, ''CHECK constraint failed: wake_cause''),
      ((case row_wake_cause_secondary r of None \<Rightarrow> True | Some c \<Rightarrow> c \<in> set ValidWakeCauses), ''CHECK constraint failed: wake_cause_secondary''),
      (row_activity_profile r \<in> {''normal'', ''free'', ''sentinel''}, ''CHECK constraint failed: activity_profile''),
      (row_assembly_profile r \<in> {''full'', ''light'', ''minimal'', ''seam''}, ''CHECK constraint failed: assembly_profile''),
      (row_bridge_policy r \<in> {''automatic_with_abstention'', ''agent_requested'', ''disabled''}, ''CHECK constraint failed: bridge_policy''),
      (row_metabolism_policy r \<in> {''standard'', ''deferred'', ''skip''}, ''CHECK constraint failed: metabolism_policy''),
      (row_seam_kind r \<in> {''cold_wake'', ''warm_return'', ''context_compaction'', ''rest_return'', ''none''}, ''CHECK constraint failed: seam_kind''),
      (row_id r \<notin> row_id ` set rows, ''UNIQUE constraint failed: lifecycle_plans.id'')]"

section \<open>Operations\<close>

text \<open>\<open>RecordPlan\<close> of the theory \<open>Policy\<close> under the constraints of the table.\<close>

definition recordPlan :: "string \<Rightarrow> time \<Rightarrow> error option \<Rightarrow> LifecyclePlan option \<Rightarrow> lifecycleDB \<Rightarrow> error option \<times> lifecycleDB" where
  "recordPlan newid now fault plan db =
     (case RecordPlan (ldb_plans db) newid now fault plan of
        Inl e \<Rightarrow> (Some e, db)
      | Inr rows \<Rightarrow>
          (case violation None (planChecks (ldb_plans db) (last rows)) of
             Some e \<Rightarrow> (Some (''storage: recording lifecycle plan '' @ row_id (last rows) @ '': '' @ e), db)
           | None \<Rightarrow> (None, db\<lparr>ldb_plans := rows\<rparr>)))"

definition SQLite_RecordPlan :: "string \<Rightarrow> time \<Rightarrow> error option \<Rightarrow> LifecyclePlan option \<Rightarrow> lifecycleDB \<Rightarrow> error option \<times> lifecycleDB" where
  "SQLite_RecordPlan newid now = recordPlan newid (sqliteNow now)"

text \<open>\<open>Duration.Seconds\<close>.\<close>

definition Seconds :: "duration \<Rightarrow> float64" where
  "Seconds d = (let sec = (if d < 0 then - (- d div second) else d div second)
                in fadd (fl (of_int sec)) (fdiv (fl (of_int (d - sec * second))) (fl (10 ^ 9))))"

text \<open>\<open>numbers\<close> says whether the database gives a row without a key one.\<close>

definition recordWakeFacts ::
  "bool \<Rightarrow> (WakeFacts \<Rightarrow> string) \<Rightarrow> time \<Rightarrow> error option \<Rightarrow> error option \<Rightarrow> string \<Rightarrow> WakeFacts option \<Rightarrow> lifecycleDB \<Rightarrow> error option \<times> lifecycleDB" where
  "recordWakeFacts numbers marshal now qfault fault sessionID facts db =
     (case facts of
        None \<Rightarrow> (Some ''storage: wake facts are nil'', db)
      | Some f \<Rightarrow>
          (case (case qfault of Some e \<Rightarrow> Inl e
                 | None \<Rightarrow> (case latestBy row_resolved_at (filter (\<lambda>r. row_session_id r = sessionID) (ldb_plans db)) of
                             None \<Rightarrow> Inl ''sql: no rows in result set'' | Some r \<Rightarrow> Inr (row_id r))) of
             Inl e \<Rightarrow> (Some (''storage: no lifecycle plan found for session '' @ sessionID @ '': '' @ e), db)
           | Inr planID \<Rightarrow>
               (let g = gf_GapClass (wf_GapFacts f);
                    row = \<lparr> wk_plan_id = planID, wk_wake_at = now, wk_elapsed_duration_sec = Seconds (wf_ElapsedDuration f),
                            wk_gap_class = (if g = '''' then None else Some g),
                            wk_transition_context = (case wf_TransitionContexts f of [] \<Rightarrow> None | t # _ \<Rightarrow> Some t), wk_extra_json = marshal f \<rparr>
                in case violation fault
                     [(numbers, ''null value in column id violates not-null constraint''),
                      (wk_gap_class row \<in> {None, Some ''none'', Some ''short'', Some ''overnight'', Some ''long''}, ''CHECK constraint failed: gap_class''),
                      (wk_transition_context row \<in> insert None (Some ` set ValidTransitionContexts), ''CHECK constraint failed: transition_context''),
                      (planID \<in> row_id ` set (ldb_plans db), ''FOREIGN KEY constraint failed'')] of
                     Some e \<Rightarrow> (Some (''storage: recording wake facts for session '' @ sessionID @ '': '' @ e), db)
                   | None \<Rightarrow> (None, db\<lparr>ldb_wakes := ldb_wakes db @ [row]\<rparr>))))"

definition SQLite_RecordWakeFacts ::
  "(WakeFacts \<Rightarrow> string) \<Rightarrow> time \<Rightarrow> error option \<Rightarrow> error option \<Rightarrow> string \<Rightarrow> WakeFacts option \<Rightarrow> lifecycleDB \<Rightarrow> error option \<times> lifecycleDB" where
  "SQLite_RecordWakeFacts marshal now = recordWakeFacts True marshal (sqliteNow now)"

definition recordManifest ::
  "(string list \<Rightarrow> string) \<Rightarrow> ((string \<rightharpoonup> string) \<Rightarrow> string) \<Rightarrow> string \<Rightarrow> time \<Rightarrow> error option \<Rightarrow> AssemblyManifest option \<Rightarrow> lifecycleDB
     \<Rightarrow> error option \<times> lifecycleDB" where
  "recordManifest marshalList marshalMap newid now fault manifest db =
     (case manifest of
        None \<Rightarrow> (Some ''storage: assembly manifest is nil'', db)
      | Some m \<Rightarrow>
          (let mid = (if amf_ID m = '''' then newid else amf_ID m);
               utilization = (if amf_BudgetTotal m > 0 then fdiv (fl (of_int (amf_BudgetUsed m))) (fl (of_int (amf_BudgetTotal m))) else 0);
               row = \<lparr> mr_id = mid, mr_session_id = amf_SessionID m, mr_plan_id = amf_PlanID m, mr_phases_loaded = marshalList (amf_PhasesRun m),
                       mr_phases_skipped = marshalList (amf_PhasesSkipped m), mr_known_omissions = marshalMap (amf_SkipReasons m),
                       mr_total_tokens_used = amf_BudgetUsed m, mr_total_tokens_budget = amf_BudgetTotal m,
                       mr_context_utilization = utilization, mr_assembled_at = now \<rparr>
           in case violation fault
                [(mid \<notin> mr_id ` set (ldb_manifests db), ''UNIQUE constraint failed: assembly_manifests.id''),
                 (amf_PlanID m \<in> row_id ` set (ldb_plans db), ''FOREIGN KEY constraint failed'')] of
                Some e \<Rightarrow> (Some (''storage: recording assembly manifest '' @ mid @ '': '' @ e), db)
              | None \<Rightarrow> (None, db\<lparr>ldb_manifests := ldb_manifests db @ [row]\<rparr>)))"

definition SQLite_RecordManifest ::
  "(string list \<Rightarrow> string) \<Rightarrow> ((string \<rightharpoonup> string) \<Rightarrow> string) \<Rightarrow> string \<Rightarrow> time \<Rightarrow> error option \<Rightarrow> AssemblyManifest option \<Rightarrow> lifecycleDB
     \<Rightarrow> error option \<times> lifecycleDB" where
  "SQLite_RecordManifest marshalList marshalMap newid now = recordManifest marshalList marshalMap newid (sqliteNow now)"

definition recordDisclosure ::
  "bool \<Rightarrow> time \<Rightarrow> error option \<Rightarrow> string \<Rightarrow> string \<Rightarrow> string \<Rightarrow> string \<Rightarrow> string \<Rightarrow> string \<Rightarrow> string \<Rightarrow> lifecycleDB \<Rightarrow> error option \<times> lifecycleDB" where
  "recordDisclosure numbers now fault sessionID policyPath policyHash previousHash changesSummary policySource policySnapshot db =
     (case violation fault [(numbers, ''null value in column id violates not-null constraint'')] of
        Some e \<Rightarrow> (Some (''storage: recording disclosure for session '' @ sessionID @ '': '' @ e), db)
      | None \<Rightarrow> (None, db\<lparr>ldb_config := ldb_config db @
          [\<lparr> cfg_session_id = sessionID, cfg_policy_path = policyPath, cfg_policy_hash = policyHash,
             cfg_previous_hash = (if previousHash \<noteq> '''' then Some previousHash else None), cfg_changes_summary = changesSummary,
             cfg_policy_source = policySource, cfg_policy_snapshot = policySnapshot, cfg_applied_at = now \<rparr>]\<rparr>))"

definition SQLite_RecordDisclosure ::
  "time \<Rightarrow> error option \<Rightarrow> string \<Rightarrow> string \<Rightarrow> string \<Rightarrow> string \<Rightarrow> string \<Rightarrow> string \<Rightarrow> string \<Rightarrow> lifecycleDB \<Rightarrow> error option \<times> lifecycleDB" where
  "SQLite_RecordDisclosure now = recordDisclosure True (sqliteNow now)"

text \<open>One value of the latest row: \<open>None\<close> in place of the row is \<open>sql.ErrNoRows\<close>.\<close>

definition SQLite_LastPolicyHash :: "error option \<Rightarrow> lifecycleDB \<Rightarrow> error + string" where
  "SQLite_LastPolicyHash fault db =
     (case fault of
        Some e \<Rightarrow> Inl (''storage: querying last policy hash: '' @ e)
      | None \<Rightarrow> Inr (case latestBy cfg_applied_at (ldb_config db) of None \<Rightarrow> '''' | Some r \<Rightarrow> cfg_policy_hash r))"

definition writeCheckpoint ::
  "time \<Rightarrow> error option \<Rightarrow> string \<Rightarrow> int \<Rightarrow> string \<Rightarrow> int \<Rightarrow> string \<Rightarrow> lifecycleDB \<Rightarrow> error option \<times> lifecycleDB" where
  "writeCheckpoint now fault sessionID turnNumber t2HighWater tokenUsage state db =
     (let row = \<lparr> cp_id = sessionID, cp_session_id = sessionID, cp_turn_number = turnNumber, cp_t2_high_water = t2HighWater,
                  cp_token_usage = tokenUsage, cp_state = state, cp_created_at = now \<rparr>
      in case violation fault [(state \<in> {''active'', ''completed'', ''interrupted''}, ''CHECK constraint failed: state'')] of
           Some e \<Rightarrow> (Some (''storage: write checkpoint for session '' @ sessionID @ '': '' @ e), db)
         | None \<Rightarrow>
             (None, db\<lparr>ldb_checkpoints :=
                (if sessionID \<in> cp_id ` set (ldb_checkpoints db)
                 then map (\<lambda>r. if cp_id r = sessionID then row\<lparr>cp_session_id := cp_session_id r\<rparr> else r) (ldb_checkpoints db)
                 else ldb_checkpoints db @ [row])\<rparr>))"

definition SQLite_WriteCheckpoint ::
  "time \<Rightarrow> error option \<Rightarrow> string \<Rightarrow> int \<Rightarrow> string \<Rightarrow> int \<Rightarrow> string \<Rightarrow> lifecycleDB \<Rightarrow> error option \<times> lifecycleDB" where
  "SQLite_WriteCheckpoint now = writeCheckpoint (sqliteNow now)"

definition interruptStale :: "error option \<Rightarrow> time \<Rightarrow> lifecycleDB \<Rightarrow> (error + int) \<times> lifecycleDB" where
  "interruptStale fault bound db =
     (let stale = (\<lambda>r. cp_state r = ''active'' \<and> cp_created_at r < bound) in
      case fault of
        Some e \<Rightarrow> (Inl (''storage: interrupting stale checkpoints: '' @ e), db)
      | None \<Rightarrow> (Inr (int (length (filter stale (ldb_checkpoints db)))),
                 db\<lparr>ldb_checkpoints := map (\<lambda>r. if stale r then r\<lparr>cp_state := ''interrupted''\<rparr> else r) (ldb_checkpoints db)\<rparr>))"

text \<open>The cutoff is formatted to the second; PostgreSQL reads the text in the time zone of its session, \<open>zone\<close> east of UTC.\<close>

definition SQLite_InterruptStaleCheckpoints :: "error option \<Rightarrow> time \<Rightarrow> lifecycleDB \<Rightarrow> (error + int) \<times> lifecycleDB" where
  "SQLite_InterruptStaleCheckpoints fault cutoff = interruptStale fault (sqliteNow cutoff)"

definition SQLite_LastCheckpointState :: "error option \<Rightarrow> lifecycleDB \<Rightarrow> error + string" where
  "SQLite_LastCheckpointState fault db =
     (case fault of
        Some e \<Rightarrow> Inl (''storage: querying last checkpoint state: '' @ e)
      | None \<Rightarrow> Inr (case latestBy cp_created_at (ldb_checkpoints db) of None \<Rightarrow> '''' | Some r \<Rightarrow> cp_state r))"

definition SQLite_LastWakeAt :: "(time \<Rightarrow> error + time) \<Rightarrow> error option \<Rightarrow> lifecycleDB \<Rightarrow> error + time" where
  "SQLite_LastWakeAt readback fault db =
     (case fault of
        Some e \<Rightarrow> Inl (''storage: querying last wake time: '' @ e)
      | None \<Rightarrow> (case latestBy wk_wake_at (ldb_wakes db) of None \<Rightarrow> Inr zeroTime | Some r \<Rightarrow> readback (wk_wake_at r)))"

section \<open>PostgreSQL\<close>

text \<open>
  The statements are the same. Through a handle made by \<open>WrapPgxPool\<close> (\<open>pool\<close>) a query without rows answers \<open>pgx.ErrNoRows\<close>, which is not
  \<open>sql.ErrNoRows\<close>, so that the three readers report it as an error; through \<open>database/sql\<close> they do not.
\<close>

abbreviation noRows :: error where "noRows \<equiv> ''no rows in result set''"

definition Postgres_RecordPlan :: "string \<Rightarrow> time \<Rightarrow> error option \<Rightarrow> LifecyclePlan option \<Rightarrow> lifecycleDB \<Rightarrow> error option \<times> lifecycleDB" where
  "Postgres_RecordPlan = recordPlan"

definition Postgres_RecordWakeFacts ::
  "(WakeFacts \<Rightarrow> string) \<Rightarrow> time \<Rightarrow> error option \<Rightarrow> error option \<Rightarrow> string \<Rightarrow> WakeFacts option \<Rightarrow> lifecycleDB \<Rightarrow> error option \<times> lifecycleDB" where
  "Postgres_RecordWakeFacts = recordWakeFacts False"

definition Postgres_RecordManifest ::
  "(string list \<Rightarrow> string) \<Rightarrow> ((string \<rightharpoonup> string) \<Rightarrow> string) \<Rightarrow> string \<Rightarrow> time \<Rightarrow> error option \<Rightarrow> AssemblyManifest option \<Rightarrow> lifecycleDB
     \<Rightarrow> error option \<times> lifecycleDB" where
  "Postgres_RecordManifest = recordManifest"

definition Postgres_RecordDisclosure ::
  "time \<Rightarrow> error option \<Rightarrow> string \<Rightarrow> string \<Rightarrow> string \<Rightarrow> string \<Rightarrow> string \<Rightarrow> string \<Rightarrow> string \<Rightarrow> lifecycleDB \<Rightarrow> error option \<times> lifecycleDB" where
  "Postgres_RecordDisclosure = recordDisclosure False"

definition Postgres_LastPolicyHash :: "bool \<Rightarrow> error option \<Rightarrow> lifecycleDB \<Rightarrow> error + string" where
  "Postgres_LastPolicyHash pool fault db = SQLite_LastPolicyHash (if pool \<and> fault = None \<and> ldb_config db = [] then Some noRows else fault) db"

definition Postgres_WriteCheckpoint ::
  "time \<Rightarrow> error option \<Rightarrow> string \<Rightarrow> int \<Rightarrow> string \<Rightarrow> int \<Rightarrow> string \<Rightarrow> lifecycleDB \<Rightarrow> error option \<times> lifecycleDB" where
  "Postgres_WriteCheckpoint = writeCheckpoint"

definition Postgres_InterruptStaleCheckpoints :: "duration \<Rightarrow> error option \<Rightarrow> time \<Rightarrow> lifecycleDB \<Rightarrow> (error + int) \<times> lifecycleDB" where
  "Postgres_InterruptStaleCheckpoints zone fault cutoff = interruptStale fault (sqliteNow cutoff - zone)"

definition Postgres_LastCheckpointState :: "bool \<Rightarrow> error option \<Rightarrow> lifecycleDB \<Rightarrow> error + string" where
  "Postgres_LastCheckpointState pool fault db = SQLite_LastCheckpointState (if pool \<and> fault = None \<and> ldb_checkpoints db = [] then Some noRows else fault) db"

definition Postgres_LastWakeAt :: "bool \<Rightarrow> (time \<Rightarrow> error + time) \<Rightarrow> error option \<Rightarrow> lifecycleDB \<Rightarrow> error + time" where
  "Postgres_LastWakeAt pool readback fault db = SQLite_LastWakeAt readback (if pool \<and> fault = None \<and> ldb_wakes db = [] then Some noRows else fault) db"

section \<open>What the constraints keep\<close>

text \<open>
  The invariant of the tables: identifiers are unique, the stored plans have only known values in their enumerated columns, a wake record and
  a manifest name a stored plan, and a checkpoint is of one session and in one of the three states.
\<close>

definition knownColumns :: "planRow \<Rightarrow> bool" where
  "knownColumns r \<longleftrightarrow> (\<forall>(ok, e) \<in> set (butlast (planChecks [] r)). ok)"

definition storeInv :: "lifecycleDB \<Rightarrow> bool" where
  "storeInv db \<longleftrightarrow>
     distinct (map row_id (ldb_plans db)) \<and> list_all knownColumns (ldb_plans db) \<and>
     wk_plan_id ` set (ldb_wakes db) \<subseteq> row_id ` set (ldb_plans db) \<and>
     distinct (map mr_id (ldb_manifests db)) \<and> mr_plan_id ` set (ldb_manifests db) \<subseteq> row_id ` set (ldb_plans db) \<and>
     distinct (map cp_id (ldb_checkpoints db)) \<and>
     list_all (\<lambda>r. cp_session_id r = cp_id r \<and> cp_state r \<in> {''active'', ''completed'', ''interrupted''}) (ldb_checkpoints db)"

text \<open>One call on either store, whatever its arguments and whether its statement fails or not.\<close>

inductive storeStep :: "lifecycleDB \<Rightarrow> lifecycleDB \<Rightarrow> bool" where
  plan: "storeStep db (snd (recordPlan newid now fault p db))"
| wake: "storeStep db (snd (recordWakeFacts numbers marshal now qfault fault sessionID facts db))"
| manifest: "storeStep db (snd (recordManifest marshalList marshalMap newid now fault m db))"
| disclosure: "storeStep db (snd (recordDisclosure numbers now fault sessionID path h prev changes source snapshot db))"
| checkpoint: "storeStep db (snd (writeCheckpoint now fault sessionID turn t2 tokens state db))"
| interrupt: "storeStep db (snd (interruptStale fault bound db))"

lemma violation_None_iff:
  "violation fault checks = None \<longleftrightarrow> fault = None \<and> (\<forall>(ok, e) \<in> set checks. ok)"
  by (auto simp: violation_def find_None_iff split: option.splits)

lemma planChecks_ok_iff:
  "(\<forall>(ok, e) \<in> set (planChecks rows r). ok) \<longleftrightarrow> knownColumns r \<and> row_id r \<notin> row_id ` set rows"
  by (auto simp: planChecks_def knownColumns_def)

lemma recordPlan_effect:
  "recordPlan newid now fault p db = (None, db') \<Longrightarrow>
   \<exists>r. db' = db\<lparr>ldb_plans := ldb_plans db @ [r]\<rparr> \<and> knownColumns r \<and> row_id r \<notin> row_id ` set (ldb_plans db)"
  by (auto simp: recordPlan_def RecordPlan_def Let_def violation_None_iff planChecks_ok_iff split: option.splits sum.splits)

lemma recordPlan_failed: "recordPlan newid now fault p db = (Some e, db') \<Longrightarrow> db' = db"
  by (auto simp: recordPlan_def split: option.splits sum.splits)

lemma storeInv_new_plan:
  "storeInv db \<Longrightarrow> knownColumns r \<Longrightarrow> row_id r \<notin> row_id ` set (ldb_plans db) \<Longrightarrow> storeInv (db\<lparr>ldb_plans := ldb_plans db @ [r]\<rparr>)"
  by (simp add: storeInv_def subset_insertI2)

lemma recordPlan_inv: "storeInv db \<Longrightarrow> storeInv (snd (recordPlan newid now fault p db))"
  by (cases "recordPlan newid now fault p db"; cases "fst (recordPlan newid now fault p db)")
     (auto dest!: recordPlan_effect recordPlan_failed intro: storeInv_new_plan)

lemma recordWakeFacts_inv: "storeInv db \<Longrightarrow> storeInv (snd (recordWakeFacts numbers marshal now qfault fault sessionID facts db))"
  by (auto simp: storeInv_def recordWakeFacts_def Let_def violation_None_iff split: option.splits sum.splits)

lemma storeInv_new_manifest:
  "storeInv db \<Longrightarrow> mr_id r \<notin> mr_id ` set (ldb_manifests db) \<Longrightarrow> mr_plan_id r \<in> row_id ` set (ldb_plans db) \<Longrightarrow>
   storeInv (db\<lparr>ldb_manifests := ldb_manifests db @ [r]\<rparr>)"
  by (simp add: storeInv_def)

lemma recordManifest_inv: "storeInv db \<Longrightarrow> storeInv (snd (recordManifest marshalList marshalMap newid now fault m db))"
  by (cases m) (simp_all add: recordManifest_def Let_def violation_None_iff storeInv_new_manifest split: option.split)

lemma recordDisclosure_inv: "storeInv db \<Longrightarrow> storeInv (snd (recordDisclosure numbers now fault sid path h prev ch src snap db))"
  by (auto simp: storeInv_def recordDisclosure_def split: option.splits)

lemma writeCheckpoint_inv: "storeInv db \<Longrightarrow> storeInv (snd (writeCheckpoint now fault sid turn t2 tokens state db))"
  by (auto simp: storeInv_def writeCheckpoint_def Let_def violation_None_iff list_all_iff comp_def if_distrib [of cp_id] cong: if_cong
      split: option.splits)

lemma interruptStale_inv: "storeInv db \<Longrightarrow> storeInv (snd (interruptStale fault bound db))"
  by (auto simp: storeInv_def interruptStale_def Let_def list_all_iff comp_def if_distrib [of cp_id] cong: if_cong split: option.splits)

lemmas store_invs = recordPlan_inv recordWakeFacts_inv recordManifest_inv recordDisclosure_inv writeCheckpoint_inv interruptStale_inv

lemma storeStep_inv: "storeStep db db' \<Longrightarrow> storeInv db \<Longrightarrow> storeInv db'"
  by (cases rule: storeStep.cases) (auto intro: store_invs)

definition emptyStore :: lifecycleDB where
  "emptyStore = \<lparr> ldb_plans = [], ldb_wakes = [], ldb_manifests = [], ldb_config = [], ldb_checkpoints = [] \<rparr>"

lemma classifyGap_known: "classifyGap d prev \<in> {''none'', ''short'', ''overnight'', ''long''}"
  by (simp add: classifyGap_def)

lemma latestBy_None_iff [simp]: "latestBy k rs = None \<longleftrightarrow> rs = []"
  by (cases rs) (auto split: option.splits)

lemma latestBy_single:
  "r \<in> set rs \<Longrightarrow> (\<And>r'. r' \<in> set rs \<Longrightarrow> r' \<noteq> r \<Longrightarrow> k r' < k r) \<Longrightarrow> latestBy k rs = Some r"
  by (metis latestBy_None_iff latestBy_in latestBy_max list.set(1) empty_iff not_Some_eq leD)

abbreviation storedPlan :: "time \<Rightarrow> LifecyclePlan \<Rightarrow> planRow" where
  "storedPlan now pl \<equiv>
     \<lparr> row_id = plan_ID pl, row_session_id = plan_SessionID pl, row_temporal_mode = plan_TemporalMode pl, row_wake_cause = plan_WakeCause pl,
       row_wake_cause_secondary = plan_WakeCauseSecondary pl, row_activity_profile = plan_ActivityProfile pl,
       row_assembly_profile = plan_AssemblyProfile pl, row_bridge_policy = plan_BridgePolicy pl, row_metabolism_policy = plan_MetabolismPolicy pl,
       row_seam_kind = plan_SeamKind pl, row_resolver_version = plan_ResolverVersion pl, row_policy_hash = plan_PolicyHash pl,
       row_resolved_at = now \<rparr>"

lemma validPlan_known:
  "validPlan pl \<Longrightarrow> plan_WakeCauseSecondary pl = None \<Longrightarrow> knownColumns (storedPlan now pl)"
  by (simp add: knownColumns_def planChecks_def validPlan_def ValidTemporalModes_def ValidActivityProfiles_def ValidAssemblyProfiles_def
      ValidBridgePolicies_def ValidMetabolismPolicies_def ValidSeamKinds_def)

lemma recordPlan_valid:
  assumes "validPlan pl" "plan_WakeCauseSecondary pl = None" "plan_ID pl \<noteq> ''''" "plan_ID pl \<notin> row_id ` set (ldb_plans db)"
  shows "recordPlan newid now None (Some pl) db = (None, db\<lparr>ldb_plans := ldb_plans db @ [storedPlan now pl]\<rparr>)"
proof -
  have "violation None (planChecks (ldb_plans db) (storedPlan now pl)) = None"
    using validPlan_known [OF assms(1,2), of now] assms(4) by (simp add: violation_None_iff planChecks_ok_iff)
  then show ?thesis
    using assms(3) by (simp add: recordPlan_def RecordPlan_def Let_def)
qed

section \<open>Properties\<close>



text \<open>
  A plan the resolver makes from a policy that was read is always stored: with a fresh identifier and a database that answers, the store
  does not refuse it, and its row is the last of the table with the values of the plan.
\<close>

theorem resolved_plan_is_stored:
  assumes "Read decode sha path file = Inr (p, h)"
    and "plan = (Resolve p (f\<lparr>wf_PrimaryCause := wakeReasonToCause reason, wf_ContributingCauses := [],
                   wf_SeamKind := classifySeam d prev\<rparr>) s i t)\<lparr>plan_SessionID := sid\<rparr>"
    and "i \<noteq> ''''" and "i \<notin> row_id ` set (ldb_plans db)"
  shows "\<exists>r. SQLite_RecordPlan newid now None (Some plan) db = (None, db\<lparr>ldb_plans := ldb_plans db @ [r]\<rparr>) \<and>
           row_id r = i \<and> row_session_id r = sid \<and> row_wake_cause r = wakeReasonToCause reason \<and>
           row_assembly_profile r = plan_AssemblyProfile plan \<and> row_policy_hash r = pol_CommitHash p"
proof -
  have "validPolicy p"
    using assms(1) by (auto simp: Read_Inr_iff zeroPolicy_valid toCanonical_valid)
  then have "validPlan plan"
    using Resolve_valid [of p "f\<lparr>wf_PrimaryCause := wakeReasonToCause reason, wf_ContributingCauses := [], wf_SeamKind := classifySeam d prev\<rparr>" s i t]
    by (simp add: assms(2) validPlan_def wakeReasonToCause_valid classifySeam_valid)
  moreover have "plan_ID plan = i" "plan_SessionID plan = sid" "plan_WakeCause plan = wakeReasonToCause reason"
    "plan_WakeCauseSecondary plan = None" "plan_PolicyHash plan = pol_CommitHash p"
    by (simp_all add: assms(2) resolve_unfold)
  ultimately show ?thesis
    using recordPlan_valid [of plan db newid "sqliteNow now"] assms(3,4)
    by (intro exI [of _ "storedPlan (sqliteNow now) plan"]) (simp add: SQLite_RecordPlan_def)
qed

theorem resolved_plan_is_stored_witness:
  "\<exists>r. SQLite_RecordPlan ''n'' 5 None (Some ((Resolve zeroPolicy ((sampleFacts 5)\<lparr>wf_PrimaryCause := wakeReasonToCause ''manual'',
       wf_ContributingCauses := [], wf_SeamKind := classifySeam 5 None\<rparr>) (sampleState '''' '''') ''id'' 7)\<lparr>plan_SessionID := ''s''\<rparr>)) emptyStore =
       (None, emptyStore\<lparr>ldb_plans := ldb_plans emptyStore @ [r]\<rparr>) \<and> row_id r = ''id'' \<and> row_session_id r = ''s'' \<and>
       row_wake_cause r = wakeReasonToCause ''manual'' \<and>
       row_assembly_profile r = plan_AssemblyProfile ((Resolve zeroPolicy ((sampleFacts 5)\<lparr>wf_PrimaryCause := wakeReasonToCause ''manual'',
         wf_ContributingCauses := [], wf_SeamKind := classifySeam 5 None\<rparr>) (sampleState '''' '''') ''id'' 7)\<lparr>plan_SessionID := ''s''\<rparr>) \<and>
       row_policy_hash r = pol_CommitHash zeroPolicy"
  by (rule resolved_plan_is_stored [of "\<lambda>_. Inl ''x''" "\<lambda>x. x" "''p''" FileNotExist _ "''''"]) (simp_all add: Read_def emptyStore_def)

text \<open>
  On PostgreSQL no wake is ever recorded: the insert names no value for the integer key of \<^verbatim>\<open>wake_facts\<close>, so that \<open>RecordWakeFacts\<close>
  answers an error for every session, every plan and every fact, and leaves the tables as they are.
\<close>

theorem postgres_records_no_wake:
  "\<exists>e. Postgres_RecordWakeFacts marshal now qfault fault sessionID facts db = (Some e, db)"
  by (auto simp: Postgres_RecordWakeFacts_def recordWakeFacts_def Let_def violation_def split: option.splits sum.splits)

text \<open>The row that a wake leaves.\<close>

lemma wake_stored:
  assumes "recordPlan newid t None (Some pl) db = (None, db')" and "plan_SessionID pl = sid" "plan_ID pl \<noteq> ''''"
    and "sid \<notin> row_session_id ` set (ldb_plans db)"
    and "gf_GapClass (wf_GapFacts f) = classifyGap d prev" and "wf_TransitionContexts f = []"
  shows "recordWakeFacts True marshal now None None sid (Some f) db' =
    (None, db'\<lparr>ldb_wakes := ldb_wakes db @ [\<lparr> wk_plan_id = plan_ID pl, wk_wake_at = now, wk_elapsed_duration_sec = Seconds (wf_ElapsedDuration f),
       wk_gap_class = Some (classifyGap d prev), wk_transition_context = None, wk_extra_json = marshal f \<rparr>]\<rparr>)"
proof -
  have db': "db' = db\<lparr>ldb_plans := ldb_plans db @ [storedPlan t pl]\<rparr>"
    using assms(1,3) by (auto simp: recordPlan_def RecordPlan_def Let_def split: option.splits)
  have none: "filter (\<lambda>r. row_session_id r = sid) (ldb_plans db) = []"
    using assms(4) by (auto simp: filter_empty_conv)
  have "classifyGap d prev \<noteq> ''''" using classifyGap_known [of d prev] by auto
  then show ?thesis
    using none assms(2,5,6) classifyGap_known [of d prev] by (simp add: recordWakeFacts_def db' Let_def violation_def)
qed

text \<open>
  On SQLite the wake of a session whose plan has just been stored is recorded, whatever the gap: the row names that plan and has the class
  of the gap, and \<open>LastWakeAt\<close> then answers its time unless a later wake is stored.
\<close>

theorem wake_is_recorded:
  assumes "recordPlan newid t None (Some pl) db = (None, db')" and "plan_SessionID pl = sid" "plan_ID pl \<noteq> ''''"
    and "sid \<notin> row_session_id ` set (ldb_plans db)"
    and "gf_GapClass (wf_GapFacts f) = classifyGap d prev" and "wf_TransitionContexts f = []"
    and "\<And>w. w \<in> set (ldb_wakes db) \<Longrightarrow> wk_wake_at w \<le> sqliteNow now"
  shows "\<exists>w. SQLite_RecordWakeFacts marshal now None None sid (Some f) db' = (None, db'\<lparr>ldb_wakes := ldb_wakes db @ [w]\<rparr>) \<and>
           wk_plan_id w = plan_ID pl \<and> wk_gap_class w = Some (classifyGap d prev) \<and>
           SQLite_LastWakeAt readback None (db'\<lparr>ldb_wakes := ldb_wakes db @ [w]\<rparr>) = readback (sqliteNow now)"
proof -
  let ?w = "\<lparr> wk_plan_id = plan_ID pl, wk_wake_at = sqliteNow now, wk_elapsed_duration_sec = Seconds (wf_ElapsedDuration f),
              wk_gap_class = Some (classifyGap d prev), wk_transition_context = None, wk_extra_json = marshal f \<rparr>"
  have "SQLite_RecordWakeFacts marshal now None None sid (Some f) db' = (None, db'\<lparr>ldb_wakes := ldb_wakes db @ [?w]\<rparr>)"
    using wake_stored [OF assms(1-6)] by (simp add: SQLite_RecordWakeFacts_def)
  moreover have "latestBy wk_wake_at (ldb_wakes db @ [?w]) = Some ?w"
    using assms(7) by (intro latestBy_append) simp
  ultimately show ?thesis
    by (intro exI [of _ ?w]) (simp add: SQLite_LastWakeAt_def)
qed

theorem wake_is_recorded_witness:
  "\<exists>w. SQLite_RecordWakeFacts (\<lambda>_. ''{}'') 9 None None ''s'' (Some (sampleFacts 5))
      (emptyStore\<lparr>ldb_plans := [storedPlan 7 ((Resolve zeroPolicy (sampleFacts 5) (sampleState '''' '''') ''id'' 7)\<lparr>plan_SessionID := ''s''\<rparr>)]\<rparr>) =
      (None, (emptyStore\<lparr>ldb_plans := [storedPlan 7 ((Resolve zeroPolicy (sampleFacts 5) (sampleState '''' '''') ''id'' 7)\<lparr>plan_SessionID := ''s''\<rparr>)]\<rparr>)
         \<lparr>ldb_wakes := ldb_wakes emptyStore @ [w]\<rparr>) \<and>
      wk_plan_id w = plan_ID ((Resolve zeroPolicy (sampleFacts 5) (sampleState '''' '''') ''id'' 7)\<lparr>plan_SessionID := ''s''\<rparr>) \<and>
      wk_gap_class w = Some (classifyGap 5 (Some 0)) \<and>
      SQLite_LastWakeAt Inr None ((emptyStore\<lparr>ldb_plans := [storedPlan 7 ((Resolve zeroPolicy (sampleFacts 5) (sampleState '''' '''') ''id'' 7)
        \<lparr>plan_SessionID := ''s''\<rparr>)]\<rparr>)\<lparr>ldb_wakes := ldb_wakes emptyStore @ [w]\<rparr>) = Inr (sqliteNow 9)"
proof (rule wake_is_recorded [of "''n''" 7])
  let ?pl = "(Resolve zeroPolicy (sampleFacts 5) (sampleState '''' '''') ''id'' 7)\<lparr>plan_SessionID := ''s''\<rparr>"
  have "validPlan (Resolve zeroPolicy (sampleFacts 5) (sampleState '''' '''') ''id'' 7)"
    by (rule Resolve_valid) (simp_all only: zeroPolicy_valid sampleFacts_def wakeReasonToCause_valid classifySeam_valid WakeFacts.simps)
  then have valid: "validPlan ?pl" by (simp add: validPlan_def)
  have fields: "plan_ID ?pl = ''id''" "plan_WakeCauseSecondary ?pl = None" "plan_SessionID ?pl = ''s''"
    by (simp_all add: resolve_unfold sampleFacts_def)
  show "recordPlan ''n'' 7 None (Some ?pl) emptyStore = (None, emptyStore\<lparr>ldb_plans := [storedPlan 7 ?pl]\<rparr>)"
    using recordPlan_valid [OF valid fields(2), of emptyStore "''n''" 7] fields(1) by (simp add: emptyStore_def)
  show "plan_SessionID ?pl = ''s''" "plan_ID ?pl \<noteq> ''''" using fields by simp_all
qed (simp_all add: emptyStore_def sampleFacts_def)

lemma latestBy_map:
  "(\<And>r. k (f r) = k r) \<Longrightarrow> latestBy k (map f rs) = map_option f (latestBy k rs)"
  by (induction rs) (auto split: option.splits)

lemma writeCheckpoint_latest:
  assumes "storeInv db" and "\<And>r. r \<in> set (ldb_checkpoints db) \<Longrightarrow> cp_id r \<noteq> sid \<Longrightarrow> cp_created_at r < now"
    and "writeCheckpoint now fault sid turn t2 tokens state db = (None, db')"
  shows "\<exists>r. latestBy cp_created_at (ldb_checkpoints db') = Some r \<and> cp_id r = sid \<and> cp_state r = state \<and> cp_created_at r = now"
proof -
  let ?row = "\<lparr> cp_id = sid, cp_session_id = sid, cp_turn_number = turn, cp_t2_high_water = t2, cp_token_usage = tokens, cp_state = state,
                cp_created_at = now \<rparr>"
  have own: "r \<in> set (ldb_checkpoints db) \<Longrightarrow> cp_session_id r = cp_id r" for r
    using assms(1) by (auto simp: storeInv_def list_all_iff)
  have "?row \<in> set (ldb_checkpoints db')" "\<And>r. r \<in> set (ldb_checkpoints db') \<Longrightarrow> r \<noteq> ?row \<Longrightarrow> cp_created_at r < now"
    using assms(2,3) own by (fastforce simp: writeCheckpoint_def Let_def split: option.splits if_splits)+
  then have "latestBy cp_created_at (ldb_checkpoints db') = Some ?row"
    by (intro latestBy_single) auto
  then show ?thesis by simp
qed

text \<open>
  The scan for interrupted sessions: after a checkpoint is written and the scan ran, the last checkpoint state is \<open>interrupted\<close> exactly when
  the checkpoint was an active one from a second before that of the cutoff, and otherwise it is the state that was written; a completed session is never called
  interrupted.
\<close>

theorem scan_interrupts_stale_active:
  assumes "storeInv db" and "\<And>r. r \<in> set (ldb_checkpoints db) \<Longrightarrow> cp_created_at r < sqliteNow now"
    and "SQLite_WriteCheckpoint now None sid turn t2 tokens state db = (None, db')"
    and "SQLite_InterruptStaleCheckpoints None bound db' = (Inr n, db'')"
  shows "SQLite_LastCheckpointState None db'' =
           Inr (if state = ''active'' \<and> sqliteNow now < sqliteNow bound then ''interrupted'' else state)"
proof -
  obtain r where "latestBy cp_created_at (ldb_checkpoints db') = Some r" "cp_state r = state" "cp_created_at r = sqliteNow now"
    using writeCheckpoint_latest [OF assms(1,2) assms(3) [unfolded SQLite_WriteCheckpoint_def]] by auto
  moreover from assms(4) have "ldb_checkpoints db'' =
      map (\<lambda>r. if cp_state r = ''active'' \<and> cp_created_at r < sqliteNow bound then r\<lparr>cp_state := ''interrupted''\<rparr> else r) (ldb_checkpoints db')"
    by (auto simp: SQLite_InterruptStaleCheckpoints_def interruptStale_def Let_def)
  ultimately show ?thesis
    by (simp add: SQLite_LastCheckpointState_def latestBy_map)
qed

theorem scan_interrupts_stale_active_witness:
  "SQLite_LastCheckpointState None (snd (SQLite_InterruptStaleCheckpoints None (10 * second)
     (snd (SQLite_WriteCheckpoint (3 * second) None ''s'' 1 [] 10 ''active'' emptyStore)))) =
     Inr (if ''active'' = ''active'' \<and> sqliteNow (3 * second) < sqliteNow (10 * second) then ''interrupted'' else ''active'')"
proof (rule scan_interrupts_stale_active [of emptyStore "3 * second" "''s''" 1 "[]" 10])
  show "SQLite_WriteCheckpoint (3 * second) None ''s'' 1 [] 10 ''active'' emptyStore =
      (None, snd (SQLite_WriteCheckpoint (3 * second) None ''s'' 1 [] 10 ''active'' emptyStore))"
    by (simp add: SQLite_WriteCheckpoint_def writeCheckpoint_def violation_def Let_def)
  show "SQLite_InterruptStaleCheckpoints None (10 * second) (snd (SQLite_WriteCheckpoint (3 * second) None ''s'' 1 [] 10 ''active'' emptyStore)) =
      (Inr (projr (fst (SQLite_InterruptStaleCheckpoints None (10 * second)
         (snd (SQLite_WriteCheckpoint (3 * second) None ''s'' 1 [] 10 ''active'' emptyStore))))),
       snd (SQLite_InterruptStaleCheckpoints None (10 * second) (snd (SQLite_WriteCheckpoint (3 * second) None ''s'' 1 [] 10 ''active'' emptyStore))))"
    by (simp add: SQLite_InterruptStaleCheckpoints_def interruptStale_def Let_def)
qed (simp_all add: storeInv_def emptyStore_def)

end
