(* ===== verification/TurnHooks.thy ===== *)
theory TurnHooks
  imports Engine Assembly MemoryTiers
begin

text \<open>
  A running session (\<^verbatim>\<open>internal/session/session.go\<close>) and the hooks that run after each turn of the engine
  (\<^verbatim>\<open>internal/engine/hooks_phase3.go\<close>): the tier 2 logger, the budget monitor and the tracking of used retrievals.

  The hooks work on \<open>runWorld\<close>: the memory database, the token budget and the session they share, and the rest of the world, which they
  leave alone. A memory store is its \<open>AppendExperiential\<close>, a clock gives the nanoseconds that go into the identifiers.
\<close>

section \<open>Session\<close>

type_synonym SessionState = string
abbreviation SessionStateActive :: SessionState where "SessionStateActive \<equiv> ''active''"
abbreviation SessionStateCompleted :: SessionState where "SessionStateCompleted \<equiv> ''completed''"

record Session =
  ss_ID :: string
  ss_AgentName :: string
  ss_StartedAt :: time
  ss_EndedAt :: "time option"
  ss_State :: SessionState
  ss_WakeReason :: string
  ss_TokensUsed :: int
  ss_turnCount :: int

text \<open>\<open>hex\<close> is the encoding of the sixteen random bytes.\<close>

definition NewSession :: "string \<Rightarrow> time \<Rightarrow> string \<Rightarrow> string \<Rightarrow> Session" where
  "NewSession hex now agentName wakeReason =
     \<lparr> ss_ID = agentName @ ''-'' @ hex, ss_AgentName = agentName, ss_StartedAt = now, ss_EndedAt = None, ss_State = SessionStateActive,
       ss_WakeReason = wakeReason, ss_TokensUsed = 0, ss_turnCount = 0 \<rparr>"

definition Start :: "time \<Rightarrow> string \<Rightarrow> string \<Rightarrow> Session \<Rightarrow> Session" where
  "Start now agentName wakeReason s =
     (if ss_State s = SessionStateActive then s
      else s\<lparr>ss_AgentName := agentName, ss_WakeReason := wakeReason, ss_StartedAt := now, ss_State := SessionStateActive\<rparr>)"

definition End :: "time \<Rightarrow> Session \<Rightarrow> error option \<times> Session" where
  "End now s = (None, s\<lparr>ss_EndedAt := Some now, ss_State := SessionStateCompleted\<rparr>)"

definition RecordTurn :: "int \<Rightarrow> int \<Rightarrow> Session \<Rightarrow> Session" where
  "RecordTurn promptToks completionToks s =
     s\<lparr>ss_turnCount := ss_turnCount s + 1, ss_TokensUsed := ss_TokensUsed s + (promptToks + completionToks)\<rparr>"

section \<open>Hooks\<close>

record 'r runWorld =
  rw_mem :: graphDB
  rw_budget :: TokenBudget
  rw_sess :: Session
  rw_rest :: 'r

type_synonym appendFn = "ExperientialLog \<Rightarrow> graphDB \<Rightarrow> error option \<times> graphDB"

definition t2Entry :: "string \<Rightarrow> string \<Rightarrow> string \<Rightarrow> string \<Rightarrow> ExperientialLog" where
  "t2Entry i sid content source = \<lparr> el_ID = i, el_SessionID = sid, el_Content = content, el_ContentSource = source, el_CreatedAt = zeroTime,
     el_AegisAnnotation = None \<rparr>"

definition t2Prefix :: "TurnResult \<Rightarrow> int \<Rightarrow> string" where
  "t2Prefix turn now = ''t2-'' @ tn_SessionID turn @ ''-'' @ itoa (tn_TurnNumber turn) @ ''-'' @ itoa now @ ''-''"

fun logToolResults :: "appendFn \<Rightarrow> TurnResult \<Rightarrow> int \<Rightarrow> nat \<Rightarrow> ToolResult list \<Rightarrow> graphDB \<Rightarrow> error option \<times> graphDB" where
  "logToolResults app turn now i [] db = (None, db)"
| "logToolResults app turn now i (r # rs) db =
     (if tr_Content r = '''' then logToolResults app turn now (i + 1) rs db
      else (case app (t2Entry (t2Prefix turn now @ ''tool'' @ itoa (int i)) (tn_SessionID turn) (tr_Content r)
                       (if tr_ContentSource r = '''' then ''tool-result'' else tr_ContentSource r)) db of
              (Some e, db') \<Rightarrow> (Some (''tier2-logger: tool-result append failed (turn '' @ itoa (tn_TurnNumber turn) @ '', call '' @ tr_CallID r @ ''): '' @ e), db')
            | (None, db') \<Rightarrow> logToolResults app turn now (i + 1) rs db'))"

definition T2Logger_Run :: "appendFn \<Rightarrow> int \<Rightarrow> TurnResult \<Rightarrow> graphDB \<Rightarrow> error option \<times> graphDB" where
  "T2Logger_Run app now turn db =
     (if tn_Content turn \<noteq> '''' then
        (case app (t2Entry (t2Prefix turn now @ ''self'') (tn_SessionID turn) (tn_Content turn) ''self'') db of
           (Some e, db') \<Rightarrow> (Some (''tier2-logger: self-content append failed (turn '' @ itoa (tn_TurnNumber turn) @ ''): '' @ e), db')
         | (None, db') \<Rightarrow> logToolResults app turn now 0 (tn_ToolResults turn) db')
      else logToolResults app turn now 0 (tn_ToolResults turn) db)"

definition T2LoggerHook :: "appendFn \<Rightarrow> (TurnResult \<Rightarrow> int) \<Rightarrow> 'r runWorld TurnHook" where
  "T2LoggerHook app nano turn w =
     (case T2Logger_Run app (nano turn) turn (rw_mem w) of (res, db) \<Rightarrow> (res, w\<lparr>rw_mem := db\<rparr>))"

definition BudgetMonitorHook :: "'r runWorld TurnHook" where
  "BudgetMonitorHook turn w =
     (let (level, b) = TokenBudget_Add (tn_PromptTokens turn) (tn_CompletionTokens turn) (rw_budget w) in (None, w\<lparr>rw_budget := b\<rparr>))"

text \<open>The hook \<open>record-turn\<close> that the session runner registers.\<close>

definition RecordTurnHook :: "'r runWorld TurnHook" where
  "RecordTurnHook turn w = (None, w\<lparr>rw_sess := RecordTurn (tn_PromptTokens turn) (tn_CompletionTokens turn) (rw_sess w)\<rparr>)"

text \<open>
  \<open>findInString\<close> as the loop it is; the two maps of the usage hook as sets of their keys.
\<close>

function findLoop :: "string \<Rightarrow> string \<Rightarrow> nat \<Rightarrow> bool" where
  "findLoop s sub i =
     (if int i \<le> int (length s) - int (length sub) then (if take (length sub) (drop i s) = sub then True else findLoop s sub (i + 1)) else False)"
  by pat_completeness auto
termination by (relation "measure (\<lambda>(s, sub, i). length s + 1 - i)") auto

declare findLoop.simps [simp del]

definition findInString :: "string \<Rightarrow> string \<Rightarrow> bool" where
  "findInString s sub = findLoop s sub 0"

definition contains :: "string \<Rightarrow> string \<Rightarrow> bool" where
  "contains s substr \<longleftrightarrow> length substr \<le> length s \<and> (s = substr \<or> length substr = 0 \<or> findInString s substr)"

record RetrievalUsageHook =
  ru_retrievedIDs :: "string set"
  ru_referencedIDs :: "string set"

definition NewRetrievalUsageHook :: "string list \<Rightarrow> RetrievalUsageHook" where
  "NewRetrievalUsageHook ids = \<lparr> ru_retrievedIDs = set ids, ru_referencedIDs = {} \<rparr>"

definition RetrievalUsage_Run :: "TurnResult \<Rightarrow> RetrievalUsageHook \<Rightarrow> error option \<times> RetrievalUsageHook" where
  "RetrievalUsage_Run turn h = (None, h\<lparr>ru_referencedIDs := ru_referencedIDs h \<union> Set.filter (contains (tn_Content turn)) (ru_retrievedIDs h)\<rparr>)"

definition LogUsageReport :: "RetrievalUsageHook \<Rightarrow> int \<times> int \<times> int" where
  "LogUsageReport h = (let all = int (card (ru_retrievedIDs h)); used = int (card (ru_referencedIDs h)) in (all, used, all - used))"

section \<open>Lemmas\<close>

lemma findLoop_iff: "findLoop s sub i \<longleftrightarrow> (\<exists>j \<ge> i. j + length sub \<le> length s \<and> take (length sub) (drop j s) = sub)"
proof (induction s sub i rule: findLoop.induct)
  case (1 s sub i)
  have later: "(\<exists>j \<ge> i. P j) \<longleftrightarrow> P i \<or> (\<exists>j \<ge> i + 1. P j)" for P
    by (metis Suc_eq_plus1 Suc_leD le_eq_less_or_eq Suc_leI order_refl)
  show ?case
  proof (cases "i + length sub \<le> length s")
    case True
    then have b: "int i \<le> int (length s) - int (length sub)" by simp
    show ?thesis
    proof (cases "take (length sub) (drop i s) = sub")
      case t: True
      with True b show ?thesis by (subst findLoop.simps) auto
    next
      case f: False
      from 1 [OF b f] f b show ?thesis
        by (subst findLoop.simps, subst later) auto
    qed
  next
    case False
    then show ?thesis by (subst findLoop.simps) auto
  qed
qed

text \<open>The hand-written search is \<open>strings.Contains\<close>.\<close>

lemma contains_is_strContains: "contains s sub = strContains s sub"
proof -
  have "findLoop s sub 0 \<longleftrightarrow> (\<exists>u v. s = u @ sub @ v)"
  proof
    assume "findLoop s sub 0"
    then obtain j where j: "take (length sub) (drop j s) = sub" by (auto simp: findLoop_iff)
    have "s = take j s @ take (length sub) (drop j s) @ drop (length sub) (drop j s)"
      by (metis append_take_drop_id)
    then have "s = take j s @ sub @ drop (length sub) (drop j s)" by (simp only: j)
    then show "\<exists>u v. s = u @ sub @ v" by blast
  next
    assume "\<exists>u v. s = u @ sub @ v"
    then obtain u v where "s = u @ sub @ v" by blast
    then show "findLoop s sub 0"
      unfolding findLoop_iff by (intro exI [of _ "length u"]) simp
  qed
  moreover have "s = sub \<or> sub = [] \<Longrightarrow> \<exists>u v. s = u @ sub @ v" by (metis append_Nil append_Nil2)
  moreover have "s = u @ sub @ v \<Longrightarrow> length sub \<le> length s" for u v by simp
  ultimately show ?thesis
    unfolding contains_def findInString_def strContains_iff length_0_conv by blast
qed

section \<open>What a turn leaves in tier 2\<close>

definition toolEntry :: "TurnResult \<Rightarrow> int \<Rightarrow> nat \<times> ToolResult \<Rightarrow> ExperientialLog" where
  "toolEntry turn now = (\<lambda>(i, r). t2Entry (t2Prefix turn now @ ''tool'' @ itoa (int i)) (tn_SessionID turn) (tr_Content r)
     (if tr_ContentSource r = '''' then ''tool-result'' else tr_ContentSource r))"

definition toolEntries :: "TurnResult \<Rightarrow> int \<Rightarrow> nat \<Rightarrow> ToolResult list \<Rightarrow> ExperientialLog list" where
  "toolEntries turn now i rs = map (toolEntry turn now) (filter (\<lambda>(j, r). tr_Content r \<noteq> '''') (enumerate i rs))"

text \<open>The specification: the agent's own text, then every result that has content, in the order of the calls.\<close>

definition turnEntries :: "TurnResult \<Rightarrow> int \<Rightarrow> ExperientialLog list" where
  "turnEntries turn now =
     (if tn_Content turn = '''' then [] else [t2Entry (t2Prefix turn now @ ''self'') (tn_SessionID turn) (tn_Content turn) ''self'']) @
     toolEntries turn now 0 (tn_ToolResults turn)"

lemma toolEntries_simps [simp]:
  "toolEntries turn now i [] = []"
  "toolEntries turn now i (r # rs) =
     (if tr_Content r = '''' then toolEntries turn now (i + 1) rs else toolEntry turn now (i, r) # toolEntries turn now (i + 1) rs)"
  by (simp_all add: toolEntries_def)

text \<open>
  What the logger relies on: an append that succeeds adds one row, one that fails leaves the store alone, and it succeeds when nothing fails and
  the identifier is new.
\<close>

locale log_store =
  fixes app :: appendFn and row :: "ExperientialLog \<Rightarrow> logRow" and healthy :: bool
  assumes appended: "app e db = (None, db') \<Longrightarrow> db' = db\<lparr>gd_mem := (gd_mem db)\<lparr>db_logs := db_logs (gd_mem db) @ [row e]\<rparr>\<rparr>"
    and refused: "app e db = (Some err, db') \<Longrightarrow> db' = db"
    and accepted: "healthy \<Longrightarrow> el_ID e \<notin> lr_id ` set (db_logs (gd_mem db)) \<Longrightarrow> fst (app e db) = None"
    and row_id: "lr_id (row e) = el_ID e"
begin

definition addAll :: "ExperientialLog list \<Rightarrow> graphDB \<Rightarrow> graphDB" where
  "addAll es db = db\<lparr>gd_mem := (gd_mem db)\<lparr>db_logs := db_logs (gd_mem db) @ map row es\<rparr>\<rparr>"

lemma addAll_Nil [simp]: "addAll [] db = db"
  by (simp add: addAll_def)

lemma addAll_addAll [simp]: "addAll es (addAll fs db) = addAll (fs @ es) db"
  by (simp add: addAll_def)

lemma ids_addAll [simp]: "lr_id ` set (db_logs (gd_mem (addAll es db))) = lr_id ` set (db_logs (gd_mem db)) \<union> el_ID ` set es"
  by (simp add: addAll_def image_Un image_image row_id)

lemma appended_addAll: "app e db = (None, db') \<Longrightarrow> db' = addAll [e] db"
  by (simp add: addAll_def appended)

lemma logToolResults_prefix:
  "logToolResults app turn now i rs db = (res, db') \<Longrightarrow>
   \<exists>k. db' = addAll (take k (toolEntries turn now i rs)) db \<and> (res = None \<longrightarrow> length (toolEntries turn now i rs) \<le> k)"
proof (induction rs arbitrary: i db)
  case Nil
  then show ?case by simp
next
  case (Cons r rs)
  show ?case
  proof (cases "tr_Content r = ''''")
    case True
    with Cons.prems Cons.IH show ?thesis by simp
  next
    case False
    obtain out db1 where a: "app (toolEntry turn now (i, r)) db = (out, db1)" by fastforce
    show ?thesis
    proof (cases out)
      case None
      with a have db1: "db1 = addAll [toolEntry turn now (i, r)] db" by (simp add: appended_addAll)
      from None a False Cons.prems have "logToolResults app turn now (i + 1) rs db1 = (res, db')"
        by (simp add: toolEntry_def)
      from Cons.IH [OF this] obtain k where "db' = addAll (take k (toolEntries turn now (i + 1) rs)) db1"
        "res = None \<longrightarrow> length (toolEntries turn now (i + 1) rs) \<le> k" by blast
      with db1 False show ?thesis by (intro exI [of _ "Suc k"]) simp
    next
      case (Some e)
      with a refused have "db1 = db" by blast
      with Some a False Cons.prems show ?thesis by (intro exI [of _ 0]) (auto simp: toolEntry_def)
    qed
  qed
qed

lemma T2Logger_prefix:
  assumes "T2Logger_Run app now turn db = (res, db')"
  shows "\<exists>k. db' = addAll (take k (turnEntries turn now)) db \<and> (res = None \<longrightarrow> length (turnEntries turn now) \<le> k)"
proof (cases "tn_Content turn = ''''")
  case True
  with assms show ?thesis by (auto simp: T2Logger_Run_def turnEntries_def dest: logToolResults_prefix)
next
  case False
  let ?e = "t2Entry (t2Prefix turn now @ ''self'') (tn_SessionID turn) (tn_Content turn) ''self''"
  obtain out db1 where a: "app ?e db = (out, db1)" by fastforce
  show ?thesis
  proof (cases out)
    case None
    with a have db1: "db1 = addAll [?e] db" by (simp add: appended_addAll)
    from None a False assms have "logToolResults app turn now 0 (tn_ToolResults turn) db1 = (res, db')"
      by (simp add: T2Logger_Run_def)
    from logToolResults_prefix [OF this] obtain k where "db' = addAll (take k (toolEntries turn now 0 (tn_ToolResults turn))) db1"
      "res = None \<longrightarrow> length (toolEntries turn now 0 (tn_ToolResults turn)) \<le> k" by blast
    with db1 False show ?thesis by (intro exI [of _ "Suc k"]) (simp add: turnEntries_def)
  next
    case (Some e)
    with a refused have "db1 = db" by blast
    with Some a False assms show ?thesis by (intro exI [of _ 0]) (auto simp: T2Logger_Run_def)
  qed
qed

lemma logToolResults_complete:
  assumes "healthy" "\<And>x. x \<in> lr_id ` set (db_logs (gd_mem db)) \<Longrightarrow> hasPrefix x (t2Prefix turn now @ ''tool'') \<Longrightarrow>
      \<exists>j < i. x = t2Prefix turn now @ ''tool'' @ itoa (int j)"
  shows "fst (logToolResults app turn now i rs db) = None"
  using assms(2)
proof (induction rs arbitrary: i db)
  case Nil
  then show ?case by simp
next
  case (Cons r rs)
  show ?case
  proof (cases "tr_Content r = ''''")
    case True
    with Cons.prems show ?thesis by (simp, intro Cons.IH) (meson less_SucI)
  next
    case False
    let ?e = "toolEntry turn now (i, r)"
    have e: "el_ID ?e = t2Prefix turn now @ ''tool'' @ itoa (int i)" by (simp add: toolEntry_def t2Entry_def)
    have "el_ID ?e \<notin> lr_id ` set (db_logs (gd_mem db))"
    proof
      assume "el_ID ?e \<in> lr_id ` set (db_logs (gd_mem db))"
      with Cons.prems [of "el_ID ?e"] obtain j where "j < i" "itoa (int j) = itoa (int i)"
        unfolding e by (auto simp: hasPrefix_iff)
      then show False by (auto dest: injD [OF inj_itoa])
    qed
    then have ok: "fst (app ?e db) = None" using assms(1) accepted by blast
    then obtain db1 where a: "app ?e db = (None, db1)" by (cases "app ?e db") auto
    then have db1: "db1 = addAll [?e] db" by (rule appended_addAll)
    have "fst (logToolResults app turn now (i + 1) rs db1) = None"
    proof (intro Cons.IH)
      fix x assume x: "x \<in> lr_id ` set (db_logs (gd_mem db1))" "hasPrefix x (t2Prefix turn now @ ''tool'')"
      show "\<exists>j < i + 1. x = t2Prefix turn now @ ''tool'' @ itoa (int j)"
      proof (cases "x \<in> lr_id ` set (db_logs (gd_mem db))")
        case True
        then obtain j where "j < i" "x = t2Prefix turn now @ ''tool'' @ itoa (int j)" using Cons.prems [OF _ x(2)] by blast
        then show ?thesis by (intro exI [of _ j]) simp
      next
        case False
        with x(1) have "x = el_ID ?e" by (simp only: db1 ids_addAll) simp
        then show ?thesis unfolding e by (intro exI [of _ i]) simp
      qed
    qed
    with a False show ?thesis by (simp add: toolEntry_def)
  qed
qed

lemma T2Logger_complete:
  assumes "healthy" "\<And>x. x \<in> lr_id ` set (db_logs (gd_mem db)) \<Longrightarrow> \<not> hasPrefix x (t2Prefix turn now)"
  shows "T2Logger_Run app now turn db = (None, addAll (turnEntries turn now) db)"
proof -
  have fresh: "\<not> hasPrefix x (t2Prefix turn now @ ''tool'')" if "x \<in> lr_id ` set (db_logs (gd_mem db))" for x
    using assms(2) [OF that] by (auto simp: hasPrefix_iff)
  have "fst (T2Logger_Run app now turn db) = None"
  proof (cases "tn_Content turn = ''''")
    case True
    with fresh show ?thesis by (simp add: T2Logger_Run_def) (rule logToolResults_complete [OF assms(1)], blast)
  next
    case False
    let ?e = "t2Entry (t2Prefix turn now @ ''self'') (tn_SessionID turn) (tn_Content turn) ''self''"
    have "el_ID ?e \<notin> lr_id ` set (db_logs (gd_mem db))"
      using assms(2) [of "el_ID ?e"] hasPrefix_append [of "t2Prefix turn now"] by (auto simp: t2Entry_def)
    then have "fst (app ?e db) = None" using assms(1) accepted by blast
    then obtain db1 where a: "app ?e db = (None, db1)" by (cases "app ?e db") auto
    have "fst (logToolResults app turn now 0 (tn_ToolResults turn) db1) = None"
    proof (intro logToolResults_complete [OF assms(1)])
      fix x assume x: "x \<in> lr_id ` set (db_logs (gd_mem db1))" "hasPrefix x (t2Prefix turn now @ ''tool'')"
      then have "x = t2Prefix turn now @ ''self''"
        using fresh [of x] by (simp only: appended_addAll [OF a] ids_addAll) (auto simp: t2Entry_def)
      with x(2) have "hasPrefix (t2Prefix turn now @ ''self'') (t2Prefix turn now @ ''tool'')" by simp
      then show "\<exists>j < 0. x = t2Prefix turn now @ ''tool'' @ itoa (int j)" by (auto simp: hasPrefix_iff)
    qed
    with a False show ?thesis by (simp add: T2Logger_Run_def)
  qed
  then obtain db' where r: "T2Logger_Run app now turn db = (None, db')" by (cases "T2Logger_Run app now turn db") auto
  from T2Logger_prefix [OF r] show ?thesis by (auto simp: r)
qed

end

definition logRowOf :: "(time \<Rightarrow> string) \<Rightarrow> time \<Rightarrow> ExperientialLog \<Rightarrow> logRow" where
  "logRowOf stamp now e = \<lparr> lr_id = el_ID e, lr_session_id = el_SessionID e, lr_content = el_Content e, lr_content_source = el_ContentSource e,
     lr_aegis_meta = aegisMetaJSON stamp (el_AegisAnnotation e), lr_created_at = now, lr_narrative_summary_id = None \<rparr>"

interpretation sqlite_log: log_store "AppendExperiential stamp now fault" "logRowOf stamp now" "fault = None" for stamp now fault
  by unfold_locales (auto simp: AppendExperiential_def logRowOf_def split: option.splits if_splits)

interpretation postgres_log: log_store "Postgres_AppendExperiential stamp now fault" "logRowOf stamp now" "fault = None" for stamp now fault
  unfolding Postgres_AppendExperiential_def by (rule sqlite_log.log_store_axioms)

section \<open>Properties\<close>

text \<open>
  C25. Every turn is archived: after the tier 2 logger, the log has grown by a prefix of the entries of the turn (the agent's own text, then each
  tool result with content, in order, under its own source or \<open>tool-result\<close>), by all of them when the hook reports no error. It reports none
  when the database answers and no row has an identifier of this turn. Nothing else of the world changes.
\<close>

theorem turn_is_archived:
  assumes "T2LoggerHook (AppendExperiential stamp now fault) nano turn w = (res, w')"
  shows "(\<exists>k. w' = w\<lparr>rw_mem := (rw_mem w)\<lparr>gd_mem := (gd_mem (rw_mem w))\<lparr>db_logs := db_logs (gd_mem (rw_mem w)) @
                map (logRowOf stamp now) (take k (turnEntries turn (nano turn)))\<rparr>\<rparr>\<rparr> \<and>
              (res = None \<longrightarrow> length (turnEntries turn (nano turn)) \<le> k)) \<and>
         (fault = None \<and> (\<forall>x \<in> lr_id ` set (db_logs (gd_mem (rw_mem w))). \<not> hasPrefix x (t2Prefix turn (nano turn))) \<longrightarrow> res = None)"
proof -
  obtain db where r: "T2Logger_Run (AppendExperiential stamp now fault) (nano turn) turn (rw_mem w) = (res, db)" and w': "w' = w\<lparr>rw_mem := db\<rparr>"
    using assms by (auto simp: T2LoggerHook_def split: prod.splits)
  from sqlite_log.T2Logger_prefix [OF r] obtain k where
    "db = sqlite_log.addAll stamp now (take k (turnEntries turn (nano turn))) (rw_mem w)" "res = None \<longrightarrow> length (turnEntries turn (nano turn)) \<le> k"
    by blast
  moreover have "res = None" if "fault = None" "\<forall>x \<in> lr_id ` set (db_logs (gd_mem (rw_mem w))). \<not> hasPrefix x (t2Prefix turn (nano turn))"
    using sqlite_log.T2Logger_complete [OF that(1), of "rw_mem w" turn "nano turn" stamp now] that(2) r by simp
  ultimately show ?thesis
    unfolding w' sqlite_log.addAll_def by blast
qed

definition sampleTurn :: TurnResult where
  "sampleTurn = \<lparr> tn_SessionID = ''s'', tn_TurnNumber = 1, tn_Content = ''hello'', tn_ToolCalls = [''look''],
     tn_ToolResults = [\<lparr> tr_CallID = ''c'', tr_Content = ''page'', tr_IsError = False, tr_Terminate = False, tr_ContentSource = ''browser-content'' \<rparr>],
     tn_PromptTokens = 5, tn_CompletionTokens = 7, tn_ThinkingTokens = 0, tn_TTFT = 0, tn_TotalDuration = 0 \<rparr>"

theorem turn_is_archived_witness:
  "snd (T2LoggerHook (AppendExperiential (\<lambda>_. []) 3 None) (\<lambda>_. 9) sampleTurn
      \<lparr> rw_mem = sampleGraph, rw_budget = NewTokenBudget 100 10, rw_sess = NewSession ''x'' 0 ''a'' ''w'', rw_rest = () \<rparr>) =
     \<lparr> rw_mem = sampleGraph\<lparr>gd_mem := (gd_mem sampleGraph)\<lparr>db_logs := map (logRowOf (\<lambda>_. []) 3) (turnEntries sampleTurn 9)\<rparr>\<rparr>,
       rw_budget = NewTokenBudget 100 10, rw_sess = NewSession ''x'' 0 ''a'' ''w'', rw_rest = () \<rparr>"
  using turn_is_archived [OF prod.collapse [symmetric], of "\<lambda>_. []" 3 None "\<lambda>_. 9" sampleTurn
      "\<lparr> rw_mem = sampleGraph, rw_budget = NewTokenBudget 100 10, rw_sess = NewSession ''x'' 0 ''a'' ''w'', rw_rest = () \<rparr>"]
  by (auto simp: sampleGraph_def)

text \<open>
  The hand-written substring search of the usage hook is \<open>strings.Contains\<close>, and the report never counts more referenced records than retrieved
  ones: a record counts as referenced exactly when some turn mentioned its identifier.
\<close>

theorem usage_report_is_exact:
  "ru_referencedIDs (fold (\<lambda>turn h. snd (RetrievalUsage_Run turn h)) turns (NewRetrievalUsageHook ids)) =
     {i \<in> set ids. \<exists>turn \<in> set turns. strContains (tn_Content turn) i} \<and>
   (case LogUsageReport (fold (\<lambda>turn h. snd (RetrievalUsage_Run turn h)) turns (NewRetrievalUsageHook ids)) of
      (all, used, unused) \<Rightarrow> 0 \<le> used \<and> used \<le> all \<and> unused = all - used)"
proof -
  have fold: "ru_retrievedIDs (fold (\<lambda>turn h. snd (RetrievalUsage_Run turn h)) turns h) = ru_retrievedIDs h \<and>
      ru_referencedIDs (fold (\<lambda>turn h. snd (RetrievalUsage_Run turn h)) turns h) =
        ru_referencedIDs h \<union> {i \<in> ru_retrievedIDs h. \<exists>turn \<in> set turns. strContains (tn_Content turn) i}" for h
    by (induction turns arbitrary: h) (auto simp: RetrievalUsage_Run_def contains_is_strContains)
  show ?thesis
    using card_mono [of "set ids" "{i \<in> set ids. \<exists>turn \<in> set turns. strContains (tn_Content turn) i}"]
    by (simp add: fold NewRetrievalUsageHook_def LogUsageReport_def Let_def)
qed

end
