(* ===== verification/App.thy ===== *)
theory App
  imports Aegis
begin

text \<open>
  The composition root: \<^verbatim>\<open>internal/app/profile.go\<close> (runtime profiles and the validation of the dependency set), \<^verbatim>\<open>bootstrap.go\<close>, \<open>NewApp\<close> of
  \<^verbatim>\<open>app.go\<close> and the opening of a database in \<^verbatim>\<open>internal/platform/db.go\<close>. A dependency is modelled by whether it is there; what the dependencies do
  is the subject of the other theories. The driver names registered with \<open>database/sql\<close> and the answer of \<open>Ping\<close> are arguments: the program imports
  \<^verbatim>\<open>go-sqlite3\<close>, which registers \<open>sqlite3\<close>, and no package that registers \<open>postgres\<close>.
\<close>

section \<open>Profiles\<close>

type_synonym RuntimeProfile = string
abbreviation ProfileErsaProduction :: RuntimeProfile where "ProfileErsaProduction \<equiv> ''ersa_production''"
abbreviation ProfileDevelopment :: RuntimeProfile where "ProfileDevelopment \<equiv> ''development''"
abbreviation ProfileConnectivityTest :: RuntimeProfile where "ProfileConnectivityTest \<equiv> ''connectivity_test''"

definition ValidProfiles :: "RuntimeProfile list" where
  "ValidProfiles = [ProfileErsaProduction, ProfileDevelopment, ProfileConnectivityTest]"

text \<open>\<open>order\<close> is the order in which the map of valid profiles is ranged over.\<close>

definition ParseProfile :: "(RuntimeProfile list \<Rightarrow> RuntimeProfile list) \<Rightarrow> string \<Rightarrow> error + RuntimeProfile" where
  "ParseProfile order s =
     (if s = '''' then Inr ProfileDevelopment
      else if s \<notin> set ValidProfiles
      then Inl (''unknown runtime profile '' @ quoted s @ '' (valid: '' @ strJoin (order ValidProfiles) '', '' @ '')'')
      else Inr s)"

record wiring =
  wi_DB :: bool
  wi_Config :: bool
  wi_LLM :: bool
  wi_JobStore :: bool
  wi_ConsolidationStore :: bool
  wi_LifecycleStore :: bool
  wi_AssemblyStore :: bool
  wi_MemoryStore :: bool
  wi_EmbeddingProvider :: bool
  wi_Gateway :: bool
  wi_ToolRegistry :: bool

definition requirements :: "RuntimeProfile \<Rightarrow> wiring \<Rightarrow> (string \<times> bool \<times> bool) list option" where
  "requirements profile d =
     (let stores = [(''DB'', wi_DB d, True), (''LLM'', wi_LLM d, True), (''Config'', wi_Config d, True)];
          ports = [(''JobStore'', wi_JobStore d, True), (''ConsolidationStore'', wi_ConsolidationStore d, True),
                   (''LifecycleStore'', wi_LifecycleStore d, True), (''AssemblyStore'', wi_AssemblyStore d, True)];
          services = (\<lambda>required. [(''MemoryStore'', wi_MemoryStore d, required), (''EmbeddingProvider'', wi_EmbeddingProvider d, required),
                   (''Gateway (Aegis)'', wi_Gateway d, required), (''ToolRegistry'', wi_ToolRegistry d, required)])
      in if profile = ProfileErsaProduction then Some (stores @ ports @ services True)
         else if profile = ProfileDevelopment then Some (stores @ ports @ services False)
         else if profile = ProfileConnectivityTest then Some stores
         else None)"

text \<open>\<open>Validate\<close>: the error lists every missing requirement; the warnings are the names of the absent optional ones.\<close>

definition Validate :: "RuntimeProfile \<Rightarrow> wiring \<Rightarrow> error option \<times> string list" where
  "Validate profile d =
     (case requirements profile d of
        None \<Rightarrow> (Some (''unknown runtime profile: '' @ quoted profile), [])
      | Some checks \<Rightarrow>
          (let missing = map fst (filter (\<lambda>(n, present, required). \<not> present \<and> required) checks);
               warnings = map fst (filter (\<lambda>(n, present, required). \<not> present \<and> \<not> required) checks)
           in (if missing \<noteq> [] then Some (''profile '' @ quoted profile @ '' requires: '' @ strJoin missing '', '') else None, warnings)))"

section \<open>Opening a database\<close>

definition trimPrefix :: "string \<Rightarrow> string \<Rightarrow> string" where
  "trimPrefix s p = (if hasPrefix s p then drop (length p) s else s)"

definition parseDSN :: "string \<Rightarrow> error + string \<times> string" where
  "parseDSN dsn =
     (if hasPrefix dsn ''sqlite://'' then Inr (''sqlite3'', trimPrefix dsn ''sqlite://'')
      else if hasPrefix dsn ''sqlite3://'' then Inr (''sqlite3'', trimPrefix dsn ''sqlite3://'')
      else if hasPrefix dsn ''postgres://'' \<or> hasPrefix dsn ''postgresql://'' then Inr (''postgres'', dsn)
      else Inl (''unsupported DSN scheme (want sqlite:// or postgres://): '' @ quoted dsn))"

definition NewStore :: "string set \<Rightarrow> (string \<Rightarrow> string \<Rightarrow> error option) \<Rightarrow> string \<Rightarrow> error + string" where
  "NewStore drivers ping dsn =
     (case parseDSN dsn of
        Inl e \<Rightarrow> Inl (''parsing DSN: '' @ e)
      | Inr (driver, rawDSN) \<Rightarrow>
          if driver \<notin> drivers
          then Inl (''opening '' @ driver @ '' database: sql: unknown driver '' @ quoted driver @ '' (forgotten import?)'')
          else (case ping driver rawDSN of
                  Some e \<Rightarrow> Inl (''connecting to '' @ driver @ '' database: '' @ e)
                | None \<Rightarrow> Inr driver))"

definition DriverNameFromDSN :: "string \<Rightarrow> string" where
  "DriverNameFromDSN dsn =
     (if dsn = '''' then ''sqlite3''
      else if hasPrefix dsn ''postgres://'' \<or> hasPrefix dsn ''postgresql://'' then ''postgres'' else ''sqlite3'')"

section \<open>The application graph\<close>

record appConfig =
  cg_DatabaseDSN :: string
  cg_LLMProvider :: string
  cg_LLMEndpoint :: string
  cg_EmbedAPIKey :: string
  cg_SessionTrigger :: string
  cg_DiscordToken :: string
  cg_DiscordChannelIDs :: string
  cg_CLIChannel :: bool               \<comment> \<open>\<^verbatim>\<open>CLI_CHANNEL=true\<close>\<close>
  cg_Phase1Mode :: bool               \<comment> \<open>\<^verbatim>\<open>PHASE1_MODE=true\<close>\<close>

text \<open>The options: an injected model, database, memory store (and whether it is a \<open>SQLiteStore\<close>).\<close>

record appOptions =
  op_LLM :: bool
  op_DB :: bool
  op_MemoryStore :: "bool option"

record appGraph =
  ag_deps :: wiring
  ag_supervisor :: bool
  ag_phase1 :: bool
  ag_channels :: "string list option"
  ag_wakeOn :: "(string \<times> string \<times> int) list"
  ag_daemonGateway :: bool

definition openDB :: "string set \<Rightarrow> (string \<Rightarrow> string \<Rightarrow> error option) \<Rightarrow> appConfig \<Rightarrow> RuntimeProfile \<Rightarrow> appOptions \<Rightarrow> error + bool \<times> bool" where
  "openDB drivers ping cfg profile opts =
     (if \<not> op_DB opts \<and> cg_DatabaseDSN cfg \<noteq> ''''
      then (case NewStore drivers ping (cg_DatabaseDSN cfg) of
              Inl e \<Rightarrow> if profile = ProfileConnectivityTest \<or> profile = ProfileErsaProduction
                        then Inl (''app: DB required for '' @ profile @ '': '' @ e) else Inr (False, False)
            | Inr driver \<Rightarrow> Inr (True, True))
      else Inr (op_DB opts, False))"

definition openLLM :: "appConfig \<Rightarrow> appOptions \<Rightarrow> error option" where
  "openLLM cfg opts =
     (if op_LLM opts then None
      else if cg_LLMProvider cfg \<noteq> ''openai'' \<and> cg_LLMProvider cfg \<noteq> ''openai-compat''
      then Some (''app: Phase 1 supports only LLM_PROVIDER=openai; got '' @ quoted (cg_LLMProvider cfg))
      else if cg_LLMEndpoint cfg = '''' then Some ''app: LLM_ENDPOINT is required for openai-compat provider''
      else None)"

definition configuredChannels :: "appConfig \<Rightarrow> (string \<times> string \<times> int) list" where
  "configuredChannels cfg =
     (if cg_DiscordToken cfg \<noteq> '''' \<and> cg_DiscordChannelIDs cfg \<noteq> '''' then [(''discord'', ''.*'', 1)] else []) @
     (if cg_CLIChannel cfg then [(''cli'', ''.*'', 2)] else [])"

text \<open>\<open>raw\<close>: the handle was opened here, so that the memory store can share it. The config is not nil.\<close>

definition NewApp ::
  "string set \<Rightarrow> (string \<Rightarrow> string \<Rightarrow> error option) \<Rightarrow> appConfig \<Rightarrow> RuntimeProfile \<Rightarrow> appOptions \<Rightarrow> error + appGraph" where
  "NewApp drivers ping cfg profile opts =
     (case openDB drivers ping cfg profile opts of
        Inl e \<Rightarrow> Inl e
      | Inr (db, raw) \<Rightarrow>
          if db \<and> DriverNameFromDSN (cg_DatabaseDSN cfg) \<notin> {''sqlite3'', ''postgres''}
          then Inl (''app: unsupported database driver '' @ quoted (DriverNameFromDSN (cg_DatabaseDSN cfg)) @ '' (supported: sqlite3, postgres)'')
          else (case openLLM cfg opts of
             Some e \<Rightarrow> Inl e
           | None \<Rightarrow>
               (let sqliteStore = (if op_MemoryStore opts = None \<and> raw \<and> DriverNameFromDSN (cg_DatabaseDSN cfg) = ''sqlite3'' then True
                                   else op_MemoryStore opts = Some True);
                    deps = \<lparr> wi_DB = db, wi_Config = True, wi_LLM = True, wi_JobStore = db, wi_ConsolidationStore = db, wi_LifecycleStore = db,
                             wi_AssemblyStore = db, wi_MemoryStore = (op_MemoryStore opts \<noteq> None \<or> sqliteStore),
                             wi_EmbeddingProvider = (cg_EmbedAPIKey cfg \<noteq> ''''), wi_Gateway = sqliteStore, wi_ToolRegistry = sqliteStore \<rparr>;
                    external = cg_SessionTrigger cfg = ''external''; conditions = configuredChannels cfg
                in case fst (Validate profile deps) of
                     Some e \<Rightarrow> Inl (''app: '' @ e)
                   | None \<Rightarrow>
                       if external \<and> profile = ProfileErsaProduction \<and> conditions = []
                       then Inl (''app: ersa_production with SESSION_TRIGGER=external requires at least one channel '' @
                                 ''(set DISCORD_TOKEN+DISCORD_CHANNEL_IDS or CLI_CHANNEL=true)'')
                       else Inr \<lparr> ag_deps = deps, ag_supervisor = db, ag_phase1 = cg_Phase1Mode cfg,
                                  ag_channels = (if external then Some (map fst conditions) else None),
                                  ag_wakeOn = (if external then conditions else []), ag_daemonGateway = (external \<and> sqliteStore) \<rparr>)))"

text \<open>The drivers of the program.\<close>

definition linkedDrivers :: "string set" where
  "linkedDrivers = {''sqlite3''}"

section \<open>Lemmas\<close>

lemma Validate_None_iff:
  "fst (Validate profile d) = None \<longleftrightarrow>
     (\<exists>checks. requirements profile d = Some checks \<and> (\<forall>(n, present, required) \<in> set checks. required \<longrightarrow> present))"
  by (force simp: Validate_def Let_def filter_empty_conv split: option.splits)

lemma requires_DB: "fst (Validate profile d) = None \<Longrightarrow> wi_DB d"
  by (auto simp: Validate_None_iff requirements_def Let_def split: if_splits)

lemma production_requires:
  "fst (Validate ProfileErsaProduction d) = None \<longleftrightarrow>
     wi_DB d \<and> wi_Config d \<and> wi_LLM d \<and> wi_JobStore d \<and> wi_ConsolidationStore d \<and> wi_LifecycleStore d \<and> wi_AssemblyStore d \<and>
     wi_MemoryStore d \<and> wi_EmbeddingProvider d \<and> wi_Gateway d \<and> wi_ToolRegistry d"
  by (auto simp: Validate_None_iff requirements_def Let_def)

lemma NewApp_Inr:
  assumes "NewApp drivers ping cfg profile opts = Inr app"
  shows "fst (Validate profile (ag_deps app)) = None" "\<exists>raw. openDB drivers ping cfg profile opts = Inr (wi_DB (ag_deps app), raw)"
    "cg_SessionTrigger cfg = ''external'' \<Longrightarrow> profile = ProfileErsaProduction \<Longrightarrow> configuredChannels cfg \<noteq> []"
    "ag_channels app = (if cg_SessionTrigger cfg = ''external'' then Some (map fst (configuredChannels cfg)) else None)"
    "ag_daemonGateway app \<longleftrightarrow> cg_SessionTrigger cfg = ''external'' \<and> wi_Gateway (ag_deps app)"
  using assms by (auto simp: NewApp_def Let_def split: sum.splits prod.splits option.splits if_splits)

section \<open>Properties\<close>

text \<open>
  The program starts with a SQLite database or not at all: with the drivers it links and no injected handle, \<open>NewApp\<close> succeeds, in any profile,
  only for a DSN with one of the two SQLite prefixes. In particular the development profile does not go on without persistence when the database
  cannot be opened, and a PostgreSQL DSN never works.
\<close>

theorem only_sqlite_starts:
  assumes "NewApp linkedDrivers ping cfg profile opts = Inr app" and "\<not> op_DB opts"
  shows "(hasPrefix (cg_DatabaseDSN cfg) ''sqlite://'' \<or> hasPrefix (cg_DatabaseDSN cfg) ''sqlite3://'') \<and> profile \<in> set ValidProfiles"
proof -
  note parts = NewApp_Inr [OF assms(1)]
  have "wi_DB (ag_deps app)" using parts(1) by (rule requires_DB)
  with parts(2) assms(2) obtain d where d: "NewStore linkedDrivers ping (cg_DatabaseDSN cfg) = Inr d"
    by (auto simp: openDB_def split: if_splits sum.splits)
  have "profile \<in> set ValidProfiles"
    using parts(1) by (auto simp: Validate_None_iff requirements_def ValidProfiles_def Let_def split: if_splits)
  with d show ?thesis by (auto simp: NewStore_def parseDSN_def linkedDrivers_def split: if_splits sum.splits prod.splits)
qed

text \<open>
  A production application is complete: when \<open>NewApp\<close> accepts the production profile every dependency is there, and with the external trigger
  there is a channel to wait on and a gateway for the daemon.
\<close>

theorem production_is_complete:
  assumes "NewApp drivers ping cfg ProfileErsaProduction opts = Inr app"
  shows "ag_deps app = \<lparr> wi_DB = True, wi_Config = True, wi_LLM = True, wi_JobStore = True, wi_ConsolidationStore = True, wi_LifecycleStore = True,
      wi_AssemblyStore = True, wi_MemoryStore = True, wi_EmbeddingProvider = True, wi_Gateway = True, wi_ToolRegistry = True \<rparr> \<and>
    (cg_SessionTrigger cfg = ''external'' \<longrightarrow> ag_daemonGateway app \<and> (\<exists>c cs. ag_channels app = Some (c # cs)))"
proof -
  note parts = NewApp_Inr [OF assms]
  have "ag_deps app = \<lparr> wi_DB = True, wi_Config = True, wi_LLM = True, wi_JobStore = True, wi_ConsolidationStore = True, wi_LifecycleStore = True,
      wi_AssemblyStore = True, wi_MemoryStore = True, wi_EmbeddingProvider = True, wi_Gateway = True, wi_ToolRegistry = True \<rparr>"
    using parts(1) by (cases "ag_deps app") (simp add: production_requires)
  moreover have "\<exists>c cs. ag_channels app = Some (c # cs)" if "cg_SessionTrigger cfg = ''external''"
    using parts(3) [OF that refl] parts(4) that by (cases "configuredChannels cfg") auto
  ultimately show ?thesis using parts(5) by simp
qed

definition sampleApp :: appConfig where
  "sampleApp = \<lparr> cg_DatabaseDSN = ''sqlite://a.db'', cg_LLMProvider = ''openai'', cg_LLMEndpoint = ''http://x'', cg_EmbedAPIKey = ''k'',
     cg_SessionTrigger = ''external'', cg_DiscordToken = '''', cg_DiscordChannelIDs = '''', cg_CLIChannel = True, cg_Phase1Mode = False \<rparr>"

definition noOptions :: appOptions where
  "noOptions = \<lparr> op_LLM = False, op_DB = False, op_MemoryStore = None \<rparr>"

lemma sampleApp_starts:
  "\<exists>app. NewApp linkedDrivers (\<lambda>_ _. None) sampleApp ProfileErsaProduction noOptions = Inr app"
  by (simp add: NewApp_def openDB_def openLLM_def NewStore_def parseDSN_def linkedDrivers_def sampleApp_def noOptions_def DriverNameFromDSN_def
      Validate_def requirements_def configuredChannels_def Let_def)

theorem only_sqlite_starts_witness:
  "(hasPrefix (cg_DatabaseDSN sampleApp) ''sqlite://'' \<or> hasPrefix (cg_DatabaseDSN sampleApp) ''sqlite3://'') \<and> ProfileErsaProduction \<in> set ValidProfiles"
  using sampleApp_starts only_sqlite_starts [of "\<lambda>_ _. None" sampleApp ProfileErsaProduction noOptions] by (auto simp: noOptions_def)

theorem production_is_complete_witness:
  "\<exists>app. NewApp linkedDrivers (\<lambda>_ _. None) sampleApp ProfileErsaProduction noOptions = Inr app \<and> wi_Gateway (ag_deps app) \<and> ag_daemonGateway app"
  using sampleApp_starts production_is_complete [of linkedDrivers "\<lambda>_ _. None" sampleApp noOptions] by (auto simp: sampleApp_def)

text \<open>
  \<open>Validate\<close> reports every missing requirement and nothing else: the names in its error are exactly those of the required
  dependencies that are absent, and the warnings exactly those of the optional ones.
\<close>

theorem validate_is_exact:
  assumes "profile \<in> set ValidProfiles"
  shows "\<exists>checks. requirements profile d = Some checks \<and>
    set (snd (Validate profile d)) = {n. (n, False, False) \<in> set checks} \<and>
    (fst (Validate profile d) = None \<longleftrightarrow> (\<forall>n. (n, False, True) \<notin> set checks)) \<and>
    (\<forall>e n. fst (Validate profile d) = Some e \<longrightarrow> (n, False, True) \<in> set checks \<longrightarrow> strContains e n)"
proof -
  obtain checks where c: "requirements profile d = Some checks"
    using assms by (auto simp: requirements_def ValidProfiles_def Let_def)
  have "strContains e n" if "fst (Validate profile d) = Some e" "(n, False, True) \<in> set checks" for e n
  proof -
    let ?missing = "map fst (filter (\<lambda>(n, present, required). \<not> present \<and> required) checks)"
    have "n \<in> set ?missing" using that(2) by force
    then have "strContains ((''profile '' @ quoted profile @ '' requires: '') @ strJoin ?missing '', '' @ []) n"
      by (intro strContains_mono strContains_strJoin)
    moreover have "e = ''profile '' @ quoted profile @ '' requires: '' @ strJoin ?missing '', ''"
      using that(1) by (simp add: Validate_def c split: if_splits)
    ultimately show ?thesis by simp
  qed
  moreover have "set (snd (Validate profile d)) = {n. (n, False, False) \<in> set checks}"
    using c by (force simp: Validate_def Let_def)
  moreover have "fst (Validate profile d) = None \<longleftrightarrow> (\<forall>n. (n, False, True) \<notin> set checks)"
  proof -
    have "(case x of (n, present, required) \<Rightarrow> required \<longrightarrow> present) \<longleftrightarrow> (\<forall>n. x \<noteq> (n, False, True))" for x :: "string \<times> bool \<times> bool"
      by (cases x) auto
    then show ?thesis by (simp add: Validate_None_iff c) blast
  qed
  ultimately show ?thesis using c by (intro exI [of _ checks] conjI allI impI) blast+
qed

theorem validate_is_exact_witness:
  "set (snd (Validate ProfileDevelopment (\<lparr> wi_DB = True, wi_Config = True, wi_LLM = True, wi_JobStore = True, wi_ConsolidationStore = True, wi_LifecycleStore = True,
      wi_AssemblyStore = True, wi_MemoryStore = True, wi_EmbeddingProvider = False, wi_Gateway = True, wi_ToolRegistry = True \<rparr>))) = {''EmbeddingProvider''}"
  using validate_is_exact [of ProfileDevelopment "\<lparr> wi_DB = True, wi_Config = True, wi_LLM = True, wi_JobStore = True, wi_ConsolidationStore = True,
      wi_LifecycleStore = True, wi_AssemblyStore = True, wi_MemoryStore = True, wi_EmbeddingProvider = False, wi_Gateway = True, wi_ToolRegistry = True \<rparr>"]
  by (auto simp: ValidProfiles_def requirements_def Let_def)

end
