(* ===== verification/SessionRunner.thy ===== *)
theory SessionRunner
  imports LifecycleStore TurnHooks Supervisor
begin

text \<open>
  One agent session from wake to metabolism, \<^verbatim>\<open>internal/app/session_runner.go\<close>, with the lifecycle store as the interface it is in \<^verbatim>\<open>pkg/interfaces.go\<close>
  and the two implementations of the theory \<open>LifecycleStore\<close> behind it. The session reads the policy, resolves and records a plan, assembles the
  context, runs the engine loop of the theory \<open>Engine\<close> with the hooks of \<open>TurnHooks\<close>, writes its checkpoints and hands the session to metabolism.

  The environment \<open>sessEnv\<close> holds what the code reads from outside: the policy file, clocks, random identifiers, the results of queries that
  can fail, and the environments of the assembler and of the engine loop. The lifecycle store is a function of the position of the call,
  so that every call can find another clock and another failure. The language model, the tools and the gateway act on the \<open>runWorld\<close>;
  a tool registry and a language model are there (the profiles of \<^verbatim>\<open>profile.go\<close> require the model; without a registry the first tool call would panic).
\<close>

section \<open>The lifecycle store as an interface\<close>

record lifecycleStore =
  ls_RecordPlan :: "LifecyclePlan option \<Rightarrow> lifecycleDB \<Rightarrow> error option \<times> lifecycleDB"
  ls_RecordWakeFacts :: "string \<Rightarrow> WakeFacts option \<Rightarrow> lifecycleDB \<Rightarrow> error option \<times> lifecycleDB"
  ls_RecordManifest :: "AssemblyManifest option \<Rightarrow> lifecycleDB \<Rightarrow> error option \<times> lifecycleDB"
  ls_RecordDisclosure :: "string \<Rightarrow> string \<Rightarrow> string \<Rightarrow> string \<Rightarrow> string \<Rightarrow> string \<Rightarrow> string \<Rightarrow> lifecycleDB \<Rightarrow> error option \<times> lifecycleDB"
  ls_WriteCheckpoint :: "string \<Rightarrow> int \<Rightarrow> string \<Rightarrow> int \<Rightarrow> string \<Rightarrow> lifecycleDB \<Rightarrow> error option \<times> lifecycleDB"
  ls_InterruptStaleCheckpoints :: "time \<Rightarrow> lifecycleDB \<Rightarrow> (error + int) \<times> lifecycleDB"
  ls_LastCheckpointState :: "lifecycleDB \<Rightarrow> error + string"
  ls_LastWakeAt :: "lifecycleDB \<Rightarrow> error + time"

record storeEnv =
  st_newid :: string
  st_now :: time
  st_query :: "error option"
  st_fault :: "error option"
  st_marshalFacts :: "WakeFacts \<Rightarrow> string"
  st_marshalList :: "string list \<Rightarrow> string"
  st_marshalMap :: "(string \<rightharpoonup> string) \<Rightarrow> string"
  st_readback :: "time \<Rightarrow> error + time"

definition NewSQLiteLifecycleStore :: "storeEnv \<Rightarrow> lifecycleStore" where
  "NewSQLiteLifecycleStore e =
     \<lparr> ls_RecordPlan = SQLite_RecordPlan (st_newid e) (st_now e) (st_fault e),
       ls_RecordWakeFacts = SQLite_RecordWakeFacts (st_marshalFacts e) (st_now e) (st_query e) (st_fault e),
       ls_RecordManifest = SQLite_RecordManifest (st_marshalList e) (st_marshalMap e) (st_newid e) (st_now e) (st_fault e),
       ls_RecordDisclosure = SQLite_RecordDisclosure (st_now e) (st_fault e),
       ls_WriteCheckpoint = SQLite_WriteCheckpoint (st_now e) (st_fault e),
       ls_InterruptStaleCheckpoints = SQLite_InterruptStaleCheckpoints (st_fault e),
       ls_LastCheckpointState = SQLite_LastCheckpointState (st_query e), ls_LastWakeAt = SQLite_LastWakeAt (st_readback e) (st_query e) \<rparr>"

definition NewPostgresLifecycleStore :: "bool \<Rightarrow> duration \<Rightarrow> storeEnv \<Rightarrow> lifecycleStore" where
  "NewPostgresLifecycleStore pool zone e =
     \<lparr> ls_RecordPlan = Postgres_RecordPlan (st_newid e) (st_now e) (st_fault e),
       ls_RecordWakeFacts = Postgres_RecordWakeFacts (st_marshalFacts e) (st_now e) (st_query e) (st_fault e),
       ls_RecordManifest = Postgres_RecordManifest (st_marshalList e) (st_marshalMap e) (st_newid e) (st_now e) (st_fault e),
       ls_RecordDisclosure = Postgres_RecordDisclosure (st_now e) (st_fault e),
       ls_WriteCheckpoint = Postgres_WriteCheckpoint (st_now e) (st_fault e),
       ls_InterruptStaleCheckpoints = Postgres_InterruptStaleCheckpoints zone (st_fault e),
       ls_LastCheckpointState = Postgres_LastCheckpointState pool (st_query e),
       ls_LastWakeAt = Postgres_LastWakeAt pool (st_readback e) (st_query e) \<rparr>"

section \<open>Environment\<close>

record SessionTrigger =
  tg_WakeReason :: string
  tg_InboundContent :: string
  tg_InboundSender :: string
  tg_InboundChannel :: string
  tg_InbandNotes :: "string list"
  tg_AegisAnnotation :: "AegisAnnotation option"

text \<open>The memory store: its append, and the view of the database that the assembler has of it.\<close>

record memoryStore =
  mst_append :: "int \<Rightarrow> appendFn"
  mst_view :: "graphDB \<Rightarrow> asmStore"
  mst_edges :: bool

record 'r Dependencies =
  dp_DB :: bool
  dp_AgentName :: string
  dp_TokenBudget :: int
  dp_HardFloorTokens :: int
  dp_SkipWitnessCheck :: bool
  dp_LLM :: "CompletionRequest \<Rightarrow> 'r runWorld \<Rightarrow> (error + CompletionResponse) \<times> 'r runWorld"
  dp_ToolRegistry :: "'r runWorld DefaultRegistry"
  dp_toolOrder :: "string list"
  dp_LifecycleStore :: "(nat \<Rightarrow> lifecycleStore) option"
  dp_AssemblyStore :: bool
  dp_MemoryStore :: "memoryStore option"
  dp_EmbeddingProvider :: "(string \<Rightarrow> error + rat list) option"
  dp_Gateway :: "'r runWorld aegisGateway option"
  dp_JobStore :: "storeFn option"
  dp_jobStatus :: "error + string"            \<comment> \<open>answer of \<open>LastStatus\<close>\<close>
  dp_jobRunner :: bool
  dp_supervisor :: "bool option"              \<comment> \<open>whether it is draining\<close>

record sessEnv =
  se_policyPath :: string
  se_policyFile :: readFile
  se_decode :: "string \<Rightarrow> error + policyDocument"
  se_sha :: "string \<Rightarrow> string"
  se_rfc3339 :: "time \<Rightarrow> string"
  se_marshalPolicy :: "LifecyclePolicy \<Rightarrow> string"
  se_hashRow :: "lifecycleDB \<Rightarrow> string queryRow"
  se_lastPlans :: "lifecycleDB \<Rightarrow> planRow list option"
  se_lastWake :: "lifecycleDB \<Rightarrow> time option"
  se_lastStates :: "lifecycleDB \<Rightarrow> (error + string) \<times> (error + string)"
  se_disclosedAt :: time
  se_wakeAt :: time
  se_startedAt :: time
  se_endedAt :: time
  se_planHex :: string
  se_sessHex :: string
  se_inboundNano :: int
  se_nano :: "TurnResult \<Rightarrow> int"
  se_srt :: "Phase list \<Rightarrow> Phase list"
  se_asm :: asmEnv
  se_loop :: runEnv
  se_codec :: codec
  se_jobid :: string
  se_jobAt :: time
  se_jobFault :: "error option"

text \<open>The world of a session, and how it ends; \<open>SessionPanic\<close> also stands for a loop that never ends.\<close>

record 'r sessState =
  sn_lifecycle :: lifecycleDB
  sn_identity :: identityDB
  sn_mem :: graphDB
  sn_rest :: 'r
  sn_jobs :: "(string \<times> string) list"        \<comment> \<open>jobs started in the background\<close>

datatype sessOut = SessionOk | SessionError error | SessionPanic

section \<open>Before the context\<close>

definition defaultPolicy :: LifecyclePolicy where
  "defaultPolicy = \<lparr> pol_TemporalMode = TemporalEpisodic, pol_DefaultAssembly = AssemblyFull, pol_BridgePolicy = BridgeAgentRequested,
     pol_ActivityProfile = ActivityNormal, pol_MetabolismPolicy = '''', pol_CommitHash = '''' \<rparr>"

definition readPolicy :: "sessEnv \<Rightarrow> 'r Dependencies \<Rightarrow> lifecycleDB \<Rightarrow> LifecyclePolicy \<times> string" where
  "readPolicy env deps db =
     (case Read (se_decode env) (se_sha env) (se_policyPath env) (se_policyFile env) of
        Inr (policy, policyHash) \<Rightarrow> (policy, policyHash)
      | Inl e \<Rightarrow>
          (case queryLastPolicy (if dp_DB deps then se_lastPlans env db else None) of
             Some lastPolicy \<Rightarrow> (lastPolicy, '''')
           | None \<Rightarrow> (defaultPolicy, '''')))"

definition policyDisclosure :: "sessEnv \<Rightarrow> 'r Dependencies \<Rightarrow> LifecyclePolicy \<Rightarrow> string \<Rightarrow> lifecycleDB \<Rightarrow> string \<times> string" where
  "policyDisclosure env deps policy policyHash db =
     (if policyHash = '''' then ('''', '''')
      else (case HasChanged (if dp_DB deps then Some (se_hashRow env db) else None) policyHash of
              Inl e \<Rightarrow> ('''', '''')
            | Inr (changed, ph) \<Rightarrow>
                if changed
                then (let oldPolicy = queryLastPolicy (if dp_DB deps then se_lastPlans env db else None);
                          disclosure = (GenerateDisclosure oldPolicy policy (se_disclosedAt env))
                            \<lparr>cd_PolicyPath := se_policyPath env, cd_OldHash := ph, cd_NewHash := policyHash\<rparr>
                      in (ForContext (se_rfc3339 env) disclosure, ph))
                else ('''', '''')))"

definition prevActivityAt :: "sessEnv \<Rightarrow> 'r Dependencies \<Rightarrow> lifecycleDB \<Rightarrow> time option" where
  "prevActivityAt env deps db =
     (case dp_LifecycleStore deps of
        Some st \<Rightarrow> (case ls_LastWakeAt (st 0) db of Inl e \<Rightarrow> None | Inr t \<Rightarrow> if t = zeroTime then None else Some t)
      | None \<Rightarrow> if dp_DB deps then se_lastWake env db else None)"

definition buildFacts :: "sessEnv \<Rightarrow> string \<Rightarrow> time option \<Rightarrow> WakeFacts" where
  "buildFacts env wakeReason prev =
     (let wakeAt = se_wakeAt env; elapsed = (case prev of None \<Rightarrow> 0 | Some t \<Rightarrow> wakeAt - t)
      in \<lparr> wf_PrimaryCause = wakeReasonToCause wakeReason, wf_ContributingCauses = [],
           wf_GapFacts = \<lparr> gf_PreviousActivityAt = prev, gf_WakeAt = wakeAt, gf_ElapsedDuration = elapsed, gf_ClockBasis = ''wall'',
             gf_GapClass = classifyGap elapsed prev, gf_MessagesPending = 0, gf_VaultChanges = 0 \<rparr>,
           wf_ElapsedDuration = elapsed, wf_SeamKind = classifySeam elapsed prev, wf_TransitionContexts = [] \<rparr>)"

definition resolvePlan :: "sessEnv \<Rightarrow> 'r Dependencies \<Rightarrow> LifecyclePolicy \<Rightarrow> WakeFacts \<Rightarrow> lifecycleDB \<Rightarrow> LifecyclePlan" where
  "resolvePlan env deps policy facts db =
     Resolve policy facts
       (queryOperationalState (case dp_JobStore deps of None \<Rightarrow> None | Some _ \<Rightarrow> Some (dp_jobStatus deps))
          (case dp_LifecycleStore deps of None \<Rightarrow> None | Some st \<Rightarrow> Some (ls_LastCheckpointState (st 1) db))
          (if dp_DB deps then Some (se_lastStates env db) else None))
       (se_planHex env) (se_wakeAt env)"

text \<open>Steps 7a and 7b: the artifacts that must be stored before anything else happens.\<close>

definition recordArtifacts ::
  "sessEnv \<Rightarrow> 'r Dependencies \<Rightarrow> LifecyclePlan \<Rightarrow> WakeFacts \<Rightarrow> LifecyclePolicy \<Rightarrow> string \<Rightarrow> string \<Rightarrow> string \<Rightarrow> lifecycleDB \<Rightarrow> error option \<times> lifecycleDB" where
  "recordArtifacts env deps plan facts policy policyHash prevHash note db =
     (case dp_LifecycleStore deps of
        None \<Rightarrow> (None, db)
      | Some st \<Rightarrow>
          (case ls_RecordPlan (st 2) (Some plan) db of
             (Some e, db) \<Rightarrow> (Some (''lifecycle: RecordPlan failed (fail-closed): '' @ e), db)
           | (None, db) \<Rightarrow>
               (case ls_RecordWakeFacts (st 3) (plan_SessionID plan) (Some facts) db of
                  (Some e, db) \<Rightarrow> (Some (''lifecycle: RecordWakeFacts failed (fail-closed): '' @ e), db)
                | (None, db) \<Rightarrow>
                    if note = '''' then (None, db)
                    else (case ls_RecordDisclosure (st 4) (plan_SessionID plan) (se_policyPath env) policyHash prevHash note
                                 (''workspace:'' @ se_policyPath env) (se_marshalPolicy env policy) db of
                            (Some e, db) \<Rightarrow> (Some (''lifecycle: RecordDisclosure failed (fail-closed): '' @ e), db)
                          | (None, db) \<Rightarrow> (None, db)))))"

section \<open>The context\<close>

text \<open>\<open>makeLLMFn\<close> of \<^verbatim>\<open>app.go\<close>; what the call does to the world of the session is not kept.\<close>

definition userMessage :: "string \<Rightarrow> Message" where
  "userMessage content = zeroMessage\<lparr>ms_Role := ''user'', ms_Content := content\<rparr>"

definition makeLLMFn :: "(CompletionRequest \<Rightarrow> 'w \<Rightarrow> (error + CompletionResponse) \<times> 'w) \<Rightarrow> 'w \<Rightarrow> string \<Rightarrow> error + string" where
  "makeLLMFn client w prompt =
     (case client \<lparr> rq_System = '''', rq_Messages = [userMessage prompt], rq_Tools = [], rq_MaxTokens = 4096, rq_Temperature = None \<rparr> w of
        (Inl e, _) \<Rightarrow> Inl (''compression LLM call: '' @ e) | (Inr resp, _) \<Rightarrow> Inr (TextContent resp))"

definition assembleConfigOf ::
  "'r Dependencies \<Rightarrow> LifecyclePlan \<Rightarrow> string list \<Rightarrow> 'r runWorld \<Rightarrow> assembleConfig" where
  "assembleConfigOf deps plan notes w =
     \<lparr> ac_store = map_option (\<lambda>m. mst_view m (rw_mem w)) (dp_MemoryStore deps),
       ac_edges = (case dp_MemoryStore deps of None \<Rightarrow> False | Some m \<Rightarrow> mst_edges m),
       ac_witness = \<lparr> wc_HasAnchors = False, wc_HasAssemblyStore = dp_AssemblyStore deps, wc_SkipWitnessCheck = dp_SkipWitnessCheck deps \<rparr>,
       ac_provider = dp_EmbeddingProvider deps,
       ac_grounding = \<lparr> gc_Timezone = '''', gc_Location = '''', gc_WeatherAPIKey = '''', gc_WeatherLocation = '''' \<rparr>,
       ac_bridge = \<lparr> bc_AbstainRate = (case dp_MemoryStore deps of None \<Rightarrow> 0 | Some _ \<Rightarrow> fl (20 / 100)), bc_Model = '''' \<rparr>,
       ac_llmFn = Some (makeLLMFn (dp_LLM deps) w), ac_contradictionProbability = 0, ac_InbandNotes = notes, ac_Plan = Some plan,
       ac_SessionID = plan_SessionID plan \<rparr>"

section \<open>The engine loop\<close>

definition sessionHooks :: "sessEnv \<Rightarrow> 'r Dependencies \<Rightarrow> 'r runWorld HookPipeline" where
  "sessionHooks env deps =
     (let hooks = (case dp_MemoryStore deps of
                     Some m \<Rightarrow> RegisterCritical (\<lambda>turn. T2LoggerHook (mst_append m (se_nano env turn)) (se_nano env) turn) []
                   | None \<Rightarrow> [])
      in Pipeline_Register RecordTurnHook (Pipeline_Register BudgetMonitorHook hooks))"

definition sessionEngine :: "sessEnv \<Rightarrow> 'r Dependencies \<Rightarrow> string \<Rightarrow> 'r runWorld Engine" where
  "sessionEngine env deps sid =
     \<lparr> en_client = dp_LLM deps, en_registry = dp_ToolRegistry deps, en_order = dp_toolOrder deps, en_hooks = Some (sessionHooks env deps),
       en_aegis = dp_Gateway deps, en_sessionID = sid, en_codec = se_codec env \<rparr>"

definition initialContent :: "SessionTrigger \<Rightarrow> string" where
  "initialContent t =
     (if tg_InboundContent t = '''' then ''[session start]''
      else ''[inbound event]'' @
           (if tg_InboundSender t \<noteq> '''' then newline @ ''from: '' @ tg_InboundSender t else '''') @
           (if tg_InboundChannel t \<noteq> '''' then newline @ ''channel: '' @ tg_InboundChannel t else '''') @
           newline @ newline @ tg_InboundContent t)"

definition inboundEntry :: "sessEnv \<Rightarrow> string \<Rightarrow> SessionTrigger \<Rightarrow> ExperientialLog" where
  "inboundEntry env sid t =
     \<lparr> el_ID = ''t2-inbound-'' @ sid @ ''-'' @ itoa (se_inboundNano env), el_SessionID = sid, el_Content = initialContent t,
       el_ContentSource = (if tg_InboundChannel t = '''' then ''operator'' else tg_InboundChannel t), el_CreatedAt = zeroTime,
       el_AegisAnnotation = tg_AegisAnnotation t \<rparr>"

text \<open>A failed write of the inbound event is logged and ignored.\<close>

definition persistInbound :: "sessEnv \<Rightarrow> 'r Dependencies \<Rightarrow> string \<Rightarrow> SessionTrigger \<Rightarrow> 'r runWorld \<Rightarrow> 'r runWorld" where
  "persistInbound env deps sid t w =
     (case dp_MemoryStore deps of
        Some m \<Rightarrow> if tg_InboundContent t \<noteq> '''' then w\<lparr>rw_mem := snd (mst_append m (se_inboundNano env) (inboundEntry env sid t) (rw_mem w))\<rparr> else w
      | None \<Rightarrow> w)"

definition sessionRequest :: "'r Dependencies \<Rightarrow> string \<Rightarrow> SessionTrigger \<Rightarrow> CompletionRequest" where
  "sessionRequest deps system t =
     \<lparr> rq_System = system, rq_Messages = [userMessage (initialContent t)],
       rq_Tools = concat (map tg_Tools (List_groups (dp_toolOrder deps) (dp_ToolRegistry deps))), rq_MaxTokens = 4096, rq_Temperature = None \<rparr>"

definition sessionLoopConfig :: "'r runWorld EngineConfig" where
  "sessionLoopConfig =
     \<lparr> cf_MaxIterations = 25, cf_ParallelTools = True, cf_ToolTimeout = 0, cf_DryRun = False, cf_Rehearsal = False, cf_BeforeToolCall = None,
       cf_AfterToolCall = None, cf_ShouldStop = Some (\<lambda>resp results w. (level (rw_budget w) = BudgetHard, w)), cf_SteeringChan = False,
       cf_FollowUpChan = False, cf_TransformContext = None \<rparr>"

section \<open>After the loop\<close>

definition writeState :: "'r Dependencies \<Rightarrow> nat \<Rightarrow> string \<Rightarrow> 'r runWorld \<Rightarrow> lifecycleDB \<Rightarrow> lifecycleDB" where
  "writeState deps k state w db =
     (case dp_LifecycleStore deps of
        None \<Rightarrow> db
      | Some st \<Rightarrow> snd (ls_WriteCheckpoint (st k) (ss_ID (rw_sess w)) (ss_turnCount (rw_sess w)) '''' (dp_TokenBudget deps - Remaining (rw_budget w)) state db))"

text \<open>Step 12. All three ways commit a job through the store; two of them start it.\<close>

definition dispatchMetabolism :: "sessEnv \<Rightarrow> 'r Dependencies \<Rightarrow> string \<Rightarrow> string \<Rightarrow> memDB \<Rightarrow> memDB \<times> (string \<times> string) list" where
  "dispatchMetabolism env deps sid policy db =
     (case dp_JobStore deps of
        None \<Rightarrow> (db, [])
      | Some store \<Rightarrow>
          (case dp_supervisor deps of
             Some draining \<Rightarrow>
               if draining then (db, [])
               else (case Submit store (se_jobid env) (se_jobAt env) (se_jobFault env) sid policy db of
                       (Inl e, db') \<Rightarrow> (db', []) | (Inr jobs, db') \<Rightarrow> (db', jobs))
           | None \<Rightarrow>
               (case Submit store (se_jobid env) (se_jobAt env) (se_jobFault env) sid policy db of
                  (Inl e, db') \<Rightarrow> (db', []) | (Inr jobs, db') \<Rightarrow> (db', if dp_jobRunner deps then jobs else []))))"

definition finishSession :: "sessEnv \<Rightarrow> 'r Dependencies \<Rightarrow> LifecyclePlan \<Rightarrow> 'r runWorld \<Rightarrow> 'r sessState \<Rightarrow> sessOut \<times> 'r sessState" where
  "finishSession env deps plan w s =
     (let db = writeState deps 6 ''active'' w (sn_lifecycle s);
          (endErr, sess) = End (se_endedAt env) (rw_sess w);
          w = w\<lparr>rw_sess := sess\<rparr>
      in case endErr of
           Some e \<Rightarrow> (SessionError (''lifecycle: session end: '' @ e), s\<lparr>sn_lifecycle := db, sn_mem := rw_mem w, sn_rest := rw_rest w\<rparr>)
         | None \<Rightarrow>
             (let db = writeState deps 7 ''completed'' w db;
                  (mem, jobs) = dispatchMetabolism env deps (ss_ID sess) (plan_MetabolismPolicy plan) (gd_mem (rw_mem w))
              in (SessionOk, s\<lparr>sn_lifecycle := db, sn_mem := (rw_mem w)\<lparr>gd_mem := mem\<rparr>, sn_rest := rw_rest w, sn_jobs := sn_jobs s @ jobs\<rparr>)))"

section \<open>The session\<close>

definition runEngine :: "sessEnv \<Rightarrow> 'r Dependencies \<Rightarrow> SessionTrigger \<Rightarrow> LifecyclePlan \<Rightarrow> string \<Rightarrow> 'r runWorld \<Rightarrow> 'r sessState \<Rightarrow> sessOut \<times> 'r sessState" where
  "runEngine env deps trigger plan system w s =
     (let sid = plan_SessionID plan;
          w = persistInbound env deps sid trigger w
      in case RunLoop (sessionEngine env deps sid) (se_loop env) (sessionRequest deps system trigger) sessionLoopConfig
                \<lparr> es_world = w, es_events = [], es_steering = [], es_followUp = [] \<rparr> of
           None \<Rightarrow> (SessionPanic, s\<lparr>sn_mem := rw_mem w\<rparr>)
         | Some (Inl e, st) \<Rightarrow> (SessionError (''lifecycle: engine loop: '' @ e), s\<lparr>sn_mem := rw_mem (es_world st), sn_rest := rw_rest (es_world st)\<rparr>)
         | Some (Inr result, st) \<Rightarrow> finishSession env deps plan (es_world st) s)"

text \<open>Steps 8 to 12, once the artifacts are stored.\<close>

definition assembleAndRun ::
  "sessEnv \<Rightarrow> ContextAssembler \<Rightarrow> 'r Dependencies \<Rightarrow> SessionTrigger \<Rightarrow> LifecyclePlan \<Rightarrow> Session \<Rightarrow> string \<Rightarrow> 'r sessState \<Rightarrow> sessOut \<times> 'r sessState" where
  "assembleAndRun env assembler deps trigger plan sess note s =
     (let w = \<lparr> rw_mem = sn_mem s, rw_budget = NewTokenBudget (dp_TokenBudget deps) (dp_HardFloorTokens deps), rw_sess = sess, rw_rest = sn_rest s \<rparr>;
          notes = tg_InbandNotes trigger @ (if note \<noteq> [] then [note] else [])
      in case Assemble (se_srt env) (se_asm env) assembler (assembleConfigOf deps plan notes w) (sn_identity s) of
           (None, idb) \<Rightarrow> (SessionPanic, s\<lparr>sn_identity := idb\<rparr>)
         | (Some (Inl e), idb) \<Rightarrow> (SessionError (''lifecycle: assembling context: '' @ e), s\<lparr>sn_identity := idb\<rparr>)
         | (Some (Inr assembled), idb) \<Rightarrow>
             (case dp_LifecycleStore deps of
                None \<Rightarrow> runEngine env deps trigger plan (ax_SystemPrompt assembled) w (s\<lparr>sn_identity := idb\<rparr>)
              | Some st \<Rightarrow>
                  (case ls_RecordManifest (st 5) (Some (ax_Manifest assembled)) (sn_lifecycle s) of
                     (Some e, db) \<Rightarrow> (SessionError (''lifecycle: RecordManifest failed (fail-closed): '' @ e), s\<lparr>sn_lifecycle := db, sn_identity := idb\<rparr>)
                   | (None, db) \<Rightarrow> runEngine env deps trigger plan (ax_SystemPrompt assembled) w (s\<lparr>sn_lifecycle := db, sn_identity := idb\<rparr>))))"

definition RunSession :: "sessEnv \<Rightarrow> ContextAssembler \<Rightarrow> 'r Dependencies \<Rightarrow> SessionTrigger \<Rightarrow> 'r sessState \<Rightarrow> sessOut \<times> 'r sessState" where
  "RunSession env assembler deps trigger s =
     (let db = sn_lifecycle s;
          (policy, policyHash) = readPolicy env deps db;
          (note, prevHash) = policyDisclosure env deps policy policyHash db;
          facts = buildFacts env (tg_WakeReason trigger) (prevActivityAt env deps db);
          plan = resolvePlan env deps policy facts db;
          sess = NewSession (se_sessHex env) (se_startedAt env) (dp_AgentName deps) (plan_WakeCause plan);
          plan = plan\<lparr>plan_SessionID := ss_ID sess\<rparr>
      in case recordArtifacts env deps plan facts policy policyHash prevHash note db of
           (Some e, db) \<Rightarrow> (SessionError e, s\<lparr>sn_lifecycle := db\<rparr>)
         | (None, db) \<Rightarrow> assembleAndRun env assembler deps trigger plan sess note (s\<lparr>sn_lifecycle := db\<rparr>))"


section \<open>What a session relies on\<close>

text \<open>
  The contract of a lifecycle store: each call is a step of the tables, a call that reports an error leaves them alone, and only the checkpoint
  calls touch the checkpoints.
\<close>

locale lifecycle_store =
  fixes st :: "nat \<Rightarrow> lifecycleStore"
  assumes plan_call: "ls_RecordPlan (st k) p db = (r, db') \<Longrightarrow> storeStep db db' \<and> (r \<noteq> None \<longrightarrow> db' = db) \<and> ldb_checkpoints db' = ldb_checkpoints db"
    and wake_call: "ls_RecordWakeFacts (st k) sid f db = (r, db') \<Longrightarrow> storeStep db db' \<and> (r \<noteq> None \<longrightarrow> db' = db) \<and> ldb_checkpoints db' = ldb_checkpoints db"
    and manifest_call: "ls_RecordManifest (st k) m db = (r, db') \<Longrightarrow> storeStep db db' \<and> (r \<noteq> None \<longrightarrow> db' = db) \<and> ldb_checkpoints db' = ldb_checkpoints db"
    and disclosure_call: "ls_RecordDisclosure (st k) sid path h ph note src snap db = (r, db') \<Longrightarrow>
          storeStep db db' \<and> (r \<noteq> None \<longrightarrow> db' = db) \<and> ldb_checkpoints db' = ldb_checkpoints db"
    and checkpoint_call: "ls_WriteCheckpoint (st k) sid turn t2 tokens state db = (r, db') \<Longrightarrow> storeStep db db' \<and> (r \<noteq> None \<longrightarrow> db' = db)"
begin

lemma recordArtifacts_keeps:
  assumes "dp_LifecycleStore deps = Some st" "recordArtifacts env deps plan facts policy h ph note db = (r, db')"
  shows "storeStep\<^sup>*\<^sup>* db db' \<and> ldb_checkpoints db' = ldb_checkpoints db"
proof -
  obtain r1 db1 where 1: "ls_RecordPlan (st 2) (Some plan) db = (r1, db1)" by fastforce
  obtain r2 db2 where 2: "ls_RecordWakeFacts (st 3) (plan_SessionID plan) (Some facts) db1 = (r2, db2)" by fastforce
  obtain r3 db3 where 3: "ls_RecordDisclosure (st 4) (plan_SessionID plan) (se_policyPath env) h ph note (''workspace:'' @ se_policyPath env)
      (se_marshalPolicy env policy) db2 = (r3, db3)" by fastforce
  have "db' \<in> {db1, db2, db3}"
    using assms 1 2 3 by (auto simp: recordArtifacts_def split: option.splits if_splits)
  moreover have "storeStep\<^sup>*\<^sup>* db db1" "storeStep\<^sup>*\<^sup>* db db2" "storeStep\<^sup>*\<^sup>* db db3"
    using plan_call [OF 1] wake_call [OF 2] disclosure_call [OF 3] by (blast intro: rtranclp.intros)+
  ultimately show ?thesis
    using plan_call [OF 1] wake_call [OF 2] disclosure_call [OF 3] by auto
qed

lemma writeState_steps:
  "dp_LifecycleStore deps = Some st \<Longrightarrow> storeStep\<^sup>*\<^sup>* db (writeState deps k state w db)"
  by (simp add: writeState_def) (metis checkpoint_call prod.collapse r_into_rtranclp)

end

lemma finishSession_parts:
  assumes "finishSession env deps plan w s = (out, s')"
  shows "out = SessionOk \<and>
    sn_lifecycle s' = writeState deps 7 ''completed'' (w\<lparr>rw_sess := snd (End (se_endedAt env) (rw_sess w))\<rparr>) (writeState deps 6 ''active'' w (sn_lifecycle s))"
  using assms by (auto simp: finishSession_def End_def Let_def split: prod.splits)

lemma runEngine_cases:
  assumes "runEngine env deps t plan system w s = (out, s')"
  obtains (stopped) "out \<noteq> SessionOk" "sn_lifecycle s' = sn_lifecycle s" "sn_jobs s' = sn_jobs s" "sn_identity s' = sn_identity s"
  | (finished) w' where "out = SessionOk" "finishSession env deps plan w' s = (SessionOk, s')"
  using assms finishSession_parts unfolding runEngine_def Let_def
  by (auto split: option.splits prod.splits sum.splits) blast+

text \<open>The session up to the engine: where it stopped, or with what it went on.\<close>

lemma assembleAndRun_cases:
  assumes "assembleAndRun env a deps t plan sess note s = (out, s')" and "dp_LifecycleStore deps = Some st"
  obtains (unassembled) idb where "out \<noteq> SessionOk" "s' = s\<lparr>sn_identity := idb\<rparr>" "\<And>e. out \<noteq> SessionError (''lifecycle: engine loop: '' @ e)"
  | (unrecorded) m e db idb where "out = SessionError (''lifecycle: RecordManifest failed (fail-closed): '' @ e)"
      "ls_RecordManifest (st 5) (Some m) (sn_lifecycle s) = (Some e, db)" "s' = s\<lparr>sn_lifecycle := db, sn_identity := idb\<rparr>"
  | (engine) ax w ns idb db where
      "w = \<lparr> rw_mem = sn_mem s, rw_budget = NewTokenBudget (dp_TokenBudget deps) (dp_HardFloorTokens deps), rw_sess = sess, rw_rest = sn_rest s \<rparr>"
      "Assemble (se_srt env) (se_asm env) a (assembleConfigOf deps plan ns w) (sn_identity s) = (Some (Inr ax), idb)"
      "ls_RecordManifest (st 5) (Some (ax_Manifest ax)) (sn_lifecycle s) = (None, db)"
      "runEngine env deps t plan (ax_SystemPrompt ax) w (s\<lparr>sn_lifecycle := db, sn_identity := idb\<rparr>) = (out, s')"
  using assms unfolding assembleAndRun_def Let_def
  by (auto split: option.splits prod.splits sum.splits)

definition sessionPlan :: "sessEnv \<Rightarrow> 'r Dependencies \<Rightarrow> SessionTrigger \<Rightarrow> lifecycleDB \<Rightarrow> LifecyclePlan" where
  "sessionPlan env deps t db =
     (resolvePlan env deps (fst (readPolicy env deps db)) (buildFacts env (tg_WakeReason t) (prevActivityAt env deps db)) db)
       \<lparr>plan_SessionID := dp_AgentName deps @ ''-'' @ se_sessHex env\<rparr>"

definition sessionNote :: "sessEnv \<Rightarrow> 'r Dependencies \<Rightarrow> lifecycleDB \<Rightarrow> string \<times> string" where
  "sessionNote env deps db = policyDisclosure env deps (fst (readPolicy env deps db)) (snd (readPolicy env deps db)) db"

definition sessionArtifacts :: "sessEnv \<Rightarrow> 'r Dependencies \<Rightarrow> SessionTrigger \<Rightarrow> lifecycleDB \<Rightarrow> error option \<times> lifecycleDB" where
  "sessionArtifacts env deps t db =
     recordArtifacts env deps (sessionPlan env deps t db) (buildFacts env (tg_WakeReason t) (prevActivityAt env deps db))
       (fst (readPolicy env deps db)) (snd (readPolicy env deps db)) (snd (sessionNote env deps db)) (fst (sessionNote env deps db)) db"

lemma RunSession_cases:
  assumes "RunSession env a deps t s = (out, s')"
  obtains (refused) e db where "out = SessionError e" "s' = s\<lparr>sn_lifecycle := db\<rparr>" "sessionArtifacts env deps t (sn_lifecycle s) = (Some e, db)"
  | (recorded) db sess where "ss_ID sess = plan_SessionID (sessionPlan env deps t (sn_lifecycle s))" "ss_turnCount sess = 0"
      "sessionArtifacts env deps t (sn_lifecycle s) = (None, db)"
      "assembleAndRun env a deps t (sessionPlan env deps t (sn_lifecycle s)) sess (fst (sessionNote env deps (sn_lifecycle s))) (s\<lparr>sn_lifecycle := db\<rparr>) = (out, s')"
proof -
  obtain policy h where p: "readPolicy env deps (sn_lifecycle s) = (policy, h)" by fastforce
  obtain msg ph where n: "policyDisclosure env deps policy h (sn_lifecycle s) = (msg, ph)" by fastforce
  have "sessionNote env deps (sn_lifecycle s) = (msg, ph)" by (simp add: sessionNote_def p n)
  note eqs = p n this
  let ?plan = "sessionPlan env deps t (sn_lifecycle s)"
  let ?sess = "NewSession (se_sessHex env) (se_startedAt env) (dp_AgentName deps) (plan_WakeCause ?plan)"
  have sid: "ss_ID ?sess = plan_SessionID ?plan" "ss_turnCount ?sess = 0" by (simp_all add: NewSession_def sessionPlan_def)
  have run: "RunSession env a deps t s = (case sessionArtifacts env deps t (sn_lifecycle s) of
      (Some e, db) \<Rightarrow> (SessionError e, s\<lparr>sn_lifecycle := db\<rparr>)
    | (None, db) \<Rightarrow> assembleAndRun env a deps t ?plan ?sess msg (s\<lparr>sn_lifecycle := db\<rparr>))"
    by (auto simp: RunSession_def sessionArtifacts_def Let_def eqs sessionPlan_def NewSession_def split: prod.split option.split)
  obtain r db where art: "sessionArtifacts env deps t (sn_lifecycle s) = (r, db)" by fastforce
  show thesis
  proof (cases r)
    case None
    with art run assms show thesis by (intro recorded [OF sid]) (simp_all add: eqs)
  next
    case (Some e)
    with art run assms show thesis by (intro refused) simp_all
  qed
qed

context lifecycle_store
begin

lemma RunSession_steps:
  assumes "dp_LifecycleStore deps = Some st" "RunSession env a deps t s = (out, s')"
  shows "storeStep\<^sup>*\<^sup>* (sn_lifecycle s) (sn_lifecycle s') \<and>
         (out \<noteq> SessionOk \<longrightarrow> ldb_checkpoints (sn_lifecycle s') = ldb_checkpoints (sn_lifecycle s) \<and> sn_jobs s' = sn_jobs s)"
  using assms(2)
proof (cases rule: RunSession_cases)
  case (refused e db)
  with recordArtifacts_keeps [OF assms(1)] show ?thesis by (force simp: sessionArtifacts_def)
next
  case (recorded db sess)
  then have art: "storeStep\<^sup>*\<^sup>* (sn_lifecycle s) db" "ldb_checkpoints db = ldb_checkpoints (sn_lifecycle s)"
    using recordArtifacts_keeps [OF assms(1)] by (simp_all add: sessionArtifacts_def)
  from recorded(4) assms(1) show ?thesis
  proof (cases rule: assembleAndRun_cases)
    case (unassembled idb)
    with art show ?thesis by simp
  next
    case (unrecorded m e db' idb)
    with art manifest_call [OF unrecorded(2)] show ?thesis by simp
  next
    case (engine ax w ns idb db')
    from manifest_call [OF engine(3)] art have db': "storeStep\<^sup>*\<^sup>* (sn_lifecycle s) db'" "ldb_checkpoints db' = ldb_checkpoints (sn_lifecycle s)"
      by (auto intro: rtranclp.rtrancl_into_rtrancl)
    from engine(4) show ?thesis
    proof (cases rule: runEngine_cases)
      case stopped
      with db' show ?thesis by simp
    next
      case (finished w')
      let ?active = "writeState deps 6 ''active'' w' db'"
      have "storeStep\<^sup>*\<^sup>* (sn_lifecycle s) ?active"
        using db'(1) writeState_steps [OF assms(1)] by (rule rtranclp_trans)
      then have "storeStep\<^sup>*\<^sup>* (sn_lifecycle s) (writeState deps 7 ''completed'' (w'\<lparr>rw_sess := snd (End (se_endedAt env) (rw_sess w'))\<rparr>) ?active)"
        using writeState_steps [OF assms(1)] by (rule rtranclp_trans)
      with finishSession_parts [OF finished(2)] have "storeStep\<^sup>*\<^sup>* (sn_lifecycle s) (sn_lifecycle s')" by simp
      with finished show ?thesis by simp
    qed
  qed
qed

end

lemma recordPlan_checkpoints [simp]: "recordPlan i n f p db = (r, db') \<Longrightarrow> ldb_checkpoints db' = ldb_checkpoints db"
  by (auto simp: recordPlan_def split: sum.splits option.splits)

lemma recordWakeFacts_checkpoints [simp]: "recordWakeFacts b m n q f sid w db = (r, db') \<Longrightarrow> ldb_checkpoints db' = ldb_checkpoints db"
  by (auto simp: recordWakeFacts_def Let_def split: sum.splits option.splits)

lemma recordManifest_checkpoints [simp]: "recordManifest ml mm i n f m db = (r, db') \<Longrightarrow> ldb_checkpoints db' = ldb_checkpoints db"
  by (auto simp: recordManifest_def Let_def split: option.splits)

lemma recordDisclosure_checkpoints [simp]: "recordDisclosure b n f sid p h ph c so sn db = (r, db') \<Longrightarrow> ldb_checkpoints db' = ldb_checkpoints db"
  by (auto simp: recordDisclosure_def split: option.splits)

lemma recordWakeFacts_failed: "recordWakeFacts b m n q f sid w db = (Some e, db') \<Longrightarrow> db' = db"
  by (auto simp: recordWakeFacts_def Let_def split: sum.splits option.splits)

lemma recordManifest_failed: "recordManifest ml mm i n f am db = (Some e, db') \<Longrightarrow> db' = db"
  by (auto simp: recordManifest_def Let_def split: option.splits)

lemma recordDisclosure_failed: "recordDisclosure b n f sid pp h ph c so sn db = (Some e, db') \<Longrightarrow> db' = db"
  by (auto simp: recordDisclosure_def split: option.splits)

lemma writeCheckpoint_failed: "writeCheckpoint n f sid tu t2 tok sta db = (Some e, db') \<Longrightarrow> db' = db"
  by (auto simp: writeCheckpoint_def Let_def split: option.splits)

lemmas store_failed = recordPlan_failed recordWakeFacts_failed recordManifest_failed recordDisclosure_failed writeCheckpoint_failed

lemma storeStep_of: 
  "recordPlan i n f p db = (r, db') \<Longrightarrow> storeStep db db'"
  "recordWakeFacts b m n q f sid w db = (r, db') \<Longrightarrow> storeStep db db'"
  "recordManifest ml mm i n f am db = (r, db') \<Longrightarrow> storeStep db db'"
  "recordDisclosure b n f sid pp h ph c so sn db = (r, db') \<Longrightarrow> storeStep db db'"
  "writeCheckpoint n f sid tu t2 tok sta db = (r, db') \<Longrightarrow> storeStep db db'"
  by (metis snd_conv storeStep.intros)+

interpretation sqlite_store: lifecycle_store "\<lambda>k. NewSQLiteLifecycleStore (f k)" for f
  by unfold_locales
     (auto simp: NewSQLiteLifecycleStore_def SQLite_RecordPlan_def SQLite_RecordWakeFacts_def SQLite_RecordManifest_def SQLite_RecordDisclosure_def
       SQLite_WriteCheckpoint_def intro: storeStep_of dest: store_failed)

interpretation postgres_store: lifecycle_store "\<lambda>k. NewPostgresLifecycleStore pool zone (f k)" for pool zone f
  by unfold_locales
     (auto simp: NewPostgresLifecycleStore_def Postgres_RecordPlan_def Postgres_RecordWakeFacts_def Postgres_RecordManifest_def Postgres_RecordDisclosure_def
       Postgres_WriteCheckpoint_def intro: storeStep_of dest: store_failed)

lemma recordPlan_stored:
  "recordPlan newid now f (Some pl) db = (None, db') \<Longrightarrow>
   \<exists>r. db' = db\<lparr>ldb_plans := ldb_plans db @ [r]\<rparr> \<and> row_session_id r = plan_SessionID pl \<and> (plan_ID pl \<noteq> '''' \<longrightarrow> row_id r = plan_ID pl)"
  by (auto simp: recordPlan_def RecordPlan_def Let_def split: option.splits)

lemma recordWakeFacts_stored:
  "recordWakeFacts b m now q f sid (Some facts) db = (None, db') \<Longrightarrow>
   \<exists>w r. db' = db\<lparr>ldb_wakes := ldb_wakes db @ [w]\<rparr> \<and> r \<in> set (ldb_plans db) \<and> row_session_id r = sid \<and> wk_plan_id w = row_id r \<and> wk_wake_at w = now"
proof (cases q)
  case None
  assume ok: "recordWakeFacts b m now q f sid (Some facts) db = (None, db')"
  show ?thesis
  proof (cases "latestBy row_resolved_at (filter (\<lambda>r. row_session_id r = sid) (ldb_plans db))")
    case (Some r)
    then have "r \<in> set (ldb_plans db)" "row_session_id r = sid" by (auto dest: latestBy_in)
    moreover have "\<exists>w. db' = db\<lparr>ldb_wakes := ldb_wakes db @ [w]\<rparr> \<and> wk_plan_id w = row_id r \<and> wk_wake_at w = now"
      using ok unfolding recordWakeFacts_def Let_def None Some option.case sum.case by (auto split: option.splits)
    ultimately show ?thesis by blast
  qed (use ok None in \<open>simp add: recordWakeFacts_def\<close>)
qed (simp add: recordWakeFacts_def)

lemma recordManifest_stored:
  "recordManifest ml mm newid now f (Some m) db = (None, db') \<Longrightarrow>
   \<exists>r. db' = db\<lparr>ldb_manifests := ldb_manifests db @ [r]\<rparr> \<and> mr_session_id r = amf_SessionID m \<and> mr_plan_id r = amf_PlanID m"
  by (auto simp: recordManifest_def Let_def split: option.splits)

lemma recordDisclosure_stored:
  "recordDisclosure b now f sid path h ph note src snap db = (None, db') \<Longrightarrow>
   \<exists>c. db' = db\<lparr>ldb_config := ldb_config db @ [c]\<rparr> \<and> cfg_session_id c = sid \<and> cfg_policy_hash c = h \<and> cfg_changes_summary c = note \<and> cfg_applied_at c = now"
  by (auto simp: recordDisclosure_def split: option.splits)

lemmas sqlite_calls = NewSQLiteLifecycleStore_def SQLite_RecordPlan_def SQLite_RecordWakeFacts_def SQLite_RecordManifest_def SQLite_RecordDisclosure_def
  SQLite_WriteCheckpoint_def

lemma Assemble_manifest:
  "Assemble srt env a cfg idb = (Some (Inr ax), idb') \<Longrightarrow>
   amf_SessionID (ax_Manifest ax) = ac_SessionID cfg \<and> amf_PlanID (ax_Manifest ax) = (case ac_Plan cfg of None \<Rightarrow> '''' | Some p \<Rightarrow> plan_ID p)"
  by (auto simp: Assemble_def Let_def split: asmOut.splits)

lemma recordArtifacts_None:
  assumes "dp_LifecycleStore deps = Some st" "recordArtifacts env deps plan facts policy h ph note db = (None, db')"
  shows "\<exists>db1 db2. ls_RecordPlan (st 2) (Some plan) db = (None, db1) \<and>
    ls_RecordWakeFacts (st 3) (plan_SessionID plan) (Some facts) db1 = (None, db2) \<and>
    (note = '''' \<longrightarrow> db' = db2) \<and>
    (note \<noteq> '''' \<longrightarrow> ls_RecordDisclosure (st 4) (plan_SessionID plan) (se_policyPath env) h ph note (''workspace:'' @ se_policyPath env)
      (se_marshalPolicy env policy) db2 = (None, db'))"
  using assms by (auto simp: recordArtifacts_def split: prod.splits option.splits if_splits)

lemma recordArtifacts_sqlite:
  assumes "dp_LifecycleStore deps = Some (\<lambda>k. NewSQLiteLifecycleStore (f k))"
    and "recordArtifacts env deps plan facts policy h ph note db = (None, db')" and "plan_ID plan \<noteq> ''''"
  obtains r w cs where "db' = db\<lparr>ldb_plans := ldb_plans db @ [r], ldb_wakes := ldb_wakes db @ [w], ldb_config := ldb_config db @ cs\<rparr>"
    "row_id r = plan_ID plan" "row_session_id r = plan_SessionID plan"
    "\<exists>r' \<in> set (ldb_plans db'). row_session_id r' = plan_SessionID plan \<and> wk_plan_id w = row_id r'"
    "note = '''' \<Longrightarrow> cs = []"
    "note \<noteq> '''' \<Longrightarrow> \<exists>c. cs = [c] \<and> cfg_session_id c = plan_SessionID plan \<and> cfg_policy_hash c = h \<and> cfg_changes_summary c = note \<and>
       cfg_applied_at c = sqliteNow (st_now (f 4))"
proof -
  from recordArtifacts_None [OF assms(1,2)] obtain db1 db2 where
    1: "recordPlan (st_newid (f 2)) (sqliteNow (st_now (f 2))) (st_fault (f 2)) (Some plan) db = (None, db1)" and
    2: "recordWakeFacts True (st_marshalFacts (f 3)) (sqliteNow (st_now (f 3))) (st_query (f 3)) (st_fault (f 3)) (plan_SessionID plan)
      (Some facts) db1 = (None, db2)" and
    3: "note = '''' \<Longrightarrow> db' = db2"
    "note \<noteq> '''' \<Longrightarrow> recordDisclosure True (sqliteNow (st_now (f 4))) (st_fault (f 4)) (plan_SessionID plan) (se_policyPath env) h ph note
      (''workspace:'' @ se_policyPath env) (se_marshalPolicy env policy) db2 = (None, db')"
    by (simp add: sqlite_calls) blast
  from recordPlan_stored [OF 1] assms(3) obtain r where r: "db1 = db\<lparr>ldb_plans := ldb_plans db @ [r]\<rparr>" "row_session_id r = plan_SessionID plan"
    "row_id r = plan_ID plan" by blast
  from recordWakeFacts_stored [OF 2] obtain w r' where w: "db2 = db1\<lparr>ldb_wakes := ldb_wakes db1 @ [w]\<rparr>" "r' \<in> set (ldb_plans db1)"
    "row_session_id r' = plan_SessionID plan" "wk_plan_id w = row_id r'" by blast
  obtain cs where c: "db' = db2\<lparr>ldb_config := ldb_config db2 @ cs\<rparr>" "note = '''' \<Longrightarrow> cs = []"
    "note \<noteq> '''' \<Longrightarrow> \<exists>c. cs = [c] \<and> cfg_session_id c = plan_SessionID plan \<and> cfg_policy_hash c = h \<and> cfg_changes_summary c = note \<and>
       cfg_applied_at c = sqliteNow (st_now (f 4))"
  proof (cases "note = ''''")
    case True
    with 3(1) that [of "[]"] show thesis by simp
  next
    case False
    from recordDisclosure_stored [OF 3(2) [OF False]] False that show thesis by blast
  qed
  show thesis
  proof (rule that [of cs w r])
    show "db' = db\<lparr>ldb_plans := ldb_plans db @ [r], ldb_wakes := ldb_wakes db @ [w], ldb_config := ldb_config db @ cs\<rparr>"
      by (simp add: c(1) w(1) r(1))
    have "ldb_plans db' = ldb_plans db1" by (simp add: c(1) w(1))
    with w(2-4) show "\<exists>r' \<in> set (ldb_plans db'). row_session_id r' = plan_SessionID plan \<and> wk_plan_id w = row_id r'" by auto
  qed (use r c(2,3) in \<open>blast+\<close>)
qed

section \<open>Properties\<close>

text \<open>
  C7. A session keeps the lifecycle tables consistent whatever happens in it, and one that does not complete, because a record could not be
  stored, the context could not be assembled or the engine loop failed, leaves the checkpoints as they were and hands nothing to metabolism:
  the next session reads the same last checkpoint state as this one did, so that it is not told of the failure.
\<close>

theorem unfinished_session_leaves_no_trace:
  assumes "dp_LifecycleStore deps = Some (\<lambda>k. NewSQLiteLifecycleStore (f k))" and "storeInv (sn_lifecycle s)"
    and "RunSession env a deps t s = (out, s')"
  shows "storeInv (sn_lifecycle s') \<and>
    (out \<noteq> SessionOk \<longrightarrow> sn_jobs s' = sn_jobs s \<and> SQLite_LastCheckpointState None (sn_lifecycle s') = SQLite_LastCheckpointState None (sn_lifecycle s))"
proof -
  note steps = sqlite_store.RunSession_steps [OF assms(1,3)]
  have "storeInv (sn_lifecycle s')"
    using steps [THEN conjunct1] assms(2) by (induction rule: rtranclp_induct) (auto intro: storeStep_inv)
  with steps show ?thesis by (simp add: SQLite_LastCheckpointState_def)
qed

text \<open>
  On PostgreSQL no session ever runs: since no wake can be recorded there, every session ends with an error before its context is assembled,
  the language model is never called and nothing but the lifecycle tables changes.
\<close>

theorem postgres_session_never_runs:
  assumes "dp_LifecycleStore deps = Some (\<lambda>k. NewPostgresLifecycleStore pool zone (f k))"
  shows "\<exists>e db. RunSession env a deps t s = (SessionError e, s\<lparr>sn_lifecycle := db\<rparr>) \<and> ldb_wakes db = ldb_wakes (sn_lifecycle s)"
proof -
  obtain out s' where run: "RunSession env a deps t s = (out, s')" by fastforce
  have art: "\<exists>e db'. recordArtifacts env deps plan facts policy h ph msg db = (Some e, db') \<and> ldb_wakes db' = ldb_wakes db" for plan facts policy h ph msg db
  proof -
    obtain r1 db1 where 1: "recordPlan (st_newid (f 2)) (st_now (f 2)) (st_fault (f 2)) (Some plan) db = (r1, db1)" by fastforce
    obtain e where 2: "Postgres_RecordWakeFacts (st_marshalFacts (f 3)) (st_now (f 3)) (st_query (f 3)) (st_fault (f 3)) (plan_SessionID plan) (Some facts) db1 = (Some e, db1)"
      using postgres_records_no_wake by blast
    have "ldb_wakes db1 = ldb_wakes db" using 1 by (cases r1) (auto dest: recordPlan_failed recordPlan_effect)
    with 1 2 assms show ?thesis by (cases r1) (simp_all add: recordArtifacts_def NewPostgresLifecycleStore_def Postgres_RecordPlan_def)
  qed
  then have refuses: "\<exists>e db'. sessionArtifacts env deps t (sn_lifecycle s) = (Some e, db') \<and> ldb_wakes db' = ldb_wakes (sn_lifecycle s)"
    unfolding sessionArtifacts_def .
  from run show ?thesis
  proof (cases rule: RunSession_cases)
    case (refused e db)
    with run refuses show ?thesis by auto
  next
    case (recorded db sess)
    with refuses show ?thesis by auto
  qed
qed

lemma writeCheckpoint_others:
  assumes "writeCheckpoint now f sid turn t2 tokens state db = (r, db')"
  shows "ldb_plans db' = ldb_plans db" "ldb_wakes db' = ldb_wakes db" "ldb_manifests db' = ldb_manifests db" "ldb_config db' = ldb_config db"
    "c \<in> set (ldb_checkpoints db') \<Longrightarrow> cp_id c \<noteq> sid \<Longrightarrow> c \<in> set (ldb_checkpoints db)"
  using assms by (auto simp: writeCheckpoint_def Let_def split: option.splits if_splits)

lemma writeState_sqlite:
  assumes "dp_LifecycleStore deps = Some (\<lambda>k. NewSQLiteLifecycleStore (f k))"
  obtains r where "writeCheckpoint (sqliteNow (st_now (f k))) (st_fault (f k)) (ss_ID (rw_sess w)) (ss_turnCount (rw_sess w)) ''''
      (dp_TokenBudget deps - Remaining (rw_budget w)) state db = (r, writeState deps k state w db)"
    "st_fault (f k) = None \<Longrightarrow> state \<in> {''active'', ''completed''} \<Longrightarrow> r = None"
proof -
  let ?res = "writeCheckpoint (sqliteNow (st_now (f k))) (st_fault (f k)) (ss_ID (rw_sess w)) (ss_turnCount (rw_sess w)) ''''
      (dp_TokenBudget deps - Remaining (rw_budget w)) state db"
  have "snd ?res = writeState deps k state w db" using assms by (simp add: writeState_def sqlite_calls)
  moreover have "fst ?res = None" if "st_fault (f k) = None" "state \<in> {''active'', ''completed''}"
    using that by (auto simp: writeCheckpoint_def Let_def violation_def)
  ultimately show thesis using that [of "fst ?res"] by (metis prod.collapse)
qed

lemma writeState_others:
  assumes "dp_LifecycleStore deps = Some (\<lambda>k. NewSQLiteLifecycleStore (f k))"
  shows "ldb_plans (writeState deps k state w db) = ldb_plans db" "ldb_wakes (writeState deps k state w db) = ldb_wakes db"
    "ldb_manifests (writeState deps k state w db) = ldb_manifests db" "ldb_config (writeState deps k state w db) = ldb_config db"
  by (rule writeState_sqlite [OF assms], erule writeCheckpoint_others)+

lemma sqliteNow_mono: "t \<le> u \<Longrightarrow> sqliteNow t \<le> sqliteNow u"
  unfolding sqliteNow_def by (intro mult_right_mono zdiv_mono1) simp_all

text \<open>The two checkpoints at the end of a session: the second one is the latest, and completed.\<close>

lemma final_checkpoint:
  assumes "dp_LifecycleStore deps = Some (\<lambda>k. NewSQLiteLifecycleStore (f k))" and "storeInv db"
    and "st_fault (f 6) = None" "st_fault (f 7) = None"
    and "\<And>r. r \<in> set (ldb_checkpoints db) \<Longrightarrow> cp_created_at r < sqliteNow (st_now (f 6))" and "st_now (f 6) \<le> st_now (f 7)"
  shows "SQLite_LastCheckpointState None (writeState deps 7 ''completed'' (w\<lparr>rw_sess := snd (End n (rw_sess w))\<rparr>) (writeState deps 6 ''active'' w db)) = Inr ''completed''"
proof -
  let ?w = "w\<lparr>rw_sess := snd (End n (rw_sess w))\<rparr>" and ?db = "writeState deps 6 ''active'' w db"
  have sid: "ss_ID (rw_sess ?w) = ss_ID (rw_sess w)" by (simp add: End_def)
  obtain r1 where one: "writeCheckpoint (sqliteNow (st_now (f 6))) (st_fault (f 6)) (ss_ID (rw_sess w)) (ss_turnCount (rw_sess w)) ''''
      (dp_TokenBudget deps - Remaining (rw_budget w)) ''active'' db = (r1, ?db)"
    by (rule writeState_sqlite [OF assms(1)])
  obtain r2 where two: "writeCheckpoint (sqliteNow (st_now (f 7))) (st_fault (f 7)) (ss_ID (rw_sess ?w)) (ss_turnCount (rw_sess ?w)) ''''
      (dp_TokenBudget deps - Remaining (rw_budget ?w)) ''completed'' ?db = (r2, writeState deps 7 ''completed'' ?w ?db)" "r2 = None"
    using writeState_sqlite [OF assms(1), of 7 ?w "''completed''" ?db] assms(4) by blast
  have inv: "storeInv ?db" using writeCheckpoint_inv [OF assms(2)] one by (metis snd_conv)
  have "cp_created_at r < sqliteNow (st_now (f 7))" if "r \<in> set (ldb_checkpoints ?db)" "cp_id r \<noteq> ss_ID (rw_sess ?w)" for r
    using assms(5) [OF writeCheckpoint_others(5) [OF one that(1)]] that(2) sqliteNow_mono [OF assms(6)] unfolding sid by simp
  from writeCheckpoint_latest [OF inv this two(1) [unfolded two(2)]] show ?thesis
    by (fastforce simp: SQLite_LastCheckpointState_def)
qed

lemma completed_parts:
  assumes "dp_LifecycleStore deps = Some (\<lambda>k. NewSQLiteLifecycleStore (f k))" and "RunSession env a deps t s = (SessionOk, s')"
  obtains db1 db2 w m where "sessionArtifacts env deps t (sn_lifecycle s) = (None, db1)"
    "db2 = db1\<lparr>ldb_manifests := ldb_manifests db1 @ [m]\<rparr>" "mr_plan_id m = plan_ID (sessionPlan env deps t (sn_lifecycle s))"
    "mr_session_id m = plan_SessionID (sessionPlan env deps t (sn_lifecycle s))"
    "sn_lifecycle s' = writeState deps 7 ''completed'' (w\<lparr>rw_sess := snd (End (se_endedAt env) (rw_sess w))\<rparr>) (writeState deps 6 ''active'' w db2)"
    "storeStep\<^sup>*\<^sup>* (sn_lifecycle s) db2" "ldb_checkpoints db2 = ldb_checkpoints (sn_lifecycle s)"
  using assms(2)
proof (cases rule: RunSession_cases)
  case (recorded db sess)
  from recorded(4) assms(1) show thesis
  proof (cases rule: assembleAndRun_cases)
    case (engine ax w ns idb db')
    from engine(3) obtain m where m: "db' = db\<lparr>ldb_manifests := ldb_manifests db @ [m]\<rparr>" "mr_session_id m = amf_SessionID (ax_Manifest ax)"
      "mr_plan_id m = amf_PlanID (ax_Manifest ax)" using recordManifest_stored by (fastforce simp: sqlite_calls)
    have steps: "storeStep\<^sup>*\<^sup>* (sn_lifecycle s) db" "ldb_checkpoints db = ldb_checkpoints (sn_lifecycle s)"
      using sqlite_store.recordArtifacts_keeps [OF assms(1)] recorded(3) by (simp_all add: sessionArtifacts_def)
    have ids: "amf_SessionID (ax_Manifest ax) = plan_SessionID (sessionPlan env deps t (sn_lifecycle s))"
      "amf_PlanID (ax_Manifest ax) = plan_ID (sessionPlan env deps t (sn_lifecycle s))"
      using Assemble_manifest [OF engine(2)] by (simp_all add: assembleConfigOf_def)
    from engine(4) show thesis
    proof (cases rule: runEngine_cases)
      case (finished w')
      show thesis
      proof (rule that [OF recorded(3) m(1)])
        show "sn_lifecycle s' = writeState deps 7 ''completed'' (w'\<lparr>rw_sess := snd (End (se_endedAt env) (rw_sess w'))\<rparr>) (writeState deps 6 ''active'' w' db')"
          using finishSession_parts [OF finished(2)] by simp
        show "storeStep\<^sup>*\<^sup>* (sn_lifecycle s) db'"
          using steps(1) sqlite_store.manifest_call [of f 5] engine(3) by (auto intro: rtranclp.rtrancl_into_rtrancl)
      qed (use m ids steps in simp_all)
    qed simp
  qed simp_all
qed simp

text \<open>
  C6. A session that completes is on record: its plan, a wake that names a plan of this session, and a manifest that names the plan are in the
  tables, and when the last writes succeed the next session reads \<open>completed\<close> as the state of the last checkpoint.
\<close>

theorem completed_session_is_on_record:
  assumes "dp_LifecycleStore deps = Some (\<lambda>k. NewSQLiteLifecycleStore (f k))" and "storeInv (sn_lifecycle s)"
    and "RunSession env a deps t s = (SessionOk, s')" and "se_planHex env \<noteq> ''''"
    and "st_fault (f 6) = None" "st_fault (f 7) = None"
    and "\<And>r. r \<in> set (ldb_checkpoints (sn_lifecycle s)) \<Longrightarrow> cp_created_at r < sqliteNow (st_now (f 6))"
    and "st_now (f 6) \<le> st_now (f 7)"
  shows "(\<exists>r \<in> set (ldb_plans (sn_lifecycle s')). row_id r = se_planHex env \<and> row_session_id r = dp_AgentName deps @ ''-'' @ se_sessHex env) \<and>
    (\<exists>w \<in> set (ldb_wakes (sn_lifecycle s')). \<exists>r \<in> set (ldb_plans (sn_lifecycle s')).
       wk_plan_id w = row_id r \<and> row_session_id r = dp_AgentName deps @ ''-'' @ se_sessHex env) \<and>
    (\<exists>m \<in> set (ldb_manifests (sn_lifecycle s')). mr_plan_id m = se_planHex env \<and> mr_session_id m = dp_AgentName deps @ ''-'' @ se_sessHex env) \<and>
    SQLite_LastCheckpointState None (sn_lifecycle s') = Inr ''completed''"
proof -
  let ?plan = "sessionPlan env deps t (sn_lifecycle s)"
  have plan: "plan_ID ?plan = se_planHex env" "plan_SessionID ?plan = dp_AgentName deps @ ''-'' @ se_sessHex env"
    by (simp_all add: sessionPlan_def resolvePlan_def)
  obtain db1 db2 w m where 1: "sessionArtifacts env deps t (sn_lifecycle s) = (None, db1)" and 2: "db2 = db1\<lparr>ldb_manifests := ldb_manifests db1 @ [m]\<rparr>"
    and m: "mr_plan_id m = plan_ID ?plan" "mr_session_id m = plan_SessionID ?plan"
    and s': "sn_lifecycle s' = writeState deps 7 ''completed'' (w\<lparr>rw_sess := snd (End (se_endedAt env) (rw_sess w))\<rparr>) (writeState deps 6 ''active'' w db2)"
    and steps: "storeStep\<^sup>*\<^sup>* (sn_lifecycle s) db2" "ldb_checkpoints db2 = ldb_checkpoints (sn_lifecycle s)"
    using completed_parts [OF assms(1,3)] by metis
  obtain r v cs where r: "db1 = (sn_lifecycle s)\<lparr>ldb_plans := ldb_plans (sn_lifecycle s) @ [r], ldb_wakes := ldb_wakes (sn_lifecycle s) @ [v],
      ldb_config := ldb_config (sn_lifecycle s) @ cs\<rparr>" "row_id r = se_planHex env" "row_session_id r = dp_AgentName deps @ ''-'' @ se_sessHex env"
    and v: "\<exists>r' \<in> set (ldb_plans db1). row_session_id r' = dp_AgentName deps @ ''-'' @ se_sessHex env \<and> wk_plan_id v = row_id r'"
    using recordArtifacts_sqlite [OF assms(1), of env ?plan] 1 plan assms(4) unfolding sessionArtifacts_def by metis
  have "storeInv db2"
    using steps(1) assms(2) by (induction rule: rtranclp_induct) (auto intro: storeStep_inv)
  then have "SQLite_LastCheckpointState None (sn_lifecycle s') = Inr ''completed''"
    unfolding s' using assms(5-8) steps(2) by (intro final_checkpoint [OF assms(1)]) simp_all
  moreover have same: "ldb_plans (sn_lifecycle s') = ldb_plans db2" "ldb_wakes (sn_lifecycle s') = ldb_wakes db2" "ldb_manifests (sn_lifecycle s') = ldb_manifests db2"
    unfolding s' by (simp_all add: writeState_others [OF assms(1)])
  moreover have "r \<in> set (ldb_plans db2)" "v \<in> set (ldb_wakes db2)" "m \<in> set (ldb_manifests db2)" "ldb_plans db2 = ldb_plans db1"
    by (simp_all add: 2 r(1))
  ultimately show ?thesis
    using r(2,3) v m plan by auto
qed

section \<open>Identity in a session\<close>

text \<open>A phase that neither reads nor writes the identity database.\<close>

definition blind :: "assembleConfig \<Rightarrow> Phase \<Rightarrow> bool" where
  "blind cfg p \<longleftrightarrow> (\<forall>m r idb idb'. \<exists>out m'. ph_Assemble p cfg m r idb = (out, m', idb) \<and> ph_Assemble p cfg m r idb' = (out, m', idb'))"

fun withIdentity :: "identityDB \<Rightarrow> asmOut \<Rightarrow> asmOut" where
  "withIdentity i (AsmOk s) = AsmOk (s\<lparr>sx_idb := i\<rparr>)"
| "withIdentity i (AsmErr e j) = AsmErr e i"
| "withIdentity i (AsmPanic j) = AsmPanic i"

lemma runPhases_blind:
  "list_all (blind cfg) ps \<Longrightarrow> runPhases cfg ps (s\<lparr>sx_idb := i\<rparr>) = withIdentity i (runPhases cfg ps s)"
proof (induction ps arbitrary: s)
  case Nil
  show ?case by simp
next
  case (Cons p ps)
  obtain out m where ph: "ph_Assemble p cfg (sx_depth s) (sx_remaining s) (sx_idb s) = (out, m, sx_idb s)"
      "ph_Assemble p cfg (sx_depth s) (sx_remaining s) i = (out, m, i)"
    using Cons.prems unfolding list.pred_inject(2) blind_def by blast
  have IH: "runPhases cfg ps (t\<lparr>sx_idb := i\<rparr>) = withIdentity i (runPhases cfg ps t)" for t using Cons by simp
  have skip: "skipPhase p r (s\<lparr>sx_idb := i, sx_depth := d\<rparr>) = (skipPhase p r (s\<lparr>sx_depth := d\<rparr>))\<lparr>sx_idb := i\<rparr>"
    "skipPhase p r (s\<lparr>sx_depth := d, sx_idb := i\<rparr>) = (skipPhase p r (s\<lparr>sx_depth := d\<rparr>))\<lparr>sx_idb := i\<rparr>" for r d by (simp_all add: skipPhase_def)
  have charge: "chargePhase p res (s\<lparr>sx_depth := d, sx_idb := i\<rparr>) = (chargePhase p res (s\<lparr>sx_depth := d\<rparr>))\<lparr>sx_idb := i\<rparr>" for res d
    by (simp add: chargePhase_def)
  have same: "s\<lparr>sx_depth := d, sx_idb := sx_idb s\<rparr> = s\<lparr>sx_depth := d\<rparr>" for d by simp
  show ?case using ph by (cases out) (simp_all add: IH skip charge same del: asmState.update_convs)
qed

lemma blind_phases:
  "ac_witness cfg = w \<Longrightarrow> \<not> wc_HasAnchors w \<Longrightarrow> list_all (blind cfg) (DefaultPhases env)"
  by (auto simp: DefaultPhases_def blind_def IdentityPhase_def IdentityPhase_Assemble_def ContinuityPhase_def WorldModelPhase_def EchoPoolPhase_def
      IncomingPhase_def GroundingPhase_def Let_def split: option.split sum.split prod.split)

lemma Assemble_blind:
  assumes "sortsPhases srt" "a = NewContextAssembler aenv budget" "\<not> wc_HasAnchors (ac_witness cfg)"
  shows "Assemble srt env a cfg i = (fst (Assemble srt env a cfg j), i)"
proof -
  have ps: "srt (ca_phases a) = DefaultPhases aenv"
    using default_order [OF assms(1)] by (simp add: assms(2) NewContextAssembler_def)
  have "runPhases cfg (DefaultPhases aenv) (startState c i) = withIdentity i (runPhases cfg (DefaultPhases aenv) (startState c j))" for c
    using runPhases_blind [OF blind_phases [OF refl assms(3), of aenv], where s = "startState c j" and i = i] by (simp add: startState_def)
  then show ?thesis
    unfolding Assemble_cases ps by (cases "runPhases cfg (DefaultPhases aenv) (startState (ca_budget a * 4) j)") simp_all
qed

lemma runEngine_identity:
  "runEngine env deps t plan system w (s\<lparr>sn_identity := i\<rparr>) =
   (fst (runEngine env deps t plan system w s), (snd (runEngine env deps t plan system w s))\<lparr>sn_identity := i\<rparr>)"
  by (auto simp: runEngine_def finishSession_def Let_def split: option.split sum.split prod.split)

text \<open>
  C8. No session verifies the agent's identity. The runner never gives the assembler its anchors, so that the identity phase neither compares the
  documents with the recorded hashes nor enforces the witness letter: whatever the identity tables hold, a session runs in the same way and
  ends in the same way, and leaves those tables as they are.
\<close>

theorem session_ignores_identity_anchors:
  fixes s :: "'r sessState"
  assumes "sortsPhases (se_srt env)" and "RunSession env (NewContextAssembler aenv budget) deps t (s\<lparr>sn_identity := i\<rparr>) = (out, s')"
  shows "RunSession env (NewContextAssembler aenv budget) deps t (s\<lparr>sn_identity := j\<rparr>) = (out, s'\<lparr>sn_identity := j\<rparr>) \<and> sn_identity s' = i"
proof -
  let ?a = "NewContextAssembler aenv budget"
  have asm: "assembleAndRun env ?a deps t plan sess msg (u\<lparr>sn_identity := k\<rparr>) =
      (fst (assembleAndRun env ?a deps t plan sess msg u), (snd (assembleAndRun env ?a deps t plan sess msg u))\<lparr>sn_identity := k\<rparr>)" for plan sess msg u k
  proof -
    have anchors: "\<not> wc_HasAnchors (ac_witness (assembleConfigOf deps plan ns w))" for ns w by (simp add: assembleConfigOf_def)
    have "Assemble (se_srt env) (se_asm env) ?a (assembleConfigOf deps plan ns w) k =
        (fst (Assemble (se_srt env) (se_asm env) ?a (assembleConfigOf deps plan ns w) (sn_identity u)), k)"
      "snd (Assemble (se_srt env) (se_asm env) ?a (assembleConfigOf deps plan ns w) (sn_identity u)) = sn_identity u" for ns w
      using Assemble_blind [OF assms(1) refl anchors] by (blast, metis snd_conv)
    then show ?thesis
      unfolding assembleAndRun_def Let_def
      by (auto simp: runEngine_identity [symmetric] split: prod.split option.split sum.split)
  qed
  have order: "u\<lparr>sn_identity := k, sn_lifecycle := db\<rparr> = u\<lparr>sn_lifecycle := db, sn_identity := k\<rparr>" for u :: "'r sessState" and k db by simp
  have later: "assembleAndRun env ?a deps t plan sess msg (u\<lparr>sn_identity := k, sn_lifecycle := db\<rparr>) =
      (fst (assembleAndRun env ?a deps t plan sess msg (u\<lparr>sn_lifecycle := db\<rparr>)),
       (snd (assembleAndRun env ?a deps t plan sess msg (u\<lparr>sn_lifecycle := db\<rparr>)))\<lparr>sn_identity := k\<rparr>)" for plan sess msg u k db
    unfolding order by (rule asm)
  show ?thesis
    using assms(2) unfolding RunSession_def Let_def by (auto simp: later split: prod.splits option.splits)
qed

section \<open>Provenance and disclosure\<close>

lemma initialContent_contains: "tg_InboundContent t \<noteq> '''' \<Longrightarrow> strContains (initialContent t) (tg_InboundContent t)"
proof -
  assume "tg_InboundContent t \<noteq> ''''"
  then have "initialContent t = (''[inbound event]'' @ (if tg_InboundSender t \<noteq> '''' then newline @ ''from: '' @ tg_InboundSender t else '''') @
      (if tg_InboundChannel t \<noteq> '''' then newline @ ''channel: '' @ tg_InboundChannel t else '''') @ newline @ newline) @ tg_InboundContent t @ []"
    unfolding initialContent_def by (simp only: if_False append_assoc append_Nil2)
  then show ?thesis by (simp only: strContains_append)
qed


text \<open>\<open>HasChanged\<close> over the table, as SQLite answers its query.\<close>

definition lastHash :: "lifecycleDB \<Rightarrow> string queryRow" where
  "lastHash db = (case latestBy cfg_applied_at (ldb_config db) of None \<Rightarrow> NoRows | Some c \<Rightarrow> Row (cfg_policy_hash c))"


section \<open>A healthy session\<close>

lemma context_assembles:
  assumes "sortsPhases srt" and "\<not> wc_HasAnchors (ac_witness cfg)" and "LoadDocuments (ev_fs env) = Inr docs"
    and "ac_store cfg \<noteq> None \<or> ac_provider cfg = None"
  obtains ax where "Assemble srt env (NewContextAssembler env budget) cfg idb = (Some (Inr ax), idb)" "amf_ID (ax_Manifest ax) = ev_newid env"
proof -
  let ?a = "NewContextAssembler env budget"
  let ?ps = "[ContinuityPhase env, WorldModelPhase env, EchoPoolPhase env, IncomingPhase, GroundingPhase env]"
  obtain r where r: "identityOf env cfg idb = (Inr r, idb)"
    using assms(2,3) by (simp add: identityOf_def IdentityPhase_Assemble_def)
  have "list_all (\<lambda>p. calm cfg p \<and> \<not> ph_IsFatal p) ?ps"
    using assms(4) by (auto simp: calm_phases charged_phases [THEN charged_phase.not_fatal] embeds_def)
  from runPhases_nonfatal [OF this] obtain s where
    "runPhases cfg ?ps (identityRun env r (startState (ca_budget ?a * 4) idb) idb) = AsmOk s" by blast
  moreover have "srt (ca_phases ?a) = IdentityPhase env # ?ps"
    using default_order [OF assms(1), of env] by (simp add: NewContextAssembler_def DefaultPhases_def)
  moreover have "sx_idb (startState (ca_budget ?a * 4) idb) = idb" by (simp add: startState_def)
  ultimately have "\<exists>ax idb'. Assemble srt env ?a cfg idb = (Some (Inr ax), idb') \<and> amf_ID (ax_Manifest ax) = ev_newid env"
    using r unfolding Assemble_cases by (simp only: runPhases_identity) (simp del: runPhases.simps)
  moreover have "snd (Assemble srt env ?a cfg idb) = idb"
    using Assemble_blind [OF assms(1) refl assms(2), of env env budget idb idb] by (metis snd_conv)
  ultimately show thesis using that by (metis snd_conv)
qed

lemma artifacts_stored:
  assumes store: "dp_LifecycleStore deps = Some (\<lambda>k. NewSQLiteLifecycleStore (f k))" and "\<And>k. st_fault (f k) = None \<and> st_query (f k) = None"
    and "Read (se_decode env) (se_sha env) (se_policyPath env) (se_policyFile env) = Inr (p, h)"
    and "se_planHex env \<noteq> ''''" "se_planHex env \<notin> row_id ` set (ldb_plans db)"
    and "dp_AgentName deps @ ''-'' @ se_sessHex env \<notin> row_session_id ` set (ldb_plans db)"
  obtains db' where "sessionArtifacts env deps t db = (None, db')" "se_planHex env \<in> row_id ` set (ldb_plans db')" "ldb_manifests db' = ldb_manifests db"
proof -
  let ?plan = "sessionPlan env deps t db" and ?facts = "buildFacts env (tg_WakeReason t) (prevActivityAt env deps db)"
  have plan: "plan_ID ?plan = se_planHex env" "plan_SessionID ?plan = dp_AgentName deps @ ''-'' @ se_sessHex env" "plan_WakeCauseSecondary ?plan = None"
    by (simp_all add: sessionPlan_def resolvePlan_def resolve_unfold buildFacts_def)
  have "validPolicy p" using assms(3) by (auto simp: Read_Inr_iff zeroPolicy_valid toCanonical_valid)
  then have "validPlan (resolvePlan env deps p ?facts db)"
    unfolding resolvePlan_def by (rule Resolve_valid) (simp_all only: buildFacts_def Let_def WakeFacts.simps wakeReasonToCause_valid classifySeam_valid)
  moreover have "fst (readPolicy env deps db) = p" by (simp add: readPolicy_def assms(3))
  ultimately have "validPlan ?plan" by (simp add: sessionPlan_def validPlan_def)
  from recordPlan_valid [OF this plan(3), of db] plan(1) assms(4,5) obtain db1 where
    1: "recordPlan (st_newid (f 2)) (sqliteNow (st_now (f 2))) None (Some ?plan) db = (None, db1)"
      "se_planHex env \<in> row_id ` set (ldb_plans db1)" "ldb_manifests db1 = ldb_manifests db" by simp
  have gap: "\<exists>d prev. gf_GapClass (wf_GapFacts ?facts) = classifyGap d prev" "wf_TransitionContexts ?facts = []" by (auto simp: buildFacts_def Let_def)
  then obtain d prev where g: "gf_GapClass (wf_GapFacts ?facts) = classifyGap d prev" by blast
  have "plan_ID ?plan \<noteq> ''''" "plan_SessionID ?plan \<notin> row_session_id ` set (ldb_plans db)" using plan assms(4,6) by simp_all
  from wake_stored [OF 1(1) refl this g gap(2)] 1(2,3) obtain db2 where
    2: "recordWakeFacts True (st_marshalFacts (f 3)) (sqliteNow (st_now (f 3))) None None (plan_SessionID ?plan) (Some ?facts) db1 = (None, db2)"
      "se_planHex env \<in> row_id ` set (ldb_plans db2)" "ldb_manifests db2 = ldb_manifests db" by simp
  show thesis
    unfolding sessionArtifacts_def recordArtifacts_def store option.case
    by (rule that [of "if fst (sessionNote env deps db) = '''' then db2 else snd (ls_RecordDisclosure (NewSQLiteLifecycleStore (f 4)) (plan_SessionID ?plan)
          (se_policyPath env) (snd (readPolicy env deps db)) (snd (sessionNote env deps db)) (fst (sessionNote env deps db))
          (''workspace:'' @ se_policyPath env) (se_marshalPolicy env (fst (readPolicy env deps db))) db2)"])
       (simp_all add: sessionArtifacts_def recordArtifacts_def store sqlite_calls assms(2) 1 2 recordDisclosure_def violation_def)
qed

text \<open>Given an engine loop that returns a result, the session completes.\<close>

lemma session_completes:
  assumes store: "dp_LifecycleStore deps = Some (\<lambda>k. NewSQLiteLifecycleStore (f k))" and faults: "\<And>k. st_fault (f k) = None \<and> st_query (f k) = None"
    and policy: "Read (se_decode env) (se_sha env) (se_policyPath env) (se_policyFile env) = Inr (p, h)"
    and ids: "se_planHex env \<noteq> ''''" "se_planHex env \<notin> row_id ` set (ldb_plans (sn_lifecycle s))"
      "dp_AgentName deps @ ''-'' @ se_sessHex env \<notin> row_session_id ` set (ldb_plans (sn_lifecycle s))"
      "ev_newid (se_asm env) \<noteq> ''''" "ev_newid (se_asm env) \<notin> mr_id ` set (ldb_manifests (sn_lifecycle s))"
    and docs: "sortsPhases (se_srt env)" "LoadDocuments (ev_fs (se_asm env)) = Inr docs" "dp_MemoryStore deps \<noteq> None \<or> dp_EmbeddingProvider deps = None"
    and loop: "\<And>w system. \<exists>result st. RunLoop (sessionEngine env deps (dp_AgentName deps @ ''-'' @ se_sessHex env)) (se_loop env) (sessionRequest deps system t)
        sessionLoopConfig \<lparr> es_world = w, es_events = [], es_steering = [], es_followUp = [] \<rparr> = Some (Inr result, st)"
  shows "\<exists>s'. RunSession env (NewContextAssembler (se_asm env) budget) deps t s = (SessionOk, s')"
proof -
  let ?a = "NewContextAssembler (se_asm env) budget" and ?plan = "sessionPlan env deps t (sn_lifecycle s)"
  have plan: "plan_ID ?plan = se_planHex env" "plan_SessionID ?plan = dp_AgentName deps @ ''-'' @ se_sessHex env"
    by (simp_all add: sessionPlan_def resolvePlan_def)
  obtain db where db: "sessionArtifacts env deps t (sn_lifecycle s) = (None, db)" "se_planHex env \<in> row_id ` set (ldb_plans db)"
      "ldb_manifests db = ldb_manifests (sn_lifecycle s)"
    by (rule artifacts_stored [OF store faults policy ids(1-3)])
  have runs: "\<exists>s'. runEngine env deps t ?plan system w u = (SessionOk, s')" for system w u
  proof -
    obtain result st where "RunLoop (sessionEngine env deps (plan_SessionID ?plan)) (se_loop env) (sessionRequest deps system t) sessionLoopConfig
        \<lparr> es_world = persistInbound env deps (plan_SessionID ?plan) t w, es_events = [], es_steering = [], es_followUp = [] \<rparr> = Some (Inr result, st)"
      using loop unfolding plan(2) by blast
    moreover obtain out s' where "finishSession env deps ?plan (es_world st) u = (out, s')" by fastforce
    ultimately show ?thesis using finishSession_parts by (fastforce simp: runEngine_def Let_def)
  qed
  have asm: "\<exists>s'. assembleAndRun env ?a deps t ?plan sess msg (s\<lparr>sn_lifecycle := db\<rparr>) = (SessionOk, s')" for sess msg
  proof -
    define w where "w = \<lparr> rw_mem = sn_mem s, rw_budget = NewTokenBudget (dp_TokenBudget deps) (dp_HardFloorTokens deps), rw_sess = sess, rw_rest = sn_rest s \<rparr>"
    define ns where "ns = tg_InbandNotes t @ (if msg \<noteq> '''' then [msg] else [])"
    have "\<not> wc_HasAnchors (ac_witness (assembleConfigOf deps ?plan ns w))"
      "ac_store (assembleConfigOf deps ?plan ns w) \<noteq> None \<or> ac_provider (assembleConfigOf deps ?plan ns w) = None"
      using docs(3) by (auto simp: assembleConfigOf_def)
    from context_assembles [OF docs(1) this(1) docs(2) this(2)] obtain ax where
      ax: "Assemble (se_srt env) (se_asm env) ?a (assembleConfigOf deps ?plan ns w) (sn_identity s) = (Some (Inr ax), sn_identity s)"
        "amf_ID (ax_Manifest ax) = ev_newid (se_asm env)" by blast
    from Assemble_manifest [OF ax(1)] have "amf_PlanID (ax_Manifest ax) = se_planHex env" by (simp add: assembleConfigOf_def plan)
    then have "fst (ls_RecordManifest (NewSQLiteLifecycleStore (f 5)) (Some (ax_Manifest ax)) db) = None"
      using ax(2) ids(4,5) db(2,3) faults by (simp add: sqlite_calls recordManifest_def Let_def violation_def)
    then obtain db' where "ls_RecordManifest (NewSQLiteLifecycleStore (f 5)) (Some (ax_Manifest ax)) db = (None, db')"
      by (metis prod.collapse)
    with ax(1) runs show ?thesis
      unfolding assembleAndRun_def Let_def store by (simp add: w_def [symmetric] ns_def [symmetric])
  qed
  obtain out s' where run: "RunSession env ?a deps t s = (out, s')" by fastforce
  then show ?thesis
  proof (cases rule: RunSession_cases)
    case (refused e d)
    with db(1) show ?thesis by simp
  next
    case (recorded d sess)
    with db(1) have "d = db" by simp
    with recorded(4) asm [of sess "fst (sessionNote env deps (sn_lifecycle s))"] run show ?thesis by auto
  qed
qed

lemma T2Logger_succeeds:
  assumes "\<And>l db. fst (app l db) = None"
  shows "fst (T2Logger_Run app now turn db) = None"
proof -
  have ok: "app l db = (Some e, db') \<longleftrightarrow> False" for l db e db' using assms [of l db] by auto
  have "fst (logToolResults app turn now i rs db) = None" for i rs db
    by (induction rs arbitrary: i db) (auto simp: ok split: prod.split option.split)
  then show ?thesis by (auto simp: T2Logger_Run_def ok split: prod.split option.split)
qed

lemma sessionHooks_succeed:
  fixes s :: "'r runWorld engineState"
  assumes "\<And>m n l db. dp_MemoryStore deps = Some m \<Longrightarrow> fst (mst_append m n l db) = None"
  shows "fst (runHooks (sessionEngine env deps sid) turn s) = None"
proof -
  have log: "fst (T2LoggerHook (mst_append m n) nano turn w) = None" if "dp_MemoryStore deps = Some m" for m n nano and w :: "'r runWorld"
    using T2Logger_succeeds [of "mst_append m n"] assms [OF that] by (simp add: T2LoggerHook_def split: prod.split) (metis fst_conv)
  then have "T2LoggerHook (mst_append m n) nano turn w = (Some e, w') \<longleftrightarrow> False" if "dp_MemoryStore deps = Some m" for m n nano e and w w' :: "'r runWorld"
    using that by (metis fst_conv option.distinct(1))
  then show ?thesis
    by (auto simp: runHooks_def sessionEngine_def sessionHooks_def onWorld_def RegisterCritical_def Pipeline_Register_def BudgetMonitorHook_def
        RecordTurnHook_def Let_def split: option.split prod.split)
qed

lemma session_loop_returns:
  fixes deps :: "'r Dependencies" and w :: "'r runWorld"
  assumes model: "\<And>r w. \<exists>resp w'. dp_LLM deps r w = (Inr resp, w')"
    and memory: "\<And>m n l db. dp_MemoryStore deps = Some m \<Longrightarrow> fst (mst_append m n l db) = None"
  shows "\<exists>result st. RunLoop (sessionEngine env deps sid) (se_loop env) (sessionRequest deps system t) sessionLoopConfig
      \<lparr> es_world = w, es_events = [], es_steering = [], es_followUp = [] \<rparr> = Some (Inr result, st)"
proof -
  let ?e = "sessionEngine env deps sid" and ?req = "sessionRequest deps system t"
  let ?s = "\<lparr> es_world = w, es_events = [], es_steering = [], es_followUp = [] \<rparr>"
  let ?cfg = "wireConfig ?e sessionLoopConfig"
  have max: "0 < cf_MaxIterations ?cfg" by simp
  have "cf_SteeringChan ?cfg \<Longrightarrow> \<not> rv_steerClosed (se_loop env) i" for i by (simp add: sessionLoopConfig_def)
  from loop_returns [OF this max, where e = ?e and req = ?req and sys = "rq_System ?req" and h = "rq_Messages ?req" and s = "emit (EvSessionStart (int (length (rq_Tools ?req)))) ?s"]
  obtain r st where l: "loop ?e (se_loop env) ?cfg ?req 0 (rq_System ?req) (rq_Messages ?req) (emit (EvSessionStart (int (length (rq_Tools ?req)))) ?s) = Some (r, st)"
    by auto
  have "\<exists>resp w'. en_client ?e q v = (Inr resp, w')" for q v using model by (simp add: sessionEngine_def)
  from loop_succeeds [OF this sessionHooks_succeed [OF memory] l] l
  show ?thesis
    by (auto simp: RunLoop_def sessionLoopConfig_def)
qed


section \<open>Witnesses\<close>

text \<open>An agent whose model answers without calling a tool, on a new database, with one document and a policy file.\<close>

definition calmStore :: "nat \<Rightarrow> storeEnv" where
  "calmStore k = \<lparr> st_newid = ''x'', st_now = int k * second, st_query = None, st_fault = None, st_marshalFacts = (\<lambda>_. ''{}''),
     st_marshalList = (\<lambda>_. ''[]''), st_marshalMap = (\<lambda>_. ''{}''), st_readback = Inr \<rparr>"

definition quietDeps :: "unit Dependencies" where
  "quietDeps = \<lparr> dp_DB = True, dp_AgentName = ''athena'', dp_TokenBudget = 1000, dp_HardFloorTokens = 100, dp_SkipWitnessCheck = False,
     dp_LLM = (\<lambda>r w. (Inr sampleResponse, w)), dp_ToolRegistry = NewDefaultRegistry, dp_toolOrder = [],
     dp_LifecycleStore = Some (\<lambda>k. NewSQLiteLifecycleStore (calmStore k)), dp_AssemblyStore = True, dp_MemoryStore = None,
     dp_EmbeddingProvider = None, dp_Gateway = None, dp_JobStore = None, dp_jobStatus = Inr '''', dp_jobRunner = False, dp_supervisor = None \<rparr>"

definition quietEnv :: sessEnv where
  "quietEnv = \<lparr> se_policyPath = ''policy.toml'', se_policyFile = FileData ''mode'',
     se_decode = (\<lambda>_. Inr \<lparr> doc_TemporalMode = '''', doc_BridgePolicy = '''', doc_MetabolismPolicy = '''', doc_AssemblyProfile = '''' \<rparr>),
     se_sha = (\<lambda>_. ''h1''), se_rfc3339 = (\<lambda>_. ''now''), se_marshalPolicy = (\<lambda>_. ''{}''), se_hashRow = lastHash,
     se_lastPlans = (\<lambda>db. Some (ldb_plans db)), se_lastWake = (\<lambda>db. None), se_lastStates = (\<lambda>db. (Inr '''', Inr '''')), se_disclosedAt = 0,
     se_wakeAt = 0, se_startedAt = 0, se_endedAt = 0, se_planHex = ''p1'', se_sessHex = ''1'', se_inboundNano = 9, se_nano = (\<lambda>_. 9),
     se_srt = sort_key ph_Priority, se_asm = plainEnv, se_loop = sampleEnv False,
     se_codec = \<lparr> co_Unmarshal = (\<lambda>s. Inr None), co_Marshal = (\<lambda>a. Inr ''{}''), co_MarshalBlocked = (\<lambda>b. ''''), co_Duration = (\<lambda>d. '''') \<rparr>,
     se_jobid = ''j'', se_jobAt = 0, se_jobFault = None \<rparr>"

definition quietState :: "unit sessState" where
  "quietState = \<lparr> sn_lifecycle = emptyStore, sn_identity = bootedIdentity, sn_mem = sampleGraph, sn_rest = (), sn_jobs = [] \<rparr>"

definition mailTrigger :: SessionTrigger where
  "mailTrigger = \<lparr> tg_WakeReason = ''event'', tg_InboundContent = ''hello'', tg_InboundSender = ''ann'', tg_InboundChannel = ''email'',
     tg_InbandNotes = [], tg_AegisAnnotation = Some sampleAnnotation \<rparr>"

lemma quietDeps_store [simp]: "dp_LifecycleStore quietDeps = Some (\<lambda>k. NewSQLiteLifecycleStore (calmStore k))"
  by (simp add: quietDeps_def)

lemma quiet_docs: "\<exists>docs. LoadDocuments (ev_fs (se_asm quietEnv)) = Inr docs"
  by (simp add: quietEnv_def plainEnv_def LoadDocuments_def KnownDocs_def oneDoc_def)

lemma quiet_policy: "\<exists>p. Read (se_decode quietEnv) (se_sha quietEnv) (se_policyPath quietEnv) (se_policyFile quietEnv) = Inr (p, ''h1'')"
  by (simp add: quietEnv_def Read_def validate_def Let_def)

lemma quiet_parts:
  "st_fault (calmStore k) = None" "st_query (calmStore k) = None" "st_now (calmStore k) = int k * second" "se_planHex quietEnv = ''p1''" "se_sessHex quietEnv = ''1''"
  "dp_MemoryStore quietDeps = None" "dp_EmbeddingProvider quietDeps = None" "sortsPhases (se_srt quietEnv)" "sn_lifecycle quietState = emptyStore"
  "se_asm quietEnv = plainEnv" "se_hashRow quietEnv = lastHash" "dp_AgentName quietDeps = ''athena''" "dp_DB quietDeps" "ev_newid plainEnv = ''m1''"
  by (simp_all add: calmStore_def quietEnv_def quietDeps_def quietState_def sortsPhases_sort_key plainEnv_def)

lemma quiet_session: "\<exists>s'. RunSession quietEnv (NewContextAssembler plainEnv 0) quietDeps mailTrigger quietState = (SessionOk, s')"
proof -
  obtain p docs where "Read (se_decode quietEnv) (se_sha quietEnv) (se_policyPath quietEnv) (se_policyFile quietEnv) = Inr (p, ''h1'')"
    "LoadDocuments (ev_fs (se_asm quietEnv)) = Inr docs" using quiet_policy quiet_docs by blast
  note quiet = this
  have loop: "\<exists>result st. RunLoop (sessionEngine quietEnv quietDeps sid) (se_loop quietEnv) (sessionRequest quietDeps system mailTrigger) sessionLoopConfig
      \<lparr> es_world = w, es_events = [], es_steering = [], es_followUp = [] \<rparr> = Some (Inr result, st)" for w system sid
    by (rule session_loop_returns) (simp_all add: quietDeps_def)
  from session_completes [OF quietDeps_store _ quiet(1) _ _ _ _ _ _ quiet(2) _ loop, of quietState 0] show ?thesis
    by (simp add: quiet_parts emptyStore_def)
qed

lemma emptyStore_inv: "storeInv emptyStore"
  by (simp add: storeInv_def emptyStore_def)


theorem unfinished_session_leaves_no_trace_witness:
  "\<exists>e s'. RunSession quietEnv (NewContextAssembler plainEnv 0)
       (quietDeps\<lparr>dp_LifecycleStore := Some (\<lambda>k. NewSQLiteLifecycleStore ((calmStore k)\<lparr>st_fault := Some ''disk full''\<rparr>))\<rparr>) mailTrigger quietState =
       (SessionError e, s') \<and> storeInv (sn_lifecycle s') \<and> sn_jobs s' = [] \<and>
     SQLite_LastCheckpointState None (sn_lifecycle s') = SQLite_LastCheckpointState None emptyStore"
proof -
  let ?f = "\<lambda>k. (calmStore k)\<lparr>st_fault := Some ''disk full''\<rparr>"
  let ?deps = "quietDeps\<lparr>dp_LifecycleStore := Some (\<lambda>k. NewSQLiteLifecycleStore (?f k))\<rparr>"
  obtain out s' where run: "RunSession quietEnv (NewContextAssembler plainEnv 0) ?deps mailTrigger quietState = (out, s')" by fastforce
  have "\<exists>e db. sessionArtifacts quietEnv ?deps mailTrigger (sn_lifecycle quietState) = (Some e, db)"
    by (auto simp: sessionArtifacts_def recordArtifacts_def sqlite_calls recordPlan_def RecordPlan_def Let_def split: option.split sum.split)
  with run have "\<exists>e. out = SessionError e" by (cases rule: RunSession_cases) auto
  with unfinished_session_leaves_no_trace [OF _ _ run, of ?f] run show ?thesis
    by (auto simp: quietState_def emptyStore_inv)
qed

theorem postgres_session_never_runs_witness:
  "\<exists>e db. RunSession quietEnv (NewContextAssembler plainEnv 0)
       (quietDeps\<lparr>dp_LifecycleStore := Some (\<lambda>k. NewPostgresLifecycleStore False 0 (calmStore k))\<rparr>) mailTrigger quietState =
     (SessionError e, quietState\<lparr>sn_lifecycle := db\<rparr>) \<and> ldb_wakes db = []"
  using postgres_session_never_runs [of "quietDeps\<lparr>dp_LifecycleStore := Some (\<lambda>k. NewPostgresLifecycleStore False 0 (calmStore k))\<rparr>" False 0 calmStore
      quietEnv "NewContextAssembler plainEnv 0" mailTrigger quietState]
  by (simp add: quietState_def emptyStore_def)

theorem completed_session_is_on_record_witness:
  "\<exists>s'. RunSession quietEnv (NewContextAssembler plainEnv 0) quietDeps mailTrigger quietState = (SessionOk, s') \<and>
     ''p1'' \<in> row_id ` set (ldb_plans (sn_lifecycle s')) \<and> ldb_wakes (sn_lifecycle s') \<noteq> [] \<and>
     ''p1'' \<in> mr_plan_id ` set (ldb_manifests (sn_lifecycle s')) \<and> SQLite_LastCheckpointState None (sn_lifecycle s') = Inr ''completed''"
proof -
  obtain s' where run: "RunSession quietEnv (NewContextAssembler plainEnv 0) quietDeps mailTrigger quietState = (SessionOk, s')"
    using quiet_session by blast
  from completed_session_is_on_record [OF quietDeps_store _ run] run show ?thesis
    by (force simp: quiet_parts emptyStore_inv emptyStore_def [THEN arg_cong [where f = ldb_checkpoints]])
qed

theorem session_ignores_identity_anchors_witness:
  "\<exists>out s'. RunSession quietEnv (NewContextAssembler plainEnv 0) quietDeps mailTrigger (quietState\<lparr>sn_identity := bootedIdentity\<rparr>) = (out, s') \<and>
     RunSession quietEnv (NewContextAssembler plainEnv 0) quietDeps mailTrigger
       (quietState\<lparr>sn_identity := bootedIdentity\<lparr>idb_anchors := [\<lparr> an_doc_name = ''soul.md'', an_sha256_hash = ''#I was'', an_amendment_id = None \<rparr>]\<rparr>\<rparr>) =
       (out, s'\<lparr>sn_identity := bootedIdentity\<lparr>idb_anchors := [\<lparr> an_doc_name = ''soul.md'', an_sha256_hash = ''#I was'', an_amendment_id = None \<rparr>]\<rparr>\<rparr>)"
proof -
  obtain out s' where run: "RunSession quietEnv (NewContextAssembler plainEnv 0) quietDeps mailTrigger (quietState\<lparr>sn_identity := bootedIdentity\<rparr>) = (out, s')"
    by fastforce
  from session_ignores_identity_anchors [OF quiet_parts(8) run] run show ?thesis by blast
qed

text \<open>The same agent with a memory store.\<close>

definition plainMemory :: memoryStore where
  "plainMemory = \<lparr> mst_append = (\<lambda>n. AppendExperiential (\<lambda>t. ''1970-01-01T00:00:01Z'') 5 None),
     mst_view = (\<lambda>db. \<lparr> as_db = db, as_profiles = [], as_narrativeFault = None, as_reflectionFault = None, as_echoFault = None,
       as_entityFault = None, as_profileFault = None, as_edgeFault = (\<lambda>_. None), as_pointFault = (\<lambda>_. None) \<rparr>), mst_edges = False \<rparr>"



end
