(* ===== verification/Daemon.thy ===== *)
theory Daemon
  imports SessionRunner
begin

text \<open>
  The daemon, \<^verbatim>\<open>internal/daemon/daemon.go\<close> and \<^verbatim>\<open>wake.go\<close>: what it does at startup, how an inbound event passes the content gateway and the wake
  scheduler, and the sessions it starts. The event loop is a recursion over the events it receives before the channels close or the context is
  cancelled. The session runner and the gateway act on a world \<open>'w\<close>; their result is \<open>None\<close> when they panic, which ends the process. A regular
  expression is the predicate it compiles to.
\<close>

section \<open>Wake scheduler\<close>

record InboundEvent =
  ie_Channel :: string
  ie_SenderID :: string
  ie_SenderName :: string
  ie_Content :: string
  ie_ContentType :: string
  ie_ThreadID :: string
  ie_ReceivedAt :: time
  ie_WakeWorthy :: bool

record WakeCondition =
  wn_Channel :: string
  wn_Pattern :: string
  wn_Priority :: int

record WakeScheduler =
  ws_conditions :: "WakeCondition list"
  ws_compiled :: "(string \<Rightarrow> bool) option list"
  ws_scheduled :: "time list"
  ws_minTrust :: float64

definition NewWakeScheduler :: "(string \<Rightarrow> error + (string \<Rightarrow> bool)) \<Rightarrow> WakeCondition list \<Rightarrow> WakeScheduler" where
  "NewWakeScheduler compile conditions =
     \<lparr> ws_conditions = conditions, ws_compiled = map (\<lambda>c. case compile (wn_Pattern c) of Inl e \<Rightarrow> None | Inr re \<Rightarrow> Some re) conditions,
       ws_scheduled = [], ws_minTrust = fl (30 / 100) \<rparr>"

definition ShouldWake :: "WakeScheduler \<Rightarrow> InboundEvent \<Rightarrow> AegisAnnotation option \<Rightarrow> bool" where
  "ShouldWake ws ev annotation =
     (if (case annotation of None \<Rightarrow> False | Some a \<Rightarrow> \<not> aa_ScanPassed a \<or> aa_TrustScore a < ws_minTrust ws) then False
      else if ie_WakeWorthy ev then True
      else list_ex (\<lambda>(c, re). \<not> (wn_Channel c \<noteq> '''' \<and> wn_Channel c \<noteq> ie_Channel ev) \<and>
             (case re of None \<Rightarrow> False | Some m \<Rightarrow> m (ie_Content ev) \<and> wn_Priority c > 0))
             (zip (ws_conditions ws) (ws_compiled ws)))"

definition ScheduleWake :: "time \<Rightarrow> WakeScheduler \<Rightarrow> WakeScheduler" where
  "ScheduleWake t ws = ws\<lparr>ws_scheduled := ws_scheduled ws @ [t]\<rparr>"

fun nextWakeFrom :: "time \<Rightarrow> time option \<Rightarrow> time list \<Rightarrow> time option" where
  "nextWakeFrom now earliest [] = earliest"
| "nextWakeFrom now earliest (t # ts) =
     nextWakeFrom now (if t > now \<and> (case earliest of None \<Rightarrow> True | Some e \<Rightarrow> t < e) then Some t else earliest) ts"

definition NextWake :: "time \<Rightarrow> WakeScheduler \<Rightarrow> time option" where
  "NextWake now ws = nextWakeFrom now None (ws_scheduled ws)"

section \<open>Daemon\<close>

record 'w Daemon =
  dm_runner :: "SessionTrigger \<Rightarrow> 'w \<Rightarrow> (error option \<times> 'w) option"
  dm_channels :: "string list option"           \<comment> \<open>\<open>registry.List()\<close>, \<open>None\<close> when the registry is nil\<close>
  dm_gateway :: "(string \<Rightarrow> string \<Rightarrow> string \<Rightarrow> 'w \<Rightarrow> ((error + AnnotatedContent) \<times> 'w) option) option"
  dm_waker :: "WakeScheduler option"
  dm_lifecycleStore :: "(time \<Rightarrow> 'w \<Rightarrow> (error + int) \<times> 'w) option"   \<comment> \<open>\<open>InterruptStaleCheckpoints\<close>\<close>
  dm_recover :: "(int \<Rightarrow> 'w \<Rightarrow> (error + int) \<times> 'w) option"            \<comment> \<open>\<open>supervisor.Recover\<close>\<close>
  dm_drain :: "'w \<Rightarrow> 'w"                          \<comment> \<open>\<open>supervisor.Drain\<close>, whose result is only logged\<close>

definition contentSourceForChannel :: "string \<Rightarrow> string" where
  "contentSourceForChannel name =
     (if name = ''discord'' then ''discord''
      else if name = ''agora'' \<or> name = ''commons'' then ''forum-content''
      else if name = ''cli'' then ''operator''
      else ''tool-result'')"

definition scanInterruptedSessions :: "time \<Rightarrow> 'w Daemon \<Rightarrow> 'w \<Rightarrow> string list \<times> 'w" where
  "scanInterruptedSessions now d w =
     (case dm_lifecycleStore d of
        None \<Rightarrow> ([], w)
      | Some scan \<Rightarrow>
          (case scan (now - 10 * minute) w of
             (Inl e, w) \<Rightarrow> ([], w)
           | (Inr n, w) \<Rightarrow>
               if n = 0 then ([], w)
               else ([''[session interrupted] '' @ itoa n @ '' session(s) were interrupted before this wake; '' @
                      ''their records up to the interruption point are intact.''], w)))"

definition recoverMetabolismJobs :: "'w Daemon \<Rightarrow> 'w \<Rightarrow> 'w" where
  "recoverMetabolismJobs d w = (case dm_recover d of None \<Rightarrow> w | Some rec \<Rightarrow> snd (rec 3 w))"

definition eventTrigger :: "InboundEvent \<Rightarrow> AnnotatedContent \<Rightarrow> string list \<Rightarrow> SessionTrigger" where
  "eventTrigger ev ac notes =
     \<lparr> tg_WakeReason = ''channel:'' @ ie_Channel ev, tg_InboundContent = ac_Normalized ac, tg_InboundSender = ie_SenderName ev,
       tg_InboundChannel = ie_Channel ev, tg_InbandNotes = notes, tg_AegisAnnotation = Some (ac_Annotation ac) \<rparr>"

definition handleEvent :: "'w Daemon \<Rightarrow> InboundEvent \<Rightarrow> string list \<Rightarrow> 'w \<Rightarrow> 'w option" where
  "handleEvent d ev inbandNotes w =
     (case dm_gateway d of
        None \<Rightarrow> None
      | Some gw \<Rightarrow>
          (case gw (ie_Content ev) (ie_Channel ev) (contentSourceForChannel (ie_Channel ev)) w of
             None \<Rightarrow> None
           | Some (Inl e, w) \<Rightarrow> Some w
           | Some (Inr ac, w) \<Rightarrow>
               if (case dm_waker d of None \<Rightarrow> True | Some ws \<Rightarrow> \<not> ShouldWake ws ev (Some (ac_Annotation ac))) then Some w
               else map_option snd (dm_runner d (eventTrigger ev ac inbandNotes) w)))"

text \<open>\<open>ended\<close> is what ends the loop: the closed channels (\<open>None\<close>) or the error of the context.\<close>

fun eventLoop :: "'w Daemon \<Rightarrow> string list \<Rightarrow> error option \<Rightarrow> bool \<Rightarrow> InboundEvent list \<Rightarrow> 'w \<Rightarrow> (error option \<times> 'w) option" where
  "eventLoop d startupNotes ended firstWake [] w = Some (ended, dm_drain d w)"
| "eventLoop d startupNotes ended firstWake (ev # evs) w =
     (case handleEvent d ev (if firstWake then startupNotes else []) w of
        None \<Rightarrow> None
      | Some w \<Rightarrow> eventLoop d startupNotes ended False evs w)"

definition startupTrigger :: "string list \<Rightarrow> SessionTrigger" where
  "startupTrigger notes = \<lparr> tg_WakeReason = ''daemon-startup'', tg_InboundContent = '''', tg_InboundSender = '''', tg_InboundChannel = '''',
     tg_InbandNotes = notes, tg_AegisAnnotation = None \<rparr>"

definition Daemon_Run :: "time \<Rightarrow> error option \<Rightarrow> error option \<Rightarrow> InboundEvent list \<Rightarrow> 'w Daemon \<Rightarrow> 'w \<Rightarrow> (error option \<times> 'w) option" where
  "Daemon_Run now startErr ended events d w =
     (let w = recoverMetabolismJobs d w;
          (startupNotes, w) = scanInterruptedSessions now d w
      in if (case dm_channels d of None \<Rightarrow> True | Some cs \<Rightarrow> cs = []) \<or> startErr \<noteq> None
         then map_option (\<lambda>(e, w). (e, dm_drain d w)) (dm_runner d (startupTrigger startupNotes) w)
         else eventLoop d startupNotes ended True events w)"

section \<open>Lemmas\<close>

lemma handleEvent_cases:
  assumes "handleEvent d ev notes w = Some w'"
  obtains (quiet) gw res where "dm_gateway d = Some gw" "gw (ie_Content ev) (ie_Channel ev) (contentSourceForChannel (ie_Channel ev)) w = Some (res, w')"
  | (woken) gw ac w1 ws e where "dm_gateway d = Some gw"
      "gw (ie_Content ev) (ie_Channel ev) (contentSourceForChannel (ie_Channel ev)) w = Some (Inr ac, w1)"
      "dm_waker d = Some ws" "ShouldWake ws ev (Some (ac_Annotation ac))" "dm_runner d (eventTrigger ev ac notes) w1 = Some (e, w')"
  using assms unfolding handleEvent_def by (auto split: option.splits sum.splits if_splits prod.splits)

lemma ShouldWake_screened:
  "ShouldWake ws ev (Some a) \<Longrightarrow> aa_ScanPassed a \<and> ws_minTrust ws \<le> aa_TrustScore a"
  by (auto simp: ShouldWake_def split: if_splits)

lemma eventLoop_later_notes: "eventLoop d notes ended False evs w = eventLoop d [] ended False evs w"
  by (induction evs arbitrary: w) (auto split: option.split)

lemma nextWakeFrom_least:
  "case nextWakeFrom now earliest ts of
     None \<Rightarrow> earliest = None \<and> (\<forall>t \<in> set ts. \<not> now < t)
   | Some e \<Rightarrow> (earliest = Some e \<or> e \<in> set ts \<and> now < e) \<and> (\<forall>t \<in> set ts. now < t \<longrightarrow> e \<le> t) \<and> (\<forall>t. earliest = Some t \<longrightarrow> e \<le> t)"
proof (induction ts arbitrary: earliest)
  case Nil
  show ?case by (simp split: option.split)
next
  case (Cons t ts)
  show ?case
  proof (cases "t > now \<and> (case earliest of None \<Rightarrow> True | Some e \<Rightarrow> t < e)")
    case True
    then show ?thesis using Cons.IH [of "Some t"] by (force split: option.splits)
  next
    case False
    then show ?thesis using Cons.IH [of earliest] by (force split: option.splits)
  qed
qed


section \<open>The sessions a daemon starts\<close>

text \<open>The daemon with a record of the triggers it hands to the session runner.\<close>

definition traced :: "'w Daemon \<Rightarrow> ('w \<times> SessionTrigger list) Daemon" where
  "traced d = \<lparr> dm_runner = (\<lambda>t (w, ts). map_option (\<lambda>(e, w'). (e, (w', ts @ [t]))) (dm_runner d t w)),
     dm_channels = dm_channels d,
     dm_gateway = map_option (\<lambda>gw c ch cs (w, ts). map_option (\<lambda>(r, w'). (r, (w', ts))) (gw c ch cs w)) (dm_gateway d),
     dm_waker = dm_waker d,
     dm_lifecycleStore = map_option (\<lambda>scan cutoff (w, ts). case scan cutoff w of (r, w') \<Rightarrow> (r, (w', ts))) (dm_lifecycleStore d),
     dm_recover = map_option (\<lambda>rec n (w, ts). case rec n w of (r, w') \<Rightarrow> (r, (w', ts))) (dm_recover d),
     dm_drain = (\<lambda>(w, ts). (dm_drain d w, ts)) \<rparr>"

lemma traced_sel [simp]:
  "dm_channels (traced d) = dm_channels d" "dm_waker (traced d) = dm_waker d" "dm_drain (traced d) (w, ts) = (dm_drain d w, ts)"
  "dm_runner (traced d) t (w, ts) = map_option (\<lambda>(e, w'). (e, (w', ts @ [t]))) (dm_runner d t w)"
  by (simp_all add: traced_def)

text \<open>An event either starts no session or one session, with the trigger made of its screened content.\<close>

lemma handleEvent_traced:
  assumes "handleEvent (traced d) ev notes (w, ts) = Some (w', ts')"
  obtains (quiet) gw res where "dm_gateway d = Some gw" "gw (ie_Content ev) (ie_Channel ev) (contentSourceForChannel (ie_Channel ev)) w = Some (res, w')" "ts' = ts"
  | (woken) gw ac w1 ws e where "dm_gateway d = Some gw"
      "gw (ie_Content ev) (ie_Channel ev) (contentSourceForChannel (ie_Channel ev)) w = Some (Inr ac, w1)"
      "dm_waker d = Some ws" "ShouldWake ws ev (Some (ac_Annotation ac))" "dm_runner d (eventTrigger ev ac notes) w1 = Some (e, w')"
      "ts' = ts @ [eventTrigger ev ac notes]"
  using assms
proof (cases rule: handleEvent_cases)
  case (quiet gw res)
  then show thesis by (auto simp: traced_def intro: that(1))
next
  case (woken gw ac v ws e)
  obtain w1 us where v: "v = (w1, us)" by fastforce
  obtain g where g: "dm_gateway d = Some g" using woken(1) by (auto simp: traced_def)
  have "g (ie_Content ev) (ie_Channel ev) (contentSourceForChannel (ie_Channel ev)) w = Some (Inr ac, w1)" "us = ts"
    using woken(1,2) g v by (auto simp: traced_def)
  with woken(3-5) v show thesis by (intro that(2) [OF g]) auto
qed

lemma scan_traced: "\<exists>w'. scanInterruptedSessions now (traced d) (w, ts) = (fst (scanInterruptedSessions now d w), (w', ts))"
  by (auto simp: scanInterruptedSessions_def traced_def split: option.split prod.split sum.split)

lemma recover_traced: "recoverMetabolismJobs (traced d) (w, ts) = (recoverMetabolismJobs d w, ts)"
  by (auto simp: recoverMetabolismJobs_def traced_def split: option.split prod.split)

text \<open>What holds of every session of an event holds of every session of the loop.\<close>

lemma eventLoop_triggers:
  assumes "eventLoop (traced d) notes ended first evs (w, ts) = Some (r, (w', ts'))"
    and "\<And>ev ns w ts w' ts' t. ev \<in> set evs \<Longrightarrow> ns \<in> {[], notes} \<Longrightarrow> handleEvent (traced d) ev ns (w, ts) = Some (w', ts') \<Longrightarrow>
      t \<in> set ts' - set ts \<Longrightarrow> P t"
  shows "\<forall>t \<in> set ts' - set ts. P t"
  using assms
proof (induction evs arbitrary: first w ts)
  case (Cons ev evs)
  from Cons.prems(1) obtain w1 ts1 where h: "handleEvent (traced d) ev (if first then notes else []) (w, ts) = Some (w1, ts1)"
    and l: "eventLoop (traced d) notes ended False evs (w1, ts1) = Some (r, (w', ts'))" by (auto split: option.splits)
  have "\<forall>t \<in> set ts1 - set ts. P t" using Cons.prems(2) [OF _ _ h] by auto
  moreover have "\<forall>t \<in> set ts' - set ts1. P t" using Cons.IH [OF l] Cons.prems(2) by (meson list.set_intros(2))
  ultimately show ?case by blast
qed simp

section \<open>Properties\<close>

text \<open>
  C9. Only screened content starts a session. Over a whole run of the daemon, whatever the runner, the gateway and the stores do, every session
  is either the one-shot session of a daemon without channels, which carries no inbound content, or belongs to an event that was received: its
  content is what the gateway returned for that event, with the annotation of it, whose scan passed and whose trust is at least the threshold.
\<close>

theorem started_sessions_are_screened:
  assumes "Daemon_Run now startErr ended events (traced d) (w, []) = Some (r, (w', ts))" and "dm_waker d = Some ws" and "t \<in> set ts"
  shows "tg_WakeReason t = ''daemon-startup'' \<and> tg_InboundContent t = '''' \<or>
    (\<exists>ev \<in> set events. \<exists>gw ac v v'. dm_gateway d = Some gw \<and>
       gw (ie_Content ev) (ie_Channel ev) (contentSourceForChannel (ie_Channel ev)) v = Some (Inr ac, v') \<and>
       tg_InboundContent t = ac_Normalized ac \<and> tg_InboundChannel t = ie_Channel ev \<and> tg_AegisAnnotation t = Some (ac_Annotation ac) \<and>
       aa_ScanPassed (ac_Annotation ac) \<and> ws_minTrust ws \<le> aa_TrustScore (ac_Annotation ac))"
proof -
  obtain w1 where s: "scanInterruptedSessions now (traced d) (recoverMetabolismJobs (traced d) (w, [])) =
      (fst (scanInterruptedSessions now d (recoverMetabolismJobs d w)), (w1, []))"
    using scan_traced [of now d "recoverMetabolismJobs d w" "[]"] unfolding recover_traced by blast
  let ?notes = "fst (scanInterruptedSessions now d (recoverMetabolismJobs d w))"
  show ?thesis
  proof (cases "(case dm_channels d of None \<Rightarrow> True | Some cs \<Rightarrow> cs = []) \<or> startErr \<noteq> None")
    case True
    with assms(1) s have "ts = [startupTrigger ?notes]" by (auto simp: Daemon_Run_def)
    with assms(3) show ?thesis by (simp add: startupTrigger_def)
  next
    case False
    with assms(1) s have l: "eventLoop (traced d) ?notes ended True events (w1, []) = Some (r, (w', ts))" by (simp add: Daemon_Run_def)
    let ?P = "\<lambda>t. \<exists>ev \<in> set events. \<exists>gw ac v v'. dm_gateway d = Some gw \<and>
       gw (ie_Content ev) (ie_Channel ev) (contentSourceForChannel (ie_Channel ev)) v = Some (Inr ac, v') \<and>
       tg_InboundContent t = ac_Normalized ac \<and> tg_InboundChannel t = ie_Channel ev \<and> tg_AegisAnnotation t = Some (ac_Annotation ac) \<and>
       aa_ScanPassed (ac_Annotation ac) \<and> ws_minTrust ws \<le> aa_TrustScore (ac_Annotation ac)"
    have "\<forall>t \<in> set ts - set []. ?P t"
    proof (rule eventLoop_triggers [OF l])
      fix ev ns w us w' us' t
      assume ev: "ev \<in> set events" and h: "handleEvent (traced d) ev ns (w, us) = Some (w', us')" and "t \<in> set us' - set us"
      from h show "?P t"
      proof (cases rule: handleEvent_traced)
        case (woken gw ac w1 ws' e)
        with assms(2) \<open>t \<in> set us' - set us\<close> have "t = eventTrigger ev ac ns" "ShouldWake ws ev (Some (ac_Annotation ac))" by auto
        with ShouldWake_screened [OF this(2)] woken(1,2) show ?thesis
          by (intro bexI [OF _ ev] exI [of _ gw] exI [of _ ac] exI [of _ w] exI [of _ w1]) (simp add: eventTrigger_def)
      qed (use \<open>t \<in> set us' - set us\<close> in simp)
    qed
    with assms(3) show ?thesis by simp
  qed
qed

text \<open>
  The report of an interruption is lost when the first event does not wake the agent. With channels, the notes of the startup scan go to the first
  event received; if that one is declined, no session of the run is told of the interruption.
\<close>

theorem interruption_note_is_lost:
  assumes "Daemon_Run now None ended (ev # evs) (traced d) (w, []) = Some (r, (w', ts))" and "dm_channels d = Some (c # cs)"
    and "dm_waker d = Some ws" and "dm_gateway d = Some gw"
    and "\<And>v res v'. gw (ie_Content ev) (ie_Channel ev) (contentSourceForChannel (ie_Channel ev)) v = Some (res, v') \<Longrightarrow>
      (case res of Inl e \<Rightarrow> True | Inr ac \<Rightarrow> \<not> ShouldWake ws ev (Some (ac_Annotation ac)))"
    and "t \<in> set ts"
  shows "tg_InbandNotes t = []"
proof -
  obtain w1 where s: "scanInterruptedSessions now (traced d) (recoverMetabolismJobs (traced d) (w, [])) =
      (fst (scanInterruptedSessions now d (recoverMetabolismJobs d w)), (w1, []))"
    using scan_traced [of now d "recoverMetabolismJobs d w" "[]"] unfolding recover_traced by blast
  let ?notes = "fst (scanInterruptedSessions now d (recoverMetabolismJobs d w))"
  from assms(1,2) s obtain w2 ts2 where h: "handleEvent (traced d) ev ?notes (w1, []) = Some (w2, ts2)"
    and l: "eventLoop (traced d) ?notes ended False evs (w2, ts2) = Some (r, (w', ts))"
    by (auto simp: Daemon_Run_def split: option.splits)
  from h have "ts2 = []"
  proof (cases rule: handleEvent_traced)
    case (woken g ac v ws' e)
    with assms(3,4) assms(5) [of w1 "Inr ac" v] show ?thesis by simp
  qed simp
  with l have "eventLoop (traced d) [] ended False evs (w2, []) = Some (r, (w', ts))" by (simp only: eventLoop_later_notes [of _ ?notes])
  then have "\<forall>t \<in> set ts - set []. tg_InbandNotes t = []"
  proof (rule eventLoop_triggers)
    fix ev ns w us w' us' t
    assume new: "ns \<in> {[], []}" "t \<in> set us' - set us" and h: "handleEvent (traced d) ev ns (w, us) = Some (w', us')"
    from h show "tg_InbandNotes t = []" by (cases rule: handleEvent_traced) (use new in \<open>auto simp: eventTrigger_def\<close>)
  qed
  with assms(6) show ?thesis by simp
qed

text \<open>
  With the repository's own trust scorer the trust threshold decides nothing. In a registry in which every source has the skeptical prior, which is the only
  content a registry ever has, an event wakes the agent exactly when its scan passed and it is wake worthy or matches a condition.
\<close>

theorem wake_decision_is_the_scan:
  assumes "\<And>k s n. tab k = Some (s, n) \<Longrightarrow> s = fl (40 / 100)"
    and "ProcessInbound nfkc lowerRune now (Score (SQLite_GetTrust f) (SQLite_UpdateTrust g) (SQLite_IncrementInteractions h) DefaultTrustConfig)
           (tc_SkepticalPrior DefaultTrustConfig) (ie_Content ev) (ie_Channel ev) csource tab = Some (ac, tab')"
  shows "ShouldWake (NewWakeScheduler compile conds) ev (Some (ac_Annotation ac)) \<longleftrightarrow>
    aa_ScanPassed (ac_Annotation ac) \<and>
    (ie_WakeWorthy ev \<or> (\<exists>c \<in> set conds. wn_Channel c \<in> {'''', ie_Channel ev} \<and> wn_Priority c > 0 \<and> (\<exists>re. compile (wn_Pattern c) = Inr re \<and> re (ie_Content ev))))"
proof -
  let ?score = "Score (SQLite_GetTrust f) (SQLite_UpdateTrust g) (SQLite_IncrementInteractions h) DefaultTrustConfig"
  have prior: "fst (fst (?score (ie_Channel ev) flags tab)) = (if f = None then penalise flags (fl (40 / 100)) else fl (40 / 100))" for flags :: "PatternMatch list"
    by (rule sqlite_trust.Score_returns_prior) (fact assms(1) default_skeptical default_prior)+
  have clean: "x = fl (40 / 100)" if "?score (ie_Channel ev) ([] :: PatternMatch list) tab = ((x, e), t)" for x e t
    using prior [of "[]"] unfolding that by simp
  have trust: "fl (30 / 100) \<le> aa_TrustScore (ac_Annotation ac)" if "aa_ScanPassed (ac_Annotation ac)"
  proof -
    have "aa_TrustScore (ac_Annotation ac) = fl (40 / 100)"
      using assms(2) that by (auto simp: ProcessInbound_def default_skeptical Let_def split: option.splits prod.splits if_splits dest: clean [simplified])
    then show ?thesis using fl_mono [of "30 / 100" "40 / 100"] by simp
  qed
  have "list_ex (\<lambda>(c, re). \<not> (wn_Channel c \<noteq> '''' \<and> wn_Channel c \<noteq> ie_Channel ev) \<and> (case re of None \<Rightarrow> False | Some m \<Rightarrow> m (ie_Content ev) \<and> wn_Priority c > 0))
      (zip conds (map (\<lambda>c. case compile (wn_Pattern c) of Inl e \<Rightarrow> None | Inr re \<Rightarrow> Some re) conds)) \<longleftrightarrow>
    (\<exists>c \<in> set conds. wn_Channel c \<in> {'''', ie_Channel ev} \<and> wn_Priority c > 0 \<and> (\<exists>re. compile (wn_Pattern c) = Inr re \<and> re (ie_Content ev)))"
    by (induction conds) (auto split: sum.splits option.splits)
  with trust show ?thesis
    by (cases "aa_ScanPassed (ac_Annotation ac)") (simp_all add: ShouldWake_def NewWakeScheduler_def not_less)
qed

text \<open>
  \<open>NextWake\<close> is the earliest scheduled time that is still to come, and there is none exactly when no scheduled time is.
\<close>

theorem next_wake_is_earliest:
  "NextWake now ws = (let S = {t \<in> set (ws_scheduled ws). now < t} in if S = {} then None else Some (Min S))"
proof (cases "NextWake now ws")
  case None
  with nextWakeFrom_least [where now = now and earliest = None and ts = "ws_scheduled ws"] show ?thesis by (auto simp: NextWake_def)
next
  case (Some e)
  with nextWakeFrom_least [where now = now and earliest = None and ts = "ws_scheduled ws"] have "e \<in> {t \<in> set (ws_scheduled ws). now < t}"
    "\<And>t. t \<in> {t \<in> set (ws_scheduled ws). now < t} \<Longrightarrow> e \<le> t" by (auto simp: NextWake_def)
  then have "Min {t \<in> set (ws_scheduled ws). now < t} = e" by (intro Min_eqI) simp_all
  with Some \<open>e \<in> _\<close> show ?thesis by (auto simp: Let_def)
qed

section \<open>Witnesses\<close>

definition mailEvent :: "string \<Rightarrow> InboundEvent" where
  "mailEvent content = \<lparr> ie_Channel = ''discord'', ie_SenderID = ''7'', ie_SenderName = ''ann'', ie_Content = content, ie_ContentType = ''text'',
     ie_ThreadID = '''', ie_ReceivedAt = 0, ie_WakeWorthy = False \<rparr>"

text \<open>A daemon on one channel, that finds two interrupted sessions; its gateway fails on one content.\<close>

definition sampleDaemon :: "unit Daemon" where
  "sampleDaemon = \<lparr> dm_runner = (\<lambda>t w. Some (None, w)), dm_channels = Some [''discord''],
     dm_gateway = Some (\<lambda>c ch cs w. Some (if c = ''bad'' then Inl ''down'' else NoOp_ProcessInbound 0 c ch cs, w)),
     dm_waker = Some (NewWakeScheduler (\<lambda>p. Inr (\<lambda>c. True)) [\<lparr> wn_Channel = ''discord'', wn_Pattern = ''.*'', wn_Priority = 1 \<rparr>]),
     dm_lifecycleStore = Some (\<lambda>cutoff w. (Inr 2, w)), dm_recover = None, dm_drain = (\<lambda>w. w) \<rparr>"

lemma prior_wakes: "\<not> fl (2 / 5) < fl (3 / 10)"
  using fl_mono [of "3 / 10" "2 / 5"] by simp

lemma mail_started:
  "handleEvent (traced sampleDaemon) (mailEvent ''hi'') ns ((), ts) = Some ((), ts @ [eventTrigger (mailEvent ''hi'') (projr (NoOp_ProcessInbound 0 ''hi'' ''discord'' ''discord'')) ns])"
  by (simp add: handleEvent_def traced_def sampleDaemon_def mailEvent_def NoOp_ProcessInbound_def ShouldWake_def NewWakeScheduler_def prior_wakes
      contentSourceForChannel_def)

lemma sample_scan: "scanInterruptedSessions 0 (traced sampleDaemon) ((), []) =
    ([''[session interrupted] '' @ itoa 2 @ '' session(s) were interrupted before this wake; '' @ ''their records up to the interruption point are intact.''], ((), []))"
  by (simp add: scanInterruptedSessions_def traced_def sampleDaemon_def)

lemma sample_parts:
  "recoverMetabolismJobs (traced sampleDaemon) w = w" "dm_channels sampleDaemon = Some [''discord'']" "dm_drain (traced sampleDaemon) w = w"
  by (simp_all add: recoverMetabolismJobs_def traced_def sampleDaemon_def split: prod.split)

theorem started_sessions_are_screened_witness:
  "\<exists>t. Daemon_Run 0 None None [mailEvent ''hi''] (traced sampleDaemon) ((), []) = Some (None, ((), [t])) \<and>
     (tg_WakeReason t = ''daemon-startup'' \<or> fl (30 / 100) \<le> aa_TrustScore (the (tg_AegisAnnotation t)))"
proof -
  obtain t where run: "Daemon_Run 0 None None [mailEvent ''hi''] (traced sampleDaemon) ((), []) = Some (None, ((), [t]))"
    by (simp add: Daemon_Run_def sample_parts sample_scan mail_started)
  have "dm_waker sampleDaemon = Some (NewWakeScheduler (\<lambda>p. Inr (\<lambda>c. True)) [\<lparr> wn_Channel = ''discord'', wn_Pattern = ''.*'', wn_Priority = 1 \<rparr>])"
    by (simp add: sampleDaemon_def)
  from started_sessions_are_screened [OF run this, of t] run show ?thesis by (auto simp: NewWakeScheduler_def)
qed

theorem interruption_note_is_lost_witness:
  "\<exists>t. Daemon_Run 0 None None [mailEvent ''bad'', mailEvent ''hi''] (traced sampleDaemon) ((), []) = Some (None, ((), [t])) \<and>
     fst (scanInterruptedSessions 0 (traced sampleDaemon) ((), [])) \<noteq> [] \<and> tg_InbandNotes t = []"
proof -
  have bad: "handleEvent (traced sampleDaemon) (mailEvent ''bad'') ns ((), ts) = Some ((), ts)" for ns ts
    by (simp add: handleEvent_def traced_def sampleDaemon_def mailEvent_def)
  obtain t where run: "Daemon_Run 0 None None [mailEvent ''bad'', mailEvent ''hi''] (traced sampleDaemon) ((), []) = Some (None, ((), [t]))"
    by (simp add: Daemon_Run_def sample_parts sample_scan mail_started bad)
  let ?gw = "\<lambda>c ch cs w. Some (if c = ''bad'' then Inl ''down'' else NoOp_ProcessInbound 0 c ch cs, w)"
  let ?ws = "NewWakeScheduler (\<lambda>p. Inr (\<lambda>c. True)) [\<lparr> wn_Channel = ''discord'', wn_Pattern = ''.*'', wn_Priority = 1 \<rparr>]"
  have parts: "dm_channels sampleDaemon = Some [''discord'']" "dm_gateway sampleDaemon = Some ?gw" "dm_waker sampleDaemon = Some ?ws"
    by (simp_all add: sampleDaemon_def)
  from interruption_note_is_lost [OF run parts(1,3,2), of t] run sample_scan show ?thesis by (simp add: mailEvent_def)
qed

theorem wake_decision_is_the_scan_witness:
  "\<exists>ac tab'. ProcessInbound (\<lambda>s. s) (\<lambda>r. r) 0 (Score (SQLite_GetTrust None) (SQLite_UpdateTrust None) (SQLite_IncrementInteractions None) DefaultTrustConfig)
       (tc_SkepticalPrior DefaultTrustConfig) (ie_Content (mailEvent ''hi'')) (ie_Channel (mailEvent ''hi'')) ''discord'' Map.empty = Some (ac, tab') \<and>
     (ShouldWake (NewWakeScheduler (\<lambda>p. Inr (\<lambda>c. True)) [\<lparr> wn_Channel = ''discord'', wn_Pattern = ''.*'', wn_Priority = 1 \<rparr>]) (mailEvent ''hi'')
        (Some (ac_Annotation ac)) \<longleftrightarrow> aa_ScanPassed (ac_Annotation ac))"
proof -
  let ?P = "ProcessInbound (\<lambda>s. s) (\<lambda>r. r) 0 (Score (SQLite_GetTrust None) (SQLite_UpdateTrust None) (SQLite_IncrementInteractions None) DefaultTrustConfig)
       (tc_SkepticalPrior DefaultTrustConfig) (ie_Content (mailEvent ''hi'')) (ie_Channel (mailEvent ''hi'')) ''discord'' Map.empty"
  have visible: "encodeRunes (filter (\<lambda>r. \<not> isInvisible r) (runes ''hi'')) = ''hi''"
    by (simp add: decodeRune.simps isInvisible_def encodeRunes_def encodeRune_def char_of_def bit_simps)
  have "length (ToLower (\<lambda>r. r) ''hi'') = length ''hi''"
    by (simp add: ToLower_def asciiByte_def asciiLower_def char_of_def bit_simps)
  from scan_exact [OF this] obtain ms where "Scan (\<lambda>r. r) ''hi'' = Some ms" by blast
  moreover have "fst (Sanitize (\<lambda>s. s) ''hi'') = ''hi''" unfolding Sanitize_def Let_def by (simp only: fst_conv visible)
  then obtain m where "Sanitize (\<lambda>s. s) ''hi'' = (''hi'', m)" by (cases "Sanitize (\<lambda>s. s) ''hi''") auto
  ultimately have "\<exists>ac tab'. ?P = Some (ac, tab')"
    by (simp add: ProcessInbound_def mailEvent_def Let_def split: prod.split)
  then obtain ac tab' where p: "?P = Some (ac, tab')" by blast
  from wake_decision_is_the_scan [OF _ p, of "\<lambda>p. Inr (\<lambda>c. True)" "[\<lparr> wn_Channel = ''discord'', wn_Pattern = ''.*'', wn_Priority = 1 \<rparr>]"] p
  show ?thesis by (auto simp: mailEvent_def)
qed

end
