(* ===== verification/LLMClient.thy ===== *)
theory LLMClient
  imports Engine LifecycleStore "HOL-Library.AList"
begin

text \<open>
  The client of OpenAI-compatible model services, \<^verbatim>\<open>internal/engine/client.go\<close>: the request it builds from the history of the engine, the
  reader of the event stream that comes back, and the assembly of its deltas into one response.

  The service, the JSON codec and the clock are arguments. An HTTP response is its status and the bytes of its body; \<open>hr_readErr n\<close> is the error
  that the reader has met, if any, when \<open>n\<close> lines have been scanned. \<open>elapsed n\<close> is the time since the request at line \<open>n\<close>.
\<close>

section \<open>Configuration\<close>

record OpenAICompatConfig =
  oc_Endpoint :: string
  oc_APIKey :: string
  oc_Model :: string
  oc_SystemMsgFirstOnly :: bool
  oc_ThinkingMode :: bool
  oc_RequestTimeout :: duration

record OpenAICompatClient =
  cl_endpoint :: string
  cl_apiKey :: string
  cl_model :: string
  cl_timeout :: duration
  cl_systemMsgFirstOnly :: bool
  cl_thinkingMode :: bool

definition trimRight :: "char \<Rightarrow> string \<Rightarrow> string" where
  "trimRight c s = rev (dropWhile (\<lambda>d. d = c) (rev s))"

definition NewOpenAICompatClient :: "OpenAICompatConfig \<Rightarrow> OpenAICompatClient" where
  "NewOpenAICompatClient cfg =
     (let timeout = (if oc_RequestTimeout cfg \<le> 0 then 10 * minute else oc_RequestTimeout cfg)
      in \<lparr> cl_endpoint = trimRight (CHR ''/'') (oc_Endpoint cfg), cl_apiKey = oc_APIKey cfg, cl_model = oc_Model cfg, cl_timeout = timeout,
           cl_systemMsgFirstOnly = oc_SystemMsgFirstOnly cfg, cl_thinkingMode = oc_ThinkingMode cfg \<rparr>)"

section \<open>The request\<close>

type_synonym wireMessage = "string \<times> string"

record wireRequest =
  wr_model :: string
  wr_messages :: "wireMessage list"
  wr_stream :: bool
  wr_max_tokens :: "int option"
  wr_temperature :: "float64 option"
  wr_enable_thinking :: "bool option"
  wr_tools :: "ToolDef list option"       \<comment> \<open>as functions; a nil schema is left out\<close>

definition messageMap :: "Message \<Rightarrow> wireMessage" where
  "messageMap m = (ms_Role m, ms_Content m)"

definition buildMessages :: "OpenAICompatClient \<Rightarrow> CompletionRequest \<Rightarrow> wireMessage list" where
  "buildMessages c req =
     (if rq_System req \<noteq> '''' then
        (if cl_systemMsgFirstOnly c
         then (''system'', rq_System req) # map messageMap (filter (\<lambda>m. ms_Role m \<noteq> ''system'') (rq_Messages req))
         else (''system'', rq_System req) # map messageMap (rq_Messages req))
      else map messageMap (rq_Messages req))"

definition requestBody :: "OpenAICompatClient \<Rightarrow> CompletionRequest \<Rightarrow> wireRequest" where
  "requestBody c req =
     \<lparr> wr_model = cl_model c, wr_messages = buildMessages c req, wr_stream = True,
       wr_max_tokens = (if rq_MaxTokens req > 0 then Some (rq_MaxTokens req) else None), wr_temperature = rq_Temperature req,
       wr_enable_thinking = (if cl_thinkingMode c then Some True else None),
       wr_tools = (if rq_Tools req \<noteq> [] then Some (rq_Tools req) else None) \<rparr>"

section \<open>Lines\<close>

definition dropCR :: "string \<Rightarrow> string" where
  "dropCR l = (if l \<noteq> [] \<and> last l = CHR 0x0D then butlast l else l)"

text \<open>\<open>bufio.Scanner\<close> with lines of less than \<open>limit\<close> bytes: the lines, and whether a longer one stopped it.\<close>

function scanLines :: "nat \<Rightarrow> string \<Rightarrow> string list \<times> bool" where
  "scanLines limit s =
     (if s = [] then ([], False)
      else (let l = takeWhile (\<lambda>c. c \<noteq> CHR 0x0A) s; r = dropWhile (\<lambda>c. c \<noteq> CHR 0x0A) s
            in if limit \<le> length l then ([], True)
               else if r = [] then ([dropCR l], False)
               else (case scanLines limit (tl r) of (ls, b) \<Rightarrow> (dropCR l # ls, b))))"
  by pat_completeness auto
termination
proof (relation "measure (\<lambda>(limit, s). length s)")
  fix limit :: nat and s l r :: string
  assume "s \<noteq> []" "r = dropWhile (\<lambda>c. c \<noteq> CHR 0x0A) s" "r \<noteq> []"
  then have "length r \<le> length s" "length (tl r) < length r" by (simp_all add: length_dropWhile_le)
  then show "((limit, tl r), (limit, s)) \<in> measure (\<lambda>(limit, s). length s)" by simp
qed simp

declare scanLines.simps [simp del]

section \<open>The event stream\<close>

record toolCallDelta =
  dl_Index :: int
  dl_ID :: string
  dl_Type :: string
  dl_Name :: string
  dl_Arguments :: string

record sseDelta =
  sd_Content :: string
  sd_Reasoning :: string
  sd_ReasoningContent :: string
  sd_ToolCalls :: "toolCallDelta list"

record sseChoice =
  sc_Delta :: sseDelta
  sc_FinishReason :: "string option"

record sseChunk =
  sk_Choices :: "sseChoice list"
  sk_Usage :: "(int \<times> int) option"

record streamAcc =
  sa_content :: string
  sa_thinking :: string
  sa_field :: string
  sa_calls :: "(int \<times> ToolCall) list"
  sa_prompt :: int
  sa_comp :: int
  sa_ttft :: duration
  sa_gotFirst :: bool
  sa_finish :: string

definition zeroToolCall :: ToolCall where
  "zeroToolCall = \<lparr> tc_ID = '''', tc_Name = '''', tc_Arguments = '''', tc_Destination = '''' \<rparr>"

definition emptyAcc :: streamAcc where
  "emptyAcc = \<lparr> sa_content = '''', sa_thinking = '''', sa_field = '''', sa_calls = [], sa_prompt = 0, sa_comp = 0, sa_ttft = 0,
     sa_gotFirst = False, sa_finish = '''' \<rparr>"

definition mergeCall :: "toolCallDelta \<Rightarrow> ToolCall \<Rightarrow> ToolCall" where
  "mergeCall tc acc =
     acc\<lparr>tc_ID := (if dl_ID tc \<noteq> '''' then dl_ID tc else tc_ID acc), tc_Name := (if dl_Name tc \<noteq> '''' then dl_Name tc else tc_Name acc),
       tc_Arguments := tc_Arguments acc @ dl_Arguments tc\<rparr>"

definition accumulate :: "toolCallDelta \<Rightarrow> (int \<times> ToolCall) list \<Rightarrow> (int \<times> ToolCall) list" where
  "accumulate tc m =
     AList.update (dl_Index tc) (mergeCall tc (case map_of m (dl_Index tc) of None \<Rightarrow> zeroToolCall | Some acc \<Rightarrow> acc)) m"

definition reasoningOf :: "sseDelta \<Rightarrow> string \<times> string" where
  "reasoningOf d = (if sd_Reasoning d = '''' then (sd_ReasoningContent d, ''reasoning_content'') else (sd_Reasoning d, ''reasoning''))"

definition takeDelta :: "duration \<Rightarrow> sseDelta \<Rightarrow> streamAcc \<Rightarrow> streamAcc" where
  "takeDelta now d acc =
     (let (reasoningDelta, reasoningSource) = reasoningOf d;
          hasThinking = (reasoningDelta \<noteq> ''''); hasContent = (sd_Content d \<noteq> ''''); hasToolCalls = (sd_ToolCalls d \<noteq> []);
          acc = (if \<not> sa_gotFirst acc \<and> (hasThinking \<or> hasContent \<or> hasToolCalls) then acc\<lparr>sa_ttft := now, sa_gotFirst := True\<rparr> else acc);
          acc = (if hasThinking
                 then acc\<lparr>sa_thinking := sa_thinking acc @ reasoningDelta, sa_field := (if sa_field acc = '''' then reasoningSource else sa_field acc)\<rparr>
                 else acc);
          acc = (if hasContent then acc\<lparr>sa_content := sa_content acc @ sd_Content d\<rparr> else acc)
      in acc\<lparr>sa_calls := fold accumulate (sd_ToolCalls d) (sa_calls acc)\<rparr>)"

definition takeChunk :: "duration \<Rightarrow> sseChunk \<Rightarrow> streamAcc \<Rightarrow> streamAcc" where
  "takeChunk now chunk acc =
     (let acc = (case sk_Usage chunk of None \<Rightarrow> acc | Some (p, c) \<Rightarrow> acc\<lparr>sa_prompt := p, sa_comp := c\<rparr>)
      in case sk_Choices chunk of
           [] \<Rightarrow> acc
         | choice # _ \<Rightarrow>
             takeDelta now (sc_Delta choice)
               (case sc_FinishReason choice of None \<Rightarrow> acc | Some r \<Rightarrow> if r \<noteq> '''' then acc\<lparr>sa_finish := r\<rparr> else acc))"

text \<open>What a line carries: nothing, the end of the stream, or a chunk.\<close>

datatype sseLine = Skip | Done | Chunk sseChunk

definition readLine :: "(string \<Rightarrow> sseChunk option) \<Rightarrow> string \<Rightarrow> sseLine" where
  "readLine decode line =
     (if line = '''' \<or> line = '': keep-alive'' then Skip
      else if \<not> hasPrefix line ''data: '' then Skip
      else (let payload = drop 6 line
            in if payload = ''[DONE]'' then Done
               else (case decode payload of None \<Rightarrow> Skip | Some chunk \<Rightarrow> Chunk chunk)))"

text \<open>The \<open>for\<close> loop: whether it met the end mark, the lines scanned, and what it collected.\<close>

fun streamLoop :: "(string \<Rightarrow> sseChunk option) \<Rightarrow> (nat \<Rightarrow> duration) \<Rightarrow> nat \<Rightarrow> string list \<Rightarrow> streamAcc \<Rightarrow> bool \<times> nat \<times> streamAcc" where
  "streamLoop decode elapsed n [] acc = (False, n, acc)"
| "streamLoop decode elapsed n (line # lines) acc =
     (case readLine decode line of
        Skip \<Rightarrow> streamLoop decode elapsed (n + 1) lines acc
      | Done \<Rightarrow> (True, n + 1, acc)
      | Chunk chunk \<Rightarrow> streamLoop decode elapsed (n + 1) lines (takeChunk (elapsed n) chunk acc))"

section \<open>Thinking in the text\<close>

datatype thinkTag = Think | Thought

fun openTag :: "thinkTag \<Rightarrow> string" where
  "openTag Think = ''<think>''" | "openTag Thought = ''<thought>''"

fun closeTag :: "thinkTag \<Rightarrow> string" where
  "closeTag Think = ''</think>''" | "closeTag Thought = ''</thought>''"

lemma openTag_pos: "0 < length (openTag t)"
  by (cases t) simp_all

function stripTag :: "thinkTag \<Rightarrow> string \<Rightarrow> string \<Rightarrow> string \<times> string" where
  "stripTag t s thinking =
     (case strIndex s (openTag t) of
        None \<Rightarrow> (s, thinking)
      | Some start \<Rightarrow>
          (case strIndex (drop (start + length (openTag t)) s) (closeTag t) of
             None \<Rightarrow> (s, thinking)
           | Some len \<Rightarrow>
               stripTag t (take start s @ drop (start + length (openTag t) + len + length (closeTag t)) s)
                 (thinking @ take len (drop (start + length (openTag t)) s))))"
  by pat_completeness auto
termination
proof (relation "measure (\<lambda>(t, s, thinking). length s)")
  fix t s thinking start len
  assume "strIndex s (openTag t) = Some start"
  from strIndex_Some(1) [OF this] openTag_pos [of t]
  show "((t, take start s @ drop (start + length (openTag t) + len + length (closeTag t)) s, thinking @ take len (drop (start + length (openTag t)) s)),
      (t, s, thinking)) \<in> measure (\<lambda>(t, s, thinking). length s)"
    by (simp del: length_greater_0_conv)
qed simp

declare stripTag.simps [simp del]

definition stripThinkingTokens :: "string \<Rightarrow> string \<times> string" where
  "stripThinkingTokens s =
     (let (s, thinking) = stripTag Think s ''''; (s, thinking) = stripTag Thought s thinking in (TrimSpace s, TrimSpace thinking))"

section \<open>The response\<close>

definition zeroBlock :: ContentBlock where
  "zeroBlock = \<lparr> cb_Type = '''', cb_Text = '''', cb_Thinking = '''', cb_ToolCall = None, cb_FieldName = '''' \<rparr>"

definition contentBlocks :: "bool \<Rightarrow> streamAcc \<Rightarrow> ContentBlock list \<times> string" where
  "contentBlocks thinkingMode acc =
     (let (rawContent, rawThinking, field) =
            (if sa_thinking acc = '''' \<and> thinkingMode
             then (let (cleaned, stripped) = stripThinkingTokens (sa_content acc)
                   in if stripped \<noteq> '''' then (cleaned, stripped, '''') else (sa_content acc, sa_thinking acc, sa_field acc))
             else (sa_content acc, sa_thinking acc, sa_field acc))
      in ((if rawThinking \<noteq> '''' then [zeroBlock\<lparr>cb_Type := BlockThinking, cb_Thinking := TrimSpace rawThinking, cb_FieldName := field\<rparr>] else []) @
          (if TrimSpace rawContent \<noteq> '''' then [zeroBlock\<lparr>cb_Type := BlockText, cb_Text := TrimSpace rawContent\<rparr>] else []) @
          map (\<lambda>(i, tc). zeroBlock\<lparr>cb_Type := BlockToolCall, cb_ToolCall := Some tc\<rparr>) (sort_key fst (sa_calls acc)), rawThinking))"

definition assembleResponse :: "bool \<Rightarrow> duration \<Rightarrow> streamAcc \<Rightarrow> CompletionResponse" where
  "assembleResponse thinkingMode latency acc =
     (let (blocks, rawThinking) = contentBlocks thinkingMode acc
      in \<lparr> rp_Blocks = blocks, rp_FinishReason = sa_finish acc, rp_PromptTokens = sa_prompt acc, rp_CompletionTokens = sa_comp acc,
           rp_ThinkingTokens = int (length (TrimSpace rawThinking)) div 4, rp_EffectiveTokS = 0,
           rp_RawTokS = (if Seconds latency > 0 \<and> sa_comp acc > 0 then fdiv (fl (of_int (sa_comp acc))) (Seconds latency) else 0),
           rp_TTFT = sa_ttft acc, rp_TotalLatency = latency \<rparr>)"

record httpResponse =
  hr_StatusCode :: int
  hr_Body :: string
  hr_readErr :: "nat \<Rightarrow> error option"

definition maxLine :: nat where "maxLine = 1024 * 1024"

definition parseStream :: "(string \<Rightarrow> sseChunk option) \<Rightarrow> (nat \<Rightarrow> duration) \<Rightarrow> OpenAICompatClient \<Rightarrow> httpResponse \<Rightarrow> error + CompletionResponse" where
  "parseStream decode elapsed c r =
     (let (lines, tooLong) = scanLines maxLine (hr_Body r);
          (ended, n, acc) = streamLoop decode elapsed 0 lines emptyAcc;
          err = (if \<not> ended \<and> tooLong then Some ''bufio.Scanner: token too long'' else hr_readErr r n)
      in case err of
           Some e \<Rightarrow> Inl (''reading SSE stream: '' @ e)
         | None \<Rightarrow> Inr (assembleResponse (cl_thinkingMode c) (elapsed n) acc))"

definition Complete ::
  "(wireRequest \<Rightarrow> error + string) \<Rightarrow> (string \<Rightarrow> error option) \<Rightarrow> (string \<Rightarrow> string option \<Rightarrow> string \<Rightarrow> 'w \<Rightarrow> (error + httpResponse) \<times> 'w) \<Rightarrow>
   (string \<Rightarrow> sseChunk option) \<Rightarrow> (nat \<Rightarrow> duration) \<Rightarrow> OpenAICompatClient \<Rightarrow> CompletionRequest \<Rightarrow> 'w \<Rightarrow> (error + CompletionResponse) \<times> 'w" where
  "Complete marshal badURL send decode elapsed c req w =
     (case marshal (requestBody c req) of
        Inl e \<Rightarrow> (Inl (''marshalling request: '' @ e), w)
      | Inr bytes \<Rightarrow>
          (let url = cl_endpoint c @ ''/chat/completions''
           in case badURL url of
                Some e \<Rightarrow> (Inl (''creating HTTP request: '' @ e), w)
              | None \<Rightarrow>
                  (case send url (if cl_apiKey c \<noteq> '''' then Some (''Bearer '' @ cl_apiKey c) else None) bytes w of
                     (Inl e, w) \<Rightarrow> (Inl (''executing HTTP request: '' @ e), w)
                   | (Inr resp, w) \<Rightarrow>
                       if hr_StatusCode resp \<noteq> 200
                       then (Inl (''LLM endpoint returned '' @ itoa (hr_StatusCode resp) @ '': '' @ take 4096 (hr_Body resp)), w)
                       else (parseStream decode elapsed c resp, w))))"


section \<open>What a stream says\<close>

text \<open>The specification: the chunks before the end mark, their deltas, and each tool call as what its deltas add up to.\<close>

fun chunksOf :: "(string \<Rightarrow> sseChunk option) \<Rightarrow> string list \<Rightarrow> sseChunk list" where
  "chunksOf decode [] = []"
| "chunksOf decode (line # lines) =
     (case readLine decode line of Skip \<Rightarrow> chunksOf decode lines | Done \<Rightarrow> [] | Chunk chunk \<Rightarrow> chunk # chunksOf decode lines)"

definition deltasOf :: "sseChunk list \<Rightarrow> sseDelta list" where
  "deltasOf chunks = List.map_filter (\<lambda>k. case sk_Choices k of [] \<Rightarrow> None | c # _ \<Rightarrow> Some (sc_Delta c)) chunks"

definition lastSet :: "string list \<Rightarrow> string" where
  "lastSet xs = (case rev (filter (\<lambda>x. x \<noteq> '''') xs) of [] \<Rightarrow> '''' | x # _ \<Rightarrow> x)"

definition callSpec :: "toolCallDelta list \<Rightarrow> int \<Rightarrow> ToolCall" where
  "callSpec ds i =
     (let own = filter (\<lambda>d. dl_Index d = i) ds
      in \<lparr> tc_ID = lastSet (map dl_ID own), tc_Name = lastSet (map dl_Name own), tc_Arguments = concat (map dl_Arguments own), tc_Destination = '''' \<rparr>)"

lemma lastSet_snoc: "lastSet (xs @ [x]) = (if x \<noteq> '''' then x else lastSet xs)"
  by (simp add: lastSet_def)

lemma merge_all:
  "fold mergeCall ds zeroToolCall =
   \<lparr> tc_ID = lastSet (map dl_ID ds), tc_Name = lastSet (map dl_Name ds), tc_Arguments = concat (map dl_Arguments ds), tc_Destination = '''' \<rparr>"
proof (induction ds rule: rev_induct)
  case Nil
  show ?case by (simp add: zeroToolCall_def lastSet_def)
next
  case (snoc d ds)
  then show ?case by (simp add: mergeCall_def lastSet_snoc)
qed

lemma accumulate_lookup:
  "map_of (fold accumulate ds m) i =
   (if i \<in> dl_Index ` set ds then Some (fold mergeCall (filter (\<lambda>d. dl_Index d = i) ds) (case map_of m i of None \<Rightarrow> zeroToolCall | Some acc \<Rightarrow> acc))
    else map_of m i)"
proof (induction ds arbitrary: m)
  case (Cons d ds)
  have "map_of (accumulate d m) i =
      (if dl_Index d = i then Some (mergeCall d (case map_of m i of None \<Rightarrow> zeroToolCall | Some acc \<Rightarrow> acc)) else map_of m i)"
    by (auto simp: accumulate_def update_conv')
  moreover have "filter (\<lambda>e. dl_Index e = i) ds = []" if "i \<notin> dl_Index ` set ds" using that by (auto simp: filter_empty_conv)
  ultimately show ?case using Cons.IH [of "accumulate d m"] by auto
qed simp

lemma accumulate_distinct: "distinct (map fst m) \<Longrightarrow> distinct (map fst (fold accumulate ds m))"
  by (induction ds arbitrary: m) (auto simp: accumulate_def intro: distinct_update)

text \<open>A finite map listed by its keys in ascending order.\<close>

lemma sort_assoc:
  fixes m :: "('k :: linorder \<times> 'v) list"
  assumes "distinct (map fst m)"
  shows "sort_key fst m = map (\<lambda>k. (k, the (map_of m k))) (sorted_list_of_set (fst ` set m))"
proof -
  have keys: "map fst (sort_key fst m) = sorted_list_of_set (fst ` set m)"
  proof (rule sorted_distinct_set_unique)
    have "mset (map fst (sort_key fst m)) = mset (map fst m)" by simp
    then show "distinct (map fst (sort_key fst m))" using assms mset_eq_imp_distinct_iff by metis
  qed simp_all
  have "(fst p, the (map_of m (fst p))) = p" if "p \<in> set (sort_key fst m)" for p
    using that assms by (metis map_of_is_SomeI option.sel prod.collapse set_sort)
  then have "sort_key fst m = map (\<lambda>p. (fst p, the (map_of m (fst p)))) (sort_key fst m)" by (rule map_idI [symmetric])
  also have "\<dots> = map (\<lambda>k. (k, the (map_of m k))) (map fst (sort_key fst m))" by simp
  finally show ?thesis unfolding keys .
qed

lemma takeDelta_parts:
  "sa_content (takeDelta now d acc) = sa_content acc @ sd_Content d" "sa_thinking (takeDelta now d acc) = sa_thinking acc @ fst (reasoningOf d)"
  "sa_calls (takeDelta now d acc) = fold accumulate (sd_ToolCalls d) (sa_calls acc)"
  by (auto simp: takeDelta_def Let_def split: prod.split)

lemma takeChunk_parts:
  "sa_content (takeChunk now k acc) = sa_content acc @ concat (map sd_Content (deltasOf [k]))"
  "sa_thinking (takeChunk now k acc) = sa_thinking acc @ concat (map (\<lambda>d. fst (reasoningOf d)) (deltasOf [k]))"
  "sa_calls (takeChunk now k acc) = fold accumulate (concat (map sd_ToolCalls (deltasOf [k]))) (sa_calls acc)"
  by (auto simp: takeChunk_def deltasOf_def List.map_filter_def takeDelta_parts Let_def split: list.split option.split)

lemma deltasOf_Cons: "deltasOf (k # ks) = deltasOf [k] @ deltasOf ks"
  by (simp add: deltasOf_def List.map_filter_def split: list.split)

text \<open>The loop collects what the specification lists.\<close>

lemma streamLoop_parts:
  assumes "streamLoop decode elapsed n lines acc = (ended, n', acc')"
  shows "sa_content acc' = sa_content acc @ concat (map sd_Content (deltasOf (chunksOf decode lines))) \<and>
    sa_thinking acc' = sa_thinking acc @ concat (map (\<lambda>d. fst (reasoningOf d)) (deltasOf (chunksOf decode lines))) \<and>
    sa_calls acc' = fold accumulate (concat (map sd_ToolCalls (deltasOf (chunksOf decode lines)))) (sa_calls acc)"
  using assms
proof (induction decode elapsed n lines acc rule: streamLoop.induct)
  case (1 decode elapsed n acc)
  then show ?case by (simp add: deltasOf_def List.map_filter_def)
next
  case (2 decode elapsed n line lines acc)
  show ?case
  proof (cases "readLine decode line")
    case Skip
    with 2 show ?thesis by simp
  next
    case Done
    with 2 show ?thesis by (simp add: deltasOf_def List.map_filter_def)
  next
    case (Chunk k)
    with 2(2) [OF Chunk] 2(3) show ?thesis by (simp add: takeChunk_parts deltasOf_Cons [of k "chunksOf decode lines"])
  qed
qed

lemma TrimSpace_Nil [simp]: "TrimSpace '''' = ''''"
  by (simp add: TrimSpace_def)

lemma map_filter_app: "List.map_filter f (xs @ ys) = List.map_filter f xs @ List.map_filter f ys"
  by (simp add: List.map_filter_def)

lemma toolBlocks_calls:
  "List.map_filter (\<lambda>b. if cb_Type b = BlockToolCall then cb_ToolCall b else None)
     (map (\<lambda>(i, tc). zeroBlock\<lparr>cb_Type := BlockToolCall, cb_ToolCall := Some tc\<rparr>) xs) = map snd xs"
  by (induction xs) (auto simp: List.map_filter_def)

lemma response_calls: "ToolCallBlocks (assembleResponse mode latency acc) = map snd (sort_key fst (sa_calls acc))"
proof -
  obtain bs raw where b: "contentBlocks mode acc = (bs, raw)" by fastforce
  then obtain pre where "bs = pre @ map (\<lambda>(i, tc). zeroBlock\<lparr>cb_Type := BlockToolCall, cb_ToolCall := Some tc\<rparr>) (sort_key fst (sa_calls acc))"
    "List.map_filter (\<lambda>b. if cb_Type b = BlockToolCall then cb_ToolCall b else None) pre = []"
    by (auto simp: contentBlocks_def Let_def List.map_filter_def split: prod.splits if_splits)
  then show ?thesis by (simp add: ToolCallBlocks_def assembleResponse_def b toolBlocks_calls map_filter_app)
qed

lemma response_texts:
  assumes "\<not> mode \<or> sa_thinking acc \<noteq> ''''"
  shows "TextContent (assembleResponse mode latency acc) = TrimSpace (sa_content acc)"
    "ThinkingContent (assembleResponse mode latency acc) = TrimSpace (sa_thinking acc)"
proof -
  have calls: "filter (\<lambda>b. cb_Type b = BlockText) (map (\<lambda>(i, tc). zeroBlock\<lparr>cb_Type := BlockToolCall, cb_ToolCall := Some tc\<rparr>) xs) = []"
    "thinkingFrom a (map (\<lambda>(i, tc). zeroBlock\<lparr>cb_Type := BlockToolCall, cb_ToolCall := Some tc\<rparr>) xs) = a" for xs a
    by (induction xs) auto
  have b: "contentBlocks mode acc =
      ((if sa_thinking acc \<noteq> '''' then [zeroBlock\<lparr>cb_Type := BlockThinking, cb_Thinking := TrimSpace (sa_thinking acc), cb_FieldName := sa_field acc\<rparr>] else []) @
       (if TrimSpace (sa_content acc) \<noteq> '''' then [zeroBlock\<lparr>cb_Type := BlockText, cb_Text := TrimSpace (sa_content acc)\<rparr>] else []) @
       map (\<lambda>(i, tc). zeroBlock\<lparr>cb_Type := BlockToolCall, cb_ToolCall := Some tc\<rparr>) (sort_key fst (sa_calls acc)), sa_thinking acc)"
    using assms by (auto simp: contentBlocks_def Let_def)
  show "TextContent (assembleResponse mode latency acc) = TrimSpace (sa_content acc)"
    by (simp add: TextContent_def assembleResponse_def b calls)
  show "ThinkingContent (assembleResponse mode latency acc) = TrimSpace (sa_thinking acc)"
    by (simp add: ThinkingContent_def assembleResponse_def b calls)
qed

section \<open>Properties\<close>

text \<open>
  C19. A streamed response is put together exactly: however the service cuts the text, the reasoning and the tool calls into chunks, and whatever lines it mixes in between
  that are no chunks, the response has one call for every index that occurred, in ascending order, with the last identifier and name that were sent and all pieces of
  the arguments in order; text and reasoning are the trimmed concatenations of their pieces (the text when no reasoning has to be cut out of it).
\<close>

theorem stream_is_reassembled:
  assumes "parseStream decode elapsed c r = Inr resp" and "scanLines maxLine (hr_Body r) = (lines, tooLong)"
    and "ds = deltasOf (chunksOf decode lines)" and "tcs = concat (map sd_ToolCalls ds)"
  shows "ToolCallBlocks resp = map (callSpec tcs) (sorted_list_of_set (dl_Index ` set tcs)) \<and>
    (\<not> cl_thinkingMode c \<or> concat (map (\<lambda>d. fst (reasoningOf d)) ds) \<noteq> '''' \<longrightarrow>
       TextContent resp = TrimSpace (concat (map sd_Content ds)) \<and>
       ThinkingContent resp = TrimSpace (concat (map (\<lambda>d. fst (reasoningOf d)) ds)))"
proof -
  obtain ended n acc where l: "streamLoop decode elapsed 0 lines emptyAcc = (ended, n, acc)" by (metis prod_cases3)
  have resp: "resp = assembleResponse (cl_thinkingMode c) (elapsed n) acc"
    using assms(1,2) l by (auto simp: parseStream_def Let_def split: option.splits)
  have parts: "sa_content acc = concat (map sd_Content ds)" "sa_thinking acc = concat (map (\<lambda>d. fst (reasoningOf d)) ds)"
    "sa_calls acc = fold accumulate tcs []"
    using streamLoop_parts [OF l] assms(3,4) by (simp_all add: emptyAcc_def)
  have look: "map_of (sa_calls acc) i = (if i \<in> dl_Index ` set tcs then Some (callSpec tcs i) else None)" for i
    unfolding parts(3) accumulate_lookup by (simp add: merge_all callSpec_def Let_def)
  have keys: "fst ` set (sa_calls acc) = dl_Index ` set tcs"
    unfolding dom_map_of_conv_image_fst [symmetric] by (auto simp: look dom_def)
  have "distinct (map fst (sa_calls acc))" unfolding parts(3) by (rule accumulate_distinct) simp
  from sort_assoc [OF this] have "ToolCallBlocks resp = map (callSpec tcs) (sorted_list_of_set (dl_Index ` set tcs))"
    unfolding resp response_calls keys by (auto simp: look)
  with response_texts [of "cl_thinkingMode c" acc "elapsed n"] parts(1,2) show ?thesis
    unfolding resp by simp
qed

text \<open>
  A stream that is cut off passes for a complete one: as long as the connection ends without an error and no line is too long, whatever part of the body has arrived gives a
  response, whose tool calls have the arguments that had arrived, a beginning of the ones the service was sending.
\<close>

lemma chunksOf_prefix: "\<exists>ks. chunksOf decode (xs @ ys) = chunksOf decode xs @ ks"
  by (induction xs) (auto split: sseLine.split)

lemma callSpec_grows: "\<exists>rest. tc_Arguments (callSpec (ds @ es) i) = tc_Arguments (callSpec ds i) @ rest"
  by (simp add: callSpec_def Let_def)

theorem cut_stream_is_accepted:
  assumes "scanLines maxLine (hr_Body r) = (lines, False)" and "\<And>n. hr_readErr r n = None"
    and "full = lines @ rest" and "tcs = concat (map sd_ToolCalls (deltasOf (chunksOf decode full)))"
  shows "\<exists>resp. parseStream decode elapsed c r = Inr resp \<and>
    (\<forall>tc \<in> set (ToolCallBlocks resp). \<exists>i \<in> dl_Index ` set tcs. \<exists>more. tc_Arguments (callSpec tcs i) = tc_Arguments tc @ more)"
proof -
  obtain ended n acc where l: "streamLoop decode elapsed 0 lines emptyAcc = (ended, n, acc)" by (metis prod_cases3)
  have p: "parseStream decode elapsed c r = Inr (assembleResponse (cl_thinkingMode c) (elapsed n) acc)"
    using assms(1,2) l by (simp add: parseStream_def)
  obtain ks where ks: "chunksOf decode full = chunksOf decode lines @ ks" unfolding assms(3) using chunksOf_prefix by blast
  let ?own = "concat (map sd_ToolCalls (deltasOf (chunksOf decode lines)))"
  have app: "deltasOf (as @ bs) = deltasOf as @ deltasOf bs" for as bs by (simp add: deltasOf_def map_filter_app)
  have tcs: "tcs = ?own @ concat (map sd_ToolCalls (deltasOf ks))" unfolding assms(4) ks app by simp
  have "\<exists>i \<in> dl_Index ` set tcs. \<exists>more. tc_Arguments (callSpec tcs i) = tc_Arguments tc @ more"
    if tc: "tc \<in> set (ToolCallBlocks (assembleResponse (cl_thinkingMode c) (elapsed n) acc))" for tc
  proof -
    have "sa_calls acc = fold accumulate ?own []" using streamLoop_parts [OF l] by (simp add: emptyAcc_def)
    then have calls: "sa_calls acc = fold accumulate ?own []" .
    obtain i where "(i, tc) \<in> set (sa_calls acc)" using tc unfolding response_calls by auto
    moreover have "distinct (map fst (sa_calls acc))" unfolding calls by (rule accumulate_distinct) simp
    ultimately have "map_of (sa_calls acc) i = Some tc" by simp
    then have "i \<in> dl_Index ` set ?own" "tc = callSpec ?own i"
      unfolding calls accumulate_lookup by (auto simp: merge_all callSpec_def Let_def split: if_splits)
    moreover have "dl_Index ` set ?own \<subseteq> dl_Index ` set tcs" unfolding tcs by auto
    moreover obtain more where "tc_Arguments (callSpec tcs i) = tc_Arguments (callSpec ?own i) @ more" unfolding tcs using callSpec_grows by blast
    ultimately show ?thesis by blast
  qed
  with p show ?thesis by blast
qed

text \<open>
  The service is not told of the tool calls: the request for the turn after a tool batch depends on the text of the model's answer and on the contents of the results
  only. Which tools were called, with what arguments, which result answers which call and whether it is an error are kept in the history of the engine and sent to nobody.
\<close>

theorem request_forgets_tool_calls:
  assumes "TextContent resp = TextContent resp'" and "map tr_Content results = map tr_Content results'"
  shows "Complete marshal badURL send decode elapsed c (req\<lparr>rq_Messages := h @ [assistantMessage resp] @ map toolMessage results\<rparr>) w =
         Complete marshal badURL send decode elapsed c (req\<lparr>rq_Messages := h @ [assistantMessage resp'] @ map toolMessage results'\<rparr>) w"
proof -
  have msgs: "map messageMap (map toolMessage rs) = map (Pair ''tool'') (map tr_Content rs)" for rs
    by (simp add: messageMap_def toolMessage_def zeroMessage_def)
  have tools: "filter (\<lambda>m. ms_Role m \<noteq> ''system'') (map toolMessage rs) = map toolMessage rs" for rs
    by (simp add: toolMessage_def filter_map o_def)
  have one: "messageMap (assistantMessage resp) = messageMap (assistantMessage resp')" "ms_Role (assistantMessage q) = ''assistant''" for q
    using assms(1) by (simp_all add: messageMap_def assistantMessage_def)
  have "buildMessages c (req\<lparr>rq_Messages := h @ [assistantMessage resp] @ map toolMessage results\<rparr>) =
        buildMessages c (req\<lparr>rq_Messages := h @ [assistantMessage resp'] @ map toolMessage results'\<rparr>)"
    unfolding buildMessages_def by (simp add: tools one msgs [unfolded map_map] del: map_map) (simp add: one msgs assms(2) del: map_map)
  then have "requestBody c (req\<lparr>rq_Messages := h @ [assistantMessage resp] @ map toolMessage results\<rparr>) =
        requestBody c (req\<lparr>rq_Messages := h @ [assistantMessage resp'] @ map toolMessage results'\<rparr>)"
    by (simp add: requestBody_def)
  then show ?thesis by (simp only: Complete_def)
qed

text \<open>A tag is cut out until no pair of it is left; nothing but whole pairs is removed.\<close>

lemma stripTag_result:
  assumes "stripTag t s th = (s', th')"
  shows "(\<exists>i. strIndex s' (openTag t) = Some i \<and> strIndex (drop (i + length (openTag t)) s') (closeTag t) = None) \<or> strIndex s' (openTag t) = None"
    and "subseq s' s"
proof -
  have both: "((\<exists>i. strIndex s' (openTag t) = Some i \<and> strIndex (drop (i + length (openTag t)) s') (closeTag t) = None) \<or> strIndex s' (openTag t) = None) \<and> subseq s' s"
    using assms
  proof (induction t s th rule: stripTag.induct)
    case (1 t s th)
    show ?case
    proof (cases "strIndex s (openTag t)")
      case None
      with 1(2) show ?thesis by (subst (asm) stripTag.simps) auto
    next
      case start: (Some start)
      show ?thesis
      proof (cases "strIndex (drop (start + length (openTag t)) s) (closeTag t)")
        case None
        with start 1(2) show ?thesis by (subst (asm) stripTag.simps) auto
      next
        case (Some len)
        let ?next = "take start s @ drop (start + length (openTag t) + len + length (closeTag t)) s"
        have "stripTag t ?next (th @ take len (drop (start + length (openTag t)) s)) = (s', th')"
          using 1(2) start Some by (subst (asm) stripTag.simps) simp
        note IH = 1(1) [OF start Some this]
        have "subseq (drop (start + length (openTag t) + len + length (closeTag t)) s) (drop start s)"
          using suffix_imp_subseq [OF suffix_drop [of "length (openTag t) + len + length (closeTag t)" "drop start s"]] by (simp add: add.commute add.left_commute)
        from list_emb_append_mono [OF subseq_order.refl [of "take start s"] this] have "subseq ?next s" by simp
        with IH show ?thesis using subseq_order.trans [of s' ?next s] by simp
      qed
    qed
  qed
  show "(\<exists>i. strIndex s' (openTag t) = Some i \<and> strIndex (drop (i + length (openTag t)) s') (closeTag t) = None) \<or> strIndex s' (openTag t) = None"
    by (rule both [THEN conjunct1])
  show "subseq s' s" by (rule both [THEN conjunct2])
qed

text \<open>
  Cutting out one tag can form a pair of the other, which is not looked for again: hidden reasoning then stands in the text of the response.
\<close>

theorem stripping_forms_a_tag:
  "stripThinkingTokens ''<thi<thought>a</thought>nk>b</think>'' = (TrimSpace ''<think>b</think>'', TrimSpace ''a'')"
  by (simp add: stripThinkingTokens_def stripTag.simps)

section \<open>Witnesses\<close>

text \<open>A service that sends a call of one tool in two chunks, with a comment between them and an end mark.\<close>

definition sampleDelta :: "string \<Rightarrow> string \<Rightarrow> string \<Rightarrow> sseChunk" where
  "sampleDelta i name args = \<lparr> sk_Choices = [\<lparr> sc_Delta = \<lparr> sd_Content = '''', sd_Reasoning = '''', sd_ReasoningContent = '''',
       sd_ToolCalls = [\<lparr> dl_Index = 0, dl_ID = i, dl_Type = ''function'', dl_Name = name, dl_Arguments = args \<rparr>] \<rparr>, sc_FinishReason = None \<rparr>], sk_Usage = None \<rparr>"

definition sampleDecode :: "string \<Rightarrow> sseChunk option" where
  "sampleDecode p = (if p = ''1'' then Some (sampleDelta ''c1'' ''ask'' ''{a'') else if p = ''2'' then Some (sampleDelta '''' '''' ''b}'') else None)"

definition sampleBody :: string where
  "sampleBody = ''data: 1'' @ newline @ '': keep-alive'' @ newline @ ''data: 2'' @ newline @ ''data: [DONE]'' @ newline"

definition sampleHTTP :: "string \<Rightarrow> httpResponse" where
  "sampleHTTP body = \<lparr> hr_StatusCode = 200, hr_Body = body, hr_readErr = (\<lambda>n. None) \<rparr>"

definition sampleClient :: OpenAICompatClient where
  "sampleClient = NewOpenAICompatClient \<lparr> oc_Endpoint = ''http://h/v1/'', oc_APIKey = '''', oc_Model = ''m'', oc_SystemMsgFirstOnly = False,
     oc_ThinkingMode = False, oc_RequestTimeout = 0 \<rparr>"

lemma sample_lines: "scanLines maxLine sampleBody = ([''data: 1'', '': keep-alive'', ''data: 2'', ''data: [DONE]''], False)"
  by (simp add: scanLines.simps sampleBody_def maxLine_def dropCR_def)

lemma sample_cut: "scanLines maxLine ''data: 1'' = ([''data: 1''], False)"
  by (simp add: scanLines.simps maxLine_def dropCR_def)

lemma sample_chunks:
  "deltasOf (chunksOf sampleDecode [''data: 1'', '': keep-alive'', ''data: 2'', ''data: [DONE]'']) =
   [sc_Delta (hd (sk_Choices (sampleDelta ''c1'' ''ask'' ''{a''))), sc_Delta (hd (sk_Choices (sampleDelta '''' '''' ''b}'')))]"
  by (simp add: deltasOf_def List.map_filter_def readLine_def sampleDecode_def sampleDelta_def)

theorem stream_is_reassembled_witness:
  "\<exists>resp. parseStream sampleDecode (\<lambda>n. int n) sampleClient (sampleHTTP sampleBody) = Inr resp \<and>
     ToolCallBlocks resp = [\<lparr> tc_ID = ''c1'', tc_Name = ''ask'', tc_Arguments = ''{ab}'', tc_Destination = '''' \<rparr>]"
proof -
  have "\<exists>resp. parseStream sampleDecode (\<lambda>n. int n) sampleClient (sampleHTTP sampleBody) = Inr resp"
    by (simp add: parseStream_def sampleHTTP_def sample_lines split: prod.split)
  then obtain resp where p: "parseStream sampleDecode (\<lambda>n. int n) sampleClient (sampleHTTP sampleBody) = Inr resp" by blast
  have body: "scanLines maxLine (hr_Body (sampleHTTP sampleBody)) = ([''data: 1'', '': keep-alive'', ''data: 2'', ''data: [DONE]''], False)"
    by (simp add: sampleHTTP_def sample_lines)
  from stream_is_reassembled [OF p body refl refl] p show ?thesis
    unfolding sample_chunks by (simp add: sampleDelta_def callSpec_def lastSet_def)
qed

theorem cut_stream_is_accepted_witness:
  "\<exists>resp. parseStream sampleDecode (\<lambda>n. int n) sampleClient (sampleHTTP ''data: 1'') = Inr resp"
proof -
  have "scanLines maxLine (hr_Body (sampleHTTP ''data: 1'')) = ([''data: 1''], False)" "\<And>n. hr_readErr (sampleHTTP ''data: 1'') n = None"
    by (simp_all add: sampleHTTP_def sample_cut)
  from cut_stream_is_accepted [OF this refl refl] show ?thesis by blast
qed

theorem request_forgets_tool_calls_witness:
  "Complete (\<lambda>b. Inr '''') (\<lambda>u. None) (\<lambda>u a b w. (Inr (sampleHTTP sampleBody), w)) sampleDecode (\<lambda>n. int n) sampleClient
     (sampleRequest\<lparr>rq_Messages := [] @ [assistantMessage sampleResponse] @ map toolMessage [zeroResult\<lparr>tr_CallID := ''a'', tr_Content := ''ok''\<rparr>]\<rparr>) () =
   Complete (\<lambda>b. Inr '''') (\<lambda>u. None) (\<lambda>u a b w. (Inr (sampleHTTP sampleBody), w)) sampleDecode (\<lambda>n. int n) sampleClient
     (sampleRequest\<lparr>rq_Messages := [] @ [assistantMessage (sampleResponse\<lparr>rp_Blocks := [zeroBlock\<lparr>cb_Type := BlockToolCall, cb_ToolCall := Some zeroToolCall\<rparr>]\<rparr>)] @
        map toolMessage [zeroResult\<lparr>tr_CallID := ''b'', tr_Content := ''ok'', tr_IsError := True\<rparr>]\<rparr>) ()"
  by (rule request_forgets_tool_calls) (simp_all add: TextContent_def sampleResponse_def)

end
