(* ===== verification/Channels.thy ===== *)
theory Channels
  imports Daemon
begin

text \<open>
  The channel adapters, \<^verbatim>\<open>internal/channels\<close>: the registry that merges their event streams, the terminal, and the two that poll a service, Discord
  and a forum, with the cursor each keeps between its polls.

  A channel is the result of its start, an error or the events it delivers until its stream closes; what the goroutines of the registry make of several streams is any interleaving of
  them. A service answers a request with a \<open>reply\<close>; the JSON decoder and the parser of time stamps are arguments. A poll is one tick of the loop of an adapter.
\<close>

section \<open>Registry\<close>

record channel =
  ch_Name :: string
  ch_Start :: "error + InboundEvent list"

type_synonym ChannelRegistry = "string \<rightharpoonup> channel"

text \<open>\<open>None\<close> is the panic on a second registration.\<close>

definition Channel_Register :: "channel \<Rightarrow> ChannelRegistry \<Rightarrow> ChannelRegistry option" where
  "Channel_Register ch r = (case r (ch_Name ch) of Some _ \<Rightarrow> None | None \<Rightarrow> Some (r(ch_Name ch \<mapsto> ch)))"

definition Channel_Get :: "ChannelRegistry \<Rightarrow> string \<Rightarrow> channel option" where
  "Channel_Get r name = r name"

text \<open>\<open>visit\<close> is the order in which the map is visited.\<close>

definition List_channels :: "string list \<Rightarrow> ChannelRegistry \<Rightarrow> channel list" where
  "List_channels visit r = List.map_filter r visit"

text \<open>The streams that were started; an error when there are channels and none of them starts.\<close>

definition StartAll :: "string list \<Rightarrow> ChannelRegistry \<Rightarrow> error option \<times> InboundEvent list list" where
  "StartAll visit r =
     (let chs = List_channels visit r;
          started = List.map_filter (\<lambda>ch. case ch_Start ch of Inl e \<Rightarrow> None | Inr evs \<Rightarrow> Some evs) chs
      in (if chs \<noteq> [] \<and> started = [] then Some ''channels: no channels started successfully'' else None, started))"

fun merges :: "'a list list \<Rightarrow> 'a list set" where
  "merges [] = {[]}"
| "merges (s # ss) = (\<Union>m \<in> merges ss. shuffles s m)"

section \<open>Terminal\<close>

definition cliEvent :: "time \<Rightarrow> string \<Rightarrow> InboundEvent" where
  "cliEvent now line = \<lparr> ie_Channel = ''cli'', ie_SenderID = ''operator'', ie_SenderName = ''operator'', ie_Content = line, ie_ContentType = ''text'',
     ie_ThreadID = '''', ie_ReceivedAt = now, ie_WakeWorthy = True \<rparr>"

definition CLIAdapter :: "(nat \<Rightarrow> time) \<Rightarrow> string list \<Rightarrow> channel" where
  "CLIAdapter clock lines = \<lparr> ch_Name = ''cli'', ch_Start = Inr (map (\<lambda>(i, l). cliEvent (clock i) l) (enumerate 0 lines)) \<rparr>"

section \<open>Discord\<close>

definition discordAPIBase :: string where
  "discordAPIBase = ''https://discord.com/api/v10''"

record DiscordConfig =
  dc_Token :: string
  dc_ChannelIDs :: "string list"
  dc_PollInterval :: duration

record DiscordAdapter =
  da_cfg :: DiscordConfig
  da_lastID :: "string \<Rightarrow> string"       \<comment> \<open>the empty string for a channel not in the map\<close>

definition NewDiscordAdapter :: "DiscordConfig \<Rightarrow> DiscordAdapter" where
  "NewDiscordAdapter cfg =
     \<lparr> da_cfg = (if dc_PollInterval cfg = 0 then cfg\<lparr>dc_PollInterval := 30 * second\<rparr> else cfg), da_lastID = (\<lambda>_. '''') \<rparr>"

definition Discord_check :: "DiscordAdapter \<Rightarrow> error option" where
  "Discord_check d =
     (if dc_Token (da_cfg d) = '''' then Some ''discord: DISCORD_TOKEN is required''
      else if dc_ChannelIDs (da_cfg d) = [] then Some ''discord: no channel IDs configured'' else None)"

record discordMessage =
  dm_ID :: string
  dm_Content :: string
  dm_Timestamp :: string
  dm_AuthorID :: string
  dm_AuthorName :: string

datatype 'm reply = Failed error | Reply int string string "error + 'm list"    \<comment> \<open>status, \<open>Retry-After\<close>, body, decoded body\<close>

definition messagesURL :: "string \<Rightarrow> string \<Rightarrow> string" where
  "messagesURL channelID afterID =
     discordAPIBase @ ''/channels/'' @ channelID @ ''/messages?limit=50'' @ (if afterID \<noteq> '''' then ''&after='' @ afterID else '''')"

definition discordEvent :: "(string \<Rightarrow> time) \<Rightarrow> discordMessage \<Rightarrow> InboundEvent" where
  "discordEvent parseTime m = \<lparr> ie_Channel = ''discord'', ie_SenderID = dm_AuthorID m, ie_SenderName = dm_AuthorName m, ie_Content = dm_Content m,
     ie_ContentType = ''text'', ie_ThreadID = '''', ie_ReceivedAt = parseTime (dm_Timestamp m), ie_WakeWorthy = False \<rparr>"

text \<open>The result is the events, the seconds to wait, the error and the adapter; \<open>atoi\<close> is \<open>strconv.Atoi\<close>.\<close>

definition fetchMessages ::
  "(string \<Rightarrow> int option) \<Rightarrow> (string \<Rightarrow> time) \<Rightarrow> discordMessage reply \<Rightarrow> string \<Rightarrow> DiscordAdapter \<Rightarrow> (InboundEvent list \<times> int \<times> error option) \<times> DiscordAdapter" where
  "fetchMessages atoi parseTime rep channelID d =
     (case rep of
        Failed e \<Rightarrow> (([], 0, Some e), d)
      | Reply status retry body decoded \<Rightarrow>
          if status = 429
          then (([], if retry \<noteq> '''' then (case atoi retry of Some n \<Rightarrow> n | None \<Rightarrow> 5) else 5, None), d)
          else if status \<noteq> 200 then (([], 0, Some (''discord: HTTP '' @ itoa status @ '': '' @ body)), d)
          else (case decoded of
                  Inl e \<Rightarrow> (([], 0, Some (''discord: decode: '' @ e)), d)
                | Inr raw \<Rightarrow>
                    (let newestID = (if raw = [] then '''' else dm_ID (last raw))
                     in ((map (discordEvent parseTime) raw, 0, None),
                         if newestID \<noteq> '''' then d\<lparr>da_lastID := (da_lastID d)(channelID := newestID)\<rparr> else d))))"

text \<open>One tick of \<open>pollChannel\<close> with a service, and a run of ticks: the events that are put on the channel.\<close>

definition pollTick :: "(string \<Rightarrow> int option) \<Rightarrow> (string \<Rightarrow> time) \<Rightarrow> (string \<Rightarrow> discordMessage reply) \<Rightarrow> string \<Rightarrow> DiscordAdapter \<Rightarrow> InboundEvent list \<times> DiscordAdapter" where
  "pollTick atoi parseTime service channelID d =
     (case fetchMessages atoi parseTime (service (messagesURL channelID (da_lastID d channelID))) channelID d of
        ((msgs, retryAfter, err), d') \<Rightarrow> if retryAfter > 0 then ([], d') else if err \<noteq> None then ([], d') else (msgs, d'))"

fun pollRun :: "(string \<Rightarrow> int option) \<Rightarrow> (string \<Rightarrow> time) \<Rightarrow> (string \<Rightarrow> discordMessage reply) list \<Rightarrow> string \<Rightarrow> DiscordAdapter \<Rightarrow> InboundEvent list \<times> DiscordAdapter" where
  "pollRun atoi parseTime [] channelID d = ([], d)"
| "pollRun atoi parseTime (service # services) channelID d =
     (case pollTick atoi parseTime service channelID d of
        (evs, d') \<Rightarrow> (case pollRun atoi parseTime services channelID d' of (evs', d'') \<Rightarrow> (evs @ evs', d'')))"

section \<open>Forum\<close>

record ForumConfig =
  fc_Name :: string
  fc_BaseURL :: string
  fc_APIKey :: string
  fc_PollInterval :: duration

record ForumAdapter =
  fa_cfg :: ForumConfig
  fa_cursor :: time

definition NewForumAdapter :: "time \<Rightarrow> ForumConfig \<Rightarrow> ForumAdapter" where
  "NewForumAdapter now cfg = \<lparr> fa_cfg = (if fc_PollInterval cfg = 0 then cfg\<lparr>fc_PollInterval := 60 * second\<rparr> else cfg), fa_cursor = now \<rparr>"

definition Forum_check :: "ForumAdapter \<Rightarrow> error option" where
  "Forum_check f =
     (if fc_BaseURL (fa_cfg f) = '''' then Some (''forum('' @ fc_Name (fa_cfg f) @ ''): BaseURL is required'')
      else if fc_APIKey (fa_cfg f) = '''' then Some (''forum('' @ fc_Name (fa_cfg f) @ ''): APIKey is required'') else None)"

record forumPost =
  fp_ID :: string
  fp_ThreadID :: string
  fp_AuthorID :: string
  fp_AuthorName :: string
  fp_Content :: string
  fp_CreatedAt :: string

text \<open>\<open>time.RFC3339\<close> has no fraction of a second: \<open>stamp\<close> is applied to the whole seconds.\<close>

definition sinceOf :: "time \<Rightarrow> time" where
  "sinceOf cursor = cursor div second * second"

definition postsURL :: "(time \<Rightarrow> string) \<Rightarrow> ForumAdapter \<Rightarrow> string" where
  "postsURL stamp f = fc_BaseURL (fa_cfg f) @ ''/api/posts?since='' @ stamp (sinceOf (fa_cursor f))"

definition forumEvent :: "(string \<Rightarrow> time) \<Rightarrow> ForumAdapter \<Rightarrow> forumPost \<Rightarrow> InboundEvent" where
  "forumEvent parseTime f p = \<lparr> ie_Channel = fc_Name (fa_cfg f), ie_SenderID = fp_AuthorID p, ie_SenderName = fp_AuthorName p, ie_Content = fp_Content p,
     ie_ContentType = ''text'', ie_ThreadID = fp_ThreadID p, ie_ReceivedAt = parseTime (fp_CreatedAt p), ie_WakeWorthy = False \<rparr>"

definition fetchPosts :: "(string \<Rightarrow> time) \<Rightarrow> forumPost reply \<Rightarrow> ForumAdapter \<Rightarrow> (error + InboundEvent list) \<times> ForumAdapter" where
  "fetchPosts parseTime rep f =
     (case rep of
        Failed e \<Rightarrow> (Inl e, f)
      | Reply status retry body decoded \<Rightarrow>
          if status \<noteq> 200 then (Inl (''forum('' @ fc_Name (fa_cfg f) @ ''): HTTP '' @ itoa status @ '': '' @ body), f)
          else (case decoded of
                  Inl e \<Rightarrow> (Inl (''forum('' @ fc_Name (fa_cfg f) @ ''): decode: '' @ e), f)
                | Inr raw \<Rightarrow>
                    (let newest = fold (\<lambda>p newest. if parseTime (fp_CreatedAt p) > newest then parseTime (fp_CreatedAt p) else newest) raw zeroTime
                     in (Inr (map (forumEvent parseTime f) raw), if newest \<noteq> zeroTime then f\<lparr>fa_cursor := newest + second div 1000\<rparr> else f))))"

text \<open>One tick of \<open>poll\<close>: the posts that are put on the channel.\<close>

definition forumTick :: "(time \<Rightarrow> string) \<Rightarrow> (string \<Rightarrow> time) \<Rightarrow> (string \<Rightarrow> forumPost reply) \<Rightarrow> ForumAdapter \<Rightarrow> InboundEvent list \<times> ForumAdapter" where
  "forumTick stamp parseTime service f =
     (case fetchPosts parseTime (service (postsURL stamp f)) f of (Inl e, f') \<Rightarrow> ([], f') | (Inr posts, f') \<Rightarrow> (posts, f'))"

section \<open>Sending\<close>

record OutboundMessage =
  om_Channel :: string
  om_Content :: string
  om_ThreadID :: string
  om_ReplyTo :: string
  om_Files :: "string list"

text \<open>\<open>post url content\<close> is the service's answer: an error, or its status and body.\<close>

definition Discord_Send :: "(string \<Rightarrow> string \<Rightarrow> error + int \<times> string) \<Rightarrow> OutboundMessage \<Rightarrow> error option" where
  "Discord_Send post msg =
     (if om_Channel msg = '''' then Some ''discord: Send requires OutboundMessage.Channel (channel ID)''
      else (case post (discordAPIBase @ ''/channels/'' @ om_Channel msg @ ''/messages'') (om_Content msg) of
              Inl e \<Rightarrow> Some e
            | Inr (status, body) \<Rightarrow> if status \<noteq> 200 \<and> status \<noteq> 201 then Some (''discord: send HTTP '' @ itoa status @ '': '' @ body) else None))"

definition Forum_Send :: "(string \<Rightarrow> string \<times> string \<Rightarrow> error + int \<times> string) \<Rightarrow> ForumAdapter \<Rightarrow> OutboundMessage \<Rightarrow> error option" where
  "Forum_Send post f msg =
     (if om_ThreadID msg = '''' then Some (''forum('' @ fc_Name (fa_cfg f) @ ''): Send requires OutboundMessage.ThreadID'')
      else (case post (fc_BaseURL (fa_cfg f) @ ''/api/posts'') (om_ThreadID msg, om_Content msg) of
              Inl e \<Rightarrow> Some e
            | Inr (status, body) \<Rightarrow>
                if status \<noteq> 200 \<and> status \<noteq> 201 then Some (''forum('' @ fc_Name (fa_cfg f) @ ''): send HTTP '' @ itoa status @ '': '' @ body) else None))"


section \<open>Lemmas\<close>

lemma tick_messages:
  assumes "service (messagesURL ch (da_lastID d ch)) = Reply 200 retry body (Inr raw)" and "'''' \<notin> dm_ID ` set raw"
  shows "pollTick atoi parseTime service ch d =
    (map (discordEvent parseTime) raw, if raw = [] then d else d\<lparr>da_lastID := (da_lastID d)(ch := dm_ID (last raw))\<rparr>)"
proof -
  have "raw \<noteq> [] \<Longrightarrow> dm_ID (last raw) \<noteq> ''''" using assms(2) last_in_set by (metis image_eqI)
  then show ?thesis by (simp add: pollTick_def fetchMessages_def assms(1) Let_def)
qed

text \<open>The messages of a channel in the order of their identifiers, and the ones after an identifier.\<close>

definition ordered :: "(string \<Rightarrow> int) \<Rightarrow> discordMessage list \<Rightarrow> bool" where
  "ordered num ms \<longleftrightarrow> sorted_wrt (<) (map (\<lambda>m. num (dm_ID m)) ms) \<and> '''' \<notin> dm_ID ` set ms"

definition after :: "(string \<Rightarrow> int) \<Rightarrow> string \<Rightarrow> discordMessage list \<Rightarrow> discordMessage list" where
  "after num i ms = filter (\<lambda>m. i = '''' \<or> num i < num (dm_ID m)) ms"

lemma after_start: "after num '''' ms = ms"
  by (simp add: after_def)

lemma after_last:
  assumes "ordered num (ms @ ns)" and "ms \<noteq> []"
  shows "after num (dm_ID (last ms)) (ms @ ns) = ns"
proof -
  have "last ms \<in> set (ms @ ns)" using last_in_set [OF assms(2)] by simp
  with assms(1) have id: "dm_ID (last ms) \<noteq> ''''" unfolding ordered_def by (metis image_eqI)
  have w: "sorted_wrt (<) (map (\<lambda>m. num (dm_ID m)) ms)" "\<And>x y. x \<in> set ms \<Longrightarrow> y \<in> set ns \<Longrightarrow> num (dm_ID x) < num (dm_ID y)"
    using assms(1) by (auto simp: ordered_def sorted_wrt_append)
  have "num (dm_ID x) \<le> num (dm_ID (last ms))" if "x \<in> set ms" for x
  proof (cases ms rule: rev_cases)
    case (snoc xs y)
    with w(1) that show ?thesis by (auto simp: sorted_wrt_append)
  qed (use that in simp)
  then have "filter (\<lambda>m. dm_ID (last ms) = '''' \<or> num (dm_ID (last ms)) < num (dm_ID m)) ms = []"
    using id by (auto simp: filter_empty_conv not_less)
  moreover have "filter (\<lambda>m. dm_ID (last ms) = '''' \<or> num (dm_ID (last ms)) < num (dm_ID m)) ns = ns"
    using w(2) [OF last_in_set [OF assms(2)]] by (auto intro: filter_True)
  ultimately show ?thesis by (simp add: after_def)
qed

lemma pollRun_newest_first:
  assumes "ordered num posted" and "\<And>i. service (messagesURL ch i) = Reply 200 [] [] (Inr (rev (after num i posted)))"
    and "k \<le> length posted" "da_lastID d ch = (if k = 0 then '''' else dm_ID (posted ! (k - 1)))"
  shows "fst (pollRun atoi parseTime (replicate n service) ch d) =
    concat (map (\<lambda>j. map (discordEvent parseTime) (rev (drop j posted))) [k..<k + n])"
  using assms(3,4)
proof (induction n arbitrary: k d)
  case (Suc n)
  have rest: "after num (da_lastID d ch) posted = drop k posted"
  proof (cases k)
    case (Suc i)
    with Suc.prems have "take k posted = take i posted @ [posted ! i]" by (simp add: take_Suc_conv_app_nth)
    then have "take k posted \<noteq> []" "last (take k posted) = posted ! (k - 1)" using Suc by simp_all
    with after_last [of num "take k posted" "drop k posted"] assms(1) Suc.prems(2) Suc show ?thesis by simp
  qed (simp add: Suc.prems(2) after_start)
  have ids: "'''' \<notin> dm_ID ` set (rev (drop k posted))" using assms(1) by (auto simp: ordered_def dest: in_set_dropD)
  let ?d = "if drop k posted = [] then d else d\<lparr>da_lastID := (da_lastID d)(ch := dm_ID (hd (drop k posted)))\<rparr>"
  have tick: "pollTick atoi parseTime service ch d = (map (discordEvent parseTime) (rev (drop k posted)), ?d)"
    using tick_messages [of service ch d "[]" "[]" "rev (drop k posted)" atoi parseTime] assms(2) [of "da_lastID d ch", unfolded rest] ids by (simp add: last_rev)
  let ?k = "if k = length posted then k else k + 1"
  have "fst (pollRun atoi parseTime (replicate n service) ch ?d) = concat (map (\<lambda>j. map (discordEvent parseTime) (rev (drop j posted))) [?k..<?k + n])"
    using Suc.prems by (intro Suc.IH) (auto simp: hd_drop_conv_nth)
  moreover have "concat (map (\<lambda>j. map (discordEvent parseTime) (rev (drop j posted))) [?k..<?k + n]) =
      concat (map (\<lambda>j. map (discordEvent parseTime) (rev (drop j posted))) [k + 1..<k + 1 + n])"
  proof (cases "k = length posted")
    case True
    then have "drop j posted = []" if "j \<ge> k" for j using that by simp
    then have none: "concat (map (\<lambda>j. map (discordEvent parseTime) (rev (drop j posted))) [i..<i + n]) = []" if "i \<ge> k" for i using that by (auto simp: concat_eq_Nil_conv)
    have "k \<le> ?k" "k \<le> k + 1" by simp_all
    from none [OF this(1)] none [OF this(2)] show ?thesis by (rule trans [OF _ sym])
  qed simp
  ultimately have rest_run: "fst (pollRun atoi parseTime (replicate n service) ch ?d) =
      concat (map (\<lambda>j. map (discordEvent parseTime) (rev (drop j posted))) [k + 1..<k + 1 + n])" by (rule trans)
  have "fst (pollRun atoi parseTime (replicate (Suc n) service) ch d) =
      map (discordEvent parseTime) (rev (drop k posted)) @ fst (pollRun atoi parseTime (replicate n service) ch ?d)"
    by (simp only: replicate_Suc pollRun.simps tick split_beta fst_conv snd_conv)
  moreover have "[k..<k + Suc n] = k # [k + 1..<k + 1 + n]" by (simp add: upt_conv_Cons del: upt_Suc)
  ultimately show ?case by (simp only: rest_run list.map concat.simps)
qed simp

section \<open>Properties\<close>

text \<open>
  C35. Discord messages are delivered again and again. When the service answers with the newest message first, as its interface does, the cursor is set to the oldest message
  of the answer: the first poll of a channel with \<open>posted\<close> messages delivers all of them, the next one all but the oldest, and so on, so that the newest message reaches
  the daemon once for every message of the first answer.
\<close>

theorem discord_redelivers:
  assumes "ordered num posted" and "\<And>i. service (messagesURL ch i) = Reply 200 [] [] (Inr (rev (after num i posted)))"
    and "posted \<noteq> []" "length posted \<le> 50"
  shows "fst (pollRun atoi parseTime (replicate n service) ch (NewDiscordAdapter cfg)) =
      concat (map (\<lambda>k. map (discordEvent parseTime) (rev (drop k posted))) [0..<n]) \<and>
    (n \<le> length posted \<longrightarrow>
       n \<le> length (filter (\<lambda>ev. ev = discordEvent parseTime (last posted)) (fst (pollRun atoi parseTime (replicate n service) ch (NewDiscordAdapter cfg)))))"
proof -
  let ?evs = "\<lambda>n. concat (map (\<lambda>k. map (discordEvent parseTime) (rev (drop k posted))) [0..<n])"
  let ?new = "\<lambda>ev. ev = discordEvent parseTime (last posted)"
  have run: "fst (pollRun atoi parseTime (replicate n service) ch (NewDiscordAdapter cfg)) = ?evs n"
    using pollRun_newest_first [OF assms(1,2), of 0 "NewDiscordAdapter cfg" atoi parseTime n] by (simp add: NewDiscordAdapter_def)
  have "n \<le> length (filter ?new (?evs n))" if "n \<le> length posted" for n
    using that
  proof (induction n)
    case (Suc n)
    then have "drop n posted \<noteq> []" by simp
    then have "last posted \<in> set (drop n posted)" by (metis last_drop last_in_set drop_eq_Nil not_le)
    then have "filter ?new (map (discordEvent parseTime) (rev (drop n posted))) \<noteq> []" by (auto simp: filter_empty_conv)
    then have "1 \<le> length (filter ?new (map (discordEvent parseTime) (rev (drop n posted))))" by (metis Suc_le_eq One_nat_def length_greater_0_conv)
    moreover have "length (filter ?new (?evs (Suc n))) = length (filter ?new (?evs n)) + length (filter ?new (map (discordEvent parseTime) (rev (drop n posted))))"
      by simp
    ultimately show ?case using Suc by linarith
  qed simp
  with run show ?thesis by simp
qed

text \<open>
  With a service that answers with the oldest message first, every message is delivered once: over any sequence of polls between which messages are posted, the events are the messages in
  their order.
\<close>

lemma oldest_first_from:
  assumes "list_all2 (\<lambda>service ms. \<forall>i. service (messagesURL ch i) = Reply 200 [] [] (Inr (after num i ms))) services snapshots"
    and "sorted_wrt prefix (old # snapshots)" "ordered num (last (old # snapshots))"
    and "da_lastID d ch = (if old = [] then '''' else dm_ID (last old))"
  shows "fst (pollRun atoi parseTime services ch d) = map (discordEvent parseTime) (drop (length old) (last (old # snapshots)))"
  using assms
proof (induction services snapshots arbitrary: old d rule: list_all2_induct)
  case (Cons service services ms snapshots)
  obtain new where new: "ms = old @ new" using Cons.prems(1) by (auto simp: prefix_def)
  obtain later where later: "last (ms # snapshots) = ms @ later"
    using Cons.prems(1) by (cases "snapshots = []") (auto simp: prefix_def dest!: bspec [OF _ last_in_set])
  have ord: "ordered num ms" using Cons.prems(2) later by (auto simp: ordered_def sorted_wrt_append)
  have raw: "after num (da_lastID d ch) ms = new"
  proof (cases "old = []")
    case False
    with after_last [of num old new] ord Cons.prems(3) new show ?thesis by simp
  qed (simp add: Cons.prems(3) after_start new)
  have "'''' \<notin> dm_ID ` set new" using ord new by (auto simp: ordered_def)
  with tick_messages [of service ch d "[]" "[]" new atoi parseTime] Cons.hyps(1) raw
  have tick: "pollTick atoi parseTime service ch d =
      (map (discordEvent parseTime) new, if new = [] then d else d\<lparr>da_lastID := (da_lastID d)(ch := dm_ID (last new))\<rparr>)" by simp
  let ?d = "if new = [] then d else d\<lparr>da_lastID := (da_lastID d)(ch := dm_ID (last new))\<rparr>"
  have "fst (pollRun atoi parseTime services ch ?d) = map (discordEvent parseTime) (drop (length ms) (last (ms # snapshots)))"
    using Cons.prems new by (intro Cons.IH) auto
  then show ?case using later new by (simp add: tick split: prod.split) (metis fst_conv)
qed simp

theorem oldest_first_delivers_once:
  assumes "list_all2 (\<lambda>service ms. \<forall>i. service (messagesURL ch i) = Reply 200 [] [] (Inr (after num i ms))) services snapshots"
    and "sorted_wrt prefix snapshots" "snapshots \<noteq> []" "ordered num (last snapshots)"
  shows "fst (pollRun atoi parseTime services ch (NewDiscordAdapter cfg)) = map (discordEvent parseTime) (last snapshots)"
  using oldest_first_from [OF assms(1), of "[]" "NewDiscordAdapter cfg" atoi parseTime] assms(2-4) by (simp add: NewDiscordAdapter_def)

text \<open>
  The millisecond that the forum adapter adds to its cursor is lost in the request, which has whole seconds only: the newest post that was read, when it has a whole second, is not
  before the time from which the next request asks for posts.
\<close>

theorem forum_asks_again_from_newest:
  assumes "fetchPosts parseTime (Reply 200 retry body (Inr raw)) f = (Inr evs, f')" and "p \<in> set raw"
    and "\<And>q. q \<in> set raw \<Longrightarrow> parseTime (fp_CreatedAt q) \<le> parseTime (fp_CreatedAt p)"
    and "zeroTime < parseTime (fp_CreatedAt p)" "parseTime (fp_CreatedAt p) mod second = 0"
  shows "sinceOf (fa_cursor f') = parseTime (fp_CreatedAt p)"
proof -
  let ?step = "\<lambda>p newest. if parseTime (fp_CreatedAt p) > newest then parseTime (fp_CreatedAt p) else newest"
  have le: "fold ?step qs b \<le> m" if "\<And>q. q \<in> set qs \<Longrightarrow> parseTime (fp_CreatedAt q) \<le> m" "b \<le> m" for qs b m
    using that by (induction qs arbitrary: b) simp_all
  have ge: "b \<le> fold ?step qs b \<and> (\<forall>q \<in> set qs. parseTime (fp_CreatedAt q) \<le> fold ?step qs b)" for qs b
  proof (induction qs arbitrary: b)
    case (Cons q qs)
    show ?case using Cons.IH [of "?step q b"] by (auto split: if_splits)
  qed simp
  have "fold ?step raw zeroTime = parseTime (fp_CreatedAt p)"
    using le [of raw "parseTime (fp_CreatedAt p)" zeroTime] ge [of zeroTime raw] assms(2-4) by (intro antisym) auto
  then have "fa_cursor f' = parseTime (fp_CreatedAt p) + second div 1000"
    using assms(1,4) by (auto simp: fetchPosts_def Let_def)
  moreover obtain s where "parseTime (fp_CreatedAt p) = s * second" using assms(5) by (metis div_mult_mod_eq add.right_neutral)
  ultimately show ?thesis by (simp add: sinceOf_def)
qed

text \<open>Every event stream is part of the merged one in its own order, and nothing else is.\<close>

lemma merges_mset: "m \<in> merges ss \<Longrightarrow> mset m = sum_list (map mset ss)"
  by (induction ss arbitrary: m) (auto dest!: mset_shuffles)

lemma shuffles_subseq: "m \<in> shuffles xs ys \<Longrightarrow> subseq xs m \<and> subseq ys m"
proof (induction xs ys arbitrary: m rule: shuffles.induct)
  case (3 x xs y ys)
  then consider m' where "m = x # m'" "m' \<in> shuffles xs (y # ys)" | m' where "m = y # m'" "m' \<in> shuffles (x # xs) ys" by auto
  then show ?case using "3.IH" by cases (auto intro: subseq_Cons')
qed auto

lemma merges_subseq: "m \<in> merges ss \<Longrightarrow> s \<in> set ss \<Longrightarrow> subseq s m"
  by (induction ss arbitrary: m) (auto dest: shuffles_subseq intro: subseq_order.trans)


section \<open>Witnesses\<close>

definition sampleMessage :: "string \<Rightarrow> discordMessage" where
  "sampleMessage i = \<lparr> dm_ID = i, dm_Content = ''hi '' @ i, dm_Timestamp = '''', dm_AuthorID = ''7'', dm_AuthorName = ''ann'' \<rparr>"

definition twoPosted :: "discordMessage list" where
  "twoPosted = [sampleMessage ''1'', sampleMessage ''22'']"

definition lengthNum :: "string \<Rightarrow> int" where
  "lengthNum i = int (length i)"

definition newestFirst :: "string \<Rightarrow> discordMessage reply" where
  "newestFirst url = Reply 200 [] [] (Inr (rev (after lengthNum (if hasPrefix url (messagesURL ''c'' '''' @ ''&after='') then
     drop (length (messagesURL ''c'' '''' @ ''&after='')) url else '''') twoPosted)))"

lemma twoPosted_ordered: "ordered lengthNum twoPosted"
  by (simp add: ordered_def twoPosted_def sampleMessage_def lengthNum_def)

lemma newestFirst_answers: "newestFirst (messagesURL ''c'' i) = Reply 200 [] [] (Inr (rev (after lengthNum i twoPosted)))"
  by (cases "i = ''''") (simp_all add: newestFirst_def messagesURL_def discordAPIBase_def)

theorem discord_redelivers_witness:
  "fst (pollRun (\<lambda>_. None) (\<lambda>_. 0) (replicate 2 newestFirst) ''c'' (NewDiscordAdapter \<lparr> dc_Token = ''t'', dc_ChannelIDs = [''c''], dc_PollInterval = 0 \<rparr>)) =
   map (discordEvent (\<lambda>_. 0)) [sampleMessage ''22'', sampleMessage ''1'', sampleMessage ''22'']"
  using discord_redelivers [OF twoPosted_ordered newestFirst_answers, of "\<lambda>_. None" "\<lambda>_. 0" 2 "\<lparr> dc_Token = ''t'', dc_ChannelIDs = [''c''], dc_PollInterval = 0 \<rparr>"]
  by (simp add: twoPosted_def upt_rec)


definition twoChannels :: ChannelRegistry where
  "twoChannels = [''cli'' \<mapsto> CLIAdapter int [''a'', ''b''], ''discord'' \<mapsto> \<lparr> ch_Name = ''discord'', ch_Start = Inl ''no token'' \<rparr>]"


end
