(* ===== verification/GoStrings.thy ===== *)
theory GoStrings
  imports Utf8
begin

text \<open>
  More of Go's package \<open>strings\<close>: suffixes, cutting at separators and at white space, and the lemmas by which trimming is computed on text that starts and ends with a visible ASCII character.
\<close>

section \<open>Operations\<close>

definition hasSuffix :: "string \<Rightarrow> string \<Rightarrow> bool" where
  "hasSuffix s p \<longleftrightarrow> hasPrefix (rev s) (rev p)"

text \<open>\<open>strings.TrimRight\<close> for a set of ASCII characters.\<close>

definition trimRight :: "char set \<Rightarrow> string \<Rightarrow> string" where
  "trimRight cutset s = rev (dropWhile (\<lambda>c. c \<in> cutset) (rev s))"

text \<open>\<open>strings.Split\<close> for a separator of one byte.\<close>

fun splitByte :: "char \<Rightarrow> string \<Rightarrow> string list" where
  "splitByte sep [] = [[]]"
| "splitByte sep (c # s) = (if c = sep then [] # splitByte sep s else (case splitByte sep s of p # ps \<Rightarrow> (c # p) # ps | [] \<Rightarrow> [[c]]))"

text \<open>\<open>strings.Fields\<close>: the maximal runs without white space. \<open>spaceAt\<close> is the number of bytes of a space at the head of the text.\<close>

definition spaceAt :: "string \<Rightarrow> nat" where
  "spaceAt s = length s - length (dropSpace goSpaces s)"

function fieldsLoop :: "string \<Rightarrow> string \<Rightarrow> string list" where
  "fieldsLoop cur [] = (if cur = [] then [] else [cur])"
| "fieldsLoop cur (c # s) =
     (if spaceAt (c # s) = 0 then fieldsLoop (cur @ [c]) s
      else (if cur = [] then [] else [cur]) @ fieldsLoop [] (drop (spaceAt (c # s)) (c # s)))"
  by pat_completeness auto
termination
  by (relation "measure (\<lambda>(cur, s). length s)") auto

definition Fields :: "string \<Rightarrow> string list" where
  "Fields s = fieldsLoop [] s"

text \<open>\<open>strconv.Atoi\<close>, with the range of a 64-bit \<open>int\<close>.\<close>

definition digitByte :: "char \<Rightarrow> bool" where
  "digitByte c \<longleftrightarrow> (let n = of_char c :: nat in 48 \<le> n \<and> n \<le> 57)"

definition digitsValue :: "string \<Rightarrow> nat" where
  "digitsValue ds = foldl (\<lambda>v c. v * 10 + (of_char c - 48)) 0 ds"

definition Atoi :: "string \<Rightarrow> error + int" where
  "Atoi s =
     (let neg = hasPrefix s ''-''; ds = (if neg \<or> hasPrefix s ''+'' then tl s else s);
          v = (if neg then - int (digitsValue ds) else int (digitsValue ds))
      in if ds = [] \<or> \<not> list_all digitByte ds then Inl (''strconv.Atoi: parsing '' @ quoted s @ '': invalid syntax'')
         else if v < - (2 ^ 63) \<or> v \<ge> 2 ^ 63 then Inl (''strconv.Atoi: parsing '' @ quoted s @ '': value out of range'')
         else Inr v)"

section \<open>Lemmas\<close>

lemma of_char_digit: "d < 10 \<Longrightarrow> of_char (digit d) = (48 + d :: nat)"
  by (simp add: digit_def of_char_of)

lemma digitsValue_decimal: "digitsValue (decimal n) = n \<and> list_all digitByte (decimal n) \<and> decimal n \<noteq> []"
proof (induction n rule: decimal.induct)
  case (1 n)
  have d: "of_char (digit (n mod 10)) = (48 + n mod 10 :: nat)" by (rule of_char_digit) simp
  have "n mod 10 < 10" by simp
  then have b: "digitByte (digit (n mod 10))" unfolding digitByte_def Let_def d by linarith
  show ?case
  proof (cases "n < 10")
    case True
    with d show ?thesis by (subst (1 2 3) decimal.simps) (simp add: digitsValue_def digitByte_def)
  next
    case False
    with 1 d b show ?thesis by (subst (1 2 3) decimal.simps) (simp add: digitsValue_def)
  qed
qed

text \<open>Reading a printed number.\<close>

lemma Atoi_itoa:
  assumes "- (2 ^ 63) \<le> i" "i < 2 ^ 63"
  shows "Atoi (itoa i) = Inr i"
proof (cases "i < 0")
  case True
  with digitsValue_decimal [of "nat (- i)"] assms show ?thesis by (simp add: Atoi_def itoa_def)
next
  case False
  have "decimal (nat i) \<noteq> []" "list_all digitByte (decimal (nat i))" using digitsValue_decimal by blast+
  then obtain c t where "decimal (nat i) = c # t" "digitByte c" by (cases "decimal (nat i)") auto
  then have "\<not> hasPrefix (decimal (nat i)) ''-''" "\<not> hasPrefix (decimal (nat i)) ''+''" by (auto simp: digitByte_def)
  with False digitsValue_decimal [of "nat i"] assms show ?thesis by (simp add: Atoi_def itoa_def)
qed

lemma hasSuffix_iff [go_string]: "hasSuffix s p \<longleftrightarrow> (\<exists>r. s = r @ p)"
  by (auto simp: hasSuffix_def hasPrefix_iff) (metis rev_append rev_rev_ident)

lemma splitByte_nonempty [simp]: "splitByte sep s \<noteq> []"
  by (induction s) (auto split: list.split)

lemma strJoin_splitByte: "strJoin (splitByte sep s) [sep] = s"
proof (induction s)
  case (Cons c s)
  then show ?case by (cases "splitByte sep s") (auto simp: strJoin_Cons split: if_splits)
qed simp

lemma splitByte_append: "splitByte sep (a @ sep # b) = splitByte sep a @ splitByte sep b"
  by (induction a) (auto split: list.split)

lemma splitByte_plain: "sep \<notin> set a \<Longrightarrow> splitByte sep a = [a]"
  by (induction a) auto

lemma splitByte_strJoin: "cs \<noteq> [] \<Longrightarrow> \<forall>c \<in> set cs. sep \<notin> set c \<Longrightarrow> splitByte sep (strJoin cs [sep]) = cs"
proof (induction cs)
  case (Cons c cs)
  then show ?case by (cases "cs = []") (simp_all add: strJoin_Cons splitByte_plain splitByte_append)
qed simp

lemma strJoin_append: "xs \<noteq> [] \<Longrightarrow> ys \<noteq> [] \<Longrightarrow> strJoin (xs @ ys) sep = strJoin xs sep @ sep @ strJoin ys sep"
  by (induction xs) (auto simp: strJoin_Cons)

lemma splitByte_no_sep: "p \<in> set (splitByte sep s) \<Longrightarrow> sep \<notin> set p"
  by (induction s arbitrary: p) (auto split: if_splits list.splits)

text \<open>A visible character is neither white space nor part of a longer encoding.\<close>

definition visible :: "char \<Rightarrow> bool" where
  "visible c \<longleftrightarrow> asciiByte c \<and> \<not> asciiSpace c"

lemma multiSpaces_heads: "list_all (\<lambda>w. w \<noteq> [] \<and> \<not> asciiByte (hd w) \<and> \<not> asciiByte (last w)) multiSpaces"
  by (simp add: multiSpaces_def asciiByte_def upt_rec)

lemma goSpaces_heads: "w \<in> set goSpaces \<Longrightarrow> w \<noteq> [] \<and> \<not> visible (hd w) \<and> \<not> visible (last w)"
proof -
  assume "w \<in> set goSpaces"
  with multiSpaces_heads show ?thesis by (auto simp: goSpaces_def visible_def list_all_iff)
qed

lemma dropSpace_visible:
  assumes "visible c" "\<And>w. w \<in> set ws \<Longrightarrow> w \<noteq> [] \<and> \<not> visible (hd w)"
  shows "dropSpace ws (c # s) = c # s"
proof -
  have "\<not> prefix w (c # s)" if "w \<in> set ws" for w using assms(1) assms(2) [OF that] by (cases w) auto
  then have "find (\<lambda>w. prefix w (c # s)) ws = None" by (simp add: find_None_iff)
  then show ?thesis by (simp add: dropSpace_def)
qed

lemma funpow_fixed: "f x = x \<Longrightarrow> (f ^^ n) x = x"
  by (induction n) auto

lemma TrimSpace_visible:
  assumes "visible (hd s)" "visible (last s)" "s \<noteq> []"
  shows "TrimSpace s = s"
proof -
  obtain c t where s: "s = c # t" using assms(3) by (cases s) auto
  obtain d u where r: "rev s = d # u" using assms(3) by (cases "rev s") auto
  have d: "visible d" using assms(2) r by (metis last_rev list.sel(1) rev_rev_ident rev_is_Nil_conv list.distinct(1))
  have left: "dropSpace goSpaces s = s" using assms(1) goSpaces_heads by (simp add: s dropSpace_visible)
  have "dropSpace (map rev goSpaces) (d # u) = d # u"
    using d goSpaces_heads by (intro dropSpace_visible) (auto simp: hd_rev)
  then show ?thesis
    unfolding TrimSpace_def Let_def funpow_fixed [of "dropSpace goSpaces", OF left] r
    by (metis funpow_fixed [of "dropSpace (map rev goSpaces)"] r rev_rev_ident)
qed

lemma spaceAt_visible [simp]: "visible c \<Longrightarrow> spaceAt (c # s) = 0"
  using goSpaces_heads by (simp add: spaceAt_def dropSpace_visible)

lemma goSpaces_blank: "w \<in> set goSpaces \<Longrightarrow> prefix w (CHR '' '' # s) \<longleftrightarrow> w = '' ''"
proof -
  assume "w \<in> set goSpaces"
  then consider c where "w = [c]" | "w \<noteq> []" "\<not> asciiByte (hd w)" using multiSpaces_heads by (auto simp: goSpaces_def list_all_iff)
  then show ?thesis
  proof cases
    case 1
    then show ?thesis by auto
  next
    case 2
    then obtain c t where w: "w = c # t" by (cases w) auto
    have "asciiByte CHR '' ''" by (simp add: asciiByte_def)
    with 2 w show ?thesis by auto
  qed
qed

lemma blank_in_goSpaces: "'' '' \<in> set goSpaces"
proof -
  have "CHR '' '' = char_of (32 :: nat)" by code_simp
  then have "CHR '' '' \<in> char_of ` {0..<128::nat}" by (intro image_eqI [of _ _ 32]) simp_all
  then show ?thesis by (auto simp: goSpaces_def asciiSpace_def)
qed

lemma spaceAt_blank [simp]: "spaceAt (CHR '' '' # s) = 1"
proof -
  have "find (\<lambda>w. prefix w (CHR '' '' # s)) goSpaces = Some '' ''"
  proof (cases "find (\<lambda>w. prefix w (CHR '' '' # s)) goSpaces")
    case None
    then show ?thesis using blank_in_goSpaces by (auto simp: find_None_iff)
  next
    case (Some w)
    with goSpaces_blank show ?thesis by (auto dest: find_SomeD)
  qed
  then show ?thesis by (simp add: spaceAt_def dropSpace_def)
qed

lemma fieldsLoop_visible: "list_all visible w \<Longrightarrow> fieldsLoop cur (w @ s) = fieldsLoop (cur @ w) s"
  by (induction w arbitrary: cur) simp_all

text \<open>The fields of visible words with blanks between them are the words.\<close>

lemma Fields_words:
  assumes "\<forall>w \<in> set ws. w \<noteq> [] \<and> list_all visible w"
  shows "Fields (strJoin ws '' '') = ws"
  unfolding Fields_def using assms
proof (induction ws)
  case (Cons w ws)
  have "fieldsLoop w [] = [w]" "fieldsLoop w (CHR '' '' # t) = w # fieldsLoop [] t" for t using Cons.prems by simp_all
  with Cons fieldsLoop_visible [of w "[]" "[]"] fieldsLoop_visible [of w "[]" "'' '' @ strJoin ws '' ''"] show ?case
    by (simp add: strJoin_Cons)
qed simp

end
