(* ===== verification/Migrate.thy ===== *)
theory Migrate
  imports App GoStrings
begin

text \<open>
  The migration runner, \<^verbatim>\<open>cmd/migrate/main.go\<close>: the scripts of the schema directory are applied in the order of their names, each one in a transaction with its entry
  in the table \<open>schema_migrations\<close>, and an applied script that has changed is refused.

  The content of the database besides that table is of an arbitrary type, and what a statement does to it is the argument \<open>gv_exec\<close>; a failure that the driver reports (begin, insert,
  commit, query) is an argument as well. SHA-256 in hexadecimal is \<open>gv_sha\<close>. What the runner prints is left out. The regular expressions of the dialect adapter are
  translated to matchers on bytes; the two letters outside ASCII that Go folds to \<open>s\<close> and \<open>k\<close> are not matched.
\<close>

section \<open>Statements\<close>

abbreviation apostrophe :: char where "apostrophe \<equiv> CHR 0x27"

text \<open>\<open>splitStatements\<close> is the loop over the bytes with its two flags and the current statement.\<close>

fun splitLoop :: "bool \<Rightarrow> bool \<Rightarrow> string \<Rightarrow> string \<Rightarrow> string list" where
  "splitLoop inString inLineComment cur [] = (let s = TrimSpace cur in if s \<noteq> '''' then [s] else [])"
| "splitLoop inString inLineComment cur (ch # rest) =
     (if inLineComment then splitLoop inString (ch \<noteq> CHR 0x0A) (cur @ [ch]) rest
      else if \<not> inString \<and> rest \<noteq> [] \<and> ch = CHR ''-'' \<and> hd rest = CHR ''-'' then splitLoop inString True (cur @ [ch]) rest
      else (let inString' = (if ch = apostrophe then \<not> inString else inString)
            in if \<not> inString' \<and> ch = CHR '';'' then cur # splitLoop inString' False [] rest
               else splitLoop inString' False (cur @ [ch]) rest))"

definition splitStatements :: "string \<Rightarrow> string list" where
  "splitStatements sql = splitLoop False False [] sql"

section \<open>The dialect adapter\<close>

text \<open>A matcher gives the length of a match at the head of the text, from the byte before it.\<close>

type_synonym matcher = "char option \<Rightarrow> string \<Rightarrow> nat option"

definition wordByte :: "char \<Rightarrow> bool" where
  "wordByte c \<longleftrightarrow> (let n = of_char c :: nat in (48 \<le> n \<and> n \<le> 57) \<or> (65 \<le> n \<and> n \<le> 90) \<or> (97 \<le> n \<and> n \<le> 122) \<or> n = 95)"

definition wordAt :: "char option \<Rightarrow> bool" where
  "wordAt c = (case c of None \<Rightarrow> False | Some c \<Rightarrow> wordByte c)"

definition headOf :: "string \<Rightarrow> char option" where
  "headOf s = (case s of [] \<Rightarrow> None | c # _ \<Rightarrow> Some c)"

definition foldPrefix :: "string \<Rightarrow> string \<Rightarrow> bool" where
  "foldPrefix w s \<longleftrightarrow> hasPrefix (map asciiLower s) (map asciiLower w)"

definition matchWord :: "string \<Rightarrow> matcher" where
  "matchWord w prev s =
     (if foldPrefix w s \<and> \<not> wordAt prev \<and> \<not> wordAt (headOf (drop (length w) s)) then Some (length w) else None)"

definition matchNow :: matcher where
  "matchNow prev s = (if foldPrefix ''now()'' s \<and> \<not> wordAt prev then Some 5 else None)"

definition matchVector :: matcher where
  "matchVector prev s =
     (let ds = takeWhile digitByte (drop 7 s)
      in if foldPrefix ''vector('' s \<and> \<not> wordAt prev \<and> ds \<noteq> [] \<and> hasPrefix (drop (7 + length ds) s) '')'' then Some (8 + length ds) else None)"

definition reSpace :: "char \<Rightarrow> bool" where
  "reSpace c \<longleftrightarrow> c \<in> {CHR 0x09, CHR 0x0A, CHR 0x0C, CHR 0x0D, CHR 0x20}"

definition matchConcurrently :: matcher where
  "matchConcurrently prev s =
     (let a = takeWhile reSpace (drop 6 s); s' = drop (6 + length a) s; b = takeWhile reSpace (drop 5 s'); s'' = drop (5 + length b) s'
      in if foldPrefix ''CREATE'' s \<and> a \<noteq> [] \<and> foldPrefix ''INDEX'' s' \<and> b \<noteq> [] \<and> foldPrefix ''CONCURRENTLY'' s''
         then Some (6 + length a + 5 + length b + 12) else None)"

text \<open>\<open>ReplaceAllString\<close> for a pattern that matches no empty text.\<close>

function replaceAll :: "matcher \<Rightarrow> string \<Rightarrow> char option \<Rightarrow> string \<Rightarrow> string" where
  "replaceAll m r prev [] = []"
| "replaceAll m r prev (c # s) =
     (case m prev (c # s) of
        Some (Suc n) \<Rightarrow> r @ replaceAll m r (Some (last (c # take n s))) (drop n s)
      | _ \<Rightarrow> c # replaceAll m r (Some c) s)"
  by pat_completeness auto
termination
  by (relation "measure (\<lambda>(m, r, prev, s). length s)") auto

definition autoincrement :: string where
  "autoincrement = ''INTEGER PRIMARY KEY AUTOINCREMENT''"

text \<open>\<open>reSerial\<close> matches the longer word where both match; what it is replaced by is in upper case already.\<close>

definition matchSerial :: matcher where
  "matchSerial prev s = (case matchWord ''BIGSERIAL'' prev s of Some n \<Rightarrow> Some n | None \<Rightarrow> matchWord ''SERIAL'' prev s)"

definition adaptForSQLite :: "string \<Rightarrow> string" where
  "adaptForSQLite sql =
     (let sql = replaceAll matchSerial autoincrement None sql;
          sql = replaceAll (matchWord ''BIGSERIAL'') autoincrement None sql;
          sql = replaceAll (matchWord ''SERIAL'') autoincrement None sql;
          sql = replaceAll matchVector ''TEXT'' None sql;
          sql = replaceAll (matchWord ''TIMESTAMPTZ'') ''TEXT'' None sql;
          sql = replaceAll matchNow ''CURRENT_TIMESTAMP'' None sql;
          sql = replaceAll matchConcurrently ''CREATE INDEX'' None sql;
          sql = replaceAll (matchWord ''JSONB'') ''TEXT'' None sql;
          sql = replaceAll (matchWord ''BOOLEAN'') ''INTEGER'' None sql;
          sql = replaceAll (matchWord ''TRUE'') ''1'' None sql
      in replaceAll (matchWord ''FALSE'') ''0'' None sql)"

section \<open>The runner\<close>

record 's migState =
  mg_schema :: 's
  mg_applied :: "(string \<times> string) list option"     \<comment> \<open>the rows of \<open>schema_migrations\<close>; \<open>None\<close> when there is no such table\<close>

record 's migEnv =
  gv_DATABASE_DSN :: string
  gv_SCHEMA_DIR :: string
  gv_drivers :: "string set"
  gv_ping :: "string \<Rightarrow> string \<Rightarrow> error option"
  gv_dir :: "error + (string \<times> bool) list"             \<comment> \<open>names and whether they are directories\<close>
  gv_read :: "string \<Rightarrow> error + string"
  gv_sha :: "string \<Rightarrow> string"
  gv_exec :: "string \<Rightarrow> 's \<Rightarrow> error + 's"
  gv_ensure :: "error option"
  gv_query :: "error option"
  gv_begin :: "string \<Rightarrow> error option"
  gv_insert :: "string \<Rightarrow> error option"
  gv_commit :: "string \<Rightarrow> error option"

definition ensureMigrationsTable :: "'s migEnv \<Rightarrow> 's migState \<Rightarrow> error option \<times> 's migState" where
  "ensureMigrationsTable env st =
     (case gv_ensure env of
        Some e \<Rightarrow> (Some e, st)
      | None \<Rightarrow> (None, if mg_applied st = None then st\<lparr>mg_applied := Some []\<rparr> else st))"

text \<open>The paths have the directory in common, so that their order is that of the names.\<close>

definition collectMigrationFiles :: "error + (string \<times> bool) list \<Rightarrow> error + string list" where
  "collectMigrationFiles dir =
     (case dir of Inl e \<Rightarrow> Inl e
      | Inr entries \<Rightarrow> Inr (sortStrings (map fst (filter (\<lambda>(name, isDir). \<not> (isDir \<or> \<not> hasSuffix name ''.sql'')) entries))))"

definition appliedMigrations :: "'s migEnv \<Rightarrow> 's migState \<Rightarrow> error + (string \<rightharpoonup> string)" where
  "appliedMigrations env st =
     (case (gv_query env, mg_applied st) of
        (Some e, _) \<Rightarrow> Inl e
      | (None, None) \<Rightarrow> Inl ''no such table: schema_migrations''
      | (None, Some rows) \<Rightarrow> Inr (map_of rows))"

definition truncateStmt :: "string \<Rightarrow> nat \<Rightarrow> string" where
  "truncateStmt s n = (if length s \<le> n then s else take n s @ ''...'')"

fun execStatements :: "(string \<Rightarrow> 's \<Rightarrow> error + 's) \<Rightarrow> string list \<Rightarrow> 's \<Rightarrow> error + 's" where
  "execStatements exec [] s = Inr s"
| "execStatements exec (stmt # stmts) s =
     (let stmt = TrimSpace stmt
      in if stmt = '''' then execStatements exec stmts s
         else (case exec stmt s of
                 Inl e \<Rightarrow> Inl (''executing statement '' @ quoted (truncateStmt stmt 120) @ '': '' @ e)
               | Inr s' \<Rightarrow> execStatements exec stmts s'))"

text \<open>The name is the primary key. A transaction that does not commit is rolled back.\<close>

definition applyMigration :: "'s migEnv \<Rightarrow> string \<Rightarrow> string \<Rightarrow> string \<Rightarrow> 's migState \<Rightarrow> error option \<times> 's migState" where
  "applyMigration env name sqlText checksum st =
     (case gv_begin env name of
        Some e \<Rightarrow> (Some e, st)
      | None \<Rightarrow>
          (case execStatements (gv_exec env) (splitStatements sqlText) (mg_schema st) of
             Inl e \<Rightarrow> (Some e, st)
           | Inr s' \<Rightarrow>
               (let rows = (case mg_applied st of None \<Rightarrow> [] | Some rows \<Rightarrow> rows);
                    insert = (case gv_insert env name of
                        Some e \<Rightarrow> Some e
                      | None \<Rightarrow> if mg_applied st = None then Some ''no such table: schema_migrations''
                                else if name \<in> fst ` set rows then Some ''UNIQUE constraint failed: schema_migrations.name'' else None)
                in (case insert of
                      Some e \<Rightarrow> (Some (''recording migration: '' @ e), st)
                    | None \<Rightarrow> (case gv_commit env name of
                                  Some e \<Rightarrow> (Some e, st)
                                | None \<Rightarrow> (None, \<lparr> mg_schema = s', mg_applied = Some (rows @ [(name, checksum)]) \<rparr>))))))"

fun applyFiles :: "'s migEnv \<Rightarrow> string \<Rightarrow> (string \<rightharpoonup> string) \<Rightarrow> string list \<Rightarrow> 's migState \<Rightarrow> error option \<times> 's migState" where
  "applyFiles env driver applied [] st = (None, st)"
| "applyFiles env driver applied (name # files) st =
     (case gv_read env name of
        Inl e \<Rightarrow> (Some (''reading '' @ name @ '': '' @ e), st)
      | Inr raw \<Rightarrow>
          (let checksum = gv_sha env raw in
           case applied name of
             Some prev \<Rightarrow>
               if prev \<noteq> checksum
               then (Some (''checksum mismatch on applied migration '' @ name @ '' '' @ em_dash @ '' never edit applied migrations; add a new file''), st)
               else applyFiles env driver applied files st
           | None \<Rightarrow>
               (let sql = (if driver = ''sqlite3'' then adaptForSQLite raw else raw) in
                case applyMigration env name sql checksum st of
                  (Some e, st') \<Rightarrow> (Some (''applying '' @ name @ '': '' @ e), st')
                | (None, st') \<Rightarrow> applyFiles env driver applied files st')))"

definition migrateDSN :: "'s migEnv \<Rightarrow> string" where
  "migrateDSN env = (if gv_DATABASE_DSN env = '''' then ''sqlite://./agent.db'' else gv_DATABASE_DSN env)"

definition migrate_run :: "'s migEnv \<Rightarrow> 's migState \<Rightarrow> error option \<times> 's migState" where
  "migrate_run env st =
     (let schemaDir = (if gv_SCHEMA_DIR env = '''' then ''./schema'' else gv_SCHEMA_DIR env) in
      case NewStore (gv_drivers env) (gv_ping env) (migrateDSN env) of
        Inl e \<Rightarrow> (Some (''connecting to database: '' @ e), st)
      | Inr driver \<Rightarrow>
          (case ensureMigrationsTable env st of
             (Some e, st') \<Rightarrow> (Some (''ensuring schema_migrations table: '' @ e), st')
           | (None, st') \<Rightarrow>
               (case collectMigrationFiles (gv_dir env) of
                  Inl e \<Rightarrow> (Some (''collecting migration files from '' @ schemaDir @ '': '' @ e), st')
                | Inr files \<Rightarrow>
                    (case appliedMigrations env st' of
                       Inl e \<Rightarrow> (Some (''loading applied migrations: '' @ e), st')
                     | Inr applied \<Rightarrow> applyFiles env driver applied files st'))))"


lemma migrateDSN_update [simp]: "migrateDSN (env\<lparr>gv_exec := a, gv_begin := b, gv_insert := c, gv_commit := d\<rparr>) = migrateDSN env"
  by (simp add: migrateDSN_def cong: if_cong)

section \<open>A lexical reference for the splitting of scripts\<close>

text \<open>A script is read as code, string literals and line comments.\<close>

datatype region = Code | Literal | Comment

fun regions :: "region \<Rightarrow> string \<Rightarrow> region list" where
  "regions r [] = []"
| "regions Comment (c # s) = Comment # regions (if c = CHR 0x0A then Code else Comment) s"
| "regions Literal (c # s) = Literal # regions (if c = apostrophe then Code else Literal) s"
| "regions Code (c # s) =
     (if c = CHR ''-'' \<and> headOf s = Some (CHR ''-'') then Comment # regions Comment s
      else if c = apostrophe then Literal # regions Literal s else Code # regions Code s)"

fun pieces :: "string \<Rightarrow> (char \<times> region) list \<Rightarrow> string list" where
  "pieces cur [] = [cur]"
| "pieces cur ((c, r) # s) = (if c = CHR '';'' \<and> r = Code then cur # pieces [] s else pieces (cur @ [c]) s)"

definition sqlPieces :: "string \<Rightarrow> string list" where
  "sqlPieces sql = pieces [] (zip sql (regions Code sql))"

definition trimmedLast :: "string list \<Rightarrow> string list" where
  "trimmedLast ps = butlast ps @ (if TrimSpace (last ps) \<noteq> '''' then [TrimSpace (last ps)] else [])"

lemma length_regions [simp]: "length (regions r s) = length s"
  by (induction r s rule: regions.induct) auto

lemma pieces_nonempty [simp]: "pieces cur s \<noteq> []"
  by (induction cur s rule: pieces.induct) auto

lemma trimmedLast_Cons [simp]: "ps \<noteq> [] \<Longrightarrow> trimmedLast (p # ps) = p # trimmedLast ps"
  by (simp add: trimmedLast_def)

lemma pieces_join: "strJoin (pieces cur s) '';'' = cur @ map fst s"
  by (induction cur s rule: pieces.induct) (auto simp: strJoin_Cons)

lemma splitLoop_pieces:
  assumes "\<not> (inString \<and> inLineComment)"
  shows "splitLoop inString inLineComment cur s =
    trimmedLast (pieces cur (zip s (regions (if inLineComment then Comment else if inString then Literal else Code) s)))"
  using assms
proof (induction inString inLineComment cur s rule: splitLoop.induct)
  case (1 inString inLineComment cur)
  then show ?case by (simp add: trimmedLast_def Let_def)
next
  case (2 inString inLineComment cur ch rest)
  have dash_iff: "rest \<noteq> [] \<and> hd rest = CHR ''-'' \<longleftrightarrow> headOf rest = Some (CHR ''-'')" by (auto simp: headOf_def split: list.split)
  consider (comment) "inLineComment" | (literal) "\<not> inLineComment" "inString"
    | (dash) "\<not> inLineComment" "\<not> inString" "ch = CHR ''-''" "headOf rest = Some (CHR ''-'')"
    | (code) "\<not> inLineComment" "\<not> inString" "\<not> (ch = CHR ''-'' \<and> headOf rest = Some (CHR ''-''))" by blast
  then show ?case
  proof cases
    case comment
    then show ?thesis using "2.IH"(1) "2.prems" by (cases "ch = CHR 0x0A") simp_all
  next
    case literal
    then show ?thesis using "2.IH"(3,4) by (cases "ch = apostrophe") (simp_all add: Let_def)
  next
    case dash
    then show ?thesis using "2.IH"(2) dash_iff by simp
  next
    case code
    then have no: "\<not> (\<not> inString \<and> rest \<noteq> [] \<and> ch = CHR ''-'' \<and> hd rest = CHR ''-'')" using dash_iff by blast
    have step: "regions Code (ch # rest) = (if ch = apostrophe then Literal # regions Literal rest else Code # regions Code rest)" using code(3) by simp
    have loop: "splitLoop False False cur (ch # rest) =
        (if ch = apostrophe then splitLoop True False (cur @ [ch]) rest
         else if ch = CHR '';'' then cur # splitLoop False False [] rest else splitLoop False False (cur @ [ch]) rest)"
      using no code(1,2) by (simp add: Let_def) blast
    have lit: "ch = apostrophe \<Longrightarrow> splitLoop True False (cur @ [ch]) rest = trimmedLast (pieces (cur @ [ch]) (zip rest (regions Literal rest)))"
      using "2.IH"(4) code(1,2) no by auto
    have cut: "ch = CHR '';'' \<Longrightarrow> splitLoop False False [] rest = trimmedLast (pieces [] (zip rest (regions Code rest)))"
      using "2.IH"(3) code(1,2) no by auto
    have plain: "ch \<noteq> apostrophe \<Longrightarrow> ch \<noteq> CHR '';'' \<Longrightarrow>
        splitLoop False False (cur @ [ch]) rest = trimmedLast (pieces (cur @ [ch]) (zip rest (regions Code rest)))"
      using "2.IH"(4) code(1,2) no by auto
    have "splitLoop False False cur (ch # rest) = trimmedLast (pieces cur (zip (ch # rest) (regions Code (ch # rest))))"
      unfolding loop step using lit cut plain by auto
    then show ?thesis using code(1,2) by simp
  qed
qed

section \<open>Properties of the runner\<close>

text \<open>What a list of scripts does to the database, nothing when one of them fails.\<close>

definition contentOf :: "'s migEnv \<Rightarrow> string \<Rightarrow> string" where
  "contentOf env name = (case gv_read env name of Inl e \<Rightarrow> [] | Inr raw \<Rightarrow> raw)"

definition script :: "'s migEnv \<Rightarrow> string \<Rightarrow> string \<Rightarrow> 's \<Rightarrow> error + 's" where
  "script env driver name =
     execStatements (gv_exec env) (splitStatements (if driver = ''sqlite3'' then adaptForSQLite (contentOf env name) else contentOf env name))"

fun installs :: "'s migEnv \<Rightarrow> string \<Rightarrow> string list \<Rightarrow> 's \<Rightarrow> 's option" where
  "installs env driver [] s = Some s"
| "installs env driver (name # names) s = (case script env driver name s of Inl e \<Rightarrow> None | Inr s' \<Rightarrow> installs env driver names s')"

definition recorded :: "'s migEnv \<Rightarrow> string \<Rightarrow> string \<times> string" where
  "recorded env name = (name, gv_sha env (contentOf env name))"

lemma applyMigration_cases:
  assumes "applyMigration env name sql checksum st = (err, st')" and "mg_applied st = Some rows"
  shows "(err \<noteq> None \<and> st' = st) \<or>
    (err = None \<and> execStatements (gv_exec env) (splitStatements sql) (mg_schema st) = Inr (mg_schema st') \<and> mg_applied st' = Some (rows @ [(name, checksum)]))"
proof (cases "gv_begin env name")
  case (Some e)
  with assms(1) show ?thesis by (auto simp: applyMigration_def)
next
  case None
  with assms show ?thesis by (auto simp: applyMigration_def Let_def split: option.splits sum.splits if_splits)
qed

lemma applyFiles_prefix:
  assumes "applyFiles env driver applied files st = (err, st')" and "mg_applied st = Some rows"
  shows "\<exists>k. let new = take k (filter (\<lambda>name. applied name = None) files) in
    installs env driver new (mg_schema st) = Some (mg_schema st') \<and> mg_applied st' = Some (rows @ map (recorded env) new) \<and>
    (err = None \<longrightarrow> new = filter (\<lambda>name. applied name = None) files \<and>
       (\<forall>name \<in> set files. isr (gv_read env name) \<and> applied name \<in> {None, Some (gv_sha env (contentOf env name))}))"
  using assms
proof (induction files arbitrary: st rows)
  case Nil
  then show ?case by simp
next
  case (Cons name files)
  have stop: ?case if "err \<noteq> None" "st' = st"
    using that Cons.prems(2) by (intro exI [of _ 0]) auto
  show ?case
  proof (cases "gv_read env name")
    case (Inl e)
    with Cons.prems(1) show ?thesis by (intro stop) auto
  next
    case (Inr raw)
    then have raw: "contentOf env name = raw" by (simp add: contentOf_def)
    show ?thesis
    proof (cases "applied name")
      case (Some prev)
      show ?thesis
      proof (cases "prev = gv_sha env raw")
        case True
        with Cons.prems Inr Some Cons.IH [of st rows] raw show ?thesis by (simp add: Let_def)
      next
        case False
        with Cons.prems(1) Inr Some show ?thesis by (intro stop) (auto simp: Let_def)
      qed
    next
      case None
      let ?sql = "if driver = ''sqlite3'' then adaptForSQLite raw else raw"
      obtain err1 st1 where st1: "applyMigration env name ?sql (gv_sha env raw) st = (err1, st1)" by fastforce
      show ?thesis
      proof (cases err1)
        case (Some e)
        with applyMigration_cases [OF st1 Cons.prems(2)] have "st1 = st" by simp
        with Cons.prems(1) Inr None st1 Some show ?thesis by (intro stop) (auto simp: Let_def)
      next
        case ok: None
        with applyMigration_cases [OF st1 Cons.prems(2)]
        have one: "script env driver name (mg_schema st) = Inr (mg_schema st1)" "mg_applied st1 = Some (rows @ [recorded env name])"
          by (auto simp: script_def raw recorded_def)
        have "applyFiles env driver applied files st1 = (err, st')" using Cons.prems(1) Inr None st1 ok by (simp add: Let_def)
        from Cons.IH [OF this one(2)] obtain k where
          "let new = take k (filter (\<lambda>name. applied name = None) files) in
             installs env driver new (mg_schema st1) = Some (mg_schema st') \<and> mg_applied st' = Some ((rows @ [recorded env name]) @ map (recorded env) new) \<and>
             (err = None \<longrightarrow> new = filter (\<lambda>name. applied name = None) files \<and>
                (\<forall>name \<in> set files. isr (gv_read env name) \<and> applied name \<in> {None, Some (gv_sha env (contentOf env name))}))" by auto
        then show ?thesis using one(1) None Inr by (intro exI [of _ "Suc k"]) (simp add: Let_def)
      qed
    qed
  qed
qed

lemma applyFiles_current:
  assumes "\<And>name. name \<in> set files \<Longrightarrow> isr (gv_read env name) \<and> applied name = Some (gv_sha env (contentOf env name))"
  shows "applyFiles env driver applied files st = (None, st)"
  using assms
proof (induction files)
  case (Cons name files)
  have "isr (gv_read env name)" "applied name = Some (gv_sha env (contentOf env name))" using Cons.prems by simp_all
  then obtain raw where "gv_read env name = Inr raw" "applied name = Some (gv_sha env raw)"
    by (cases "gv_read env name") (simp_all add: contentOf_def)
  with Cons show ?case by (simp add: Let_def)
qed simp

text \<open>A run whose table exists reduces to the loop over the files.\<close>

lemma migrate_run_loop:
  assumes "NewStore (gv_drivers env) (gv_ping env) (migrateDSN env) = Inr driver"
    and "gv_ensure env = None" "gv_query env = None" and "collectMigrationFiles (gv_dir env) = Inr files"
  shows "migrate_run env st = (case mg_applied st of
     None \<Rightarrow> applyFiles env driver Map.empty files (st\<lparr>mg_applied := Some []\<rparr>) | Some rows \<Rightarrow> applyFiles env driver (map_of rows) files st)"
  using assms(2-4) 
  unfolding migrate_run_def Let_def assms(1) ensureMigrationsTable_def appliedMigrations_def by (cases "mg_applied st") simp_all

lemma applyFiles_append:
  "applyFiles env driver applied (files @ files') st =
     (case applyFiles env driver applied files st of (Some e, st') \<Rightarrow> (Some e, st') | (None, st') \<Rightarrow> applyFiles env driver applied files' st')"
  by (induction files arbitrary: st) (auto simp: Let_def split: sum.split option.split prod.split)

lemma applyFiles_refuses:
  assumes "applyFiles env driver applied (before @ name # files) st = (err, st')" "mg_applied st = Some rows"
    and "gv_read env name = Inr raw" "applied name = Some prev" "prev \<noteq> gv_sha env raw"
  shows "err \<noteq> None \<and> (\<exists>k. mg_applied st' = Some (rows @ map (recorded env) (take k (filter (\<lambda>name. applied name = None) before))))"
proof -
  obtain err0 st0 where st0: "applyFiles env driver applied before st = (err0, st0)" by fastforce
  have "err \<noteq> None \<and> st' = st0" using assms(1,3-5) by (cases err0) (auto simp: applyFiles_append st0)
  with applyFiles_prefix [OF st0 assms(2)] show ?thesis by (auto simp: Let_def)
qed

section \<open>Properties\<close>

text \<open>
  C39. A script is cut exactly at the semicolons of its code: read as code, string literals and line comments, the pieces between the semicolons that stand in code are the statements, the
  last one without surrounding space and left out when it is blank, and the pieces joined by semicolons are the script.
\<close>

theorem statements_are_lexical:
  "splitStatements sql = trimmedLast (sqlPieces sql) \<and> strJoin (sqlPieces sql) '';'' = sql"
  by (simp add: splitStatements_def sqlPieces_def splitLoop_pieces pieces_join)

text \<open>
  C18. Migrations are atomic and ordered: whatever fails in a run, the database is what some first ones of the scripts that were not applied make of it, in the order of their
  names, and the table records exactly these with their checksums; a run without an error has applied them all.
\<close>

theorem migrations_apply_a_prefix:
  assumes "migrate_run env st = (err, st')"
    and "NewStore (gv_drivers env) (gv_ping env) (migrateDSN env) = Inr driver"
    and "gv_ensure env = None" "gv_query env = None" "collectMigrationFiles (gv_dir env) = Inr files" "mg_applied st = Some rows"
  shows "\<exists>k. let new = take k (filter (\<lambda>name. map_of rows name = None) files) in
    installs env driver new (mg_schema st) = Some (mg_schema st') \<and> mg_applied st' = Some (rows @ map (recorded env) new) \<and>
    (err = None \<longrightarrow> new = filter (\<lambda>name. map_of rows name = None) files)"
proof -
  have "applyFiles env driver (map_of rows) files st = (err, st')"
    using assms(1) by (simp add: migrate_run_loop [OF assms(2-5)] assms(6))
  from applyFiles_prefix [OF this assms(6)] show ?thesis by (auto simp: Let_def)
qed

text \<open>
  A second run changes nothing: after a run without an error, a run on the same directory ends without an error and leaves the database and the table as they are, whatever the driver
  would do to a statement.
\<close>

theorem migrations_are_idempotent:
  assumes "migrate_run env st = (None, st')"
    and "NewStore (gv_drivers env) (gv_ping env) (migrateDSN env) = Inr driver"
    and "gv_ensure env = None" "gv_query env = None"
  shows "migrate_run (env\<lparr>gv_exec := exec, gv_begin := begin', gv_insert := insert', gv_commit := commit'\<rparr>) st' = (None, st')"
proof (cases "collectMigrationFiles (gv_dir env)")
  case (Inl e)
  with assms(1) show ?thesis by (simp add: migrate_run_def Let_def assms(2,3) ensureMigrationsTable_def)
next
  case (Inr files)
  note loop = migrate_run_loop [OF assms(2-4) Inr]
  define st0 where "st0 = (case mg_applied st of None \<Rightarrow> st\<lparr>mg_applied := Some []\<rparr> | Some _ \<Rightarrow> st)"
  define rows where "rows = (case mg_applied st of None \<Rightarrow> [] | Some rows \<Rightarrow> rows)"
  have "applyFiles env driver (map_of rows) files st0 = (None, st')" "mg_applied st0 = Some rows"
    using assms(1) by (auto simp: loop st0_def rows_def split: option.splits)
  from applyFiles_prefix [OF this] have
    all: "mg_applied st' = Some (rows @ map (recorded env) (filter (\<lambda>name. map_of rows name = None) files))"
    "\<And>name. name \<in> set files \<Longrightarrow> isr (gv_read env name) \<and> map_of rows name \<in> {None, Some (gv_sha env (contentOf env name))}"
    by (auto simp: Let_def)
  let ?rows = "rows @ map (recorded env) (filter (\<lambda>name. map_of rows name = None) files)"
  have sums: "map_of (map (recorded env) names) name = (if name \<in> set names then Some (gv_sha env (contentOf env name)) else None)" for names name
    by (induction names) (auto simp: recorded_def)
  have current: "map_of ?rows name = Some (gv_sha env (contentOf env name))" if "name \<in> set files" for name
    using all(2) [OF that] that by (auto simp: map_add_def sums split: option.split)
  let ?env = "env\<lparr>gv_exec := exec, gv_begin := begin', gv_insert := insert', gv_commit := commit'\<rparr>"
  have "migrate_run ?env st' = applyFiles ?env driver (map_of ?rows) files st'"
    using migrate_run_loop [of ?env driver files st'] assms(2-4) Inr all(1) by simp
  also have "\<dots> = (None, st')" using all(2) current by (intro applyFiles_current) (auto simp: contentOf_def)
  finally show ?thesis .
qed

text \<open>
  An applied migration that was edited stops the run: when a recorded checksum is not that of the file, the run ends with an error and no script whose name is after that
  file's is applied.
\<close>

theorem edited_migration_is_refused:
  assumes "migrate_run env st = (err, st')"
    and "NewStore (gv_drivers env) (gv_ping env) (migrateDSN env) = Inr driver"
    and "gv_ensure env = None" "gv_query env = None" "collectMigrationFiles (gv_dir env) = Inr (before @ name # files)"
    and "mg_applied st = Some rows" "gv_read env name = Inr raw" "map_of rows name = Some prev" "prev \<noteq> gv_sha env raw"
  shows "err \<noteq> None \<and> (\<exists>k. mg_applied st' = Some (rows @ map (recorded env) (take k (filter (\<lambda>name. map_of rows name = None) before))))"
proof -
  have "applyFiles env driver (map_of rows) (before @ name # files) st = (err, st')"
    using assms(1) by (simp add: migrate_run_loop [OF assms(2-5)] assms(6))
  from applyFiles_refuses [OF this assms(6-9)] show ?thesis .
qed

text \<open>
  The adapter rewrites words wherever they stand: a string literal that spells a Postgres type or a truth value is changed, and a comment is rewritten.
\<close>

lemma adapter_rewrites_literals:
  "replaceAll (matchWord ''TRUE'') ''1'' None (apostrophe # ''true'' @ [apostrophe]) = apostrophe # ''1'' @ [apostrophe]"
proof -
  have lower: "asciiLower CHR ''T'' = CHR ''t''" "asciiLower CHR ''R'' = CHR ''r''" "asciiLower CHR ''U'' = CHR ''u''" "asciiLower CHR ''E'' = CHR ''e''"
    "asciiLower CHR ''t'' = CHR ''t''" "asciiLower CHR ''r'' = CHR ''r''" "asciiLower CHR ''u'' = CHR ''u''" "asciiLower CHR ''e'' = CHR ''e''"
    "asciiLower apostrophe = apostrophe" by code_simp+
  have m: "matchWord ''TRUE'' p (apostrophe # s) = None" "matchWord ''TRUE'' (Some apostrophe) (''true'' @ [apostrophe]) = Some 4" for s p
    by (simp_all add: matchWord_def foldPrefix_def lower wordAt_def wordByte_def headOf_def)
  show ?thesis by (simp add: m [simplified])
qed

section \<open>Witnesses\<close>

text \<open>A database that is the list of its statements, and two scripts of one statement each.\<close>

definition listEnv :: "string list migEnv" where
  "listEnv = \<lparr> gv_DATABASE_DSN = ''postgres://db'', gv_SCHEMA_DIR = '''', gv_drivers = {''postgres''}, gv_ping = (\<lambda>_ _. None),
     gv_dir = Inr [(''b.sql'', False), (''a.sql'', False), (''README.md'', False)],
     gv_read = (\<lambda>name. Inr (if name = ''a.sql'' then ''A;'' else ''B'')), gv_sha = id, gv_exec = (\<lambda>stmt db. if stmt = ''X'' then Inl ''syntax error'' else Inr (db @ [stmt])),
     gv_ensure = None, gv_query = None, gv_begin = (\<lambda>_. None), gv_insert = (\<lambda>_. None), gv_commit = (\<lambda>_. None) \<rparr>"

lemma listEnv_files: "collectMigrationFiles (gv_dir listEnv) = Inr [''a.sql'', ''b.sql'']"
  by (simp add: listEnv_def collectMigrationFiles_def hasSuffix_def sortStrings_def byteKey_def)

lemma listEnv_store:
  "NewStore (gv_drivers listEnv) (gv_ping listEnv) (migrateDSN listEnv) = Inr ''postgres''"
  by (simp add: listEnv_def migrateDSN_def NewStore_def parseDSN_def)

lemma listEnv_ok: "gv_ensure listEnv = None" "gv_query listEnv = None"
  by (simp_all add: listEnv_def)

lemma listEnv_run: "migrate_run listEnv \<lparr> mg_schema = [], mg_applied = Some [] \<rparr> =
   (None, \<lparr> mg_schema = [''A'', ''B''], mg_applied = Some [(''a.sql'', ''A;''), (''b.sql'', ''B'')] \<rparr>)"
proof -
  have "visible CHR ''A''" "visible CHR ''B''" by (simp_all add: visible_def asciiByte_def asciiSpace_def)
  then have trim: "TrimSpace ''A'' = ''A''" "TrimSpace ''B'' = ''B''" "TrimSpace [] = []" by (simp_all add: TrimSpace_visible TrimSpace_def [of "[]"])
  show ?thesis unfolding migrate_run_loop [OF listEnv_store listEnv_ok listEnv_files]
    by (simp add: listEnv_def applyMigration_def splitStatements_def trim Let_def)
qed

theorem migrations_apply_a_prefix_witness:
  "\<exists>k. let new = take k [''a.sql'', ''b.sql''] in installs listEnv ''postgres'' new [] = Some [''A'', ''B'']"
  using migrations_apply_a_prefix [OF listEnv_run listEnv_store _ _ listEnv_files] by (auto simp: listEnv_def Let_def)

theorem migrations_are_idempotent_witness:
  "migrate_run (listEnv\<lparr>gv_exec := \<lambda>_ _. Inl ''disk full''\<rparr>) \<lparr> mg_schema = [''A'', ''B''], mg_applied = Some [(''a.sql'', ''A;''), (''b.sql'', ''B'')] \<rparr> =
   (None, \<lparr> mg_schema = [''A'', ''B''], mg_applied = Some [(''a.sql'', ''A;''), (''b.sql'', ''B'')] \<rparr>)"
  using migrations_are_idempotent [OF listEnv_run listEnv_store, where exec = "\<lambda>_ _. Inl ''disk full''" and begin' = "\<lambda>_. None" and insert' = "\<lambda>_. None" and commit' = "\<lambda>_. None"] by (simp add: listEnv_def)

theorem edited_migration_is_refused_witness:
  "fst (migrate_run listEnv \<lparr> mg_schema = [''A''], mg_applied = Some [(''a.sql'', ''old'')] \<rparr>) \<noteq> None"
  using edited_migration_is_refused [OF prod.collapse [symmetric] listEnv_store, where st = "\<lparr> mg_schema = [''A''], mg_applied = Some [(''a.sql'', ''old'')] \<rparr>" and before = "[]" and
      name = "''a.sql''" and files = "[''b.sql'']" and rows = "[(''a.sql'', ''old'')]" and raw = "''A;''" and prev = "''old''"] listEnv_files
  by (simp add: listEnv_def)

end
