(* ===== verification/Socket.thy ===== *)
theory Socket
  imports ToolHandlers "HOL-Library.Word"
begin

text \<open>
  The socket between the command line and the agent: the frames and the server of \<^verbatim>\<open>internal/tools/uds.go\<close>, its check of the peer (\<^verbatim>\<open>uds_peercred_linux.go\<close>)
  and the client \<^verbatim>\<open>cmd/cli/main.go\<close>.

  A connection is the bytes that one side sends until it closes. The length prefix is a \<open>32 word\<close>, so that the wrap-around of \<open>uint32(len(payload))\<close> is in the model. The JSON codec
  is an argument, and so are the credentials that the kernel reports and the errors of writes. Accepting connections is one call of \<open>serveConn\<close> for each of them.
\<close>

section \<open>Frames\<close>

definition maxFrameSize :: "32 word" where
  "maxFrameSize = 4 * 1024 * 1024"

text \<open>\<open>binary.BigEndian.PutUint32\<close> and \<open>Uint32\<close>.\<close>

definition putUint32 :: "32 word \<Rightarrow> string" where
  "putUint32 v = map (\<lambda>i. char_of (unat v div 256 ^ i)) [3, 2, 1, 0]"

definition getUint32 :: "string \<Rightarrow> 32 word" where
  "getUint32 b = foldl (\<lambda>v c. v * 256 + of_nat (of_char c)) 0 b"

text \<open>\<open>io.ReadFull\<close>: the bytes and the rest of the stream.\<close>

definition readFull :: "nat \<Rightarrow> string \<Rightarrow> error + string \<times> string" where
  "readFull n r = (if n \<le> length r then Inr (take n r, drop n r) else if r = [] then Inl ''EOF'' else Inl ''unexpected EOF'')"

definition ReadFrame :: "string \<Rightarrow> error + string \<times> string" where
  "ReadFrame r =
     (case readFull 4 r of
        Inl e \<Rightarrow> Inl (''read length prefix: '' @ e)
      | Inr (lenBuf, r') \<Rightarrow>
          (let size = getUint32 lenBuf in
           if size > maxFrameSize then Inl (''frame too large: '' @ itoa (uint size) @ '' bytes (max '' @ itoa (uint maxFrameSize) @ '')'')
           else (case readFull (unat size) r' of Inl e \<Rightarrow> Inl (''read payload: '' @ e) | Inr (payload, rest) \<Rightarrow> Inr (payload, rest))))"

text \<open>The error and what was written; the arguments are the errors of the two writes, before which nothing of the part is sent.\<close>

definition WriteFrame :: "error option \<times> error option \<Rightarrow> string \<Rightarrow> error option \<times> string" where
  "WriteFrame faults payload =
     (let lenBuf = putUint32 (of_nat (length payload)) in
      case fst faults of
        Some e \<Rightarrow> (Some (''write length prefix: '' @ e), [])
      | None \<Rightarrow> (case snd faults of Some e \<Rightarrow> (Some (''write payload: '' @ e), lenBuf) | None \<Rightarrow> (None, lenBuf @ payload)))"

section \<open>Server\<close>

record SocketRequest =
  sq_Method :: string
  sq_Args :: args

text \<open>The codec of requests and responses.\<close>

record wireCodec =
  wc_encodeReq :: "SocketRequest \<Rightarrow> error + string"
  wc_decodeReq :: "string \<Rightarrow> error + SocketRequest"
  wc_encodeResp :: "SocketResponse \<Rightarrow> error + string"
  wc_decodeResp :: "string \<Rightarrow> error + SocketResponse"

definition fmtUIDs :: "32 word list \<Rightarrow> string" where
  "fmtUIDs uids = ''['' @ strJoin (map (\<lambda>u. itoa (uint u)) uids) '' '' @ '']''"

text \<open>On Linux; \<open>cred\<close> is the error of asking the kernel, or the user and the process of the peer.\<close>

definition checkPeerCred :: "error + 32 word \<times> int \<Rightarrow> 32 word list \<Rightarrow> error option" where
  "checkPeerCred cred allowedUIDs =
     (if allowedUIDs = [] then None
      else (case cred of
              Inl e \<Rightarrow> Some (''peercred: '' @ e)
            | Inr (uid, pid) \<Rightarrow>
                if uid \<in> set allowedUIDs then None
                else Some (''peercred: connection from uid '' @ itoa (uint uid) @ '' (pid '' @ itoa pid @ '') not in allowed UIDs '' @ fmtUIDs allowedUIDs @
                  '' '' @ em_dash @ '' rejected'')))"

definition writeResponse :: "wireCodec \<Rightarrow> error option \<times> error option \<Rightarrow> SocketResponse \<Rightarrow> string" where
  "writeResponse co faults resp = (case wc_encodeResp co resp of Inl e \<Rightarrow> [] | Inr data \<Rightarrow> snd (WriteFrame faults data))"

definition serveConn ::
  "wireCodec \<Rightarrow> error option \<times> error option \<Rightarrow> error + 32 word \<times> int \<Rightarrow> 32 word list \<Rightarrow> (string \<Rightarrow> args \<Rightarrow> 'w \<Rightarrow> SocketResponse \<times> 'w) \<Rightarrow> string \<Rightarrow> 'w \<Rightarrow> string \<times> 'w" where
  "serveConn co faults cred allowedUIDs handler conn w =
     (case checkPeerCred cred allowedUIDs of
        Some e \<Rightarrow> (writeResponse co faults (failed e), w)
      | None \<Rightarrow>
          (case ReadFrame conn of
             Inl e \<Rightarrow> ([], w)
           | Inr (payload, _) \<Rightarrow>
               (case wc_decodeReq co payload of
                  Inl e \<Rightarrow> (writeResponse co faults (failed (''unmarshal request: '' @ e)), w)
                | Inr req \<Rightarrow> (case handler (sq_Method req) (sq_Args req) w of (resp, w') \<Rightarrow> (writeResponse co faults resp, w')))))"

section \<open>Client\<close>

fun parseArgsLoop :: "nat \<Rightarrow> string list \<Rightarrow> args \<Rightarrow> args" where
  "parseArgsLoop positional [] result = result"
| "parseArgsLoop positional (arg # argv) result =
     (case strIndex arg ''='' of
        Some (Suc i) \<Rightarrow> parseArgsLoop positional argv (result(take (Suc i) arg \<mapsto> JStr (drop (Suc i + 1) arg)))
      | _ \<Rightarrow> parseArgsLoop (positional + 1) argv
               (if positional = 0 then result(''query'' \<mapsto> JStr arg) else if positional = 1 then result(''target'' \<mapsto> JStr arg) else result))"

definition parseArgs :: "string list \<Rightarrow> args" where
  "parseArgs argv = parseArgsLoop 0 argv Map.empty"

datatype exit = ExitHelp | ExitError string | Printed string

definition trimSlashes :: "string \<Rightarrow> string" where
  "trimSlashes s = rev (dropWhile (\<lambda>c. c = CHR ''/'') (rev s))"

text \<open>
  \<open>argv\<close> is \<open>os.Args\<close>, \<open>dial\<close> the error of a connection to a path, \<open>fault\<close> the errors of the client's writes; \<open>serve\<close> is what the other side answers to the bytes it is sent.
\<close>

definition cli_main ::
  "wireCodec \<Rightarrow> string \<Rightarrow> (string \<Rightarrow> error option) \<Rightarrow> error option \<times> error option \<Rightarrow> (string \<Rightarrow> 'w \<Rightarrow> string \<times> 'w) \<Rightarrow> string list \<Rightarrow> 'w \<Rightarrow> exit \<times> 'w" where
  "cli_main co RUNTIME_DIR dial fault serve argv w =
     (case argv of
        _ # method # rest \<Rightarrow>
          if method \<in> {''--help'', ''-h'', ''help''} then (ExitHelp, w)
          else (let runtimeDir = (if RUNTIME_DIR = '''' then ''./run'' else RUNTIME_DIR);
                    socketPath = trimSlashes runtimeDir @ ''/harness.sock'' in
            case wc_encodeReq co \<lparr> sq_Method = method, sq_Args = parseArgs rest \<rparr> of
              Inl e \<Rightarrow> (ExitError (''athena: marshal request: '' @ e), w)
            | Inr payload \<Rightarrow>
                (case dial socketPath of
                   Some e \<Rightarrow> (ExitError (''athena: connect to '' @ socketPath @ '': '' @ e), w)
                 | None \<Rightarrow>
                     (case WriteFrame fault payload of
                        (Some e, _) \<Rightarrow> (ExitError (''athena: send request: '' @ e), w)
                      | (None, sent) \<Rightarrow>
                          (case serve sent w of (answer, w') \<Rightarrow>
                             (case ReadFrame answer of
                                Inl e \<Rightarrow> (ExitError (''athena: read response: '' @ e), w')
                              | Inr (respPayload, _) \<Rightarrow>
                                  (case wc_decodeResp co respPayload of
                                     Inl e \<Rightarrow> (ExitError (''athena: parse response: '' @ e), w')
                                   | Inr resp \<Rightarrow> if sr_Error resp \<noteq> '''' then (ExitError (''athena: '' @ sr_Error resp), w')
                                                 else (Printed (sr_Result resp), w')))))))
      | _ \<Rightarrow> (ExitHelp, w))"

section \<open>Lemmas\<close>

lemma length_putUint32 [simp]: "length (putUint32 v) = 4"
  by (simp add: putUint32_def)

lemma base256: "(n :: nat) < 256 ^ 4 \<Longrightarrow>
  ((n div 256 ^ 3 mod 256 * 256 + n div 256 ^ 2 mod 256) * 256 + n div 256 ^ 1 mod 256) * 256 + n div 256 ^ 0 mod 256 = n"
proof -
  assume n: "n < 256 ^ 4"
  have d: "n div 256 ^ 2 = n div 256 div 256" "n div 256 ^ 3 = n div 256 div 256 div 256"
    by (simp_all add: div_mult2_eq [symmetric])
  have "n div 256 div 256 div 256 < 256" using n by (simp add: div_mult2_eq [symmetric] less_mult_imp_div_less)
  then show ?thesis unfolding d using div_mult_mod_eq [of n 256] div_mult_mod_eq [of "n div 256" 256] div_mult_mod_eq [of "n div 256 div 256" 256]
    by simp
qed

lemma get_putUint32 [simp]: "getUint32 (putUint32 v) = v"
proof -
  have bytes: "(of_nat (of_char (char_of k :: char)) :: 32 word) = of_nat (k mod 256)" for k :: nat by simp
  have "getUint32 (putUint32 v) = of_nat (((unat v div 256 ^ 3 mod 256 * 256 + unat v div 256 ^ 2 mod 256) * 256 + unat v div 256 ^ 1 mod 256) * 256 +
      unat v div 256 ^ 0 mod 256)"
    by (simp add: getUint32_def putUint32_def bytes)
  also have "\<dots> = of_nat (unat v)" using unsigned_less [where ?'a = nat, of v] by (subst base256) simp_all
  finally show ?thesis by simp
qed

text \<open>What the reader makes of a frame, for a payload of any length.\<close>

lemma ReadFrame_WriteFrame:
  "ReadFrame (snd (WriteFrame (None, None) payload) @ rest) =
     (let n = length payload mod 2 ^ 32 in
      if 4194304 < n then Inl (''frame too large: '' @ itoa (int n) @ '' bytes (max '' @ itoa 4194304 @ '')'')
      else Inr (take n (payload @ rest), drop n (payload @ rest)))"
proof -
  let ?size = "of_nat (length payload) :: 32 word"
  have size: "unat ?size = length payload mod 2 ^ 32" "uint ?size = int (length payload mod 2 ^ 32)"
    by (simp_all add: unat_of_nat take_bit_eq_mod uint_nat)
  have max: "unat maxFrameSize = 4194304" "uint maxFrameSize = 4194304" by (simp_all add: maxFrameSize_def)
  have gt: "(maxFrameSize < ?size) = (4194304 < length payload mod 2 ^ 32)"
    unfolding word_less_nat_alt max(1) size(1) by (rule refl)
  have le: "length payload mod 2 ^ 32 \<le> length payload + length rest" by (meson le_add1 le_trans mod_less_eq_dividend)
  show ?thesis
    unfolding ReadFrame_def WriteFrame_def by (simp add: readFull_def Let_def gt size max le [simplified])
qed

lemma ReadFrame_frame:
  assumes "length payload \<le> 4194304"
  shows "ReadFrame (putUint32 (of_nat (length payload)) @ payload) = Inr (payload, [])"
  using ReadFrame_WriteFrame [of payload "[]"] assms by (simp add: WriteFrame_def)

text \<open>A codec that decodes what it encodes, at one request and at one response.\<close>

definition carries :: "wireCodec \<Rightarrow> SocketRequest \<Rightarrow> string \<Rightarrow> bool" where
  "carries co req data \<longleftrightarrow> wc_encodeReq co req = Inr data \<and> wc_decodeReq co data = Inr req"

definition answers :: "wireCodec \<Rightarrow> SocketResponse \<Rightarrow> string \<Rightarrow> bool" where
  "answers co resp data \<longleftrightarrow> wc_encodeResp co resp = Inr data \<and> wc_decodeResp co data = Inr resp"

lemma serveConn_request:
  assumes "carries co req payload" "length payload \<le> 4194304" "checkPeerCred cred uids = None"
  shows "serveConn co faults cred uids handler (snd (WriteFrame (None, None) payload)) w =
    (case handler (sq_Method req) (sq_Args req) w of (resp, w') \<Rightarrow> (writeResponse co faults resp, w'))"
  using assms by (simp add: serveConn_def WriteFrame_def ReadFrame_frame carries_def)

text \<open>What the client makes of the bytes of the server.\<close>

definition conclude :: "wireCodec \<Rightarrow> string \<Rightarrow> exit" where
  "conclude co answer =
     (case ReadFrame answer of
        Inl e \<Rightarrow> ExitError (''athena: read response: '' @ e)
      | Inr (respPayload, _) \<Rightarrow>
          (case wc_decodeResp co respPayload of
             Inl e \<Rightarrow> ExitError (''athena: parse response: '' @ e)
           | Inr resp \<Rightarrow> if sr_Error resp \<noteq> '''' then ExitError (''athena: '' @ sr_Error resp) else Printed (sr_Result resp)))"

lemma cli_main_call:
  assumes "method \<notin> {''--help'', ''-h'', ''help''}" "\<And>path. dial path = None"
    and "carries co \<lparr> sq_Method = method, sq_Args = parseArgs rest \<rparr> payload" "length payload \<le> 4194304" "checkPeerCred cred uids = None"
  shows "cli_main co dir dial (None, None) (serveConn co faults cred uids handler) (prog # method # rest) w =
    (case handler method (parseArgs rest) w of (resp, w') \<Rightarrow> (conclude co (writeResponse co faults resp), w'))"
proof -
  have "wc_encodeReq co \<lparr> sq_Method = method, sq_Args = parseArgs rest \<rparr> = Inr payload" using assms(3) by (simp add: carries_def)
  moreover have "fst (WriteFrame (None, None) payload) = None" by (simp add: WriteFrame_def)
  ultimately show ?thesis
    using assms(1,2) serveConn_request [OF assms(3-5), of faults handler w]
    by (auto simp: cli_main_def conclude_def Let_def split: prod.splits sum.splits)
qed

lemma conclude_answer:
  assumes "answers co resp data" "length data \<le> 4194304"
  shows "conclude co (writeResponse co (None, None) resp) = (if sr_Error resp \<noteq> '''' then ExitError (''athena: '' @ sr_Error resp) else Printed (sr_Result resp))"
  using assms by (simp add: conclude_def writeResponse_def WriteFrame_def ReadFrame_frame answers_def)

section \<open>Properties\<close>

text \<open>
  Frames round-trip up to four megabytes and no further: the reader returns the payload and leaves the bytes that follow it; a longer payload is written all the same and refused by the
  reader; from \<open>2 ^ 32\<close> bytes on the length wraps around, and the reader takes a part of the payload for a whole frame.
\<close>

theorem frame_round_trip:
  "(length payload \<le> 4194304 \<longrightarrow> ReadFrame (snd (WriteFrame (None, None) payload) @ rest) = Inr (payload, rest)) \<and>
   (4194304 < length payload \<and> length payload < 2 ^ 32 \<longrightarrow> isl (ReadFrame (snd (WriteFrame (None, None) payload) @ rest))) \<and>
   (length payload = 2 ^ 32 + n \<and> n \<le> 4194304 \<longrightarrow> ReadFrame (snd (WriteFrame (None, None) payload) @ rest) = Inr (take n payload, drop n payload @ rest))"
  unfolding ReadFrame_WriteFrame by (simp add: Let_def)

text \<open>
  C36. A command of the client is the call of the handler: with a codec that decodes what it encodes, a request and a response of at most four megabytes and an accepted peer, the
  client prints the result of the handler, or its error, and the handler's effect is the only one.
\<close>

theorem command_is_a_call:
  assumes "method \<notin> {''--help'', ''-h'', ''help''}" "\<And>path. dial path = None" "checkPeerCred cred uids = None"
    and "carries co \<lparr> sq_Method = method, sq_Args = parseArgs rest \<rparr> payload" "length payload \<le> 4194304"
    and "handler method (parseArgs rest) w = (resp, w')" "answers co resp data" "length data \<le> 4194304"
  shows "cli_main co dir dial (None, None) (serveConn co (None, None) cred uids handler) (prog # method # rest) w =
    (if sr_Error resp \<noteq> '''' then ExitError (''athena: '' @ sr_Error resp) else Printed (sr_Result resp), w')"
  using cli_main_call [where handler = handler, OF assms(1,2,4,5,3)] conclude_answer [OF assms(7,8)] assms(6) by simp

text \<open>
  A response of more than four megabytes is lost after the command has run: the handler has changed the state, and the client reports that the response cannot be read.
\<close>

theorem large_response_is_lost:
  assumes "method \<notin> {''--help'', ''-h'', ''help''}" "\<And>path. dial path = None" "checkPeerCred cred uids = None"
    and "carries co \<lparr> sq_Method = method, sq_Args = parseArgs rest \<rparr> payload" "length payload \<le> 4194304"
    and "handler method (parseArgs rest) w = (resp, w')" "answers co resp data" "4194304 < length data" "length data < 2 ^ 32"
  shows "cli_main co dir dial (None, None) (serveConn co (None, None) cred uids handler) (prog # method # rest) w =
    (ExitError (''athena: read response: frame too large: '' @ itoa (int (length data)) @ '' bytes (max '' @ itoa 4194304 @ '')''), w')"
proof -
  have "writeResponse co (None, None) resp = snd (WriteFrame (None, None) data)" using assms(7) by (simp add: writeResponse_def answers_def)
  with ReadFrame_WriteFrame [of data "[]"] assms(8,9)
  have "ReadFrame (writeResponse co (None, None) resp) = Inl (''frame too large: '' @ itoa (int (length data)) @ '' bytes (max '' @ itoa 4194304 @ '')'')"
    by (simp add: Let_def)
  with cli_main_call [where handler = handler, OF assms(1,2,4,5,3)] assms(6) show ?thesis by (simp add: conclude_def)
qed

text \<open>
  A peer that is not allowed runs no command: when users are listed and the peer is another one, or the kernel does not say who it is, the state is unchanged whatever the
  peer sends, and the answer is the error alone.
\<close>

theorem rejected_peer_runs_nothing:
  assumes "uids \<noteq> []" "\<And>uid pid. cred = Inr (uid, pid) \<Longrightarrow> uid \<notin> set uids"
  shows "\<exists>e. serveConn co faults cred uids handler conn w = (writeResponse co faults (failed e), w)"
proof -
  obtain e where "checkPeerCred cred uids = Some e" using assms by (cases cred) (auto simp: checkPeerCred_def)
  then show ?thesis by (auto simp: serveConn_def)
qed

lemma ToLower_advisor: "ToLower lr ''advisor'' = ''advisor''"
proof -
  have "list_all asciiByte ''advisor''" "map asciiLower ''advisor'' = ''advisor''" by code_simp+
  then show ?thesis by (simp only: ToLower_ascii)
qed

lemma Handle_advisor_without_question:
  assumes "args ''question'' = None"
  shows "Handle lr d ''advisor'' args w = (failed (''advisor: missing required arg '' @ [CHR 0x27] @ ''question'' @ [CHR 0x27]), w)"
  using assms by (simp add: Handle_def ToLower_advisor handleAdvisor_def stringArg_def)

text \<open>
  The advisor cannot be asked as the help text says: a question given as an argument becomes the argument \<open>query\<close>, which the dispatcher does not read, so that the
  command fails for every question and every dispatcher.
\<close>

theorem positional_question_is_not_read:
  assumes "strIndex question ''='' = None" and "\<And>path. dial path = None" "checkPeerCred cred uids = None"
    and "carries co \<lparr> sq_Method = ''advisor'', sq_Args = parseArgs [question] \<rparr> payload" "length payload \<le> 4194304"
    and "answers co (failed (''advisor: missing required arg '' @ [CHR 0x27] @ ''question'' @ [CHR 0x27])) data" "length data \<le> 4194304"
  shows "cli_main co dir dial (None, None) (serveConn co (None, None) cred uids (Handle lr d)) [prog, ''advisor'', question] w =
    (ExitError (''athena: advisor: missing required arg '' @ [CHR 0x27] @ ''question'' @ [CHR 0x27]), w)"
proof -
  have "parseArgs [question] ''question'' = None" using assms(1) by (simp add: parseArgs_def)
  note Handle_advisor_without_question [of "parseArgs [question]", OF this, of lr d w]
  with cli_main_call [of "''advisor''" dial co "[question]", where handler = "Handle lr d", OF _ assms(2,4,5,3)] conclude_answer [OF assms(6,7)]
  show ?thesis by (simp add: failed_def)
qed

section \<open>Witnesses\<close>

text \<open>A codec for one command, whose request is its method and whose response is its result or its error.\<close>

definition plainCodec :: "args \<Rightarrow> wireCodec" where
  "plainCodec args = \<lparr> wc_encodeReq = (\<lambda>r. Inr (sq_Method r)), wc_decodeReq = (\<lambda>s. Inr \<lparr> sq_Method = s, sq_Args = args \<rparr>),
     wc_encodeResp = (\<lambda>r. Inr (if sr_Error r \<noteq> '''' then CHR ''!'' # sr_Error r else sr_Result r)),
     wc_decodeResp = (\<lambda>s. Inr (case s of c # e \<Rightarrow> if c = CHR ''!'' then failed e else \<lparr> sr_Result = s, sr_Error = '''' \<rparr> | [] \<Rightarrow> \<lparr> sr_Result = [], sr_Error = '''' \<rparr>)) \<rparr>"

theorem frame_round_trip_witness: "ReadFrame (snd (WriteFrame (None, None) ''hi'') @ ''next'') = Inr (''hi'', ''next'')"
  using frame_round_trip [of "''hi''" "''next''" 0] by simp

theorem command_is_a_call_witness:
  "cli_main (plainCodec Map.empty) '''' (\<lambda>_. None) (None, None) (serveConn (plainCodec Map.empty) (None, None) (Inr (7, 1)) [7] (\<lambda>m a n. (\<lparr> sr_Result = ''ok'', sr_Error = '''' \<rparr>, n + 1)))
     [''athena'', ''ping''] (0 :: nat) = (Printed ''ok'', 1)"
  using command_is_a_call [of "''ping''" "\<lambda>_. None" "Inr (7, 1)" "[7]" "plainCodec Map.empty" "[]" "''ping''" "\<lambda>m a n. (\<lparr> sr_Result = ''ok'', sr_Error = '''' \<rparr>, n + 1)" "0 :: nat"
      "\<lparr> sr_Result = ''ok'', sr_Error = '''' \<rparr>" 1 "''ok''"]
  by (simp add: plainCodec_def carries_def answers_def checkPeerCred_def parseArgs_def)

theorem large_response_is_lost_witness:
  "snd (cli_main (plainCodec Map.empty) '''' (\<lambda>_. None) (None, None)
     (serveConn (plainCodec Map.empty) (None, None) (Inr (7, 1)) [] (\<lambda>m a n. (\<lparr> sr_Result = replicate 5000000 CHR ''x'', sr_Error = '''' \<rparr>, n + 1))) [''athena'', ''ping''] (0 :: nat)) = 1"
proof -
  let ?long = "replicate 5000000 CHR ''x''"
  have head: "?long = CHR ''x'' # replicate 4999999 CHR ''x''" using replicate_Suc [of 4999999 "CHR ''x''"] by (simp del: replicate_Suc)
  have "answers (plainCodec Map.empty) \<lparr> sr_Result = ?long, sr_Error = '''' \<rparr> ?long" unfolding head by (simp add: plainCodec_def answers_def)
  with large_response_is_lost [of "''ping''" "\<lambda>_. None" "Inr (7, 1)" "[]" "plainCodec Map.empty" "[]" "''ping''" "\<lambda>m a n. (\<lparr> sr_Result = ?long, sr_Error = '''' \<rparr>, n + 1)" "0 :: nat"
      "\<lparr> sr_Result = ?long, sr_Error = '''' \<rparr>" 1 ?long "''''" "''athena''"]
  show ?thesis by (simp add: plainCodec_def carries_def checkPeerCred_def parseArgs_def)
qed

theorem rejected_peer_runs_nothing_witness:
  "\<exists>e. serveConn (plainCodec Map.empty) (None, None) (Inr (8, 1)) [7] (\<lambda>m a n. (failed m, n + 1)) ''x'' (0 :: nat) = (writeResponse (plainCodec Map.empty) (None, None) (failed e), 0)"
  by (rule rejected_peer_runs_nothing) simp_all

theorem positional_question_is_not_read_witness:
  "snd (cli_main (plainCodec [''query'' \<mapsto> JStr ''hi'']) '''' (\<lambda>_. None) (None, None)
     (serveConn (plainCodec [''query'' \<mapsto> JStr ''hi'']) (None, None) (Inr (7, 1)) [] (Handle id \<lparr> cd_groups = [], cd_handlers = Map.empty, cd_sandbox = None, cd_advisor = None, cd_activeTiers = None \<rparr>))
     [''athena'', ''advisor'', ''hi''] (0 :: nat)) = 0"
  using positional_question_is_not_read [of "''hi''" "\<lambda>_. None" "Inr (7, 1)" "[]" "plainCodec [''query'' \<mapsto> JStr ''hi'']" "''advisor''"
      "CHR ''!'' # ''advisor: missing required arg '' @ [CHR 0x27] @ ''question'' @ [CHR 0x27]" "''''" id
      "\<lparr> cd_groups = [], cd_handlers = Map.empty, cd_sandbox = None, cd_advisor = None, cd_activeTiers = None \<rparr>" "''athena''" "0 :: nat"]
  by (simp add: plainCodec_def carries_def answers_def checkPeerCred_def parseArgs_def failed_def)

end
