(* ===== verification/Advisor.thy ===== *)
theory Advisor
  imports Engine GoStrings "HOL-Library.Word"
begin

text \<open>
  The advisor, \<^verbatim>\<open>internal/tools/advisor.go\<close>: questions to external models, counted against a budget for the session.

  The counter is an \<open>atomic.Int32\<close>, a signed \<open>32 word\<close>. The HTTP service, the JSON decoders of the three answer formats, the environment and the gateway are arguments. Every connection of
  the socket server is served in its own goroutine, so that calls of \<open>Ask\<close> overlap: the check of the budget and the count of the answer are two steps of a transition relation.
\<close>

section \<open>Configuration\<close>

record AdvisorProvider =
  ap_Name :: string
  ap_Type :: string
  ap_Endpoint :: string
  ap_APIKeyEnv :: string
  ap_Model :: string
  ap_MaxTokens :: int
  ap_CostNote :: string

record AdvisorConfig =
  av_Providers :: "AdvisorProvider list"
  av_BudgetPerSession :: int

definition zeroAdvisorConfig :: AdvisorConfig where
  "zeroAdvisorConfig = \<lparr> av_Providers = [], av_BudgetPerSession = 0 \<rparr>"

datatype configFile = Missing | Unreadable error | Contents string

definition LoadAdvisorConfig :: "(string \<Rightarrow> configFile) \<Rightarrow> (string \<Rightarrow> error + AdvisorConfig) \<Rightarrow> string \<Rightarrow> error + AdvisorConfig" where
  "LoadAdvisorConfig readFile decode path =
     (if path = '''' then Inr zeroAdvisorConfig
      else (case readFile path of
              Missing \<Rightarrow> Inr zeroAdvisorConfig
            | Unreadable e \<Rightarrow> Inl (''read advisor config '' @ path @ '': '' @ e)
            | Contents data \<Rightarrow> (case decode data of Inl e \<Rightarrow> Inl (''parse advisor config: '' @ e) | Inr cfg \<Rightarrow> Inr cfg)))"

section \<open>Requests\<close>

record advisorRequest =
  rq_url :: string
  rq_headers :: "(string \<times> string) list"
  rq_model :: string
  rq_question :: string
  rq_maxTokens :: int

text \<open>The service answers with an error or with a status and a body; the decoders give the texts of an answer.\<close>

record 'w advisorEnv =
  ae_post :: "advisorRequest \<Rightarrow> 'w \<Rightarrow> (error + int \<times> string) \<times> 'w"
  ae_openai :: "string \<Rightarrow> error + string list"                         \<comment> \<open>the contents of the choices\<close>
  ae_anthropic :: "string \<Rightarrow> error + (string \<times> string) list"            \<comment> \<open>type and text of the blocks\<close>
  ae_gemini :: "string \<Rightarrow> error + string list list"                    \<comment> \<open>the texts of the parts of the candidates\<close>
  ae_getenv :: "string \<Rightarrow> string"
  ae_gateway :: "'w aegisGateway option"

definition endpointOr :: "string \<Rightarrow> string \<Rightarrow> string" where
  "endpointOr endpoint def = trimRight {CHR ''/''} (if endpoint = '''' then def else endpoint)"

text \<open>What the three requests have in common after they are built.\<close>

definition exchange :: "'w advisorEnv \<Rightarrow> string \<Rightarrow> (string \<Rightarrow> error + string) \<Rightarrow> advisorRequest \<Rightarrow> 'w \<Rightarrow> (error + string) \<times> 'w" where
  "exchange env who parse req w =
     (case ae_post env req w of
        (Inl e, w') \<Rightarrow> (Inl (who @ '' request: '' @ e), w')
      | (Inr (status, raw), w') \<Rightarrow>
          (if status \<ge> 400 then Inl (who @ '' '' @ itoa status @ '': '' @ raw) else parse raw, w'))"

definition askOpenAI :: "'w advisorEnv \<Rightarrow> AdvisorProvider \<Rightarrow> string \<Rightarrow> string \<Rightarrow> 'w \<Rightarrow> (error + string) \<times> 'w" where
  "askOpenAI env p apiKey question =
     exchange env ''openai''
       (\<lambda>raw. case ae_openai env raw of
          Inl e \<Rightarrow> Inl (''parse openai response: '' @ e)
        | Inr choices \<Rightarrow> (case choices of [] \<Rightarrow> Inl ''openai returned no choices'' | c # _ \<Rightarrow> Inr c))
       \<lparr> rq_url = endpointOr (ap_Endpoint p) ''https://api.openai.com/v1'' @ ''/chat/completions'',
         rq_headers = (''Content-Type'', ''application/json'') # (if apiKey \<noteq> '''' then [(''Authorization'', ''Bearer '' @ apiKey)] else []),
         rq_model = ap_Model p, rq_question = question, rq_maxTokens = ap_MaxTokens p \<rparr>"

definition askAnthropic :: "'w advisorEnv \<Rightarrow> AdvisorProvider \<Rightarrow> string \<Rightarrow> string \<Rightarrow> 'w \<Rightarrow> (error + string) \<times> 'w" where
  "askAnthropic env p apiKey question =
     exchange env ''anthropic''
       (\<lambda>raw. case ae_anthropic env raw of
          Inl e \<Rightarrow> Inl (''parse anthropic response: '' @ e)
        | Inr blocks \<Rightarrow> (case find (\<lambda>(type, _). type = ''text'') blocks of
                          None \<Rightarrow> Inl ''anthropic returned no text content'' | Some (_, txt) \<Rightarrow> Inr txt))
       \<lparr> rq_url = endpointOr (ap_Endpoint p) ''https://api.anthropic.com/v1'' @ ''/messages'',
         rq_headers = (''Content-Type'', ''application/json'') # (''anthropic-version'', ''2023-06-01'') # (if apiKey \<noteq> '''' then [(''x-api-key'', apiKey)] else []),
         rq_model = ap_Model p, rq_question = question, rq_maxTokens = ap_MaxTokens p \<rparr>"

definition askGemini :: "'w advisorEnv \<Rightarrow> AdvisorProvider \<Rightarrow> string \<Rightarrow> string \<Rightarrow> 'w \<Rightarrow> (error + string) \<times> 'w" where
  "askGemini env p apiKey question =
     exchange env ''gemini''
       (\<lambda>raw. case ae_gemini env raw of
          Inl e \<Rightarrow> Inl (''parse gemini response: '' @ e)
        | Inr candidates \<Rightarrow> (case candidates of (txt # _) # _ \<Rightarrow> Inr txt | _ \<Rightarrow> Inl ''gemini returned no content''))
       \<lparr> rq_url = endpointOr (ap_Endpoint p) ''https://generativelanguage.googleapis.com/v1beta'' @ ''/models/'' @ ap_Model p @ '':generateContent'',
         rq_headers = (''Content-Type'', ''application/json'') # (if apiKey \<noteq> '''' then [(''X-Goog-Api-Key'', apiKey)] else []),
         rq_model = ap_Model p, rq_question = question, rq_maxTokens = ap_MaxTokens p \<rparr>"

section \<open>Ask\<close>

record Advisor =
  ad_cfg :: AdvisorConfig
  ad_used :: "32 word"

definition NewAdvisor :: "AdvisorConfig \<Rightarrow> Advisor" where
  "NewAdvisor cfg = \<lparr> ad_cfg = cfg, ad_used = 0 \<rparr>"

definition budgetExhausted :: "Advisor \<Rightarrow> bool" where
  "budgetExhausted a \<longleftrightarrow> av_BudgetPerSession (ad_cfg a) > 0 \<and> sint (ad_used a) \<ge> av_BudgetPerSession (ad_cfg a)"

definition askProvider :: "'w advisorEnv \<Rightarrow> AdvisorProvider \<Rightarrow> string \<Rightarrow> 'w \<Rightarrow> (error + string) \<times> 'w" where
  "askProvider env p question w =
     (let apiKey = (if ap_APIKeyEnv p \<noteq> '''' then ae_getenv env (ap_APIKeyEnv p) else '''') in
      if ap_Type p = ''local'' \<or> ap_Type p = ''openai'' then askOpenAI env p apiKey question w
      else if ap_Type p = ''anthropic'' then askAnthropic env p apiKey question w
      else if ap_Type p = ''gemini'' then askGemini env p apiKey question w
      else (Inl (''unknown advisor type '' @ quoted (ap_Type p)), w))"

definition throughGateway :: "'w advisorEnv \<Rightarrow> AdvisorProvider \<Rightarrow> string \<Rightarrow> 'w \<Rightarrow> string \<times> 'w" where
  "throughGateway env p content w =
     (case ae_gateway env of
        None \<Rightarrow> (content, w)
      | Some gw \<Rightarrow> (case gw_ProcessInbound gw content (''advisor:'' @ ap_Name p) ''tool_result'' w of
                      (Inl e, w') \<Rightarrow> (content, w') | (Inr a, w') \<Rightarrow> (ac_Normalized a, w')))"

definition Ask :: "'w advisorEnv \<Rightarrow> string \<Rightarrow> string \<Rightarrow> Advisor \<times> 'w \<Rightarrow> (error + string) \<times> Advisor \<times> 'w" where
  "Ask env question providerName s =
     (case s of (a, w) \<Rightarrow>
        if budgetExhausted a
        then (Inl (''advisor budget exhausted ('' @ itoa (sint (ad_used a)) @ ''/'' @ itoa (av_BudgetPerSession (ad_cfg a)) @ '' calls used this session)''), a, w)
        else (case find (\<lambda>p. ap_Name p = providerName) (av_Providers (ad_cfg a)) of
          None \<Rightarrow> (Inl (''advisor '' @ quoted providerName @ '' not found; available: '' @ strJoin (map ap_Name (av_Providers (ad_cfg a))) '', ''), a, w)
        | Some p \<Rightarrow>
            (case askProvider env p question w of
               (Inl e, w') \<Rightarrow> (Inl e, a, w')
             | (Inr content, w') \<Rightarrow>
                 (case throughGateway env p content w' of (content, w'') \<Rightarrow>
                    (Inr (''[advisor: '' @ ap_Name p @ ''/'' @ ap_Model p @ '']'' @ newline @ content), a\<lparr>ad_used := ad_used a + 1\<rparr>, w'')))))"

definition ListProviders :: "Advisor \<Rightarrow> AdvisorProvider list" where
  "ListProviders a = av_Providers (ad_cfg a)"

text \<open>A sequence of questions, each with its provider: the results in order.\<close>

fun askAll :: "'w advisorEnv \<Rightarrow> (string \<times> string) list \<Rightarrow> Advisor \<times> 'w \<Rightarrow> (error + string) list \<times> Advisor \<times> 'w" where
  "askAll env [] s = ([], s)"
| "askAll env ((question, provider) # qs) s =
     (case Ask env question provider s of (r, s') \<Rightarrow> (case askAll env qs s' of (rs, s'') \<Rightarrow> (r # rs, s'')))"

section \<open>Overlapping calls\<close>

text \<open>The calls in progress, and the answers that were given; \<open>finish\<close> is the count of an answer and \<open>fail\<close> the return of an error.\<close>

record askState =
  as_advisor :: Advisor
  as_running :: nat
  as_answered :: nat

inductive askStep :: "nat \<Rightarrow> askState \<Rightarrow> askState \<Rightarrow> bool" for limit where
  start: "\<not> budgetExhausted (as_advisor s) \<Longrightarrow> as_running s < limit \<Longrightarrow> askStep limit s (s\<lparr>as_running := as_running s + 1\<rparr>)"
| finish: "as_running s = Suc n \<Longrightarrow>
    askStep limit s (s\<lparr>as_running := n, as_advisor := (as_advisor s)\<lparr>ad_used := ad_used (as_advisor s) + 1\<rparr>, as_answered := as_answered s + 1\<rparr>)"
| fail: "as_running s = Suc n \<Longrightarrow> askStep limit s (s\<lparr>as_running := n\<rparr>)"

definition askStart :: "AdvisorConfig \<Rightarrow> askState" where
  "askStart cfg = \<lparr> as_advisor = NewAdvisor cfg, as_running = 0, as_answered = 0 \<rparr>"

inductive_cases askStepE: "askStep limit s s'"


section \<open>Lemmas\<close>

lemma sint_counter:
  assumes "n < 2 ^ 31"
  shows "sint (of_nat n :: 32 word) = int n"
  using assms by (simp add: signed_of_nat signed_take_bit_int_eq_self)

lemma Ask_cases:
  assumes "Ask env q p (a, w) = (r, a', w')"
  shows "(isl r \<and> a' = a) \<or> (isr r \<and> \<not> budgetExhausted a \<and> a' = a\<lparr>ad_used := ad_used a + 1\<rparr>)"
  using assms by (auto simp: Ask_def split: if_splits option.splits prod.splits sum.splits)

lemma askAll_count:
  assumes "askAll env qs (a, w) = (rs, a', w')" and "ad_used a = of_nat n" "int n \<le> av_BudgetPerSession (ad_cfg a)"
    and "0 < av_BudgetPerSession (ad_cfg a)" "av_BudgetPerSession (ad_cfg a) < 2 ^ 31"
  shows "ad_used a' = of_nat (n + length (filter (\<lambda>r. isr r) rs)) \<and> int (n + length (filter (\<lambda>r. isr r) rs)) \<le> av_BudgetPerSession (ad_cfg a) \<and> ad_cfg a' = ad_cfg a"
  using assms
proof (induction qs arbitrary: a w rs n)
  case (Cons q qs)
  obtain question provider where q: "q = (question, provider)" by fastforce
  obtain r a1 w1 where r: "Ask env question provider (a, w) = (r, a1, w1)" by (metis prod_cases3)
  obtain rs1 where rs: "askAll env qs (a1, w1) = (rs1, a', w')" "rs = r # rs1"
    using Cons.prems(1) by (auto simp: q r split: prod.splits)
  from Ask_cases [OF r] show ?case
  proof
    assume "isl r \<and> a1 = a"
    with Cons.IH [OF rs(1)] Cons.prems rs(2) show ?thesis by simp
  next
    assume ok: "isr r \<and> \<not> budgetExhausted a \<and> a1 = a\<lparr>ad_used := ad_used a + 1\<rparr>"
    have "n < 2 ^ 31" using Cons.prems(3,5) by simp
    then have "int (n + 1) \<le> av_BudgetPerSession (ad_cfg a)" using ok Cons.prems(2,4) by (simp add: budgetExhausted_def sint_counter)
    with Cons.IH [OF rs(1), of "n + 1"] ok Cons.prems rs(2) show ?thesis by (simp add: add.commute)
  qed
qed simp

text \<open>What holds in every state of overlapping calls, of which at most \<open>limit\<close> are in progress.\<close>

definition askInv :: "int \<Rightarrow> nat \<Rightarrow> askState \<Rightarrow> bool" where
  "askInv budget limit s \<longleftrightarrow> av_BudgetPerSession (ad_cfg (as_advisor s)) = budget \<and> ad_used (as_advisor s) = of_nat (as_answered s) \<and>
     as_running s \<le> limit \<and> int (as_answered s + as_running s) < budget + int limit"

lemma askStep_inv:
  assumes "askStep limit s s'" "askInv budget limit s" "0 < budget" "budget + int limit < 2 ^ 31"
  shows "askInv budget limit s'"
  using assms(1)
proof cases
  case start
  have "as_answered s < 2 ^ 31" using assms(2,4) by (auto simp: askInv_def)
  then have "int (as_answered s) < budget" using start(2) assms(2,3) by (auto simp: budgetExhausted_def askInv_def sint_counter)
  with start assms(2) show ?thesis by (auto simp: askInv_def)
qed (use assms(2) in \<open>auto simp: askInv_def\<close>)

lemma many_starts:
  assumes "\<not> budgetExhausted (as_advisor s)" "as_running s = 0" "k \<le> limit"
  shows "(askStep limit)\<^sup>*\<^sup>* s (s\<lparr>as_running := k\<rparr>)"
  using assms(3)
proof (induction k)
  case 0
  have "s\<lparr>as_running := 0\<rparr> = s" using assms(2) by (cases s) simp
  then show ?case by simp
next
  case (Suc k)
  have "askStep limit (s\<lparr>as_running := k\<rparr>) (s\<lparr>as_running := k\<rparr>\<lparr>as_running := k + 1\<rparr>)"
    using askStep.start [of "s\<lparr>as_running := k\<rparr>" limit] Suc.prems assms(1) by simp
  with Suc show ?case by (auto intro: rtranclp.rtrancl_into_rtrancl)
qed

text \<open>One answer after the other, up to the budget.\<close>

lemma answers_in_turn:
  assumes "int k \<le> av_BudgetPerSession cfg" "av_BudgetPerSession cfg < 2 ^ 31" "0 < limit"
  shows "(askStep limit)\<^sup>*\<^sup>* (askStart cfg) \<lparr> as_advisor = \<lparr> ad_cfg = cfg, ad_used = of_nat k \<rparr>, as_running = 0, as_answered = k \<rparr>"
  using assms(1)
proof (induction k)
  case 0
  then show ?case by (simp add: askStart_def NewAdvisor_def)
next
  case (Suc k)
  let ?s = "\<lparr> as_advisor = \<lparr> ad_cfg = cfg, ad_used = of_nat k \<rparr>, as_running = 0, as_answered = k \<rparr>"
  have "\<not> budgetExhausted (as_advisor ?s)" using Suc.prems assms(2) by (simp add: budgetExhausted_def sint_counter)
  then have "askStep limit ?s (?s\<lparr>as_running := 1\<rparr>)" using askStep.start [of ?s limit] assms(3) by simp
  moreover have "askStep limit (?s\<lparr>as_running := 1\<rparr>) \<lparr> as_advisor = \<lparr> ad_cfg = cfg, ad_used = of_nat (Suc k) \<rparr>, as_running = 0, as_answered = Suc k \<rparr>"
    using askStep.finish [of "?s\<lparr>as_running := 1\<rparr>" 0 limit] by (simp add: add.commute)
  ultimately show ?case using Suc by (meson Suc_leD int_ops(4) rtranclp.rtrancl_into_rtrancl of_nat_mono order_trans lessI less_imp_le_nat)
qed

lemma many_finishes:
  "as_running s = k \<Longrightarrow> \<exists>s'. (askStep limit)\<^sup>*\<^sup>* s s' \<and> as_answered s' = as_answered s + k"
proof (induction k arbitrary: s)
  case 0
  then show ?case by auto
next
  case (Suc k)
  let ?s = "s\<lparr>as_running := k, as_advisor := (as_advisor s)\<lparr>ad_used := ad_used (as_advisor s) + 1\<rparr>, as_answered := as_answered s + 1\<rparr>"
  have "askStep limit s ?s" using Suc.prems by (rule askStep.finish)
  moreover obtain s' where "(askStep limit)\<^sup>*\<^sup>* ?s s'" "as_answered s' = as_answered ?s + k" using Suc.IH [of ?s] by auto
  ultimately show ?case by (auto intro: converse_rtranclp_into_rtranclp)
qed

section \<open>Properties\<close>

text \<open>
  The budget bounds the answers of a session whose questions come one after the other: whatever the services answer, the successful answers are at most the budget, for a budget that
  the counter can hold, and the counter is their number.
\<close>

theorem answers_within_budget:
  assumes "askAll env qs (NewAdvisor cfg, w) = (rs, a', w')" "0 < av_BudgetPerSession cfg" "av_BudgetPerSession cfg < 2 ^ 31"
  shows "int (length (filter (\<lambda>r. isr r) rs)) \<le> av_BudgetPerSession cfg \<and> sint (ad_used a') = int (length (filter (\<lambda>r. isr r) rs))"
  using askAll_count [OF assms(1), of 0] assms(2,3) by (simp add: NewAdvisor_def sint_counter)

text \<open>
  C37. Overlapping questions exceed the budget by less than the number of calls in progress, and can exceed it by that much: with at most \<open>limit\<close> calls in progress at a time, a session has at most
  \<open>budget + limit - 1\<close> answers, and there is an order of the calls in which it has as many.
\<close>

theorem overlapping_answers_exceed_budget:
  assumes "0 < av_BudgetPerSession cfg" "av_BudgetPerSession cfg + int limit < 2 ^ 31" "0 < limit"
  shows "(\<forall>s. (askStep limit)\<^sup>*\<^sup>* (askStart cfg) s \<longrightarrow> int (as_answered s) < av_BudgetPerSession cfg + int limit) \<and>
    (\<exists>s. (askStep limit)\<^sup>*\<^sup>* (askStart cfg) s \<and> int (as_answered s) = av_BudgetPerSession cfg + int limit - 1)"
proof (intro conjI allI impI)
  fix s assume "(askStep limit)\<^sup>*\<^sup>* (askStart cfg) s"
  then have "askInv (av_BudgetPerSession cfg) limit s"
  proof (induction rule: rtranclp_induct)
    case base
    then show ?case using assms by (simp add: askInv_def askStart_def NewAdvisor_def)
  next
    case (step s s')
    then show ?case using askStep_inv assms(1,2) by blast
  qed
  then show "int (as_answered s) < av_BudgetPerSession cfg + int limit" by (simp add: askInv_def)
next
  define k where "k = nat (av_BudgetPerSession cfg - 1)"
  let ?s = "\<lparr> as_advisor = \<lparr> ad_cfg = cfg, ad_used = of_nat k \<rparr>, as_running = 0, as_answered = k \<rparr>"
  have k: "int k = av_BudgetPerSession cfg - 1" using assms(1) by (simp add: k_def)
  then have turn: "(askStep limit)\<^sup>*\<^sup>* (askStart cfg) ?s" using assms by (intro answers_in_turn) simp_all
  have "(askStep limit)\<^sup>*\<^sup>* ?s (?s\<lparr>as_running := limit\<rparr>)"
    using k assms(1,2) by (intro many_starts) (simp_all add: budgetExhausted_def sint_counter)
  moreover obtain s where "(askStep limit)\<^sup>*\<^sup>* (?s\<lparr>as_running := limit\<rparr>) s" "as_answered s = k + limit"
    using many_finishes [of "?s\<lparr>as_running := limit\<rparr>" limit limit] by auto
  ultimately show "\<exists>s. (askStep limit)\<^sup>*\<^sup>* (askStart cfg) s \<and> int (as_answered s) = av_BudgetPerSession cfg + int limit - 1"
    using turn k by (intro exI [of _ s]) (auto intro: rtranclp_trans)
qed

text \<open>
  The advisor fails open: when the gateway reports an error, the answer of the external model is returned as it came.
\<close>

theorem advisor_fails_open:
  assumes "\<not> budgetExhausted a" "find (\<lambda>p. ap_Name p = provider) (av_Providers (ad_cfg a)) = Some p" "askProvider env p question w = (Inr content, w1)"
    and "ae_gateway env = Some gw" "gw_ProcessInbound gw content (''advisor:'' @ ap_Name p) ''tool_result'' w1 = (Inl e, w2)"
  shows "Ask env question provider (a, w) = (Inr (''[advisor: '' @ ap_Name p @ ''/'' @ ap_Model p @ '']'' @ newline @ content), a\<lparr>ad_used := ad_used a + 1\<rparr>, w2)"
  using assms by (simp add: Ask_def throughGateway_def)

section \<open>Witnesses\<close>

definition localProvider :: AdvisorProvider where
  "localProvider = \<lparr> ap_Name = ''l'', ap_Type = ''local'', ap_Endpoint = ''http://l/'', ap_APIKeyEnv = '''', ap_Model = ''m'', ap_MaxTokens = 10, ap_CostNote = '''' \<rparr>"

definition echoEnv :: "unit advisorEnv" where
  "echoEnv = \<lparr> ae_post = (\<lambda>rq w. (Inr (200, rq_question rq), w)), ae_openai = (\<lambda>raw. Inr [raw]), ae_anthropic = (\<lambda>_. Inr []), ae_gemini = (\<lambda>_. Inr []),
     ae_getenv = (\<lambda>_. ''''), ae_gateway = None \<rparr>"

theorem answers_within_budget_witness:
  "map isl (fst (askAll echoEnv [(''a'', ''l''), (''b'', ''l''), (''c'', ''x'')] (NewAdvisor \<lparr> av_Providers = [localProvider], av_BudgetPerSession = 1 \<rparr>, ()))) = [False, True, True] \<and>
   length (filter (\<lambda>r. isr r) (fst (askAll echoEnv [(''a'', ''l''), (''b'', ''l''), (''c'', ''x'')] (NewAdvisor \<lparr> av_Providers = [localProvider], av_BudgetPerSession = 1 \<rparr>, ())))) \<le> 1"
  using answers_within_budget [of echoEnv "[(''a'', ''l''), (''b'', ''l''), (''c'', ''x'')]" "\<lparr> av_Providers = [localProvider], av_BudgetPerSession = 1 \<rparr>" "()"
      "fst (askAll echoEnv [(''a'', ''l''), (''b'', ''l''), (''c'', ''x'')] (NewAdvisor \<lparr> av_Providers = [localProvider], av_BudgetPerSession = 1 \<rparr>, ()))"]
  by (simp add: Ask_def askProvider_def askOpenAI_def exchange_def throughGateway_def echoEnv_def localProvider_def NewAdvisor_def budgetExhausted_def)

theorem overlapping_answers_exceed_budget_witness:
  "\<exists>s. (askStep 3)\<^sup>*\<^sup>* (askStart \<lparr> av_Providers = [localProvider], av_BudgetPerSession = 1 \<rparr>) s \<and> int (as_answered s) = 3"
  using overlapping_answers_exceed_budget [of "\<lparr> av_Providers = [localProvider], av_BudgetPerSession = 1 \<rparr>" 3] by simp

end
