(* ===== verification/Sandbox.thy ===== *)
theory Sandbox
  imports GoStrings "HOL-Library.Word"
begin

text \<open>
  The shell sandbox, \<^verbatim>\<open>internal/tools/sandbox.go\<close>: the list of blocked commands, the allowed paths of the permissive mode, the three modes and the cap on the output.

  Running a process is an argument: a function from the process that is started to its output, its error and its effect. \<open>user.Lookup\<close> and the working directory are arguments too.
  Paths are cleaned as \<open>filepath.Clean\<close> does for an absolute path.
\<close>

section \<open>Configuration\<close>

record SandboxConfig =
  sb_Mode :: string
  sb_AllowedPaths :: "string list"
  sb_BlockedCmds :: "string list"
  sb_User :: string
  sb_ContainerName :: string
  sb_MaxOutputBytes :: int

text \<open>\<open>sh -c\<close> as the agent itself, with another user and group, or in a container.\<close>

datatype process = Shell string | ShellAs "32 word" "32 word" string | Docker string string

record 'w sandboxEnv =
  se_run :: "process \<Rightarrow> 'w \<Rightarrow> (string \<times> error option) \<times> 'w"
  se_lookup :: "string \<Rightarrow> error + string \<times> string"       \<comment> \<open>user and group as text\<close>
  se_cwd :: "error + string"

section \<open>Blocked commands\<close>

definition bareName :: "string \<Rightarrow> string" where
  "bareName token = last (splitByte CHR ''/'' token)"

definition checkBlocklist :: "SandboxConfig \<Rightarrow> string \<Rightarrow> error option" where
  "checkBlocklist cfg command =
     (case find (\<lambda>token. bareName token \<in> set (sb_BlockedCmds cfg)) (Fields command) of
        None \<Rightarrow> None
      | Some token \<Rightarrow> Some (''sandbox: '' @ quoted token @ '' matches blocked command '' @ quoted (bareName token) @ '' '' @ em_dash @
          '' rejected (advisory blocklist; real boundary is sandbox mode '' @ quoted (sb_Mode cfg) @ '')''))"

section \<open>Paths\<close>

fun resolve :: "string list \<Rightarrow> string list \<Rightarrow> string list" where
  "resolve stack [] = rev stack"
| "resolve stack (c # cs) =
     (if c = '''' \<or> c = ''.'' then resolve stack cs else if c = ''..'' then resolve (tl stack) cs else resolve (c # stack) cs)"

definition components :: "string \<Rightarrow> string list" where
  "components p = resolve [] (splitByte CHR ''/'' p)"

definition render :: "string list \<Rightarrow> string" where
  "render cs = CHR ''/'' # strJoin cs ''/''"

definition CleanAbs :: "string \<Rightarrow> string" where
  "CleanAbs p = render (components p)"

definition AbsPath :: "error + string \<Rightarrow> string \<Rightarrow> error + string" where
  "AbsPath cwd p =
     (if hasPrefix p ''/'' then Inr (CleanAbs p)
      else (case cwd of Inl e \<Rightarrow> Inl e | Inr d \<Rightarrow> Inr (CleanAbs (d @ ''/'' @ p))))"

definition isUnderAllowed :: "string \<Rightarrow> string list \<Rightarrow> bool" where
  "isUnderAllowed path allowed \<longleftrightarrow> (\<exists>a \<in> set allowed. path = a \<or> hasPrefix path (a @ ''/''))"

definition pathLike :: "string \<Rightarrow> bool" where
  "pathLike token \<longleftrightarrow> hasPrefix token ''/'' \<or> hasPrefix token ''./'' \<or> hasPrefix token ''../''"

definition shellPunctuation :: "char set" where
  "shellPunctuation = set '';|&><!)''"

fun allowedRoots :: "error + string \<Rightarrow> nat \<Rightarrow> string list \<Rightarrow> error + string list" where
  "allowedRoots cwd i [] = Inr []"
| "allowedRoots cwd i (p # ps) =
     (case AbsPath cwd p of
        Inl e \<Rightarrow> Inl (''sandbox: cannot resolve AllowedPaths['' @ itoa (int i) @ ''] '' @ quoted p @ '': '' @ e)
      | Inr ap \<Rightarrow> (case allowedRoots cwd (i + 1) ps of Inl e \<Rightarrow> Inl e | Inr rs \<Rightarrow> Inr (CleanAbs ap # rs)))"

fun checkTokens :: "error + string \<Rightarrow> string list \<Rightarrow> string list \<Rightarrow> error option" where
  "checkTokens cwd allowed [] = None"
| "checkTokens cwd allowed (token # tokens) =
     (if \<not> pathLike token then checkTokens cwd allowed tokens
      else (let token' = trimRight shellPunctuation token in
        case AbsPath cwd token' of
          Inl e \<Rightarrow> Some (''sandbox: cannot resolve path '' @ quoted token' @ '': '' @ e)
        | Inr cleaned \<Rightarrow>
            (let cleaned' = CleanAbs cleaned in
             if \<not> isUnderAllowed cleaned' allowed
             then Some (''sandbox: path '' @ quoted cleaned' @ '' is not under any AllowedPaths ['' @ strJoin allowed '' '' @ ''] '' @ em_dash @ '' refusing to execute (fail closed)'')
             else checkTokens cwd allowed tokens)))"

definition checkAllowedPaths :: "error + string \<Rightarrow> SandboxConfig \<Rightarrow> string \<Rightarrow> error option" where
  "checkAllowedPaths cwd cfg command =
     (if sb_AllowedPaths cfg = [] then None
      else (case allowedRoots cwd 0 (sb_AllowedPaths cfg) of Inl e \<Rightarrow> Some e | Inr allowed \<Rightarrow> checkTokens cwd allowed (Fields command)))"

section \<open>Execution\<close>

definition capOutput :: "SandboxConfig \<Rightarrow> string \<Rightarrow> string" where
  "capOutput cfg out =
     (let limit = (if sb_MaxOutputBytes cfg \<le> 0 then 2 ^ 20 else sb_MaxOutputBytes cfg) in
      if int (length out) \<le> limit then out
      else take (nat limit) out @ newline @ ''[output truncated at '' @ itoa limit @ '' bytes]'')"

text \<open>The output is returned together with the error of the command.\<close>

definition finishRun :: "SandboxConfig \<Rightarrow> string \<Rightarrow> (string \<times> error option) \<times> 'w \<Rightarrow> (string \<times> error option) \<times> 'w" where
  "finishRun cfg who res =
     (case res of ((out, Some e), w) \<Rightarrow> ((capOutput cfg out, Some (who @ '': '' @ e)), w) | ((out, None), w) \<Rightarrow> ((capOutput cfg out, None), w))"

definition execPermissive :: "'w sandboxEnv \<Rightarrow> SandboxConfig \<Rightarrow> string \<Rightarrow> 'w \<Rightarrow> (string \<times> error option) \<times> 'w" where
  "execPermissive env cfg command w =
     (case checkAllowedPaths (se_cwd env) cfg command of
        Some e \<Rightarrow> (('''', Some e), w)
      | None \<Rightarrow> finishRun cfg ''exec'' (se_run env (Shell command) w))"

definition execAsUser :: "'w sandboxEnv \<Rightarrow> SandboxConfig \<Rightarrow> string \<Rightarrow> 'w \<Rightarrow> (string \<times> error option) \<times> 'w" where
  "execAsUser env cfg command w =
     (case se_lookup env (sb_User cfg) of
        Inl e \<Rightarrow> (('''', Some (''sandbox: lookup user '' @ quoted (sb_User cfg) @ '': '' @ e)), w)
      | Inr (u, g) \<Rightarrow>
          (case Atoi u of
             Inl e \<Rightarrow> (('''', Some (''sandbox: parse uid '' @ quoted u @ '': '' @ e)), w)
           | Inr uid \<Rightarrow>
               (case Atoi g of
                  Inl e \<Rightarrow> (('''', Some (''sandbox: parse gid '' @ quoted g @ '': '' @ e)), w)
                | Inr gid \<Rightarrow> finishRun cfg (''exec as user '' @ sb_User cfg) (se_run env (ShellAs (of_int uid) (of_int gid) command) w))))"

definition execInContainer :: "'w sandboxEnv \<Rightarrow> SandboxConfig \<Rightarrow> string \<Rightarrow> 'w \<Rightarrow> (string \<times> error option) \<times> 'w" where
  "execInContainer env cfg command w =
     (if sb_ContainerName cfg = '''' then (('''', Some ''sandbox: container mode requires ContainerName in config''), w)
      else finishRun cfg ''docker exec'' (se_run env (Docker (sb_ContainerName cfg) command) w))"

definition Sandbox_Execute :: "'w sandboxEnv \<Rightarrow> SandboxConfig \<Rightarrow> string \<Rightarrow> 'w \<Rightarrow> (string \<times> error option) \<times> 'w" where
  "Sandbox_Execute env cfg command w =
     (case checkBlocklist cfg command of
        Some e \<Rightarrow> (('''', Some e), w)
      | None \<Rightarrow>
          if sb_Mode cfg = ''permissive'' then execPermissive env cfg command w
          else if sb_Mode cfg = ''user'' then execAsUser env cfg command w
          else if sb_Mode cfg = ''container'' then execInContainer env cfg command w
          else if sb_Mode cfg = ''none''
          then (('''', Some (''sandbox: mode '' @ quoted (sb_Mode cfg) @ '' is not allowed '' @ em_dash @ '' use '' @ [CHR 0x27] @ ''permissive'' @ [CHR 0x27] @ '' with AllowedPaths'')), w)
          else (('''', Some (''sandbox: unrecognized mode '' @ quoted (sb_Mode cfg) @ '' '' @ em_dash @ '' refusing to execute'')), w))"


section \<open>Lemmas\<close>

text \<open>The components of a cleaned path.\<close>

definition cleanComponent :: "string \<Rightarrow> bool" where
  "cleanComponent c \<longleftrightarrow> c \<notin> {'''', ''.'', ''..''} \<and> CHR ''/'' \<notin> set c"

lemma resolve_clean: "\<forall>c \<in> set stack. cleanComponent c \<Longrightarrow> \<forall>c \<in> set cs. CHR ''/'' \<notin> set c \<Longrightarrow> \<forall>c \<in> set (resolve stack cs). cleanComponent c"
proof (induction cs arbitrary: stack)
  case (Cons c cs)
  have tl: "\<forall>c \<in> set (tl stack). cleanComponent c" using Cons.prems(1) by (cases stack) auto
  have cs: "\<forall>c \<in> set cs. CHR ''/'' \<notin> set c" using Cons.prems(2) by simp
  consider "c = '''' \<or> c = ''.''" | "c = ''..''" | "c \<notin> {'''', ''.'', ''..''}" by blast
  then show ?case
  proof cases
    case 1
    then show ?thesis using Cons.IH [OF Cons.prems(1) cs] by auto
  next
    case 2
    then show ?thesis using Cons.IH [OF tl cs] by auto
  next
    case 3
    then have "\<forall>c \<in> set (c # stack). cleanComponent c" using Cons.prems by (simp add: cleanComponent_def)
    from Cons.IH [OF this cs] 3 show ?thesis by simp
  qed
qed simp

lemma components_clean: "c \<in> set (components p) \<Longrightarrow> cleanComponent c"
  unfolding components_def using resolve_clean [of "[]"] splitByte_no_sep by (metis empty_iff empty_set)

lemma resolve_id: "\<forall>c \<in> set cs. cleanComponent c \<Longrightarrow> resolve stack cs = rev stack @ cs"
  by (induction cs arbitrary: stack) (auto simp: cleanComponent_def)

lemma components_render:
  assumes "\<forall>c \<in> set cs. cleanComponent c"
  shows "components (render cs) = cs"
proof (cases "cs = []")
  case False
  then have "splitByte CHR ''/'' (strJoin cs ''/'') = cs" using assms by (intro splitByte_strJoin) (auto simp: cleanComponent_def)
  then show ?thesis using resolve_id [OF assms, of "[]"] by (simp add: components_def render_def)
qed (simp add: components_def render_def)

lemma CleanAbs_idem [simp]: "CleanAbs (CleanAbs p) = CleanAbs p"
  unfolding CleanAbs_def using components_clean by (simp add: components_render)

text \<open>Below a root: the root's components come first. The root directory itself is below nothing but itself.\<close>

definition below :: "string list \<Rightarrow> string list \<Rightarrow> bool" where
  "below r p \<longleftrightarrow> prefix r p \<and> (r \<noteq> [] \<or> p = [])"

lemma render_below:
  assumes "\<forall>c \<in> set r. cleanComponent c" "\<forall>c \<in> set p. cleanComponent c"
  shows "(render p = render r \<or> hasPrefix (render p) (render r @ ''/'')) = below r p"
proof
  assume "render p = render r \<or> hasPrefix (render p) (render r @ ''/'')"
  then show "below r p"
  proof
    assume "render p = render r"
    then have "p = r" using assms components_render by metis
    then show ?thesis by (simp add: below_def)
  next
    assume "hasPrefix (render p) (render r @ ''/'')"
    then obtain t where t: "strJoin p ''/'' = strJoin r ''/'' @ CHR ''/'' # t" by (auto simp: render_def hasPrefix_iff)
    then have "p \<noteq> []" by (cases p) auto
    then have p: "p = splitByte CHR ''/'' (strJoin r ''/'') @ splitByte CHR ''/'' t"
      using splitByte_strJoin [of p "CHR ''/''"] assms(2) unfolding t by (auto simp: splitByte_append cleanComponent_def)
    have "r \<noteq> []"
    proof
      assume "r = []"
      with p have "'''' \<in> set p" by simp
      with assms(2) show False by (auto simp: cleanComponent_def)
    qed
    moreover then have "splitByte CHR ''/'' (strJoin r ''/'') = r" using assms(1) by (intro splitByte_strJoin) (auto simp: cleanComponent_def)
    ultimately show ?thesis using p by (auto simp: below_def)
  qed
next
  assume "below r p"
  then consider "p = r" | q where "p = r @ q" "q \<noteq> []" "r \<noteq> []" by (auto simp: below_def prefix_def)
  then show "render p = render r \<or> hasPrefix (render p) (render r @ ''/'')"
    by cases (auto simp: render_def strJoin_append hasPrefix_iff)
qed

text \<open>Where a path leads from a working directory.\<close>

definition leadsTo :: "string \<Rightarrow> string \<Rightarrow> string list" where
  "leadsTo d p = components (if hasPrefix p ''/'' then p else d @ ''/'' @ p)"

lemma AbsPath_leadsTo: "AbsPath (Inr d) p = Inr (render (leadsTo d p))"
  by (simp add: AbsPath_def leadsTo_def CleanAbs_def)

lemma leadsTo_clean: "c \<in> set (leadsTo d p) \<Longrightarrow> cleanComponent c"
  unfolding leadsTo_def by (rule components_clean)

lemma CleanAbs_leadsTo [simp]: "CleanAbs (render (leadsTo d p)) = render (leadsTo d p)"
  unfolding CleanAbs_def using leadsTo_clean by (simp add: components_render)

lemma allowedRoots_ok: "allowedRoots (Inr d) i ps = Inr (map (\<lambda>p. render (leadsTo d p)) ps)"
  by (induction ps arbitrary: i) (simp_all add: AbsPath_leadsTo)

lemma isUnderAllowed_below:
  "isUnderAllowed (render (leadsTo d p)) (map (\<lambda>r. render (leadsTo d r)) roots) \<longleftrightarrow> (\<exists>r \<in> set roots. below (leadsTo d r) (leadsTo d p))"
  using leadsTo_clean by (simp add: isUnderAllowed_def render_below)

lemma checkTokens_below:
  "checkTokens (Inr d) (map (\<lambda>r. render (leadsTo d r)) roots) tokens = None \<longleftrightarrow>
   (\<forall>token \<in> set tokens. pathLike token \<longrightarrow> (\<exists>r \<in> set roots. below (leadsTo d r) (leadsTo d (trimRight shellPunctuation token))))"
  by (induction tokens) (auto simp: AbsPath_leadsTo isUnderAllowed_below Let_def)

lemma finishRun_world [simp]: "snd (finishRun cfg who res) = snd res"
  by (auto simp: finishRun_def split: prod.split option.split)

section \<open>Properties\<close>

text \<open>
  The path check is exact for what it looks at: with allowed paths and a working directory, a command passes exactly when every token that starts like a path leads, after the dots are
  resolved, to an allowed path or below it. A root directory in the list allows the root alone.
\<close>

theorem path_check_is_exact:
  "checkAllowedPaths (Inr d) cfg command = None \<longleftrightarrow> sb_AllowedPaths cfg = [] \<or>
   (\<forall>token \<in> set (Fields command). pathLike token \<longrightarrow>
      (\<exists>r \<in> set (sb_AllowedPaths cfg). below (leadsTo d r) (leadsTo d (trimRight shellPunctuation token))))"
  by (simp add: checkAllowedPaths_def allowedRoots_ok checkTokens_below)

text \<open>
  A command runs at most one process, the configured one: whatever the command, the state is unchanged, or the command passed the block list and the sandbox started exactly the
  process of its mode, in the permissive mode after the path check, in the user mode with the identifiers of the configured user.
\<close>

theorem sandbox_runs_configured_process:
  "snd (Sandbox_Execute env cfg command w) = w \<or>
   checkBlocklist cfg command = None \<and>
   (\<exists>proc. snd (Sandbox_Execute env cfg command w) = snd (se_run env proc w) \<and>
      (case proc of
         Shell c \<Rightarrow> c = command \<and> sb_Mode cfg = ''permissive'' \<and> checkAllowedPaths (se_cwd env) cfg command = None
       | ShellAs uid gid c \<Rightarrow> c = command \<and> sb_Mode cfg = ''user'' \<and>
           (\<exists>u g i j. se_lookup env (sb_User cfg) = Inr (u, g) \<and> Atoi u = Inr i \<and> Atoi g = Inr j \<and> uid = of_int i \<and> gid = of_int j)
       | Docker name c \<Rightarrow> c = command \<and> sb_Mode cfg = ''container'' \<and> name = sb_ContainerName cfg \<and> name \<noteq> ''''))"
proof (cases "checkBlocklist cfg command")
  case (Some e)
  then show ?thesis by (simp add: Sandbox_Execute_def)
next
  case None
  consider (permissive) "sb_Mode cfg = ''permissive''" | (user) "sb_Mode cfg = ''user''" | (container) "sb_Mode cfg = ''container''"
    | (other) "sb_Mode cfg \<notin> {''permissive'', ''user'', ''container''}" by blast
  then show ?thesis
  proof cases
    case permissive
    with None show ?thesis
      by (cases "checkAllowedPaths (se_cwd env) cfg command") (auto simp: Sandbox_Execute_def execPermissive_def intro!: exI [of _ "Shell command"])
  next
    case user
    with None have run: "Sandbox_Execute env cfg command w = execAsUser env cfg command w" by (simp add: Sandbox_Execute_def)
    show ?thesis
    proof (cases "\<exists>u g i j. se_lookup env (sb_User cfg) = Inr (u, g) \<and> Atoi u = Inr i \<and> Atoi g = Inr j")
      case True
      then obtain u g i j where "se_lookup env (sb_User cfg) = Inr (u, g)" "Atoi u = Inr i" "Atoi g = Inr j" by blast
      with None user show ?thesis unfolding run by (intro disjI2 conjI exI [of _ "ShellAs (of_int i) (of_int j) command"]) (auto simp: execAsUser_def)
    next
      case False
      then show ?thesis unfolding run by (auto simp: execAsUser_def split: sum.split)
    qed
  next
    case container
    with None show ?thesis by (auto simp: Sandbox_Execute_def execInContainer_def intro!: exI [of _ "Docker (sb_ContainerName cfg) command"])
  next
    case other
    with None show ?thesis by (simp add: Sandbox_Execute_def)
  qed
qed

text \<open>
  The output is bounded: what a command prints reaches the caller as it is, or cut to the limit with a note, so that no command returns more than the limit and the note.
\<close>

theorem output_is_capped:
  assumes "limit = (if sb_MaxOutputBytes cfg \<le> 0 then 2 ^ 20 else sb_MaxOutputBytes cfg)"
  shows "int (length (fst (fst (Sandbox_Execute env cfg command w)))) \<le> limit + 30 + int (length (itoa limit))"
proof -
  have cap: "int (length (capOutput cfg out)) \<le> limit + 30 + int (length (itoa limit))" for out
  proof -
    have "0 \<le> limit" using assms by simp
    then show ?thesis unfolding capOutput_def Let_def assms [symmetric] by auto
  qed
  then have fin: "int (length (fst (fst (finishRun cfg who res)))) \<le> limit + 30 + int (length (itoa limit))" for who and res :: "(string \<times> error option) \<times> 'a"
    by (auto simp: finishRun_def split: prod.split option.split)
  have "0 \<le> limit" using assms by simp
  with fin show ?thesis
    by (auto simp: Sandbox_Execute_def execPermissive_def execAsUser_def execInContainer_def split: option.split sum.split prod.split)
qed

lemma escape_fields: "Fields ''cat a/../../etc/passwd'' = [''cat'', ''a/../../etc/passwd'']"
  using Fields_words [of "[''cat'', ''a/../../etc/passwd'']"] by (simp add: visible_def asciiByte_def asciiSpace_def)

lemma quoted_fields: "Fields (''sh -c '' @ CHR 0x27 # ''rm x'' @ [CHR 0x27]) = [''sh'', ''-c'', CHR 0x27 # ''rm'', ''x'' @ [CHR 0x27]]"
  using Fields_words [of "[''sh'', ''-c'', CHR 0x27 # ''rm'', ''x'' @ [CHR 0x27]]"] by (simp add: visible_def asciiByte_def asciiSpace_def)

text \<open>
  The path check can be walked around: a path that does not start with a slash or dots is not looked at, so that a command reads a file outside the allowed paths by going through a
  directory inside them; and quoting hides a blocked command from the block list, which the source says is what scanning all tokens prevents.
\<close>

theorem checks_can_be_walked_around:
  "checkAllowedPaths (Inr ''/w'') cfg ''cat a/../../etc/passwd'' = None \<and> leadsTo ''/w'' ''a/../../etc/passwd'' = [''etc'', ''passwd''] \<and>
   checkBlocklist (cfg\<lparr>sb_BlockedCmds := [''rm'']\<rparr>) (''sh -c '' @ CHR 0x27 # ''rm x'' @ [CHR 0x27]) = None"
proof (intro conjI)
  show "checkAllowedPaths (Inr ''/w'') cfg ''cat a/../../etc/passwd'' = None" by (simp add: checkAllowedPaths_def allowedRoots_ok checkTokens_below escape_fields pathLike_def)
  show "leadsTo ''/w'' ''a/../../etc/passwd'' = [''etc'', ''passwd'']" by (simp add: leadsTo_def components_def)
  show "checkBlocklist (cfg\<lparr>sb_BlockedCmds := [''rm'']\<rparr>) (''sh -c '' @ CHR 0x27 # ''rm x'' @ [CHR 0x27]) = None"
    unfolding checkBlocklist_def quoted_fields by (simp add: bareName_def)
qed

theorem output_is_capped_witness:
  "length (fst (fst (Sandbox_Execute \<lparr> se_run = (\<lambda>p w. ((''12345'', None), w)), se_lookup = (\<lambda>_. Inl ''x''), se_cwd = Inr ''/'' \<rparr>
     \<lparr> sb_Mode = ''container'', sb_AllowedPaths = [], sb_BlockedCmds = [], sb_User = '''', sb_ContainerName = ''c'', sb_MaxOutputBytes = 3 \<rparr> ''ls'' ()))) \<le> 33 + length (itoa 3)"
  using output_is_capped [of 3 "\<lparr> sb_Mode = ''container'', sb_AllowedPaths = [], sb_BlockedCmds = [], sb_User = '''', sb_ContainerName = ''c'', sb_MaxOutputBytes = 3 \<rparr>"
      "\<lparr> se_run = (\<lambda>p w. ((''12345'', None), w)), se_lookup = (\<lambda>_. Inl ''x''), se_cwd = Inr ''/'' \<rparr>" "''ls''" "()"] by simp

end
