(* ===== verification/Startup.thy ===== *)
theory Startup
  imports App GoStrings
begin

text \<open>
  The start of the agent: the configuration from the environment (\<^verbatim>\<open>internal/platform/config.go\<close>), the log level (\<^verbatim>\<open>logging.go\<close>) and \<^verbatim>\<open>cmd/agent/main.go\<close>, which puts them together with
  \<open>NewApp\<close> of the theory App.

  \<open>strconv.ParseFloat\<close> also reads \<open>NaN\<close> and the infinities, so that a number of the configuration is of the type \<open>goFloat\<close>; the parsers of numbers with a point and of
  durations are arguments, the ones of integers and of truth values are written out. The variables of the environment are a function, with the empty string for one that is not set.
\<close>

section \<open>Reading the environment\<close>

datatype goFloat = NaN | NegInf | PosInf | Finite float64

text \<open>The order of floating-point numbers: no comparison with \<open>NaN\<close> holds.\<close>

fun floatLess :: "goFloat \<Rightarrow> goFloat \<Rightarrow> bool" where
  "floatLess (Finite a) (Finite b) = (a < b)"
| "floatLess NegInf (Finite b) = True"
| "floatLess NegInf PosInf = True"
| "floatLess (Finite a) PosInf = True"
| "floatLess _ _ = False"

record configEnv =
  ce_getenv :: "string \<Rightarrow> string"
  ce_parseFloat :: "string \<Rightarrow> goFloat option"          \<comment> \<open>\<open>None\<close> is an error\<close>
  ce_parseDuration :: "string \<Rightarrow> duration option"

definition envStr :: "configEnv \<Rightarrow> string \<Rightarrow> string \<Rightarrow> string" where
  "envStr env key def = (if ce_getenv env key \<noteq> '''' then ce_getenv env key else def)"

definition envInt :: "configEnv \<Rightarrow> string \<Rightarrow> int \<Rightarrow> int" where
  "envInt env key def = (let v = ce_getenv env key in if v = '''' then def else (case Atoi v of Inl e \<Rightarrow> def | Inr n \<Rightarrow> n))"

definition envFloat :: "configEnv \<Rightarrow> string \<Rightarrow> float64 \<Rightarrow> goFloat" where
  "envFloat env key def = (let v = ce_getenv env key in if v = '''' then Finite def else (case ce_parseFloat env v of None \<Rightarrow> Finite def | Some f \<Rightarrow> f))"

text \<open>\<open>strconv.ParseBool\<close>.\<close>

definition parseBool :: "string \<Rightarrow> bool option" where
  "parseBool s =
     (if s \<in> {''1'', ''t'', ''T'', ''true'', ''TRUE'', ''True''} then Some True
      else if s \<in> {''0'', ''f'', ''F'', ''false'', ''FALSE'', ''False''} then Some False else None)"

definition envBool :: "configEnv \<Rightarrow> string \<Rightarrow> bool \<Rightarrow> bool" where
  "envBool env key def = (let v = ce_getenv env key in if v = '''' then def else (case parseBool v of None \<Rightarrow> def | Some b \<Rightarrow> b))"

definition envDuration :: "configEnv \<Rightarrow> string \<Rightarrow> duration \<Rightarrow> duration" where
  "envDuration env key def = (let v = ce_getenv env key in if v = '''' then def else (case ce_parseDuration env v of None \<Rightarrow> def | Some d \<Rightarrow> d))"

definition clampFloat :: "goFloat \<Rightarrow> float64 \<Rightarrow> float64 \<Rightarrow> goFloat" where
  "clampFloat v lo hi = (if floatLess v (Finite lo) then Finite lo else if floatLess (Finite hi) v then Finite hi else v)"

definition clampInt :: "int \<Rightarrow> int \<Rightarrow> int \<Rightarrow> int" where
  "clampInt v lo hi = (if v < lo then lo else if v > hi then hi else v)"

section \<open>The configuration\<close>

record Config =
  cf_IdentityDir :: string
  cf_AgentName :: string
  cf_LLMProvider :: string
  cf_LLMModel :: string
  cf_LLMAPIKey :: string
  cf_LLMEndpoint :: string
  cf_LLMProfile :: string
  cf_LLMSecondaryProvider :: string
  cf_LLMSecondaryEndpoint :: string
  cf_LLMSecondaryModel :: string
  cf_LLMSecondaryAPIKey :: string
  cf_LLMSecondaryRole :: string
  cf_EmbedProvider :: string
  cf_EmbedModel :: string
  cf_EmbedAPIKey :: string
  cf_EmbedDimensions :: int
  cf_DatabaseDSN :: string
  cf_TokenBudget :: int
  cf_HardFloorTokens :: int
  cf_SessionTrigger :: string
  cf_WorkspaceDir :: string
  cf_PAVelocityThreshold :: goFloat
  cf_BridgeAbstainRate :: goFloat
  cf_BeliefDecayRate :: goFloat
  cf_InferenceDecayBase :: goFloat
  cf_StaleThreshold :: goFloat
  cf_ContradictionRetrievalProbability :: goFloat
  cf_ConvergenceRatioThreshold :: goFloat
  cf_ConvergenceNudgeCooldown :: int
  cf_ConvergenceWindowSize :: int
  cf_TelemetryEnabled :: bool
  cf_SandboxMode :: string
  cf_SandboxAllowedPaths :: string
  cf_SandboxBlockedCmds :: string
  cf_SandboxUser :: string
  cf_RuntimeDir :: string
  cf_AdvisorConfigPath :: string
  cf_LLMRequestTimeout :: duration
  cf_DiscordToken :: string
  cf_DiscordChannelIDs :: string
  cf_DiscordPollSecs :: int
  cf_AegisTrustSkepticalPrior :: goFloat
  cf_AegisTrustRampN :: int
  cf_AegisOutboundPathPrefixes :: string
  cf_SkipWitnessCheck :: bool

definition configFromEnv :: "configEnv \<Rightarrow> Config" where
  "configFromEnv env =
     \<lparr> cf_IdentityDir = envStr env ''IDENTITY_DIR'' ''./identity'', cf_AgentName = envStr env ''AGENT_NAME'' ''aurora'',
       cf_LLMProvider = envStr env ''LLM_PROVIDER'' ''openai'', cf_LLMModel = envStr env ''LLM_MODEL'' '''', cf_LLMAPIKey = envStr env ''LLM_API_KEY'' '''',
       cf_LLMEndpoint = envStr env ''LLM_ENDPOINT'' '''', cf_LLMProfile = envStr env ''LLM_PROFILE'' ''enforce-eager'',
       cf_LLMSecondaryProvider = envStr env ''LLM_SECONDARY_PROVIDER'' '''', cf_LLMSecondaryEndpoint = envStr env ''LLM_SECONDARY_ENDPOINT'' '''',
       cf_LLMSecondaryModel = envStr env ''LLM_SECONDARY_MODEL'' '''', cf_LLMSecondaryAPIKey = envStr env ''LLM_SECONDARY_API_KEY'' '''',
       cf_LLMSecondaryRole = envStr env ''LLM_SECONDARY_ROLE'' '''', cf_EmbedProvider = envStr env ''EMBED_PROVIDER'' ''voyage'',
       cf_EmbedModel = envStr env ''EMBED_MODEL'' ''voyage-3.5'', cf_EmbedAPIKey = envStr env ''EMBED_API_KEY'' '''',
       cf_EmbedDimensions = envInt env ''EMBED_DIMENSIONS'' 1024, cf_DatabaseDSN = envStr env ''DATABASE_DSN'' ''sqlite://./agent.db'',
       cf_TokenBudget = envInt env ''TOKEN_BUDGET'' 200000, cf_HardFloorTokens = envInt env ''HARD_FLOOR_TOKENS'' 1500,
       cf_SessionTrigger = envStr env ''SESSION_TRIGGER'' ''heartbeat'', cf_WorkspaceDir = envStr env ''WORKSPACE_DIR'' ''./workspace'',
       cf_PAVelocityThreshold = envFloat env ''PA_VELOCITY_THRESHOLD'' (fl (28 / 100)), cf_BridgeAbstainRate = envFloat env ''BRIDGE_ABSTAIN_RATE'' (fl (20 / 100)),
       cf_BeliefDecayRate = envFloat env ''BELIEF_DECAY_RATE'' (fl (5 / 100)), cf_InferenceDecayBase = envFloat env ''INFERENCE_DECAY_BASE'' (fl (90 / 100)),
       cf_StaleThreshold = envFloat env ''STALE_THRESHOLD'' (fl (20 / 100)),
       cf_ContradictionRetrievalProbability = clampFloat (envFloat env ''CONTRADICTION_RETRIEVAL_PROBABILITY'' (fl (30 / 100))) 0 1,
       cf_ConvergenceRatioThreshold = clampFloat (envFloat env ''CONVERGENCE_RATIO_THRESHOLD'' (fl (60 / 100))) 0 1,
       cf_ConvergenceNudgeCooldown = clampInt (envInt env ''CONVERGENCE_NUDGE_COOLDOWN'' 5) 1 20,
       cf_ConvergenceWindowSize = clampInt (envInt env ''CONVERGENCE_WINDOW_SIZE'' 10) 3 50, cf_TelemetryEnabled = envBool env ''TELEMETRY_ENABLED'' True,
       cf_SandboxMode = envStr env ''SANDBOX_MODE'' ''user'', cf_SandboxAllowedPaths = envStr env ''SANDBOX_ALLOWED_PATHS'' '''',
       cf_SandboxBlockedCmds = envStr env ''SANDBOX_BLOCKED_CMDS'' '''', cf_SandboxUser = envStr env ''SANDBOX_USER'' '''',
       cf_RuntimeDir = envStr env ''RUNTIME_DIR'' ''./run'', cf_AdvisorConfigPath = envStr env ''ADVISOR_CONFIG'' '''',
       cf_LLMRequestTimeout = envDuration env ''LLM_REQUEST_TIMEOUT'' (10 * minute), cf_DiscordToken = envStr env ''DISCORD_TOKEN'' '''',
       cf_DiscordChannelIDs = envStr env ''DISCORD_CHANNEL_IDS'' '''', cf_DiscordPollSecs = envInt env ''DISCORD_POLL_SECONDS'' 30,
       cf_AegisTrustSkepticalPrior = envFloat env ''AEGIS_TRUST_SKEPTICAL_PRIOR'' (fl (40 / 100)), cf_AegisTrustRampN = envInt env ''AEGIS_TRUST_RAMP_N'' 5,
       cf_AegisOutboundPathPrefixes = envStr env ''AEGIS_OUTBOUND_PATH_PREFIXES'' ''/home/,/etc/,/opt/,/storage/'',
       cf_SkipWitnessCheck = envBool env ''SKIP_WITNESS_CHECK'' False \<rparr>"

text \<open>The check also resets a hard floor that is not below the budget, both to their defaults.\<close>

definition Config_validate :: "Config \<Rightarrow> error option \<times> Config" where
  "Config_validate c =
     (if cf_LLMProvider c = '''' then (Some ''LLM_PROVIDER is required'', c)
      else if cf_DatabaseDSN c = '''' then (Some ''DATABASE_DSN is required'', c)
      else if cf_TokenBudget c \<le> 0 then (Some ''TOKEN_BUDGET must be positive'', c)
      else if cf_HardFloorTokens c \<le> 0 then (Some ''HARD_FLOOR_TOKENS must be positive'', c)
      else if cf_HardFloorTokens c \<ge> cf_TokenBudget c then (None, c\<lparr>cf_TokenBudget := 200000, cf_HardFloorTokens := 1500\<rparr>)
      else (None, c))"

definition Load :: "configEnv \<Rightarrow> error + Config" where
  "Load env = (case Config_validate (configFromEnv env) of (Some e, c) \<Rightarrow> Inl (''config validation: '' @ e) | (None, c) \<Rightarrow> Inr c)"

datatype slogLevel = LevelDebug | LevelInfo | LevelWarn | LevelError

definition LogLevel :: "string \<Rightarrow> slogLevel" where
  "LogLevel s = (if s = ''debug'' then LevelDebug else if s \<in> {''warn'', ''warning''} then LevelWarn else if s = ''error'' then LevelError else LevelInfo)"

section \<open>The agent\<close>

text \<open>\<open>visit\<close> is the order in which a map is visited for an error message. What \<open>NewApp\<close> reads of the configuration and of the environment.\<close>

definition appConfigOf :: "configEnv \<Rightarrow> Config \<Rightarrow> appConfig" where
  "appConfigOf env c = \<lparr> cg_DatabaseDSN = cf_DatabaseDSN c, cg_LLMProvider = cf_LLMProvider c, cg_LLMEndpoint = cf_LLMEndpoint c, cg_EmbedAPIKey = cf_EmbedAPIKey c,
     cg_SessionTrigger = cf_SessionTrigger c, cg_DiscordToken = cf_DiscordToken c, cg_DiscordChannelIDs = cf_DiscordChannelIDs c,
     cg_CLIChannel = (ce_getenv env ''CLI_CHANNEL'' = ''true''), cg_Phase1Mode = (ce_getenv env ''PHASE1_MODE'' = ''true'') \<rparr>"

definition ProfileFromEnv :: "(RuntimeProfile list \<Rightarrow> RuntimeProfile list) \<Rightarrow> configEnv \<Rightarrow> error + RuntimeProfile" where
  "ProfileFromEnv visit env = ParseProfile visit (ce_getenv env ''AGENT_PROFILE'')"

text \<open>\<open>run\<close> up to the application that it runs.\<close>

definition agent_run :: "(RuntimeProfile list \<Rightarrow> RuntimeProfile list) \<Rightarrow> (string \<Rightarrow> string \<Rightarrow> error option) \<Rightarrow> configEnv \<Rightarrow> error + RuntimeProfile \<times> appGraph" where
  "agent_run visit ping env =
     (case Load env of
        Inl e \<Rightarrow> Inl (''loading config: '' @ e)
      | Inr cfg \<Rightarrow>
          (case ProfileFromEnv visit env of
             Inl e \<Rightarrow> Inl e
           | Inr profile \<Rightarrow>
               (case NewApp linkedDrivers ping (appConfigOf env cfg) profile noOptions of
                  Inl e \<Rightarrow> Inl (''initialization failed: '' @ e)
                | Inr app \<Rightarrow> Inr (profile, app))))"

text \<open>\<open>App.Run\<close>: \<open>request\<close> is the request to the model, \<open>daemon\<close> the run of the daemon.\<close>

definition App_Run :: "RuntimeProfile \<Rightarrow> ('w \<Rightarrow> error option \<times> 'w) \<Rightarrow> ('w \<Rightarrow> error option \<times> 'w) \<Rightarrow> 'w \<Rightarrow> error option \<times> 'w" where
  "App_Run profile request daemonRun w =
     (if profile = ProfileConnectivityTest
      then (case request w of
              (Some e, w') \<Rightarrow> (Some (''app: connectivity test '' @ em_dash @ '' LLM unreachable: '' @ e), w')
            | (None, w') \<Rightarrow> (None, w'))
      else daemonRun w)"


section \<open>Lemmas\<close>

lemma envStr_default: "def \<noteq> '''' \<Longrightarrow> envStr env key def \<noteq> ''''"
  by (simp add: envStr_def)

lemma envStr_unset [simp]: "ce_getenv env key = '''' \<Longrightarrow> envStr env key def = def"
  by (simp add: envStr_def)

lemma envInt_unset [simp]: "ce_getenv env key = '''' \<Longrightarrow> envInt env key def = def"
  by (simp add: envInt_def)

lemma configFromEnv_required [simp]: "cf_LLMProvider (configFromEnv env) \<noteq> ''''" "cf_DatabaseDSN (configFromEnv env) \<noteq> ''''"
  by (simp_all add: configFromEnv_def envStr_default)

lemma configFromEnv_budget [simp]:
  "cf_TokenBudget (configFromEnv env) = envInt env ''TOKEN_BUDGET'' 200000" "cf_HardFloorTokens (configFromEnv env) = envInt env ''HARD_FLOOR_TOKENS'' 1500"
  by (simp_all add: configFromEnv_def)

lemma Load_Inr:
  "Load env = Inr c \<longleftrightarrow> 0 < envInt env ''TOKEN_BUDGET'' 200000 \<and> 0 < envInt env ''HARD_FLOOR_TOKENS'' 1500 \<and>
     c = (if envInt env ''HARD_FLOOR_TOKENS'' 1500 < envInt env ''TOKEN_BUDGET'' 200000 then configFromEnv env
          else (configFromEnv env)\<lparr>cf_TokenBudget := 200000, cf_HardFloorTokens := 1500\<rparr>)"
  by (auto simp: Load_def Config_validate_def)

lemma clampInt_range: "lo \<le> hi \<Longrightarrow> lo \<le> clampInt v lo hi \<and> clampInt v lo hi \<le> hi"
  by (simp add: clampInt_def)

lemma clampFloat_range: "lo \<le> hi \<Longrightarrow> (\<exists>x. clampFloat v lo hi = Finite x \<and> lo \<le> x \<and> x \<le> hi) \<or> (v = NaN \<and> clampFloat v lo hi = NaN)"
  by (cases v) (auto simp: clampFloat_def)

lemma agent_run_Inr:
  "agent_run visit ping env = Inr (profile, app) \<longleftrightarrow>
     (\<exists>cfg. Load env = Inr cfg \<and> ProfileFromEnv visit env = Inr profile \<and> NewApp linkedDrivers ping (appConfigOf env cfg) profile noOptions = Inr app)"
  by (auto simp: agent_run_def split: sum.splits)

section \<open>Properties\<close>

text \<open>
  Only two values of the environment make loading fail, a token budget and a hard floor that are numbers and not positive; a value that cannot be read is replaced by its default.
  What is loaded is within its bounds: the floor is positive and below the budget, the cooldown, the window and the two ratios are clamped; a ratio can be outside its bounds in one
  way only, as \<open>NaN\<close>, which the clamp lets through.
\<close>

theorem loaded_config_is_bounded:
  "case Load env of
     Inl e \<Rightarrow> envInt env ''TOKEN_BUDGET'' 200000 \<le> 0 \<or> envInt env ''HARD_FLOOR_TOKENS'' 1500 \<le> 0
   | Inr c \<Rightarrow> 0 < cf_HardFloorTokens c \<and> cf_HardFloorTokens c < cf_TokenBudget c \<and> cf_LLMProvider c \<noteq> '''' \<and> cf_DatabaseDSN c \<noteq> '''' \<and>
       cf_ConvergenceNudgeCooldown c \<in> {1..20} \<and> cf_ConvergenceWindowSize c \<in> {3..50} \<and>
       (cf_ConvergenceRatioThreshold c \<in> Finite ` {0..1} \<or> cf_ConvergenceRatioThreshold c = NaN) \<and>
       (cf_ContradictionRetrievalProbability c \<in> Finite ` {0..1} \<or> cf_ContradictionRetrievalProbability c = NaN)"
proof (cases "Load env")
  case (Inl e)
  then show ?thesis by (auto simp: Load_def Config_validate_def split: if_splits)
next
  case (Inr c)
  let ?c = "configFromEnv env"
  have same: "cf_LLMProvider c = cf_LLMProvider ?c" "cf_DatabaseDSN c = cf_DatabaseDSN ?c" "cf_ConvergenceNudgeCooldown c = cf_ConvergenceNudgeCooldown ?c"
    "cf_ConvergenceWindowSize c = cf_ConvergenceWindowSize ?c" "cf_ConvergenceRatioThreshold c = cf_ConvergenceRatioThreshold ?c"
    "cf_ContradictionRetrievalProbability c = cf_ContradictionRetrievalProbability ?c" and floor: "0 < cf_HardFloorTokens c" "cf_HardFloorTokens c < cf_TokenBudget c"
    using Inr unfolding Load_Inr by (auto split: if_splits)
  have cooldown: "cf_ConvergenceNudgeCooldown ?c = clampInt (envInt env ''CONVERGENCE_NUDGE_COOLDOWN'' 5) 1 20"
    and window: "cf_ConvergenceWindowSize ?c = clampInt (envInt env ''CONVERGENCE_WINDOW_SIZE'' 10) 3 50"
    and ratio: "\<exists>v. cf_ConvergenceRatioThreshold ?c = clampFloat v 0 1" and probability: "\<exists>v. cf_ContradictionRetrievalProbability ?c = clampFloat v 0 1"
    by (auto simp: configFromEnv_def)
  have clamped: "clampFloat v 0 1 \<in> Finite ` {0..1} \<or> clampFloat v 0 1 = NaN" for v using clampFloat_range [of 0 1 v] by auto
  have "cf_ConvergenceRatioThreshold ?c \<in> Finite ` {0..1} \<or> cf_ConvergenceRatioThreshold ?c = NaN"
    "cf_ContradictionRetrievalProbability ?c \<in> Finite ` {0..1} \<or> cf_ContradictionRetrievalProbability ?c = NaN"
    using ratio probability clamped by metis+
  then show ?thesis using Inr floor clampInt_range [of 1 20] clampInt_range [of 3 50] by (simp add: same cooldown window)
qed

text \<open>
  C40. An agent that starts is configured: its database is a SQLite file that answers, its model has an endpoint and an OpenAI compatible interface, its budget is positive, and its profile is a
  known one.
\<close>

theorem started_agent_is_configured:
  assumes "agent_run visit ping env = Inr (profile, app)"
  shows "profile \<in> set ValidProfiles \<and> envStr env ''LLM_ENDPOINT'' '''' \<noteq> '''' \<and> envStr env ''LLM_PROVIDER'' ''openai'' \<in> {''openai'', ''openai-compat''} \<and>
    (\<exists>file. parseDSN (envStr env ''DATABASE_DSN'' ''sqlite://./agent.db'') = Inr (''sqlite3'', file) \<and> ping ''sqlite3'' file = None) \<and>
    0 < envInt env ''TOKEN_BUDGET'' 200000 \<and> wi_DB (ag_deps app)"
proof -
  obtain cfg where cfg: "Load env = Inr cfg" "ProfileFromEnv visit env = Inr profile" "NewApp linkedDrivers ping (appConfigOf env cfg) profile noOptions = Inr app"
    using assms by (auto simp: agent_run_Inr)
  have fields: "cf_DatabaseDSN cfg = envStr env ''DATABASE_DSN'' ''sqlite://./agent.db''" "cf_LLMEndpoint cfg = envStr env ''LLM_ENDPOINT'' ''''"
    "cf_LLMProvider cfg = envStr env ''LLM_PROVIDER'' ''openai''" and budget: "0 < envInt env ''TOKEN_BUDGET'' 200000"
    using cfg(1) by (auto simp: Load_Inr configFromEnv_def split: if_splits)
  have profile: "profile \<in> set ValidProfiles" using cfg(2) by (auto simp: ProfileFromEnv_def ParseProfile_def ValidProfiles_def split: if_splits)
  have db: "wi_DB (ag_deps app)" using NewApp_Inr(1) [OF cfg(3)] by (rule requires_DB)
  obtain raw where open_: "openDB linkedDrivers ping (appConfigOf env cfg) profile noOptions = Inr (wi_DB (ag_deps app), raw)" using NewApp_Inr(2) [OF cfg(3)] by blast
  have llm: "openLLM (appConfigOf env cfg) noOptions = None" using cfg(3) open_ by (auto simp: NewApp_def split: if_splits option.splits)
  have "NewStore linkedDrivers ping (cf_DatabaseDSN cfg) = Inr ''sqlite3''"
    using open_ db by (auto simp: openDB_def appConfigOf_def noOptions_def NewStore_def linkedDrivers_def split: sum.splits if_splits option.splits)
  then have "\<exists>file. parseDSN (cf_DatabaseDSN cfg) = Inr (''sqlite3'', file) \<and> ping ''sqlite3'' file = None"
    by (auto simp: NewStore_def split: sum.splits if_splits option.splits)
  with profile llm budget db fields show ?thesis by (auto simp: openLLM_def appConfigOf_def noOptions_def split: if_splits)
qed

text \<open>
  One variable is enough to start: in an environment that sets an endpoint for the model and nothing else, and with a database file that opens, the agent starts in the development
  profile.
\<close>

theorem endpoint_is_enough_to_start:
  assumes "ce_getenv env ''LLM_ENDPOINT'' \<noteq> ''''" "\<And>key. key \<noteq> ''LLM_ENDPOINT'' \<Longrightarrow> ce_getenv env key = ''''" "ping ''sqlite3'' ''./agent.db'' = None"
  shows "\<exists>app. agent_run visit ping env = Inr (ProfileDevelopment, app)"
proof -
  have load: "Load env = Inr (configFromEnv env)" using assms(2) by (simp add: Load_Inr)
  let ?cfg = "appConfigOf env (configFromEnv env)"
  have cfg: "cg_DatabaseDSN ?cfg = ''sqlite://./agent.db''" "cg_LLMProvider ?cfg = ''openai''" "cg_LLMEndpoint ?cfg \<noteq> ''''" "cg_SessionTrigger ?cfg = ''heartbeat''"
    using assms(1,2) by (simp_all add: appConfigOf_def configFromEnv_def) (simp add: envStr_def)
  have "ProfileFromEnv visit env = Inr ProfileDevelopment" using assms(2) by (simp add: ProfileFromEnv_def ParseProfile_def)
  moreover have "\<exists>app. NewApp linkedDrivers ping ?cfg ProfileDevelopment noOptions = Inr app"
    using cfg assms(3) by (simp add: NewApp_def openDB_def openLLM_def NewStore_def parseDSN_def trimPrefix_def linkedDrivers_def noOptions_def DriverNameFromDSN_def Validate_def
        requirements_def Let_def)
  ultimately show ?thesis using load by (auto simp: agent_run_Inr)
qed

text \<open>A ratio that is written as \<open>NaN\<close> stays \<open>NaN\<close>.\<close>

theorem nan_passes_the_clamp:
  assumes "ce_getenv env ''CONVERGENCE_RATIO_THRESHOLD'' = ''NaN''" "ce_parseFloat env ''NaN'' = Some NaN" "Load env = Inr c"
  shows "cf_ConvergenceRatioThreshold c = NaN"
  using assms by (auto simp: Load_Inr configFromEnv_def envFloat_def clampFloat_def split: if_splits)

section \<open>Witnesses\<close>

definition endpointEnv :: configEnv where
  "endpointEnv = \<lparr> ce_getenv = (\<lambda>key. if key = ''LLM_ENDPOINT'' then ''http://x'' else ''''), ce_parseFloat = (\<lambda>_. None), ce_parseDuration = (\<lambda>_. None) \<rparr>"

lemma endpointEnv_runs: "isr (agent_run id (\<lambda>_ _. None) endpointEnv)"
  by (simp add: agent_run_def endpointEnv_def Load_def Config_validate_def configFromEnv_def envStr_def envInt_def appConfigOf_def ProfileFromEnv_def ParseProfile_def
      NewApp_def openDB_def openLLM_def NewStore_def parseDSN_def trimPrefix_def linkedDrivers_def noOptions_def DriverNameFromDSN_def Validate_def requirements_def Let_def)

theorem started_agent_is_configured_witness:
  "\<exists>profile app. agent_run id (\<lambda>_ _. None) endpointEnv = Inr (profile, app) \<and> profile \<in> set ValidProfiles"
proof -
  obtain profile app where run: "agent_run id (\<lambda>_ _. None) endpointEnv = Inr (profile, app)"
    using endpointEnv_runs by (cases "agent_run id (\<lambda>_ _. None) endpointEnv") auto
  with started_agent_is_configured [OF run] show ?thesis by blast
qed

theorem endpoint_is_enough_to_start_witness: "\<exists>app. agent_run id (\<lambda>_ _. None) endpointEnv = Inr (ProfileDevelopment, app)"
  by (rule endpoint_is_enough_to_start) (simp_all add: endpointEnv_def)

end
