(* ===== verification/Embeddings.thy ===== *)
theory Embeddings
  imports Prelude
begin

text \<open>
  Embeddings, \<^verbatim>\<open>internal/memory/embeddings.go\<close>: the two providers and the worker that fills in the missing embeddings of tiers 3, 4 and 5.

  A provider's service and the decoding of its answers are arguments, and so are the errors of the database. A slice that may be nil is an \<open>option\<close>. A row is what the worker reads
  and writes of it: identifier, text, embedding (\<open>None\<close> for NULL) and the time by which the rows are ordered; \<open>scan\<close> is an ordering by that time, which SQL leaves open for equal times.
\<close>

section \<open>Providers\<close>

type_synonym 'f vector = "'f list option"

text \<open>An HTTP exchange: the error of the request, or the status and the error or the bytes of the body.\<close>

type_synonym httpExchange = "string \<Rightarrow> (string \<times> string) list \<Rightarrow> string \<Rightarrow> error + int \<times> (error + string)"

record VoyageProvider =
  vp_apiKey :: string
  vp_model :: string
  vp_dimensions :: int
  vp_endpoint :: string

definition NewVoyageProvider :: "string \<Rightarrow> string \<Rightarrow> VoyageProvider" where
  "NewVoyageProvider apiKey model = \<lparr> vp_apiKey = apiKey, vp_model = model, vp_dimensions = 1024, vp_endpoint = ''https://api.voyageai.com/v1/embeddings'' \<rparr>"

record 'f voyageResponse =
  vr_Data :: "'f vector list"
  vr_Error :: "string option"

definition Voyage_Embed :: "httpExchange \<Rightarrow> (string \<Rightarrow> string \<Rightarrow> error + string) \<Rightarrow> (string \<Rightarrow> error + 'f voyageResponse) \<Rightarrow> VoyageProvider \<Rightarrow> string \<Rightarrow> error + 'f vector" where
  "Voyage_Embed post encode decode v txt =
     (case encode (vp_model v) txt of
        Inl e \<Rightarrow> Inl (''voyage: marshalling request: '' @ e)
      | Inr body \<Rightarrow>
          (case post (vp_endpoint v) [(''Content-Type'', ''application/json''), (''Authorization'', ''Bearer '' @ vp_apiKey v)] body of
             Inl e \<Rightarrow> Inl (''voyage: HTTP request: '' @ e)
           | Inr (status, Inl e) \<Rightarrow> Inl (''voyage: reading response: '' @ e)
           | Inr (status, Inr raw) \<Rightarrow>
               if status \<noteq> 200 then Inl (''voyage: HTTP '' @ itoa status @ '': '' @ raw)
               else (case decode raw of
                       Inl e \<Rightarrow> Inl (''voyage: decoding response: '' @ e)
                     | Inr vr \<Rightarrow>
                         (case vr_Error vr of
                            Some msg \<Rightarrow> Inl (''voyage: API error: '' @ msg)
                          | None \<Rightarrow> (case vr_Data vr of [] \<Rightarrow> Inl ''voyage: empty data in response'' | d # _ \<Rightarrow> Inr d)))))"

record NomicProvider =
  np_endpoint :: string
  np_model :: string
  np_dimensions :: int

definition NewNomicProvider :: "string \<Rightarrow> string \<Rightarrow> NomicProvider" where
  "NewNomicProvider endpoint model = \<lparr> np_endpoint = endpoint, np_model = model, np_dimensions = (if model = ''mxbai-embed-large'' then 1024 else 768) \<rparr>"

definition Nomic_Embed :: "httpExchange \<Rightarrow> (string \<Rightarrow> string \<Rightarrow> error + string) \<Rightarrow> (string \<Rightarrow> error + 'f vector \<times> string) \<Rightarrow> NomicProvider \<Rightarrow> string \<Rightarrow> error + 'f vector" where
  "Nomic_Embed post encode decode n txt =
     (case encode (np_model n) txt of
        Inl e \<Rightarrow> Inl (''nomic: marshalling request: '' @ e)
      | Inr body \<Rightarrow>
          (case post (np_endpoint n @ ''/api/embeddings'') [(''Content-Type'', ''application/json'')] body of
             Inl e \<Rightarrow> Inl (''nomic: HTTP request: '' @ e)
           | Inr (status, Inl e) \<Rightarrow> Inl (''nomic: reading response: '' @ e)
           | Inr (status, Inr raw) \<Rightarrow>
               if status \<noteq> 200 then Inl (''nomic: HTTP '' @ itoa status @ '': '' @ raw)
               else (case decode raw of
                       Inl e \<Rightarrow> Inl (''nomic: decoding response: '' @ e)
                     | Inr (embedding, err) \<Rightarrow> if err \<noteq> '''' then Inl (''nomic: API error: '' @ err) else Inr embedding)))"

section \<open>The worker\<close>

record embRow =
  em_id :: string
  em_text :: string
  em_embedding :: "string option"
  em_created :: time

record embDB =
  ed_narratives :: "embRow list"
  ed_reflections :: "embRow list"
  ed_entities :: "embRow list"

record EmbedWorkerConfig =
  ew_BatchSize :: int
  ew_PollInterval :: duration

definition DefaultEmbedWorkerConfig :: EmbedWorkerConfig where
  "DefaultEmbedWorkerConfig = \<lparr> ew_BatchSize = 20, ew_PollInterval = 30 * second \<rparr>"

text \<open>The provider with its state, the JSON encoding of a vector, and the errors of the query of a table and of the update of a row.\<close>

record ('f, 'w) embEnv =
  ee_Embed :: "string \<Rightarrow> 'w \<Rightarrow> (error + 'f vector) \<times> 'w"
  ee_Marshal :: "'f vector \<Rightarrow> error + string"
  ee_scan :: "embRow list \<Rightarrow> embRow list"
  ee_query :: "string \<Rightarrow> 'w \<Rightarrow> error option"
  ee_update :: "string \<Rightarrow> string \<Rightarrow> 'w \<Rightarrow> error option"

definition setEmbedding :: "string \<Rightarrow> string \<Rightarrow> embRow list \<Rightarrow> embRow list" where
  "setEmbedding i vecJSON = map (\<lambda>r. if em_id r = i then r\<lparr>em_embedding := Some vecJSON\<rparr> else r)"

fun embedRows :: "('f, 'w) embEnv \<Rightarrow> string \<Rightarrow> embRow list \<Rightarrow> embRow list \<times> 'w \<Rightarrow> embRow list \<times> 'w" where
  "embedRows env table [] s = s"
| "embedRows env table (item # items) s =
     (case s of (rows, w) \<Rightarrow>
        (case ee_Embed env (em_text item) w of
           (Inl e, w') \<Rightarrow> embedRows env table items (rows, w')
         | (Inr vec, w') \<Rightarrow>
             (case ee_Marshal env vec of
                Inl e \<Rightarrow> embedRows env table items (rows, w')
              | Inr vecJSON \<Rightarrow>
                  embedRows env table items
                    (case ee_update env table (em_id item) w' of Some e \<Rightarrow> rows | None \<Rightarrow> setEmbedding (em_id item) vecJSON rows, w'))))"

definition pendingItems :: "('f, 'w) embEnv \<Rightarrow> nat \<Rightarrow> embRow list \<Rightarrow> embRow list" where
  "pendingItems env batch rows = take batch (ee_scan env (filter (\<lambda>r. em_embedding r = None) rows))"

definition processPending :: "('f, 'w) embEnv \<Rightarrow> string \<Rightarrow> nat \<Rightarrow> embRow list \<times> 'w \<Rightarrow> error option \<times> embRow list \<times> 'w" where
  "processPending env table batch s =
     (case s of (rows, w) \<Rightarrow>
        (case ee_query env table w of
           Some e \<Rightarrow> (Some e, rows, w)
         | None \<Rightarrow> (None, embedRows env table (pendingItems env batch rows) (rows, w))))"

definition processPendingT3 :: "('f, 'w) embEnv \<Rightarrow> nat \<Rightarrow> embDB \<times> 'w \<Rightarrow> error option \<times> embDB \<times> 'w" where
  "processPendingT3 env batch s = (case s of (db, w) \<Rightarrow>
     (case processPending env ''narrative_summaries'' batch (ed_narratives db, w) of (err, rows, w') \<Rightarrow> (err, db\<lparr>ed_narratives := rows\<rparr>, w')))"

definition processPendingT4 :: "('f, 'w) embEnv \<Rightarrow> nat \<Rightarrow> embDB \<times> 'w \<Rightarrow> error option \<times> embDB \<times> 'w" where
  "processPendingT4 env batch s = (case s of (db, w) \<Rightarrow>
     (case processPending env ''reflections'' batch (ed_reflections db, w) of (err, rows, w') \<Rightarrow> (err, db\<lparr>ed_reflections := rows\<rparr>, w')))"

definition processPendingT5 :: "('f, 'w) embEnv \<Rightarrow> nat \<Rightarrow> embDB \<times> 'w \<Rightarrow> error option \<times> embDB \<times> 'w" where
  "processPendingT5 env batch s = (case s of (db, w) \<Rightarrow>
     (case processPending env ''kg_entities'' batch (ed_entities db, w) of (err, rows, w') \<Rightarrow> (err, db\<lparr>ed_entities := rows\<rparr>, w')))"

text \<open>A tick: an error is logged and the next tier is processed.\<close>

definition batchSize :: "EmbedWorkerConfig \<Rightarrow> nat" where
  "batchSize cfg = nat (if ew_BatchSize cfg \<le> 0 then 20 else ew_BatchSize cfg)"

definition workerTick :: "('f, 'w) embEnv \<Rightarrow> EmbedWorkerConfig \<Rightarrow> embDB \<times> 'w \<Rightarrow> embDB \<times> 'w" where
  "workerTick env cfg s =
     (let batch = batchSize cfg
      in snd (processPendingT5 env batch (snd (processPendingT4 env batch (snd (processPendingT3 env batch s))))))"

fun EmbedWorker :: "('f, 'w) embEnv \<Rightarrow> EmbedWorkerConfig \<Rightarrow> nat \<Rightarrow> embDB \<times> 'w \<Rightarrow> embDB \<times> 'w" where
  "EmbedWorker env cfg 0 s = s"
| "EmbedWorker env cfg (Suc ticks) s = EmbedWorker env cfg ticks (workerTick env cfg s)"


section \<open>Lemmas\<close>

text \<open>What embedding changes in a table: only embeddings, and only of the rows that are listed.\<close>

definition onlyEmbeds :: "string set \<Rightarrow> embRow list \<Rightarrow> embRow list \<Rightarrow> bool" where
  "onlyEmbeds ids rows rows' \<longleftrightarrow> list_all2 (\<lambda>r r'. r' = r \<or> (em_id r \<in> ids \<and> (\<exists>v. r' = r\<lparr>em_embedding := Some v\<rparr>))) rows rows'"

lemma onlyEmbeds_refl [simp]: "onlyEmbeds ids rows rows"
  by (simp add: onlyEmbeds_def list_all2_refl)

lemma onlyEmbeds_set: "i \<in> ids \<Longrightarrow> onlyEmbeds ids rows (setEmbedding i v rows)"
  unfolding onlyEmbeds_def setEmbedding_def by (auto simp: list_all2_conv_all_nth)

lemma onlyEmbeds_trans: "onlyEmbeds ids a b \<Longrightarrow> onlyEmbeds ids b c \<Longrightarrow> onlyEmbeds ids a c"
  unfolding onlyEmbeds_def by (erule (1) list_all2_trans [rotated]) auto

lemma onlyEmbeds_mono: "onlyEmbeds A a b \<Longrightarrow> A \<subseteq> B \<Longrightarrow> onlyEmbeds B a b"
  unfolding onlyEmbeds_def by (erule list_all2_mono) auto

text \<open>The provider fails on a text, or on none, whatever its state.\<close>

definition refuses :: "('f, 'w) embEnv \<Rightarrow> string \<Rightarrow> bool" where
  "refuses env txt \<longleftrightarrow> (\<forall>w. isl (fst (ee_Embed env txt w)))"

lemma embedRows_only:
  "onlyEmbeds (em_id ` {item \<in> set items. \<not> refuses env (em_text item)}) rows (fst (embedRows env table items (rows, w)))"
proof (induction items arbitrary: rows w)
  case (Cons item items)
  define ids where "ids = em_id ` {i \<in> set (item # items). \<not> refuses env (em_text i)}"
  have rest: "onlyEmbeds ids rows' (fst (embedRows env table items (rows', w')))" for rows' w'
    using Cons.IH by (rule onlyEmbeds_mono) (auto simp: ids_def)
  have step: "onlyEmbeds ids rows (fst (embedRows env table items (setEmbedding (em_id item) v rows, w')))" if "ee_Embed env (em_text item) w = (Inr vec, w')" for v vec w'
  proof (rule onlyEmbeds_trans [OF onlyEmbeds_set rest])
    have "\<not> refuses env (em_text item)" using that unfolding refuses_def by (metis fst_conv sum.disc(2))
    then show "em_id item \<in> ids" by (auto simp: ids_def)
  qed
  show ?case unfolding ids_def [symmetric] using rest step by (auto split: prod.split sum.split option.split)
qed simp

definition working :: "('f, 'w) embEnv \<Rightarrow> bool" where
  "working env \<longleftrightarrow> (\<forall>txt w. isr (fst (ee_Embed env txt w))) \<and> (\<forall>vec. isr (ee_Marshal env vec)) \<and> (\<forall>t w. ee_query env t w = None) \<and> (\<forall>t i w. ee_update env t i w = None)"

definition ordersByAge :: "('f, 'w) embEnv \<Rightarrow> bool" where
  "ordersByAge env \<longleftrightarrow> (\<forall>rows. mset (ee_scan env rows) = mset rows \<and> sorted (map em_created (ee_scan env rows)))"

definition waits :: "embRow list \<Rightarrow> embRow list" where
  "waits rows = filter (\<lambda>r. em_embedding r = None) rows"

lemma waits_set: "waits (setEmbedding i v rows) = filter (\<lambda>r. em_id r \<noteq> i) (waits rows)"
  by (induction rows) (auto simp: waits_def setEmbedding_def)

lemma embedRows_working:
  assumes "working env"
  shows "waits (fst (embedRows env table items (rows, w))) = filter (\<lambda>r. em_id r \<notin> em_id ` set items) (waits rows)"
proof (induction items arbitrary: rows w)
  case (Cons item items)
  obtain vec w' where e: "ee_Embed env (em_text item) w = (Inr vec, w')"
    using assms unfolding working_def by (metis prod.collapse sum.collapse(2))
  moreover obtain j where "ee_Marshal env vec = Inr j" using assms unfolding working_def by (metis sum.collapse(2))
  moreover have "ee_update env table (em_id item) w' = None" using assms by (simp add: working_def)
  ultimately show ?case by (simp add: Cons.IH waits_set)
qed (simp add: waits_def)

lemma tick_count:
  assumes "working env" "ordersByAge env" "distinct (map em_id rows)"
  shows "length (waits (fst (snd (processPending env table batch (rows, w))))) = length (waits rows) - batch"
proof -
  let ?scan = "ee_scan env (waits rows)"
  have scan: "mset ?scan = mset (waits rows)" using assms(2) by (simp add: ordersByAge_def)
  have "distinct (map em_id (waits rows))" using assms(3) by (simp add: waits_def distinct_map_filter)
  then have dist: "distinct (map em_id ?scan)" using scan by (metis mset_eq_imp_distinct_iff mset_map)
  have items: "pendingItems env batch rows = take batch ?scan" by (simp add: pendingItems_def waits_def)
  have "waits (fst (snd (processPending env table batch (rows, w)))) = filter (\<lambda>r. em_id r \<notin> em_id ` set (take batch ?scan)) (waits rows)"
    using assms(1) embedRows_working [OF assms(1)] by (simp add: processPending_def items working_def)
  also have "mset \<dots> = mset (filter (\<lambda>r. em_id r \<notin> em_id ` set (take batch ?scan)) ?scan)" using scan by (simp add: mset_filter)
  also have "filter (\<lambda>r. em_id r \<notin> em_id ` set (take batch ?scan)) ?scan = drop batch ?scan"
  proof -
    have "filter (\<lambda>r. em_id r \<notin> em_id ` set a) (a @ b) = b" if "distinct (map em_id (a @ b))" for a b
    proof -
      have "filter (\<lambda>r. em_id r \<notin> em_id ` set a) a = []" by (auto simp: filter_empty_conv)
      moreover have "filter (\<lambda>r. em_id r \<notin> em_id ` set a) b = b" using that by (intro filter_True) auto
      ultimately show ?thesis by simp
    qed
    from this [of "take batch ?scan" "drop batch ?scan"] show ?thesis using dist by simp
  qed
  finally have "mset (waits (fst (snd (processPending env table batch (rows, w))))) = mset (drop batch ?scan)" .
  then have "length (waits (fst (snd (processPending env table batch (rows, w))))) = length (drop batch ?scan)" by (rule mset_eq_length)
  with mset_eq_length [OF scan] show ?thesis by simp
qed

text \<open>A row that is not listed with a text the provider accepts stays as it is, place by place.\<close>

lemma processPending_keeps:
  "list_all2 (\<lambda>r r'. em_id r' = em_id r \<and> (em_id r \<notin> em_id ` {item \<in> set (pendingItems env batch rows). \<not> refuses env (em_text item)} \<longrightarrow> r' = r)) rows
     (fst (snd (processPending env table batch (rows, w))))"
proof (cases "ee_query env table w")
  case None
  then show ?thesis using embedRows_only [of "pendingItems env batch rows" env rows table w]
    unfolding onlyEmbeds_def by (auto simp: processPending_def elim!: list_all2_mono)
next
  case (Some e)
  then show ?thesis by (simp add: processPending_def list_all2_refl)
qed

lemma processPending_ids: "map em_id (fst (snd (processPending env table batch (rows, w)))) = map em_id rows"
  using processPending_keeps [of env batch rows table w] by (induction rule: list_all2_induct) simp_all

lemma filter_grows: "list_all2 (\<lambda>x y. P x \<longrightarrow> P y) xs ys \<Longrightarrow> length (filter P xs) \<le> length (filter P ys)"
  by (induction rule: list_all2_induct) auto

text \<open>The rows that hold up a row: older, waiting, and with a text the provider refuses.\<close>

definition blockers :: "('f, 'w) embEnv \<Rightarrow> embRow \<Rightarrow> embRow list \<Rightarrow> embRow list" where
  "blockers env x rows = filter (\<lambda>r. em_embedding r = None \<and> refuses env (em_text r) \<and> em_created r < em_created x) rows"

lemma blocked_not_listed:
  assumes "ordersByAge env" "batch \<le> length (blockers env x rows)"
  shows "x \<notin> set (pendingItems env batch rows)"
proof
  let ?scan = "ee_scan env (waits rows)"
  assume "x \<in> set (pendingItems env batch rows)"
  then have "x \<in> set (take batch ?scan)" by (simp add: pendingItems_def waits_def)
  then obtain ys zs where yz: "take batch ?scan = ys @ x # zs" by (meson split_list)
  then have scan: "?scan = ys @ x # zs @ drop batch ?scan" by (metis append_take_drop_id append.assoc append_Cons)
  have "length ys < batch" using arg_cong [OF yz, of length] by (simp add: min_def split: if_splits)
  have ord: "mset ?scan = mset (waits rows)" "sorted (map em_created ?scan)" using assms(1) by (auto simp: ordersByAge_def)
  have "filter (\<lambda>r. em_created r < em_created x) ?scan = filter (\<lambda>r. em_created r < em_created x) ys"
    using ord(2) by (subst scan, subst (asm) scan) (auto simp: sorted_append filter_empty_conv not_less)
  then have "length (filter (\<lambda>r. em_created r < em_created x) ?scan) < batch"
    using \<open>length ys < batch\<close> by (metis length_filter_le le_less_trans)
  moreover have "length (filter (\<lambda>r. em_created r < em_created x) ?scan) = length (filter (\<lambda>r. em_created r < em_created x) (waits rows))"
    using ord(1) by (metis mset_filter mset_eq_length)
  moreover have "length (blockers env x rows) \<le> length (filter (\<lambda>r. em_created r < em_created x) (waits rows))"
    by (induction rows) (auto simp: blockers_def waits_def)
  ultimately show False using assms(2) by linarith
qed

lemma same_id_same_row: "distinct (map em_id rows) \<Longrightarrow> r \<in> set rows \<Longrightarrow> s \<in> set rows \<Longrightarrow> em_id r = em_id s \<Longrightarrow> r = s"
  by (auto simp: distinct_map dest: inj_onD)

lemma pendingItems_rows: "ordersByAge env \<Longrightarrow> item \<in> set (pendingItems env batch rows) \<Longrightarrow> item \<in> set rows"
proof -
  assume "ordersByAge env" "item \<in> set (pendingItems env batch rows)"
  then have "item \<in> set (ee_scan env (waits rows))" "mset (ee_scan env (waits rows)) = mset (waits rows)"
    by (auto simp: pendingItems_def waits_def ordersByAge_def dest: in_set_takeD)
  then show ?thesis by (metis mem_Collect_eq mset_eq_setD set_filter waits_def)
qed

text \<open>A held up row is still there, and still held up, after a tick.\<close>

lemma processPending_blocked:
  assumes "ordersByAge env" "distinct (map em_id rows)" "x \<in> set rows" "batch \<le> length (blockers env x rows)"
    and "rows' = fst (snd (processPending env table batch (rows, w)))"
  shows "x \<in> set rows' \<and> batch \<le> length (blockers env x rows')"
proof -
  let ?ids = "em_id ` {item \<in> set (pendingItems env batch rows). \<not> refuses env (em_text item)}"
  have stays: "em_id r \<notin> ?ids" if "r \<in> set rows" "r = x \<or> refuses env (em_text r)" for r
    using that same_id_same_row [OF assms(2)] pendingItems_rows [OF assms(1)] blocked_not_listed [OF assms(1,4)] by (auto simp: image_iff) blast+
  have keep: "list_all2 (\<lambda>r r'. em_id r' = em_id r \<and> (em_id r \<notin> ?ids \<longrightarrow> r' = r)) rows rows'"
    unfolding assms(5) by (rule processPending_keeps)
  then have "list_all2 (\<lambda>r r'. r \<in> set rows \<and> (em_id r \<notin> ?ids \<longrightarrow> r' = r)) rows rows'"
    by (auto simp: list_all2_conv_all_nth)
  then have same: "list_all2 (\<lambda>r r'. r = x \<or> refuses env (em_text r) \<longrightarrow> r' = r) rows rows'" by (rule list_all2_mono) (use stays in blast)
  have "x \<in> set rows'" using same assms(3) by (auto simp: list_all2_conv_all_nth in_set_conv_nth)
  moreover have "length (blockers env x rows) \<le> length (blockers env x rows')"
    unfolding blockers_def by (rule filter_grows, rule list_all2_mono [OF same]) auto
  ultimately show ?thesis using assms(4) by linarith
qed

section \<open>The tiers\<close>

text \<open>
  What the three tables have in common: a tick of the worker processes the table, in some state of the provider. The properties of one table are proved once, in a locale, and hold
  for each of them.
\<close>

locale embedded_tier =
  fixes rowsOf :: "embDB \<Rightarrow> embRow list" and table :: string and env :: "('f, 'w) embEnv" and cfg :: EmbedWorkerConfig
  assumes tick: "\<exists>w'. rowsOf (fst (workerTick env cfg (db, w))) = fst (snd (processPending env table (batchSize cfg) (rowsOf db, w')))"
begin

lemma tick_ids: "map em_id (rowsOf (fst (workerTick env cfg s))) = map em_id (rowsOf (fst s))"
  using tick [of "fst s" "snd s"] processPending_ids by (metis prod.collapse)

lemma drains:
  assumes "working env" "ordersByAge env" "distinct (map em_id (rowsOf (fst s)))"
  shows "length (waits (rowsOf (fst (EmbedWorker env cfg n s)))) = length (waits (rowsOf (fst s))) - n * batchSize cfg"
  using assms(3)
proof (induction n arbitrary: s)
  case (Suc n)
  obtain w' where w': "rowsOf (fst (workerTick env cfg s)) = fst (snd (processPending env table (batchSize cfg) (rowsOf (fst s), w')))"
    using tick [of "fst s" "snd s"] by auto
  have "length (waits (rowsOf (fst (workerTick env cfg s)))) = length (waits (rowsOf (fst s))) - batchSize cfg"
    unfolding w' by (rule tick_count [OF assms(1,2) Suc.prems])
  moreover have "distinct (map em_id (rowsOf (fst (workerTick env cfg s))))" using Suc.prems by (simp add: tick_ids)
  ultimately show ?case using Suc.IH [of "workerTick env cfg s"] by (simp add: algebra_simps)
qed simp

lemma starves:
  assumes "ordersByAge env" "distinct (map em_id (rowsOf (fst s)))" "x \<in> set (rowsOf (fst s))" "batchSize cfg \<le> length (blockers env x (rowsOf (fst s)))"
  shows "x \<in> set (rowsOf (fst (EmbedWorker env cfg n s)))"
  using assms(2-4)
proof (induction n arbitrary: s)
  case (Suc n)
  obtain w' where w': "rowsOf (fst (workerTick env cfg s)) = fst (snd (processPending env table (batchSize cfg) (rowsOf (fst s), w')))"
    using tick [of "fst s" "snd s"] by auto
  from processPending_blocked [OF assms(1) Suc.prems w'] Suc.IH [of "workerTick env cfg s"] Suc.prems(1) show ?case by (simp add: tick_ids)
qed simp

lemma worker_ids: "map em_id (rowsOf (fst (EmbedWorker env cfg n s))) = map em_id (rowsOf (fst s))"
  by (induction n arbitrary: s) (simp_all add: tick_ids)

end

lemma workerTick_rows:
  "\<exists>w'. ed_narratives (fst (workerTick env cfg (db, w))) = fst (snd (processPending env ''narrative_summaries'' (batchSize cfg) (ed_narratives db, w')))"
  "\<exists>w'. ed_reflections (fst (workerTick env cfg (db, w))) = fst (snd (processPending env ''reflections'' (batchSize cfg) (ed_reflections db, w')))"
  "\<exists>w'. ed_entities (fst (workerTick env cfg (db, w))) = fst (snd (processPending env ''kg_entities'' (batchSize cfg) (ed_entities db, w')))"
proof -
  obtain e3 r3 w3 where t3: "processPending env ''narrative_summaries'' (batchSize cfg) (ed_narratives db, w) = (e3, r3, w3)" by (metis prod_cases3)
  obtain e4 r4 w4 where t4: "processPending env ''reflections'' (batchSize cfg) (ed_reflections db, w3) = (e4, r4, w4)" by (metis prod_cases3)
  obtain e5 r5 w5 where t5: "processPending env ''kg_entities'' (batchSize cfg) (ed_entities db, w4) = (e5, r5, w5)" by (metis prod_cases3)
  have "workerTick env cfg (db, w) = (db\<lparr>ed_narratives := r3, ed_reflections := r4, ed_entities := r5\<rparr>, w5)"
    by (simp add: workerTick_def processPendingT3_def processPendingT4_def processPendingT5_def t3 t4 t5 Let_def)
  then show "\<exists>w'. ed_narratives (fst (workerTick env cfg (db, w))) = fst (snd (processPending env ''narrative_summaries'' (batchSize cfg) (ed_narratives db, w')))"
    "\<exists>w'. ed_reflections (fst (workerTick env cfg (db, w))) = fst (snd (processPending env ''reflections'' (batchSize cfg) (ed_reflections db, w')))"
    "\<exists>w'. ed_entities (fst (workerTick env cfg (db, w))) = fst (snd (processPending env ''kg_entities'' (batchSize cfg) (ed_entities db, w')))"
    using t3 t4 t5 by (auto intro: exI [of _ w] exI [of _ w3] exI [of _ w4])
qed

interpretation t3: embedded_tier ed_narratives "''narrative_summaries''" env cfg for env :: "('f, 'w) embEnv" and cfg
  by unfold_locales (rule workerTick_rows(1))

interpretation t4: embedded_tier ed_reflections "''reflections''" env cfg for env :: "('f, 'w) embEnv" and cfg
  by unfold_locales (rule workerTick_rows(2))

interpretation t5: embedded_tier ed_entities "''kg_entities''" env cfg for env :: "('f, 'w) embEnv" and cfg
  by unfold_locales (rule workerTick_rows(3))

section \<open>Properties\<close>

text \<open>
  C38. Every memory is embedded in the end: with a provider and a database that answer, each tick embeds a batch of every tier, so that after enough ticks for the waiting rows no row of the three
  tiers is without an embedding.
\<close>

theorem every_memory_is_embedded:
  assumes "working env" "ordersByAge env" "distinct (map em_id (ed_narratives db))" "distinct (map em_id (ed_reflections db))" "distinct (map em_id (ed_entities db))"
    and "length (waits (ed_narratives db)) \<le> n * batchSize cfg" "length (waits (ed_reflections db)) \<le> n * batchSize cfg" "length (waits (ed_entities db)) \<le> n * batchSize cfg"
  shows "let db' = fst (EmbedWorker env cfg n (db, w)) in waits (ed_narratives db') = [] \<and> waits (ed_reflections db') = [] \<and> waits (ed_entities db') = []"
  using t3.drains [of env "(db, w)" cfg n] t4.drains [of env "(db, w)" cfg n] t5.drains [of env "(db, w)" cfg n] assms
  by (simp add: Let_def)

text \<open>
  Texts that the provider refuses hold up everything after them: when as many rows as a batch has are older than a narrative, wait, and have a text that the provider always refuses, the narrative is never
  embedded, however long the worker runs and although the provider would accept it.
\<close>

theorem refused_rows_starve_the_rest:
  assumes "ordersByAge env" "distinct (map em_id (ed_narratives db))" "x \<in> set (ed_narratives db)" "em_embedding x = None"
    and "batchSize cfg \<le> length (blockers env x (ed_narratives db))"
  shows "\<exists>x' \<in> set (ed_narratives (fst (EmbedWorker env cfg n (db, w)))). em_id x' = em_id x \<and> em_embedding x' = None"
  using t3.starves [of env "(db, w)" x cfg n] assms by auto

text \<open>
  A vector that the service leaves out is stored as the text \<open>null\<close>, after which the row counts as embedded.
\<close>

theorem missing_vector_counts_as_embedded:
  assumes "ee_Embed env (em_text r) w = (Inr None, w')" "ee_Marshal env None = Inr ''null''" "ee_update env table (em_id r) w' = None"
  shows "waits (fst (embedRows env table [r] ([r], w))) = [] \<and> map em_embedding (fst (embedRows env table [r] ([r], w))) = [Some ''null'']"
  using assms by (simp add: setEmbedding_def waits_def)

section \<open>Witnesses\<close>

definition row :: "string \<Rightarrow> time \<Rightarrow> embRow" where
  "row i t = \<lparr> em_id = i, em_text = i, em_embedding = None, em_created = t \<rparr>"

text \<open>A provider that refuses the text \<open>bad\<close>, or none.\<close>

definition picky :: "string set \<Rightarrow> (unit, unit) embEnv" where
  "picky bad = \<lparr> ee_Embed = (\<lambda>txt w. (if txt \<in> bad then Inl ''too long'' else Inr (Some [()]), w)), ee_Marshal = (\<lambda>v. Inr ''[0]''), ee_scan = sort_key em_created,
     ee_query = (\<lambda>_ _. None), ee_update = (\<lambda>_ _ _. None) \<rparr>"

lemma picky_orders: "ordersByAge (picky bad)"
  by (simp add: ordersByAge_def picky_def)

lemma picky_working: "working (picky {})"
  by (simp add: working_def picky_def)

lemma picky_refuses: "refuses (picky bad) txt \<longleftrightarrow> txt \<in> bad"
  by (simp add: refuses_def picky_def)

theorem every_memory_is_embedded_witness:
  "waits (ed_narratives (fst (EmbedWorker (picky {}) \<lparr> ew_BatchSize = 1, ew_PollInterval = 1 \<rparr> 2
     (\<lparr> ed_narratives = [row ''a'' 1, row ''b'' 2], ed_reflections = [], ed_entities = [] \<rparr>, ())))) = []"
  using every_memory_is_embedded [of "picky {}" "\<lparr> ed_narratives = [row ''a'' 1, row ''b'' 2], ed_reflections = [], ed_entities = [] \<rparr>" 2 "\<lparr> ew_BatchSize = 1, ew_PollInterval = 1 \<rparr>" "()"]
  by (simp add: picky_orders picky_working row_def waits_def batchSize_def Let_def)

theorem refused_rows_starve_the_rest_witness:
  "\<exists>x' \<in> set (ed_narratives (fst (EmbedWorker (picky {''bad''}) \<lparr> ew_BatchSize = 1, ew_PollInterval = 1 \<rparr> 1000
     (\<lparr> ed_narratives = [row ''bad'' 1, row ''good'' 2], ed_reflections = [], ed_entities = [] \<rparr>, ())))). em_id x' = ''good'' \<and> em_embedding x' = None"
  using refused_rows_starve_the_rest [of "picky {''bad''}" "\<lparr> ed_narratives = [row ''bad'' 1, row ''good'' 2], ed_reflections = [], ed_entities = [] \<rparr>" "row ''good'' 2"
      "\<lparr> ew_BatchSize = 1, ew_PollInterval = 1 \<rparr>" 1000 "()"]
  by (simp add: picky_orders row_def batchSize_def blockers_def picky_refuses)

end
