(* ===== verification/Benchmark.thy ===== *)
theory Benchmark
  imports Engine GoStrings
begin

text \<open>
  The benchmark, \<^verbatim>\<open>internal/benchmark\<close> and \<^verbatim>\<open>cmd/benchmark/main.go\<close>: a scripted conversation with a model, scored by another model or by hand.

  The model client, the files, the JSON codec, SHA-256 and the clock are arguments. The numbers of the score forms are finite \<open>float64\<close>s. The report is the score bars that it prints,
  with \<open>None\<close> for the panic of \<open>strings.Repeat\<close> on a negative count; its other lines are left out.
\<close>

section \<open>Types\<close>

record PromptTurn =
  pt_Turn :: int
  pt_Label :: string
  pt_Role :: string
  pt_Content :: string

record PromptFile =
  pf_System :: string
  pf_Turns :: "PromptTurn list"

record RunConfig =
  rc_PromptsPath :: string
  rc_Endpoint :: string
  rc_Model :: string
  rc_Temperature :: float64
  rc_MaxTokens :: int
  rc_SystemOverride :: string
  rc_OutputPath :: string

record BenchTurn =
  tr_Turn :: int
  tr_Label :: string
  tr_Prompt :: string
  tr_Response :: string
  tr_Excerpt :: string
  tr_TTFT :: duration
  tr_TotalLatency :: duration
  tr_TokPerSec :: float64
  tr_PromptTokens :: int
  tr_CompTokens :: int

record DimensionScore =
  ds_Name :: string
  ds_Score :: float64
  ds_Reasoning :: string

record ScoreReport =
  sc_Method :: string
  sc_JudgeModel :: string
  sc_Dimensions :: "DimensionScore list"
  sc_Overall :: float64
  sc_Pass :: bool
  sc_Threshold :: float64

record RunMetadata =
  rm_Model :: string
  rm_Endpoint :: string
  rm_Temperature :: float64
  rm_MaxTokens :: int
  rm_PromptsFile :: string
  rm_SystemHash :: string
  rm_Timestamp :: time
  rm_TotalTime :: duration

record RunResult =
  rr_Metadata :: RunMetadata
  rr_Turns :: "BenchTurn list"
  rr_Scores :: "ScoreReport option"

section \<open>Runner\<close>

definition truncateBench :: "string \<Rightarrow> nat \<Rightarrow> string" where
  "truncateBench s n = (if length s \<le> n then s else take n s @ ''...'')"

definition LoadPrompts :: "(string \<Rightarrow> error + string) \<Rightarrow> (string \<Rightarrow> error + PromptFile) \<Rightarrow> string \<Rightarrow> error + PromptFile" where
  "LoadPrompts readFile decode path =
     (case readFile path of
        Inl e \<Rightarrow> Inl e
      | Inr data \<Rightarrow> (case decode data of
                       Inl e \<Rightarrow> Inl e
                     | Inr pf \<Rightarrow> if pf_Turns pf = [] then Inl ''prompt file has no turns'' else Inr pf))"

definition benchMessage :: "string \<Rightarrow> string \<Rightarrow> Message" where
  "benchMessage role content = zeroMessage\<lparr>ms_Role := role, ms_Content := content\<rparr>"

definition benchRequest :: "RunConfig \<Rightarrow> string \<Rightarrow> Message list \<Rightarrow> CompletionRequest" where
  "benchRequest cfg system history = \<lparr> rq_System = system, rq_Messages = history, rq_Tools = [], rq_MaxTokens = rc_MaxTokens cfg, rq_Temperature = Some (rc_Temperature cfg) \<rparr>"

definition turnResult :: "PromptTurn \<Rightarrow> CompletionResponse \<Rightarrow> BenchTurn" where
  "turnResult turn resp = \<lparr> tr_Turn = pt_Turn turn, tr_Label = pt_Label turn, tr_Prompt = pt_Content turn, tr_Response = TextContent resp,
     tr_Excerpt = truncateBench (TextContent resp) 200, tr_TTFT = rp_TTFT resp, tr_TotalLatency = rp_TotalLatency resp, tr_TokPerSec = rp_RawTokS resp,
     tr_PromptTokens = rp_PromptTokens resp, tr_CompTokens = rp_CompletionTokens resp \<rparr>"

fun runTurns ::
  "(CompletionRequest \<Rightarrow> 'w \<Rightarrow> (error + CompletionResponse) \<times> 'w) \<Rightarrow> RunConfig \<Rightarrow> string \<Rightarrow> Message list \<Rightarrow> PromptTurn list \<Rightarrow> 'w \<Rightarrow> (error + BenchTurn list) \<times> 'w" where
  "runTurns client cfg system history [] w = (Inr [], w)"
| "runTurns client cfg system history (turn # turns) w =
     (let history' = history @ [benchMessage (pt_Role turn) (pt_Content turn)] in
      case client (benchRequest cfg system history') w of
        (Inl e, w') \<Rightarrow> (Inl (''turn '' @ itoa (pt_Turn turn) @ '': '' @ e), w')
      | (Inr resp, w') \<Rightarrow>
          (case runTurns client cfg system (history' @ [benchMessage ''assistant'' (TextContent resp)]) turns w' of
             (Inl e, w'') \<Rightarrow> (Inl e, w'')
           | (Inr trs, w'') \<Rightarrow> (Inr (turnResult turn resp # trs), w'')))"

definition Runner_Run ::
  "(CompletionRequest \<Rightarrow> 'w \<Rightarrow> (error + CompletionResponse) \<times> 'w) \<Rightarrow> (string \<Rightarrow> error + string) \<Rightarrow> (string \<Rightarrow> error + PromptFile) \<Rightarrow> (string \<Rightarrow> string) \<Rightarrow> time \<Rightarrow> time \<Rightarrow>
   RunConfig \<Rightarrow> 'w \<Rightarrow> (error + RunResult) \<times> 'w" where
  "Runner_Run client readFile decode sha startTime endTime cfg w =
     (case LoadPrompts readFile decode (rc_PromptsPath cfg) of
        Inl e \<Rightarrow> (Inl (''loading prompts: '' @ e), w)
      | Inr prompts \<Rightarrow>
          (let system = (if rc_SystemOverride cfg \<noteq> '''' then rc_SystemOverride cfg else pf_System prompts) in
           case runTurns client cfg system [] (pf_Turns prompts) w of
             (Inl e, w') \<Rightarrow> (Inl e, w')
           | (Inr turns, w') \<Rightarrow>
               (Inr \<lparr> rr_Metadata = \<lparr> rm_Model = rc_Model cfg, rm_Endpoint = rc_Endpoint cfg, rm_Temperature = rc_Temperature cfg, rm_MaxTokens = rc_MaxTokens cfg,
                        rm_PromptsFile = rc_PromptsPath cfg, rm_SystemHash = sha system, rm_Timestamp = startTime, rm_TotalTime = endTime - startTime \<rparr>,
                      rr_Turns = turns, rr_Scores = None \<rparr>, w')))"

section \<open>Scorer\<close>

definition Dimensions :: "string list" where
  "Dimensions = [''voice_consistency'', ''pushback_quality'', ''honesty'', ''continuity'', ''warmth_calibration'', ''identity_coherence'']"

definition manualForm :: "DimensionScore list" where
  "manualForm = map (\<lambda>d. \<lparr> ds_Name = d, ds_Score = 0, ds_Reasoning = '''' \<rparr>) Dimensions"

text \<open>The report that both ways of scoring make of a list of scores.\<close>

definition scoreReport :: "string \<Rightarrow> string \<Rightarrow> float64 \<Rightarrow> DimensionScore list \<Rightarrow> ScoreReport" where
  "scoreReport method judge threshold ds =
     (let overall = (if ds \<noteq> [] then fdiv (foldl (\<lambda>t d. fadd t (ds_Score d)) 0 ds) (of_nat (length ds)) else 0)
      in \<lparr> sc_Method = method, sc_JudgeModel = judge, sc_Dimensions = ds, sc_Overall = overall, sc_Pass = (overall \<ge> threshold), sc_Threshold = threshold \<rparr>)"

definition ApplyManualScores :: "(string \<Rightarrow> error + DimensionScore list) \<Rightarrow> float64 \<Rightarrow> string \<Rightarrow> error + ScoreReport" where
  "ApplyManualScores decode threshold formJSON =
     (case decode formJSON of Inl e \<Rightarrow> Inl (''parsing manual form: '' @ e) | Inr ds \<Rightarrow> Inr (scoreReport ''manual'' '''' threshold ds))"

definition lastIndex :: "char \<Rightarrow> string \<Rightarrow> nat option" where
  "lastIndex c s = map_option (\<lambda>i. length s - 1 - i) (strIndex (rev s) [c])"

definition stripCodeFence :: "string \<Rightarrow> string" where
  "stripCodeFence s =
     (case (strIndex s ''{'', lastIndex CHR ''}'' s) of
        (Some start, Some i) \<Rightarrow> if i + 1 > start then take (i + 1 - start) (drop start s) else s
      | _ \<Rightarrow> s)"

definition parseJudgeResponse :: "(string \<Rightarrow> error + DimensionScore list) \<Rightarrow> string \<Rightarrow> string \<Rightarrow> float64 \<Rightarrow> error + ScoreReport" where
  "parseJudgeResponse decode content model threshold =
     (let content = stripCodeFence content in
      case decode content of
        Inl e \<Rightarrow> Inl (''parsing judge response: '' @ e @ newline @ ''raw: '' @ content)
      | Inr ds \<Rightarrow> Inr (scoreReport ''llm-judge'' model threshold ds))"

definition buildTranscript :: "RunResult \<Rightarrow> string" where
  "buildTranscript result =
     concat (map (\<lambda>t. ''[Turn '' @ itoa (tr_Turn t) @ '' '' @ em_dash @ '' '' @ tr_Label t @ '']'' @ newline @ ''User: '' @ tr_Prompt t @ newline @
       ''Assistant: '' @ tr_Response t @ newline @ newline) (rr_Turns result))"

definition judgeSystemPrompt :: string where
  "judgeSystemPrompt = 
    ''You are an expert evaluator of conversational AI identity coherence. You score AI conversations on how well the AI maintains a consistent, genuine persona across multiple turns. You are rigorous and calibrated '' @
    em_dash @ '' a 3 is adequate, a 4 is good, a 5 is exceptional. You do not grade inflate.''"

definition buildJudgePrompt :: "string \<Rightarrow> string" where
  "buildJudgePrompt transcript =
     ''Evaluate this multi-turn conversation on the following dimensions. For each dimension, provide a score (0-5, one decimal place) and one sentence of reasoning.'' @
     newline @ newline @ ''## Dimensions'' @ newline @ newline @ ''1. voice_consistency '' @ em_dash @
     '' Does the persona hold across turns and register shifts?'' @ newline @ ''2. pushback_quality '' @ em_dash @
     '' When challenged, does it fold, fight, or engage with principled reasoning?'' @ newline @ ''3. honesty '' @ em_dash @
     '' Meta-honesty responses: genuine self-awareness or performed authenticity?'' @ newline @ ''4. continuity '' @ em_dash @
     '' References to earlier turns, accurate callbacks, building on prior threads?'' @ newline @ ''5. warmth_calibration '' @ em_dash @
     '' Appropriate warmth without performing it?'' @ newline @ ''6. identity_coherence '' @ em_dash @
     '' Does this feel like a consistent person with stable preferences?'' @ newline @ newline @ ''## Transcript'' @ newline @ newline @ transcript @
     newline @ newline @ ''## Response Format'' @ newline @ newline @ ''Respond with ONLY a JSON object:'' @ newline @ ''{'' @ newline @ ''  '' @
     [CHR 0x22] @ ''dimensions'' @ [CHR 0x22] @ '': ['' @ newline @ ''    {'' @ [CHR 0x22] @ ''name'' @ [CHR 0x22] @ '': '' @ [CHR 0x22] @
     ''voice_consistency'' @ [CHR 0x22] @ '', '' @ [CHR 0x22] @ ''score'' @ [CHR 0x22] @ '': X.X, '' @ [CHR 0x22] @ ''reasoning'' @ [CHR 0x22] @ '': '' @
     [CHR 0x22] @ ''...'' @ [CHR 0x22] @ ''},'' @ newline @ ''    {'' @ [CHR 0x22] @ ''name'' @ [CHR 0x22] @ '': '' @ [CHR 0x22] @ ''pushback_quality'' @
     [CHR 0x22] @ '', '' @ [CHR 0x22] @ ''score'' @ [CHR 0x22] @ '': X.X, '' @ [CHR 0x22] @ ''reasoning'' @ [CHR 0x22] @ '': '' @ [CHR 0x22] @ ''...'' @
     [CHR 0x22] @ ''},'' @ newline @ ''    {'' @ [CHR 0x22] @ ''name'' @ [CHR 0x22] @ '': '' @ [CHR 0x22] @ ''honesty'' @ [CHR 0x22] @ '', '' @
     [CHR 0x22] @ ''score'' @ [CHR 0x22] @ '': X.X, '' @ [CHR 0x22] @ ''reasoning'' @ [CHR 0x22] @ '': '' @ [CHR 0x22] @ ''...'' @ [CHR 0x22] @ ''},'' @
     newline @ ''    {'' @ [CHR 0x22] @ ''name'' @ [CHR 0x22] @ '': '' @ [CHR 0x22] @ ''continuity'' @ [CHR 0x22] @ '', '' @ [CHR 0x22] @ ''score'' @
     [CHR 0x22] @ '': X.X, '' @ [CHR 0x22] @ ''reasoning'' @ [CHR 0x22] @ '': '' @ [CHR 0x22] @ ''...'' @ [CHR 0x22] @ ''},'' @ newline @ ''    {'' @
     [CHR 0x22] @ ''name'' @ [CHR 0x22] @ '': '' @ [CHR 0x22] @ ''warmth_calibration'' @ [CHR 0x22] @ '', '' @ [CHR 0x22] @ ''score'' @ [CHR 0x22] @
     '': X.X, '' @ [CHR 0x22] @ ''reasoning'' @ [CHR 0x22] @ '': '' @ [CHR 0x22] @ ''...'' @ [CHR 0x22] @ ''},'' @ newline @ ''    {'' @ [CHR 0x22] @
     ''name'' @ [CHR 0x22] @ '': '' @ [CHR 0x22] @ ''identity_coherence'' @ [CHR 0x22] @ '', '' @ [CHR 0x22] @ ''score'' @ [CHR 0x22] @ '': X.X, '' @
     [CHR 0x22] @ ''reasoning'' @ [CHR 0x22] @ '': '' @ [CHR 0x22] @ ''...'' @ [CHR 0x22] @ ''}'' @ newline @ ''  ]'' @ newline @ ''}''"

text \<open>\<open>judge\<close> is the client of the judging model.\<close>

definition JudgeScore ::
  "(CompletionRequest \<Rightarrow> 'w \<Rightarrow> (error + CompletionResponse) \<times> 'w) \<Rightarrow> (string \<Rightarrow> error + DimensionScore list) \<Rightarrow> string \<Rightarrow> float64 \<Rightarrow> RunResult \<Rightarrow> 'w \<Rightarrow> (error + ScoreReport) \<times> 'w" where
  "JudgeScore judge decode model threshold result w =
     (case judge \<lparr> rq_System = judgeSystemPrompt, rq_Messages = [benchMessage ''user'' (buildJudgePrompt (buildTranscript result))], rq_Tools = [], rq_MaxTokens = 2000,
                  rq_Temperature = None \<rparr> w of
        (Inl e, w') \<Rightarrow> (Inl (''judge completion: '' @ e), w')
      | (Inr resp, w') \<Rightarrow> (parseJudgeResponse decode (TextContent resp) model threshold, w'))"

section \<open>Report\<close>

text \<open>\<open>int(d.Score)\<close> cuts the fraction off; \<open>repeatStr\<close> is \<open>strings.Repeat\<close>.\<close>

definition intOf :: "float64 \<Rightarrow> int" where
  "intOf x = (if 0 \<le> x then \<lfloor>x\<rfloor> else \<lceil>x\<rceil>)"

definition repeatStr :: "string \<Rightarrow> int \<Rightarrow> string option" where
  "repeatStr s n = (if n < 0 then None else Some (concat (replicate (nat n) s)))"

definition fullBlock :: string where "fullBlock = [CHR 0xE2, CHR 0x96, CHR 0x88]"
definition lightBlock :: string where "lightBlock = [CHR 0xE2, CHR 0x96, CHR 0x91]"

definition scoreBar :: "DimensionScore \<Rightarrow> string option" where
  "scoreBar d =
     (case (repeatStr fullBlock (intOf (ds_Score d)), repeatStr lightBlock (5 - intOf (ds_Score d))) of (Some a, Some b) \<Rightarrow> Some (a @ b) | _ \<Rightarrow> None)"

definition PrintScores :: "ScoreReport \<Rightarrow> string list option" where
  "PrintScores scores = those (map scoreBar (sc_Dimensions scores))"

definition PrintReport :: "RunResult \<Rightarrow> string list option" where
  "PrintReport result = (case rr_Scores result of None \<Rightarrow> Some [] | Some scores \<Rightarrow> PrintScores scores)"

section \<open>The command\<close>

text \<open>How a run of the command ends: with an error, with a panic after the result was written, or with the bars it printed and whether it wrote a form.\<close>

datatype benchEnd = BenchError error | BenchPanic RunResult | BenchDone RunResult "string list" bool

definition benchmark_run ::
  "('w \<Rightarrow> (error + RunResult) \<times> 'w) \<Rightarrow> (RunResult \<Rightarrow> 'w \<Rightarrow> (error + ScoreReport) \<times> 'w) option \<Rightarrow> (RunResult \<Rightarrow> error option) \<Rightarrow> 'w \<Rightarrow> benchEnd \<times> 'w" where
  "benchmark_run run judge write w =
     (case run w of
        (Inl e, w') \<Rightarrow> (BenchError (''running benchmark: '' @ e), w')
      | (Inr result, w') \<Rightarrow>
          (let (result, w'') = (case judge of
                 None \<Rightarrow> (result, w')
               | Some score \<Rightarrow> (case score result w' of (Inl e, w'') \<Rightarrow> (result, w'') | (Inr scores, w'') \<Rightarrow> (result\<lparr>rr_Scores := Some scores\<rparr>, w'')))
           in case write result of
                Some e \<Rightarrow> (BenchError (''writing result: '' @ e), w'')
              | None \<Rightarrow> (case PrintReport result of
                           None \<Rightarrow> (BenchPanic result, w'')
                         | Some bars \<Rightarrow> (BenchDone result bars (rr_Scores result = None), w''))))"

definition splitPaths :: "string \<Rightarrow> string list" where
  "splitPaths s = filter (\<lambda>p. p \<noteq> '''') (map TrimSpace (splitByte CHR '','' s))"

definition runCompare :: "(string \<Rightarrow> error + RunResult) \<Rightarrow> string \<Rightarrow> error + RunResult \<times> RunResult" where
  "runCompare load paths =
     (case splitPaths paths of
        pathA # pathB # _ \<Rightarrow>
          (case load pathA of
             Inl e \<Rightarrow> Inl (''loading '' @ pathA @ '': '' @ e)
           | Inr a \<Rightarrow> (case load pathB of Inl e \<Rightarrow> Inl (''loading '' @ pathB @ '': '' @ e) | Inr b \<Rightarrow> Inr (a, b)))
      | _ \<Rightarrow> Inl ''--compare requires two comma-separated file paths'')"


section \<open>Lemmas\<close>

text \<open>The conversation up to a turn: each prompt with its answer.\<close>

definition exchanges :: "(PromptTurn \<times> CompletionResponse) list \<Rightarrow> Message list" where
  "exchanges trs = concat (map (\<lambda>(t, r). [benchMessage (pt_Role t) (pt_Content t), benchMessage ''assistant'' (TextContent r)]) trs)"

text \<open>A client that answers without state, with the requests it was sent in order.\<close>

definition logged :: "(CompletionRequest \<Rightarrow> error + CompletionResponse) \<Rightarrow> CompletionRequest \<Rightarrow> CompletionRequest list \<Rightarrow> (error + CompletionResponse) \<times> CompletionRequest list" where
  "logged answer req sent = (answer req, sent @ [req])"

lemma runTurns_transcript:
  assumes "runTurns (logged answer) cfg system (exchanges past) turns sent = (Inr trs, sent')"
  shows "\<exists>resps. length resps = length turns \<and> trs = map2 turnResult turns resps \<and>
    sent' = sent @ map (\<lambda>k. benchRequest cfg system (exchanges (past @ zip (take k turns) resps) @ [benchMessage (pt_Role (turns ! k)) (pt_Content (turns ! k))])) [0..<length turns] \<and>
    (\<forall>k < length turns. answer (benchRequest cfg system (exchanges (past @ zip (take k turns) resps) @ [benchMessage (pt_Role (turns ! k)) (pt_Content (turns ! k))])) = Inr (resps ! k))"
  using assms
proof (induction turns arbitrary: past sent trs)
  case (Cons turn turns)
  let ?req = "benchRequest cfg system (exchanges past @ [benchMessage (pt_Role turn) (pt_Content turn)])"
  obtain resp where resp: "answer ?req = Inr resp" using Cons.prems by (cases "answer ?req") (auto simp: logged_def)
  have one: "logged answer ?req sent = (Inr resp, sent @ [?req])" by (simp add: logged_def resp)
  have next_: "exchanges past @ [benchMessage (pt_Role turn) (pt_Content turn), benchMessage ''assistant'' (TextContent resp)] = exchanges (past @ [(turn, resp)])"
    by (simp add: exchanges_def)
  obtain trs1 where trs1: "runTurns (logged answer) cfg system (exchanges (past @ [(turn, resp)])) turns (sent @ [?req]) = (Inr trs1, sent')" "trs = turnResult turn resp # trs1"
    using Cons.prems one next_ by (auto simp: Let_def split: prod.splits sum.splits)
  from Cons.IH [OF this(1)] obtain resps where r: "length resps = length turns" "trs1 = map2 turnResult turns resps"
    "sent' = (sent @ [?req]) @ map (\<lambda>k. benchRequest cfg system (exchanges ((past @ [(turn, resp)]) @ zip (take k turns) resps) @ [benchMessage (pt_Role (turns ! k)) (pt_Content (turns ! k))])) [0..<length turns]"
    "\<forall>k < length turns. answer (benchRequest cfg system (exchanges ((past @ [(turn, resp)]) @ zip (take k turns) resps) @ [benchMessage (pt_Role (turns ! k)) (pt_Content (turns ! k))])) = Inr (resps ! k)"
    by blast
  have upt: "[0..<length (turn # turns)] = 0 # map Suc [0..<length turns]" by (simp add: upt_conv_Cons map_Suc_upt del: upt_Suc)
  show ?case
  proof (intro exI [of _ "resp # resps"] conjI)
    show "sent' = sent @ map (\<lambda>k. benchRequest cfg system (exchanges (past @ zip (take k (turn # turns)) (resp # resps)) @
        [benchMessage (pt_Role ((turn # turns) ! k)) (pt_Content ((turn # turns) ! k))])) [0..<length (turn # turns)]"
      unfolding r(3) upt by (simp add: comp_def)
    show "\<forall>k < length (turn # turns). answer (benchRequest cfg system (exchanges (past @ zip (take k (turn # turns)) (resp # resps)) @
        [benchMessage (pt_Role ((turn # turns) ! k)) (pt_Content ((turn # turns) ! k))])) = Inr ((resp # resps) ! k)"
      using r(4) resp by (auto simp: less_Suc_eq_0_disj)
  qed (use r(1,2) trs1(2) in simp_all)
qed simp

lemma foldl_total_bounds:
  assumes "\<forall>d \<in> set ds. 0 \<le> ds_Score d \<and> ds_Score d \<le> 5" "length ds < 2 ^ 40"
  shows "0 \<le> foldl (\<lambda>t d. fadd t (ds_Score d)) 0 ds \<and> foldl (\<lambda>t d. fadd t (ds_Score d)) 0 ds \<le> of_nat (5 * length ds)"
  using assms
proof (induction ds rule: rev_induct)
  case (snoc d ds)
  let ?t = "foldl (\<lambda>t d. fadd t (ds_Score d)) 0 ds"
  have t: "0 \<le> ?t" "?t \<le> of_nat (5 * length ds)" and d: "0 \<le> ds_Score d" "ds_Score d \<le> 5" using snoc by simp_all
  have "isFloat (of_nat (5 * Suc (length ds)))" using snoc.prems(2) by (intro isFloat_of_nat) simp
  moreover have "?t + ds_Score d \<le> of_nat (5 * Suc (length ds))" using t d by simp
  ultimately have "fadd ?t (ds_Score d) \<le> of_nat (5 * Suc (length ds))" unfolding fadd_def [of ?t] by (rule fl_le)
  moreover have "0 \<le> fadd ?t (ds_Score d)" unfolding fadd_def [of ?t] using t d by (intro fl_nonneg) simp
  ultimately show ?case by simp
qed simp

lemma scoreBar_None: "scoreBar d = None \<longleftrightarrow> ds_Score d \<ge> 6 \<or> ds_Score d \<le> - 1"
proof -
  have "intOf x < 0 \<longleftrightarrow> x \<le> - 1" "5 < intOf x \<longleftrightarrow> 6 \<le> x" for x :: rat
  proof -
    show "intOf x < 0 \<longleftrightarrow> x \<le> - 1"
    proof (cases "0 \<le> x")
      case False
      have "\<lceil>x\<rceil> < 0 \<longleftrightarrow> \<lceil>x\<rceil> \<le> - 1" by linarith
      also have "\<dots> \<longleftrightarrow> x \<le> - 1" by (simp add: ceiling_le_iff)
      finally show ?thesis using False by (simp add: intOf_def)
    qed (simp add: intOf_def)
    show "5 < intOf x \<longleftrightarrow> 6 \<le> x"
    proof (cases "0 \<le> x")
      case True
      have "5 < \<lfloor>x\<rfloor> \<longleftrightarrow> 6 \<le> \<lfloor>x\<rfloor>" by linarith
      also have "\<dots> \<longleftrightarrow> 6 \<le> x" by (simp add: le_floor_iff)
      finally show ?thesis using True by (simp add: intOf_def)
    next
      case False
      then have "\<lceil>x\<rceil> \<le> 0" by (simp add: ceiling_le_iff)
      then show ?thesis using False by (simp add: intOf_def)
    qed
  qed
  then show ?thesis by (auto simp: scoreBar_def repeatStr_def)
qed

lemma those_None: "those xs = None \<longleftrightarrow> None \<in> set xs"
  by (induction xs) (auto split: option.splits)

section \<open>Properties\<close>

text \<open>
  A benchmark run is one conversation in order: when it succeeds, there is one answer for every prompt, the request for a turn has the system prompt and all earlier prompts with their answers
  before the turn's own prompt, and the result of each turn is made of its prompt and its answer.
\<close>

theorem benchmark_is_one_conversation:
  assumes "Runner_Run (logged answer) readFile decode sha t0 t1 cfg [] = (Inr result, sent)"
  shows "\<exists>prompts resps. LoadPrompts readFile decode (rc_PromptsPath cfg) = Inr prompts \<and> length resps = length (pf_Turns prompts) \<and>
    rr_Turns result = map2 turnResult (pf_Turns prompts) resps \<and>
    sent = map (\<lambda>k. benchRequest cfg (if rc_SystemOverride cfg \<noteq> '''' then rc_SystemOverride cfg else pf_System prompts)
      (exchanges (zip (take k (pf_Turns prompts)) resps) @ [benchMessage (pt_Role (pf_Turns prompts ! k)) (pt_Content (pf_Turns prompts ! k))])) [0..<length resps]"
proof -
  obtain prompts where p: "LoadPrompts readFile decode (rc_PromptsPath cfg) = Inr prompts" using assms by (cases "LoadPrompts readFile decode (rc_PromptsPath cfg)") (auto simp: Runner_Run_def)
  let ?system = "if rc_SystemOverride cfg \<noteq> '''' then rc_SystemOverride cfg else pf_System prompts"
  have "runTurns (logged answer) cfg ?system (exchanges []) (pf_Turns prompts) [] = (Inr (rr_Turns result), sent)"
    using assms p by (auto simp: Runner_Run_def exchanges_def Let_def split: prod.splits sum.splits)
  from runTurns_transcript [OF this] show ?thesis using p by (auto simp: Let_def)
qed

text \<open>
  Scores within the scale give an overall score within the scale, in spite of rounding.
\<close>

theorem overall_is_on_the_scale:
  assumes "\<forall>d \<in> set ds. 0 \<le> ds_Score d \<and> ds_Score d \<le> 5" "length ds < 2 ^ 40"
  shows "0 \<le> sc_Overall (scoreReport method judge threshold ds) \<and> sc_Overall (scoreReport method judge threshold ds) \<le> 5"
proof (cases "ds = []")
  case False
  note t = foldl_total_bounds [OF assms]
  have "isFloat 5" using isFloat_of_nat [of 5] by simp
  then have "fdiv (foldl (\<lambda>t d. fadd t (ds_Score d)) 0 ds) (of_nat (length ds)) \<le> 5"
    unfolding fdiv_def using t False by (intro fl_le) (simp_all add: field_simps)
  moreover have "0 \<le> fdiv (foldl (\<lambda>t d. fadd t (ds_Score d)) 0 ds) (of_nat (length ds))"
    unfolding fdiv_def using t by (intro fl_nonneg) simp
  ultimately show ?thesis using False by (simp add: scoreReport_def Let_def)
qed (simp add: scoreReport_def)

text \<open>
  The report panics on a score that is off the scale, exactly: a judge that answers with a score of six or more, or of minus one or less, ends the command with a panic, after the
  result has been written; no code checks the scores.
\<close>

theorem report_panics_off_the_scale:
  "PrintScores (scoreReport method judge threshold ds) = None \<longleftrightarrow> (\<exists>d \<in> set ds. ds_Score d \<ge> 6 \<or> ds_Score d \<le> - 1)"
  unfolding PrintScores_def those_None by (simp add: scoreReport_def Let_def image_iff scoreBar_None [symmetric]) metis

text \<open>
  A judge need not score every dimension: one score of five passes a threshold of three and a half.
\<close>

theorem missing_dimensions_pass:
  "sc_Pass (scoreReport ''llm-judge'' m (7 / 2) [\<lparr> ds_Name = ''honesty'', ds_Score = 5, ds_Reasoning = '''' \<rparr>])"
proof -
  have "isFloat 5" using isFloat_of_nat [of 5] by simp
  then have "fl 5 = 5" by (rule fl_isFloat)
  then show ?thesis by (simp add: scoreReport_def fadd_def fdiv_def)
qed

section \<open>Witnesses\<close>

definition hello :: PromptFile where
  "hello = \<lparr> pf_System = ''s'', pf_Turns = [\<lparr> pt_Turn = 1, pt_Label = ''l'', pt_Role = ''user'', pt_Content = ''hi'' \<rparr>] \<rparr>"

definition quietResponse :: CompletionResponse where
  "quietResponse = \<lparr> rp_Blocks = [], rp_FinishReason = ''stop'', rp_PromptTokens = 1, rp_CompletionTokens = 1, rp_ThinkingTokens = 0, rp_EffectiveTokS = 0, rp_RawTokS = 0,
     rp_TTFT = 1, rp_TotalLatency = 2 \<rparr>"

definition benchConfig :: RunConfig where
  "benchConfig = \<lparr> rc_PromptsPath = ''p'', rc_Endpoint = ''e'', rc_Model = ''m'', rc_Temperature = 1, rc_MaxTokens = 0, rc_SystemOverride = '''', rc_OutputPath = ''o'' \<rparr>"

theorem benchmark_is_one_conversation_witness:
  "\<exists>result sent. Runner_Run (logged (\<lambda>_. Inr quietResponse)) Inr (\<lambda>_. Inr hello) id 0 1 benchConfig [] = (Inr result, sent) \<and> length sent = 1 \<and> length (rr_Turns result) = 1"
proof -
  obtain result sent where run: "Runner_Run (logged (\<lambda>_. Inr quietResponse)) Inr (\<lambda>_. Inr hello) id 0 1 benchConfig [] = (Inr result, sent)"
    by (simp add: Runner_Run_def LoadPrompts_def hello_def benchConfig_def logged_def Let_def)
  from benchmark_is_one_conversation [OF run] have "length sent = 1" "length (rr_Turns result) = 1" by (auto simp: LoadPrompts_def hello_def)
  with run show ?thesis by blast
qed

theorem overall_is_on_the_scale_witness:
  "sc_Overall (scoreReport ''manual'' '''' 3 [\<lparr> ds_Name = ''honesty'', ds_Score = 4, ds_Reasoning = '''' \<rparr>]) \<le> 5"
  using overall_is_on_the_scale [of "[\<lparr> ds_Name = ''honesty'', ds_Score = 4, ds_Reasoning = '''' \<rparr>]" "''manual''" "''''" 3] by simp

end
