(* ===== verification/Peripheral.thy ===== *)
theory Peripheral
  imports Retrieval Engine GoStrings
begin

text \<open>
  Peripheral awareness, \<^verbatim>\<open>internal/awareness/peripheral.go\<close>, and its hook in \<^verbatim>\<open>internal/engine/hooks_phase3.go\<close>: the drift of a conversation from a running centroid, and the nudges that it gives.

  Rounding to \<open>float32\<close> is written out; \<open>math.Sqrt\<close>, the random number of the jitter, the embedding provider and the case table are arguments.
\<close>

section \<open>Vectors\<close>

text \<open>\<open>float32(x)\<close>: rounding to the 24 bits of a single precision number.\<close>

definition fl32 :: "rat \<Rightarrow> rat" where
  "fl32 x = (if x = 0 then 0 else let e = max (expo \<bar>x\<bar> - 23) (- 149) in of_int (rne (x / 2 powi e)) * 2 powi e)"

fun cosineSums :: "rat list \<Rightarrow> rat list \<Rightarrow> float64 \<times> float64 \<times> float64 \<Rightarrow> float64 \<times> float64 \<times> float64" where
  "cosineSums (a # xs) (b # ys) (dot, normA, normB) = cosineSums xs ys (fadd dot (fmul a b), fadd normA (fmul a a), fadd normB (fmul b b))"
| "cosineSums _ _ acc = acc"

definition cosineDistance :: "(float64 \<Rightarrow> float64) \<Rightarrow> rat list \<Rightarrow> rat list \<Rightarrow> float64" where
  "cosineDistance sqrt64 a b =
     (if length a \<noteq> length b \<or> a = [] then 0
      else (case cosineSums a b (0, 0, 0) of (dot, normA, normB) \<Rightarrow>
        if normA = 0 \<or> normB = 0 then 0 else fsub 1 (fdiv dot (fmul (sqrt64 normA) (sqrt64 normB)))))"

section \<open>State\<close>

record PeripheralAwareness =
  pa_centroid :: "rat list option"
  pa_centroidN :: int
  pa_lambda :: float64
  pa_nudgeCount :: int
  pa_lastNudgeTurn :: int
  pa_velocityThreshold :: float64
  pa_jitter :: float64
  pa_convergenceWindow :: ConvergenceWindow
  pa_lastNudgeSession :: int

record NudgeInjection =
  ni_Turn :: int
  ni_Velocity :: float64
  ni_Verb :: string
  ni_Args :: "string list"
  ni_Topic :: string

definition Command :: "NudgeInjection \<Rightarrow> string" where
  "Command n = (if ni_Args n = [] then ni_Verb n else ni_Verb n @ '' '' @ strJoin (ni_Args n) '' '')"

definition NewPeripheralAwareness :: "float64 \<Rightarrow> PeripheralAwareness" where
  "NewPeripheralAwareness threshold = \<lparr> pa_centroid = None, pa_centroidN = 0, pa_lambda = fl (85 / 100), pa_nudgeCount = 0, pa_lastNudgeTurn = - 8,
     pa_velocityThreshold = threshold, pa_jitter = fl (3 / 100), pa_convergenceWindow = NewConvergenceWindow 10, pa_lastNudgeSession = - 100 \<rparr>"

definition UpdateCentroid :: "rat list \<Rightarrow> PeripheralAwareness \<Rightarrow> PeripheralAwareness" where
  "UpdateCentroid emb pa =
     (if emb = [] then pa
      else (case pa_centroid pa of
              None \<Rightarrow> pa\<lparr>pa_centroid := Some emb, pa_centroidN := 1\<rparr>
            | Some c \<Rightarrow>
                if length c \<noteq> length emb then pa
                else pa\<lparr>pa_centroid := Some (map2 (\<lambda>ci ti. fl32 (fadd (fmul (pa_lambda pa) ci) (fmul (fsub 1 (pa_lambda pa)) ti))) c emb),
                        pa_centroidN := pa_centroidN pa + 1\<rparr>))"

definition SemanticVelocity :: "(float64 \<Rightarrow> float64) \<Rightarrow> rat list \<Rightarrow> PeripheralAwareness \<Rightarrow> float64" where
  "SemanticVelocity sqrt64 emb pa = (case pa_centroid pa of None \<Rightarrow> 0 | Some c \<Rightarrow> if length c \<noteq> length emb then 0 else cosineDistance sqrt64 c emb)"

section \<open>Topics\<close>

definition chooseTopic :: "string list \<Rightarrow> string" where
  "chooseTopic topics = (case find (\<lambda>t. t \<noteq> '''') topics of Some t \<Rightarrow> t | None \<Rightarrow> ''current focus'')"

definition stopwords :: "string set" where
  "stopwords = {''a'', ''an'', ''the'', ''and'', ''or'', ''but'', ''in'', ''on'', ''at'', ''to'', ''for'', ''of'', ''with'', ''by'', ''from'', ''as'', ''is'', ''was'',
     ''are'', ''were'', ''be'', ''been'', ''being'', ''have'', ''has'', ''had'', ''do'', ''does'', ''did'', ''will'', ''would'', ''could'', ''should'', ''may'', ''might'',
     ''must'', ''can'', ''it'', ''its'', ''this'', ''that'', ''i'', ''you'', ''he'', ''she'', ''we'', ''they'', ''my'', ''your'', ''his'', ''her'', ''our'', ''their'',
     ''not'', ''no'', ''so'', ''if'', ''then'', ''than'', ''what'', ''which'', ''who'', ''when'', ''where'', ''how''}"

definition trimmedPunctuation :: "char set" where
  "trimmedPunctuation = set ''.,!?;:()[]{}'' \<union> {CHR 0x22, CHR 0x27}"

definition topicWords :: "(rune \<Rightarrow> rune) \<Rightarrow> string \<Rightarrow> string list" where
  "topicWords lowerRune content =
     filter (\<lambda>w. \<not> (length w < 3 \<or> w \<in> stopwords))
       (map (\<lambda>word. ToLower lowerRune (dropWhile (\<lambda>c. c \<in> trimmedPunctuation) (trimRight trimmedPunctuation word))) (Fields content))"

text \<open>By falling count, words of the same count in the order of their bytes: a sort by bytes and then a stable sort by count.\<close>

definition extractTopics :: "(rune \<Rightarrow> rune) \<Rightarrow> string \<Rightarrow> nat \<Rightarrow> string list" where
  "extractTopics lowerRune content maxTopics =
     (let ws = topicWords lowerRune content
      in take maxTopics (sort_key (\<lambda>w. - int (count_list ws w)) (sortStrings (nub ws))))"

section \<open>Nudges\<close>

text \<open>\<open>draw\<close> is \<open>rand.Float64()\<close>.\<close>

definition CheckNudge :: "(float64 \<Rightarrow> float64) \<Rightarrow> (rune \<Rightarrow> rune) \<Rightarrow> float64 \<Rightarrow> int \<Rightarrow> rat list \<Rightarrow> string list \<Rightarrow> PeripheralAwareness \<Rightarrow> NudgeInjection option \<times> PeripheralAwareness" where
  "CheckNudge sqrt64 lowerRune draw turn emb topics pa =
     (if pa_nudgeCount pa \<ge> 4 then (None, pa)
      else if turn - pa_lastNudgeTurn pa < 8 then (None, pa)
      else (let velocity = SemanticVelocity sqrt64 emb pa;
                effectiveThreshold = fadd (pa_velocityThreshold pa) (fmul (fsub (fmul draw 2) 1) (pa_jitter pa)) in
        if velocity \<le> effectiveThreshold then (None, pa)
        else (let topic = chooseTopic topics;
                  topic = (if topic = ''current focus'' \<and> topics \<noteq> []
                           then (case extractTopics lowerRune (strJoin topics '' '') 1 of [] \<Rightarrow> topic | d # _ \<Rightarrow> d) else topic)
              in (Some \<lparr> ni_Turn = turn, ni_Velocity = velocity, ni_Verb = ''memory'', ni_Args = [''search'', topic], ni_Topic = topic \<rparr>,
                  pa\<lparr>pa_nudgeCount := pa_nudgeCount pa + 1, pa_lastNudgeTurn := turn\<rparr>))))"

definition CheckConvergenceNudge :: "int \<Rightarrow> ConvergenceMetrics \<Rightarrow> float64 \<Rightarrow> int \<Rightarrow> PeripheralAwareness \<Rightarrow> NudgeInjection option \<times> PeripheralAwareness" where
  "CheckConvergenceNudge session metrics ratioThreshold cooldown pa =
     (let pa = pa\<lparr>pa_convergenceWindow := Add metrics (pa_convergenceWindow pa)\<rparr> in
      if \<not> ShouldNudge ratioThreshold cooldown (pa_lastNudgeSession pa) session (pa_convergenceWindow pa) then (None, pa)
      else (Some \<lparr> ni_Turn = - 1, ni_Velocity = RollingRatio (pa_convergenceWindow pa), ni_Verb = ''memory'', ni_Args = [''search'', ''direct experience session log''],
              ni_Topic = ''grounded experience'' \<rparr>, pa\<lparr>pa_lastNudgeSession := session\<rparr>))"

section \<open>The hook\<close>

text \<open>\<open>provider\<close> embeds the text of a turn, in the state \<open>w\<close>; \<open>draw\<close> is drawn for the turn. The nudge is what the hook logs.\<close>

definition PeripheralAwareness_Run ::
  "(float64 \<Rightarrow> float64) \<Rightarrow> (rune \<Rightarrow> rune) \<Rightarrow> float64 \<Rightarrow> (string \<Rightarrow> error + rat list) option \<Rightarrow> TurnResult \<Rightarrow> PeripheralAwareness \<Rightarrow> NudgeInjection option \<times> PeripheralAwareness" where
  "PeripheralAwareness_Run sqrt64 lowerRune draw provider turn pa =
     (case provider of
        None \<Rightarrow> (None, pa)
      | Some Embed \<Rightarrow>
          (case Embed (tn_Content turn) of
             Inl e \<Rightarrow> (None, pa)
           | Inr vec \<Rightarrow>
               (case CheckNudge sqrt64 lowerRune draw (tn_TurnNumber turn) vec (tn_ToolCalls turn) pa of
                  (nudge, pa') \<Rightarrow> (nudge, UpdateCentroid vec pa'))))"

text \<open>A session: the nudges of a sequence of turns, each with its random number.\<close>

fun nudgesOf ::
  "(float64 \<Rightarrow> float64) \<Rightarrow> (rune \<Rightarrow> rune) \<Rightarrow> (string \<Rightarrow> error + rat list) option \<Rightarrow> (float64 \<times> TurnResult) list \<Rightarrow> PeripheralAwareness \<Rightarrow> NudgeInjection list" where
  "nudgesOf sqrt64 lowerRune provider [] pa = []"
| "nudgesOf sqrt64 lowerRune provider ((draw, turn) # turns) pa =
     (case PeripheralAwareness_Run sqrt64 lowerRune draw provider turn pa of
        (nudge, pa') \<Rightarrow> (case nudge of None \<Rightarrow> [] | Some n \<Rightarrow> [n]) @ nudgesOf sqrt64 lowerRune provider turns pa')"

section \<open>Lemmas\<close>

lemma UpdateCentroid_keeps [simp]:
  "pa_nudgeCount (UpdateCentroid emb pa) = pa_nudgeCount pa" "pa_lastNudgeTurn (UpdateCentroid emb pa) = pa_lastNudgeTurn pa"
  by (auto simp: UpdateCentroid_def split: option.split)

lemma run_cases:
  assumes "PeripheralAwareness_Run sqrt64 lr draw provider turn pa = (nudge, pa')"
  shows "(nudge = None \<and> pa_nudgeCount pa' = pa_nudgeCount pa \<and> pa_lastNudgeTurn pa' = pa_lastNudgeTurn pa) \<or>
    (\<exists>n. nudge = Some n \<and> ni_Turn n = tn_TurnNumber turn \<and> pa_nudgeCount pa < 4 \<and> ni_Turn n - pa_lastNudgeTurn pa \<ge> 8 \<and>
       pa_nudgeCount pa' = pa_nudgeCount pa + 1 \<and> pa_lastNudgeTurn pa' = ni_Turn n)"
  using assms by (auto simp: PeripheralAwareness_Run_def CheckNudge_def Let_def split: option.splits sum.splits prod.splits if_splits)

text \<open>The gaps between successive numbers.\<close>

fun spaced :: "int \<Rightarrow> int list \<Rightarrow> bool" where
  "spaced prev [] = True"
| "spaced prev (t # ts) = (t - prev \<ge> 8 \<and> spaced t ts)"

lemma nudges_bounded:
  "spaced (pa_lastNudgeTurn pa) (map ni_Turn (nudgesOf sqrt64 lr provider turns pa)) \<and>
   (nudgesOf sqrt64 lr provider turns pa \<noteq> [] \<longrightarrow> pa_nudgeCount pa + int (length (nudgesOf sqrt64 lr provider turns pa)) \<le> 4)"
proof (induction turns arbitrary: pa)
  case (Cons dt turns)
  obtain draw turn where dt: "dt = (draw, turn)" by fastforce
  obtain nudge pa' where run: "PeripheralAwareness_Run sqrt64 lr draw provider turn pa = (nudge, pa')" by fastforce
  from run_cases [OF run] Cons.IH [of pa'] show ?case
    by (auto simp: dt run)
qed simp

section \<open>Properties\<close>

text \<open>
  The nudges of a session are few and far between: whatever the conversation, the embeddings and the random numbers, a session has at most four, and successive ones are at least eight
  turns apart.
\<close>

theorem nudges_are_rare:
  "length (nudgesOf sqrt64 lr provider turns (NewPeripheralAwareness threshold)) \<le> 4 \<and>
   spaced (- 8) (map ni_Turn (nudgesOf sqrt64 lr provider turns (NewPeripheralAwareness threshold)))"
proof -
  have start: "pa_nudgeCount (NewPeripheralAwareness threshold) = 0" "pa_lastNudgeTurn (NewPeripheralAwareness threshold) = - 8"
    by (simp_all add: NewPeripheralAwareness_def)
  show ?thesis using nudges_bounded [of "NewPeripheralAwareness threshold" sqrt64 lr provider turns] unfolding start
    by (cases "nudgesOf sqrt64 lr provider turns (NewPeripheralAwareness threshold) = []") simp_all
qed

text \<open>
  The fall back to topics of the content never happens when it is meant to: when no tool was called by a name, the joined names have no words either.
\<close>

lemma Fields_blank: "list_all (\<lambda>c. c = CHR '' '') s \<Longrightarrow> fieldsLoop [] s = []"
  by (induction s) auto

lemma strJoin_blank: "\<forall>t \<in> set topics. t = '''' \<Longrightarrow> list_all (\<lambda>c. c = CHR '' '') (strJoin topics '' '')"
  by (induction topics) (auto simp: strJoin_Cons)

theorem blank_topics_stay_generic:
  assumes "\<forall>t \<in> set topics. t = ''''" "CheckNudge sqrt64 lr draw turn emb topics pa = (Some n, pa')"
  shows "ni_Topic n = ''current focus''"
proof -
  have "find (\<lambda>t. t \<noteq> '''') topics = None" using assms(1) by (auto simp: find_None_iff)
  then have "chooseTopic topics = ''current focus''" by (simp add: chooseTopic_def)
  moreover have "extractTopics lr (strJoin topics '' '') 1 = []"
    using Fields_blank [OF strJoin_blank [OF assms(1)]] by (simp add: extractTopics_def topicWords_def Fields_def sortStrings_def)
  ultimately show ?thesis using assms(2) by (auto simp: CheckNudge_def Let_def split: if_splits)
qed

end
