(* ===== verification/Phase1.thy ===== *)
theory Phase1
  imports SessionRunner
begin

text \<open>
  The compatibility mode behind \<open>PHASE1_MODE\<close>: \<^verbatim>\<open>internal/engine/loop.go\<close> and \<^verbatim>\<open>internal/app/phase1.go\<close>, one request to the model in an assembled context.

  The assembler is the one of the theory Assembly; the client of the model and its state are arguments.
\<close>

section \<open>The single turn\<close>

record LoopConfig =
  lc_MaxTurns :: int
  lc_TokenBudget :: int
  lc_DryRun :: bool
  lc_Rehearsal :: bool

type_synonym 'w llmClient = "CompletionRequest \<Rightarrow> 'w \<Rightarrow> (error + CompletionResponse) \<times> 'w"

record 'w Loop =
  lp_client :: "'w llmClient"
  lp_hooks :: "'w HookPipeline"
  lp_cfg :: LoopConfig

definition NewLoop :: "'w llmClient \<Rightarrow> 'w HookPipeline \<Rightarrow> LoopConfig \<Rightarrow> 'w Loop" where
  "NewLoop client hooks cfg = \<lparr> lp_client = client, lp_hooks = hooks, lp_cfg = (if lc_MaxTurns cfg \<le> 0 then cfg\<lparr>lc_MaxTurns := 50\<rparr> else cfg) \<rparr>"

record Turn =
  tu_Index :: int
  tu_Request :: CompletionRequest
  tu_Response :: CompletionResponse

definition RunOneTurn :: "'w Loop \<Rightarrow> CompletionRequest \<Rightarrow> 'w \<Rightarrow> (error + Turn) \<times> 'w" where
  "RunOneTurn l req w =
     (case lp_client l req w of
        (Inl e, w') \<Rightarrow> (Inl (''LLM completion: '' @ e), w')
      | (Inr resp, w') \<Rightarrow> (Inr \<lparr> tu_Index = 0, tu_Request = req, tu_Response = resp \<rparr>, w'))"

section \<open>The runner\<close>

definition MinimalAssembleConfig :: assembleConfig where
  "MinimalAssembleConfig = \<lparr> ac_store = None, ac_edges = False, ac_witness = \<lparr> wc_HasAnchors = False, wc_HasAssemblyStore = False, wc_SkipWitnessCheck = False \<rparr>,
     ac_provider = None, ac_grounding = \<lparr> gc_Timezone = '''', gc_Location = '''', gc_WeatherAPIKey = '''', gc_WeatherLocation = '''' \<rparr>,
     ac_bridge = \<lparr> bc_AbstainRate = 0, bc_Model = '''' \<rparr>, ac_llmFn = None, ac_contradictionProbability = 0, ac_InbandNotes = [], ac_Plan = None, ac_SessionID = '''' \<rparr>"

definition phase1Request :: "string \<Rightarrow> CompletionRequest" where
  "phase1Request systemPrompt = \<lparr> rq_System = systemPrompt,
     rq_Messages = [zeroMessage\<lparr>ms_Role := ''user'', ms_Content := ''Hello. This is a Phase 1 connectivity test.''\<rparr>],
     rq_Tools = [], rq_MaxTokens = 256, rq_Temperature = None \<rparr>"

definition phase1Turn :: "Session \<Rightarrow> CompletionResponse \<Rightarrow> TurnResult" where
  "phase1Turn sess resp = \<lparr> tn_SessionID = ss_ID sess, tn_TurnNumber = ss_turnCount sess, tn_Content = TextContent resp, tn_ToolCalls = [], tn_ToolResults = [],
     tn_PromptTokens = rp_PromptTokens resp, tn_CompletionTokens = rp_CompletionTokens resp, tn_ThinkingTokens = rp_ThinkingTokens resp, tn_TTFT = rp_TTFT resp,
     tn_TotalDuration = rp_TotalLatency resp \<rparr>"

text \<open>
  The result is \<open>None\<close> for a panic of the assembler, else the error; with the identity tables and the client's state after it. The session object, with the time and the random part of its name,
  and the token budget are local to the call: the end of the session is never an error. Empty hooks run.
\<close>

definition Phase1_RunSession ::
  "(Phase list \<Rightarrow> Phase list) \<Rightarrow> asmEnv \<Rightarrow> ContextAssembler \<Rightarrow> 'w llmClient \<Rightarrow> string \<Rightarrow> string \<Rightarrow> int \<Rightarrow> SessionTrigger \<Rightarrow> identityDB \<times> 'w \<Rightarrow> error option option \<times> identityDB \<times> 'w" where
  "Phase1_RunSession srt env assembler client agentName hex tokenBudget trigger s =
     (case s of (idb, w) \<Rightarrow>
        (case Assemble srt env assembler (MinimalAssembleConfig\<lparr>ac_InbandNotes := tg_InbandNotes trigger\<rparr>) idb of
           (None, idb') \<Rightarrow> (None, idb', w)
         | (Some (Inl e), idb') \<Rightarrow> (Some (Some (''assembling context: '' @ e)), idb', w)
         | (Some (Inr assembled), idb') \<Rightarrow>
             (let sess = NewSession hex (ev_now env) agentName (tg_WakeReason trigger); hooks = [];
                  loop = NewLoop client hooks \<lparr> lc_MaxTurns = 1, lc_TokenBudget = tokenBudget, lc_DryRun = False, lc_Rehearsal = False \<rparr> in
              case RunOneTurn loop (phase1Request (ax_SystemPrompt assembled)) w of
                (Inl e, w') \<Rightarrow> (Some (Some (''running turn: '' @ e)), idb', w')
              | (Inr turn, w') \<Rightarrow>
                  (let resp = tu_Response turn; sess = RecordTurn (rp_PromptTokens resp) (rp_CompletionTokens resp) sess in
                   case RunAll hooks (phase1Turn sess resp) w' of
                     (Some e, w'') \<Rightarrow> (Some (Some (''post-turn hooks: '' @ e)), idb', w'')
                   | (None, w'') \<Rightarrow> (Some (map_option (\<lambda>e. ''session end: '' @ e) (fst (End (ev_now env) sess))), idb', w'')))))"

section \<open>Properties\<close>

text \<open>
  A session of this mode is at most one request, which does not depend on what woke the agent: it ends without an error exactly when the context is assembled and the model answers.
\<close>

theorem phase1_is_one_request:
  assumes "Assemble srt env assembler (MinimalAssembleConfig\<lparr>ac_InbandNotes := tg_InbandNotes trigger\<rparr>) idb = (Some (Inr assembled), idb')"
    and "client (phase1Request (ax_SystemPrompt assembled)) w = (out, w')"
  shows "Phase1_RunSession srt env assembler client agentName hex tokenBudget trigger (idb, w) =
    (Some (case out of Inl e \<Rightarrow> Some (''running turn: LLM completion: '' @ e) | Inr resp \<Rightarrow> None), idb', w')"
  using assms by (simp add: Phase1_RunSession_def RunOneTurn_def NewLoop_def End_def Let_def split: sum.split)

end
